(* ===== verification/Prelude.thy ===== *)
theory Prelude
  imports Main "HOL-Library.Word"
begin

text \<open>
  The shared vocabulary of the development: result values, string positions and the
  lemmas on lists, options and words that several components use.

  \<^item> \<open>failure\<close> separates the four ways a C++ call can go wrong: an error value of a
    \<^verbatim>\<open>util::result\<close>, a thrown exception, undefined behaviour, and a loop that does not end.
    The last two are values of the model, so that a theorem that an operation succeeds also
    says that it is free of them.
  \<^item> \<open>rbind\<close> is the \<^verbatim>\<open>ASSIGN_OR_RETURN\<close> / \<^verbatim>\<open>RETURN_IF_ERROR\<close> macro pair
    (util/result_macros.hpp), \<open>sbind\<close> the same for operations that also change a state.
  \<^item> a position returned by a \<^verbatim>\<open>std::string_view\<close> search is a \<open>nat option\<close>, where
    \<open>None\<close> is \<^verbatim>\<open>std::string::npos\<close>, the greatest \<^verbatim>\<open>std::size_t\<close>.
\<close>

unbundle bit_operations_syntax

type_synonym u8 = "8 word"
type_synonym u16 = "16 word"
type_synonym u32 = "32 word"
type_synonym u64 = "64 word"

section \<open>Results\<close>

datatype cxx_exception = Out_of_range | Bad_lexical_cast | Length_error | Bad_result_access | Bad_variant_access | System_error

datatype 'e failure = Error 'e | Exception cxx_exception | Undefined | Diverges

type_synonym ('e, 'a) res = "'e failure + 'a"

definition rbind :: "'e + 'a \<Rightarrow> ('a \<Rightarrow> 'e + 'b) \<Rightarrow> 'e + 'b" where
  "rbind m f = (case m of Inl e \<Rightarrow> Inl e | Inr x \<Rightarrow> f x)"

lemma rbind_simps [simp]:
  "rbind (Inl e) f = Inl e"
  "rbind (Inr x) f = f x"
  by (simp_all add: rbind_def)

lemma rbind_eq_Inr: "rbind m f = Inr y \<longleftrightarrow> (\<exists>x. m = Inr x \<and> f x = Inr y)"
  by (cases m) auto

lemma rbind_assoc: "rbind (rbind m f) g = rbind m (\<lambda>x. rbind (f x) g)"
  by (cases m) auto

lemma rbind_split:
  "P (rbind m f) \<longleftrightarrow> (\<forall>e. m = Inl e \<longrightarrow> P (Inl e)) \<and> (\<forall>x. m = Inr x \<longrightarrow> P (f x))"
  by (cases m) auto

text \<open>Operations on a state: the state survives an error, as it does in the code.\<close>

type_synonym ('s, 'e, 'a) sres = "'s \<Rightarrow> ('e + 'a) \<times> 's"

definition sbind :: "('s, 'e, 'a) sres \<Rightarrow> ('a \<Rightarrow> ('s, 'e, 'b) sres) \<Rightarrow> ('s, 'e, 'b) sres" where
  "sbind m f s = (case m s of (Inl e, s') \<Rightarrow> (Inl e, s') | (Inr x, s') \<Rightarrow> f x s')"

definition sreturn :: "'a \<Rightarrow> ('s, 'e, 'a) sres" where
  "sreturn x s = (Inr x, s)"

lemma sbind_sreturn [simp]: "sbind (sreturn x) f = f x"
  by (simp add: sbind_def sreturn_def fun_eq_iff)

lemma sbind_Inl: "m s = (Inl e, s') \<Longrightarrow> sbind m f s = (Inl e, s')"
  by (simp add: sbind_def)

lemma sbind_Inr: "m s = (Inr x, s') \<Longrightarrow> sbind m f s = f x s'"
  by (simp add: sbind_def)

section \<open>Positions: \<open>None\<close> is npos\<close>

type_synonym pos = "nat option"

fun npos_less :: "pos \<Rightarrow> pos \<Rightarrow> bool" where
  "npos_less (Some a) (Some b) = (a < b)"
| "npos_less (Some a) None = True"
| "npos_less None b = False"

definition npos_min :: "pos \<Rightarrow> pos \<Rightarrow> pos" where
  "npos_min a b = (if npos_less b a then b else a)"

lemma npos_less_irrefl [simp]: "\<not> npos_less a a"
  by (cases a) auto

lemma npos_less_None2 [simp]: "npos_less a None \<longleftrightarrow> a \<noteq> None"
  by (cases a) auto

lemma npos_less_Some2 [simp]: "npos_less a (Some b) \<longleftrightarrow> (\<exists>a'. a = Some a' \<and> a' < b)"
  by (cases a) auto

lemma npos_min_simps [simp]:
  "npos_min None b = b"
  "npos_min a None = a"
  "npos_min (Some x) (Some y) = Some (min x y)"
  by (cases b; simp add: npos_min_def) (cases a; simp add: npos_min_def)+

end
