(* ===== verification/Errors.thy ===== *)
theory Errors
  imports Prelude
begin

text \<open>
  Errors of the proxy: error/error_code.hpp, error/error_state.{hpp,cpp} and error/error.hpp.

  \<open>errc\<close> is the enumeration the X-macros generate, \<open>errc_code\<close> its integer value
  (\<^verbatim>\<open>num << (category * 5)\<close>), \<open>is_category_error\<close> the generated
  \<^verbatim>\<open>is_http_error\<close>, \<^verbatim>\<open>is_tls_error\<close>, ... checks.  \<open>error_state\<close> is the error value
  of every \<^verbatim>\<open>result\<close> of the proxy.  Boost's error codes are library values: the codes the
  proxy compares with are constructors of \<open>boost_error\<close>, their text is a parameter.
\<close>

section \<open>Error codes\<close>

datatype error_category = Cat_proxy | Cat_http | Cat_tls | Cat_websocket

fun category_number :: "error_category \<Rightarrow> nat" where
  "category_number Cat_proxy = 0"
| "category_number Cat_http = 1"
| "category_number Cat_tls = 2"
| "category_number Cat_websocket = 3"

fun category_name :: "error_category \<Rightarrow> string" where
  "category_name Cat_proxy = ''proxy''"
| "category_name Cat_http = ''http''"
| "category_name Cat_tls = ''tls''"
| "category_name Cat_websocket = ''websocket''"

datatype (plugins only: code) errc =
  success
| invalid_option
| ipv6_error
| invalid_operation
| acceptor_error
| parser_error
| server_not_connected
| asio_error
| self_connect
| invalid_method
| invalid_status
| invalid_version
| invalid_target_host
| invalid_target_port
| invalid_request_line
| invalid_header
| header_not_found
| invalid_body_size
| body_size_too_large
| invalid_chunked_body
| no_response
| invalid_response_line
| malformed_response_body
| invalid_client_hello
| read_access_violation
| tls_service_error
| invalid_ssl_method
| invalid_cipher_suite
| invalid_trusted_certificates_file
| invalid_cipher_suite_list
| invalid_alpn_protos_list
| ssl_context_error
| ssl_server_store_creation_error
| certificate_creation_error
| certificate_issuer_not_found
| certificate_subject_not_found
| certificate_name_entry_error
| alpn_not_found
| upstream_handshake_failed
| downstream_handshake_failed
| upstream_connect_error
| serial_number_generation_failed
| invalid_opcode
| extension_param_not_found
| invalid_extension_string
| invalid_frame
| unexpected_opcode
| serialization_error
| zlib_error

primrec errc_category :: "errc \<Rightarrow> error_category option" where
  "errc_category success = None"
| "errc_category invalid_option = Some Cat_proxy"
| "errc_category ipv6_error = Some Cat_proxy"
| "errc_category invalid_operation = Some Cat_proxy"
| "errc_category acceptor_error = Some Cat_proxy"
| "errc_category parser_error = Some Cat_proxy"
| "errc_category server_not_connected = Some Cat_proxy"
| "errc_category asio_error = Some Cat_proxy"
| "errc_category self_connect = Some Cat_proxy"
| "errc_category invalid_method = Some Cat_http"
| "errc_category invalid_status = Some Cat_http"
| "errc_category invalid_version = Some Cat_http"
| "errc_category invalid_target_host = Some Cat_http"
| "errc_category invalid_target_port = Some Cat_http"
| "errc_category invalid_request_line = Some Cat_http"
| "errc_category invalid_header = Some Cat_http"
| "errc_category header_not_found = Some Cat_http"
| "errc_category invalid_body_size = Some Cat_http"
| "errc_category body_size_too_large = Some Cat_http"
| "errc_category invalid_chunked_body = Some Cat_http"
| "errc_category no_response = Some Cat_http"
| "errc_category invalid_response_line = Some Cat_http"
| "errc_category malformed_response_body = Some Cat_http"
| "errc_category invalid_client_hello = Some Cat_tls"
| "errc_category read_access_violation = Some Cat_tls"
| "errc_category tls_service_error = Some Cat_tls"
| "errc_category invalid_ssl_method = Some Cat_tls"
| "errc_category invalid_cipher_suite = Some Cat_tls"
| "errc_category invalid_trusted_certificates_file = Some Cat_tls"
| "errc_category invalid_cipher_suite_list = Some Cat_tls"
| "errc_category invalid_alpn_protos_list = Some Cat_tls"
| "errc_category ssl_context_error = Some Cat_tls"
| "errc_category ssl_server_store_creation_error = Some Cat_tls"
| "errc_category certificate_creation_error = Some Cat_tls"
| "errc_category certificate_issuer_not_found = Some Cat_tls"
| "errc_category certificate_subject_not_found = Some Cat_tls"
| "errc_category certificate_name_entry_error = Some Cat_tls"
| "errc_category alpn_not_found = Some Cat_tls"
| "errc_category upstream_handshake_failed = Some Cat_tls"
| "errc_category downstream_handshake_failed = Some Cat_tls"
| "errc_category upstream_connect_error = Some Cat_tls"
| "errc_category serial_number_generation_failed = Some Cat_tls"
| "errc_category invalid_opcode = Some Cat_websocket"
| "errc_category extension_param_not_found = Some Cat_websocket"
| "errc_category invalid_extension_string = Some Cat_websocket"
| "errc_category invalid_frame = Some Cat_websocket"
| "errc_category unexpected_opcode = Some Cat_websocket"
| "errc_category serialization_error = Some Cat_websocket"
| "errc_category zlib_error = Some Cat_websocket"

primrec errc_number :: "errc \<Rightarrow> nat" where
  "errc_number success = 0"
| "errc_number invalid_option = 1"
| "errc_number ipv6_error = 2"
| "errc_number invalid_operation = 3"
| "errc_number acceptor_error = 4"
| "errc_number parser_error = 5"
| "errc_number server_not_connected = 6"
| "errc_number asio_error = 7"
| "errc_number self_connect = 8"
| "errc_number invalid_method = 1"
| "errc_number invalid_status = 2"
| "errc_number invalid_version = 3"
| "errc_number invalid_target_host = 4"
| "errc_number invalid_target_port = 5"
| "errc_number invalid_request_line = 6"
| "errc_number invalid_header = 7"
| "errc_number header_not_found = 8"
| "errc_number invalid_body_size = 9"
| "errc_number body_size_too_large = 10"
| "errc_number invalid_chunked_body = 11"
| "errc_number no_response = 12"
| "errc_number invalid_response_line = 13"
| "errc_number malformed_response_body = 14"
| "errc_number invalid_client_hello = 1"
| "errc_number read_access_violation = 2"
| "errc_number tls_service_error = 3"
| "errc_number invalid_ssl_method = 4"
| "errc_number invalid_cipher_suite = 5"
| "errc_number invalid_trusted_certificates_file = 6"
| "errc_number invalid_cipher_suite_list = 7"
| "errc_number invalid_alpn_protos_list = 8"
| "errc_number ssl_context_error = 9"
| "errc_number ssl_server_store_creation_error = 10"
| "errc_number certificate_creation_error = 11"
| "errc_number certificate_issuer_not_found = 12"
| "errc_number certificate_subject_not_found = 13"
| "errc_number certificate_name_entry_error = 14"
| "errc_number alpn_not_found = 15"
| "errc_number upstream_handshake_failed = 16"
| "errc_number downstream_handshake_failed = 17"
| "errc_number upstream_connect_error = 18"
| "errc_number serial_number_generation_failed = 19"
| "errc_number invalid_opcode = 1"
| "errc_number extension_param_not_found = 2"
| "errc_number invalid_extension_string = 3"
| "errc_number invalid_frame = 4"
| "errc_number unexpected_opcode = 5"
| "errc_number serialization_error = 6"
| "errc_number zlib_error = 7"

primrec errc_name :: "errc \<Rightarrow> string" where
  "errc_name success = ''success''"
| "errc_name invalid_option = ''invalid_option''"
| "errc_name ipv6_error = ''ipv6_error''"
| "errc_name invalid_operation = ''invalid_operation''"
| "errc_name acceptor_error = ''acceptor_error''"
| "errc_name parser_error = ''parser_error''"
| "errc_name server_not_connected = ''server_not_connected''"
| "errc_name asio_error = ''asio_error''"
| "errc_name self_connect = ''self_connect''"
| "errc_name invalid_method = ''invalid_method''"
| "errc_name invalid_status = ''invalid_status''"
| "errc_name invalid_version = ''invalid_version''"
| "errc_name invalid_target_host = ''invalid_target_host''"
| "errc_name invalid_target_port = ''invalid_target_port''"
| "errc_name invalid_request_line = ''invalid_request_line''"
| "errc_name invalid_header = ''invalid_header''"
| "errc_name header_not_found = ''header_not_found''"
| "errc_name invalid_body_size = ''invalid_body_size''"
| "errc_name body_size_too_large = ''body_size_too_large''"
| "errc_name invalid_chunked_body = ''invalid_chunked_body''"
| "errc_name no_response = ''no_response''"
| "errc_name invalid_response_line = ''invalid_response_line''"
| "errc_name malformed_response_body = ''malformed_response_body''"
| "errc_name invalid_client_hello = ''invalid_client_hello''"
| "errc_name read_access_violation = ''read_access_violation''"
| "errc_name tls_service_error = ''tls_service_error''"
| "errc_name invalid_ssl_method = ''invalid_ssl_method''"
| "errc_name invalid_cipher_suite = ''invalid_cipher_suite''"
| "errc_name invalid_trusted_certificates_file = ''invalid_trusted_certificates_file''"
| "errc_name invalid_cipher_suite_list = ''invalid_cipher_suite_list''"
| "errc_name invalid_alpn_protos_list = ''invalid_alpn_protos_list''"
| "errc_name ssl_context_error = ''ssl_context_error''"
| "errc_name ssl_server_store_creation_error = ''ssl_server_store_creation_error''"
| "errc_name certificate_creation_error = ''certificate_creation_error''"
| "errc_name certificate_issuer_not_found = ''certificate_issuer_not_found''"
| "errc_name certificate_subject_not_found = ''certificate_subject_not_found''"
| "errc_name certificate_name_entry_error = ''certificate_name_entry_error''"
| "errc_name alpn_not_found = ''alpn_not_found''"
| "errc_name upstream_handshake_failed = ''upstream_handshake_failed''"
| "errc_name downstream_handshake_failed = ''downstream_handshake_failed''"
| "errc_name upstream_connect_error = ''upstream_connect_error''"
| "errc_name serial_number_generation_failed = ''serial_number_generation_failed''"
| "errc_name invalid_opcode = ''invalid_opcode''"
| "errc_name extension_param_not_found = ''extension_param_not_found''"
| "errc_name invalid_extension_string = ''invalid_extension_string''"
| "errc_name invalid_frame = ''invalid_frame''"
| "errc_name unexpected_opcode = ''unexpected_opcode''"
| "errc_name serialization_error = ''serialization_error''"
| "errc_name zlib_error = ''zlib_error''"

primrec errc_message :: "errc \<Rightarrow> string" where
  "errc_message success = ''Success''"
| "errc_message invalid_option = ''Invalid option''"
| "errc_message ipv6_error = ''IPv6 error''"
| "errc_message invalid_operation = ''Invalid operation''"
| "errc_message acceptor_error = ''Acceptor error''"
| "errc_message parser_error = ''Parser error''"
| "errc_message server_not_connected = ''Server is not connected''"
| "errc_message asio_error = ''ASIO error''"
| "errc_message self_connect = ''Proxy cannot connect to itself''"
| "errc_message invalid_method = ''Invalid HTTP method''"
| "errc_message invalid_status = ''Invalid HTTP status''"
| "errc_message invalid_version = ''Invalid HTTP version''"
| "errc_message invalid_target_host = ''Invalid target host''"
| "errc_message invalid_target_port = ''Invalid target port''"
| "errc_message invalid_request_line = ''Invalid HTTP request line''"
| "errc_message invalid_header = ''Invalid HTTP header''"
| "errc_message header_not_found = ''Header was not found''"
| "errc_message invalid_body_size = ''Invalid HTTP body size''"
| "errc_message body_size_too_large = ''Given body size exceeds limit''"
| "errc_message invalid_chunked_body = ''Malformed chunked-encoding body''"
| "errc_message no_response = ''HTTP exchange has no response''"
| "errc_message invalid_response_line = ''Invalid HTTP response line''"
| "errc_message malformed_response_body = ''Malformed response body''"
| "errc_message invalid_client_hello = ''Invalid Client Hello message''"
| "errc_message read_access_violation = ''Read access violation (not enough data)''"
| "errc_message tls_service_error = ''Exception in TLS service''"
| "errc_message invalid_ssl_method = ''Invalid SSL version''"
| "errc_message invalid_cipher_suite = ''Invalid cipher suite''"
| "errc_message invalid_trusted_certificates_file = ''Invalid verify file''"
| "errc_message invalid_cipher_suite_list = ''Invalid cipher suite list''"
| "errc_message invalid_alpn_protos_list = ''Invalid ALPN protocol list''"
| "errc_message ssl_context_error = ''Failed to create and configure SSL context''"
| "errc_message ssl_server_store_creation_error = ''An error occurred when creating the SSL server's certificate store''"
| "errc_message certificate_creation_error = ''An error occurred when generating an SSL certificate''"
| "errc_message certificate_issuer_not_found = ''Certificate issuer could not be found''"
| "errc_message certificate_subject_not_found = ''Certificate subject could not be found''"
| "errc_message certificate_name_entry_error = ''Error accessing certificate name entry''"
| "errc_message alpn_not_found = ''Negotiated ALPN could not be found''"
| "errc_message upstream_handshake_failed = ''Upstream handshake failed''"
| "errc_message downstream_handshake_failed = ''Downstream handshake failed''"
| "errc_message upstream_connect_error = ''Could not connect to upstream server''"
| "errc_message serial_number_generation_failed = ''Failed to generate next serial number for SSL certificate generation''"
| "errc_message invalid_opcode = ''Invalid WebSocket opcode''"
| "errc_message extension_param_not_found = ''Extension parameter was not found''"
| "errc_message invalid_extension_string = ''Invalid extension string''"
| "errc_message invalid_frame = ''Invalid frame''"
| "errc_message unexpected_opcode = ''Unexpected opcode''"
| "errc_message serialization_error = ''Frame serialization error''"
| "errc_message zlib_error = ''zlib error''"

definition category_bitsize :: nat where
  "category_bitsize = 5"

definition errc_code :: "errc \<Rightarrow> u32" where
  "errc_code e = (case errc_category e of
     None \<Rightarrow> 0
   | Some c \<Rightarrow> push_bit (category_number c * category_bitsize) (of_nat (errc_number e)))"

definition category_mask :: "error_category \<Rightarrow> u32" where
  "category_mask c = push_bit (category_number c * category_bitsize) (2 ^ category_bitsize - 1)"

definition is_category_error :: "error_category \<Rightarrow> u32 \<Rightarrow> bool" where
  "is_category_error c code \<longleftrightarrow> code AND category_mask c \<noteq> 0"

text \<open>The \<^verbatim>\<open>static_assert\<close> of the header: every number fits its category.\<close>

lemma errc_number_bound: "errc_number e < 2 ^ category_bitsize - 1"
  by (cases e) (simp_all add: category_bitsize_def)

lemma category_of_code:
  "is_category_error c (errc_code e) \<longleftrightarrow> errc_category e = Some c"
  by (cases e; cases c)
    (simp_all add: is_category_error_def errc_code_def category_mask_def category_bitsize_def)

section \<open>The error state\<close>

datatype boost_error = Boost_success | Boost_eof | Boost_operation_aborted | Boost_other nat

record error_state =
  es_message :: string
  es_boost :: boost_error
  es_proxy :: errc

definition error_state_init :: error_state where
  "error_state_init = \<lparr>es_message = [], es_boost = Boost_success, es_proxy = success\<rparr>"

definition has_boost_error :: "error_state \<Rightarrow> bool" where
  "has_boost_error s \<longleftrightarrow> es_boost s \<noteq> Boost_success"

definition has_proxy_error :: "error_state \<Rightarrow> bool" where
  "has_proxy_error s \<longleftrightarrow> es_proxy s \<noteq> success"

definition has_error :: "error_state \<Rightarrow> bool" where
  "has_error s \<longleftrightarrow> has_boost_error s \<or> has_proxy_error s"

definition has_message :: "error_state \<Rightarrow> bool" where
  "has_message s \<longleftrightarrow> es_message s \<noteq> []"

definition set_boost_error :: "boost_error \<Rightarrow> error_state \<Rightarrow> error_state" where
  "set_boost_error b s = s\<lparr>es_boost := b\<rparr>"

definition set_proxy_error :: "errc \<Rightarrow> error_state \<Rightarrow> error_state" where
  "set_proxy_error e s = s\<lparr>es_proxy := e\<rparr>"

definition set_message :: "string \<Rightarrow> error_state \<Rightarrow> error_state" where
  "set_message m s = s\<lparr>es_message := m\<rparr>"

definition error_clear :: "error_state \<Rightarrow> error_state" where
  "error_clear s = s\<lparr>es_proxy := success, es_boost := Boost_success, es_message := []\<rparr>"

definition error_message :: "(boost_error \<Rightarrow> string) \<Rightarrow> error_state \<Rightarrow> string" where
  "error_message boost_str s =
     (if has_message s then es_message s
      else errc_message (es_proxy s) @
        (if has_boost_error s then '' (boost: '' @ boost_str (es_boost s) @ '')'' else []))"

definition get_message_or_proxy :: "error_state \<Rightarrow> string" where
  "get_message_or_proxy s = (if es_message s = [] then errc_message (es_proxy s) else es_message s)"

definition get_message_or_boost :: "(boost_error \<Rightarrow> string) \<Rightarrow> error_state \<Rightarrow> string" where
  "get_message_or_boost boost_msg s =
     (if es_message s = [] then boost_msg (es_boost s) else es_message s)"

definition boost_error_of :: "boost_error \<Rightarrow> error_state" where
  "boost_error_of b = set_boost_error b error_state_init"

definition proxy_error_of :: "errc \<Rightarrow> string \<Rightarrow> error_state" where
  "proxy_error_of e m = set_message m (set_proxy_error e error_state_init)"

text \<open>
  The functions \<^verbatim>\<open>error::http::invalid_header(message)\<close> etc. that error.hpp generates:
  \<open>raise_with\<close> with an explicit message, \<open>raise\<close> with the default one.
\<close>

definition raise_with :: "errc \<Rightarrow> string \<Rightarrow> error_state" where
  "raise_with e m = proxy_error_of e
     ((case errc_category e of None \<Rightarrow> [] | Some c \<Rightarrow> category_name c) @ ''::'' @ errc_name e @ '': '' @ m)"

definition raise :: "errc \<Rightarrow> error_state" where
  "raise e = raise_with e (errc_message e)"

type_synonym 'a result = "(error_state, 'a) res"

abbreviation err_with :: "errc \<Rightarrow> string \<Rightarrow> 'a result" where
  "err_with e m \<equiv> Inl (Error (raise_with e m))"

abbreviation err :: "errc \<Rightarrow> 'a result" where
  "err e \<equiv> Inl (Error (raise e))"

lemma es_proxy_raise [simp]: "es_proxy (raise_with e m) = e" "es_proxy (raise e) = e"
  by (simp_all add: raise_def raise_with_def proxy_error_of_def set_message_def set_proxy_error_def)

lemma es_boost_raise [simp]: "es_boost (raise_with e m) = Boost_success" "es_boost (raise e) = Boost_success"
  by (simp_all add: raise_def raise_with_def proxy_error_of_def set_message_def set_proxy_error_def
    error_state_init_def)

end
