(* ===== verification/Strings.thy ===== *)
theory Strings
  imports Errors "HOL-Library.Char_ord"
begin

text \<open>
  util/string.{hpp,cpp} and the part of \<^verbatim>\<open>std::string_view\<close> the proxy uses.

  The string view operations are the standard library's: \<open>sv_find\<close> is \<^verbatim>\<open>find(char, pos)\<close>,
  \<open>sv_substr\<close> throws \<^verbatim>\<open>std::out_of_range\<close> when the start is behind the end, \<open>sv_at\<close> is
  \<^verbatim>\<open>operator[]\<close>, whose out-of-range read is undefined behaviour.  Characters are bytes;
  \<^verbatim>\<open>std::tolower\<close> is that of the classic locale, which maps the ASCII letters only.
\<close>

section \<open>String views\<close>

fun find_index :: "('a \<Rightarrow> bool) \<Rightarrow> 'a list \<Rightarrow> pos" where
  "find_index P [] = None"
| "find_index P (x # xs) = (if P x then Some 0 else map_option Suc (find_index P xs))"

definition find_index_from :: "('a \<Rightarrow> bool) \<Rightarrow> 'a list \<Rightarrow> nat \<Rightarrow> pos" where
  "find_index_from P s i = map_option (\<lambda>k. i + k) (find_index P (drop i s))"

definition sv_find :: "char \<Rightarrow> string \<Rightarrow> nat \<Rightarrow> pos" where
  "sv_find c s i = find_index_from (\<lambda>x. x = c) s i"

definition sv_find_first_of :: "char set \<Rightarrow> string \<Rightarrow> nat \<Rightarrow> pos" where
  "sv_find_first_of cs s i = find_index_from (\<lambda>x. x \<in> cs) s i"

definition sv_find_first_not_of :: "char set \<Rightarrow> string \<Rightarrow> nat \<Rightarrow> pos" where
  "sv_find_first_not_of cs s i = find_index_from (\<lambda>x. x \<notin> cs) s i"

text \<open>\<open>sv_find_last_not_of cs s n\<close> searches the first \<open>n\<close> characters from their end.\<close>

definition sv_find_last_not_of :: "char set \<Rightarrow> string \<Rightarrow> nat \<Rightarrow> pos" where
  "sv_find_last_not_of cs s n =
     (let t = take n s in map_option (\<lambda>k. length t - 1 - k) (find_index (\<lambda>x. x \<notin> cs) (rev t)))"

definition sv_substr :: "string \<Rightarrow> nat \<Rightarrow> nat \<Rightarrow> ('e, string) res" where
  "sv_substr s i n = (if i \<le> length s then Inr (take n (drop i s)) else Inl (Exception Out_of_range))"

definition sv_substr_from :: "string \<Rightarrow> nat \<Rightarrow> ('e, string) res" where
  "sv_substr_from s i = (if i \<le> length s then Inr (drop i s) else Inl (Exception Out_of_range))"

definition sv_at :: "string \<Rightarrow> nat \<Rightarrow> ('e, char) res" where
  "sv_at s i = (if i < length s then Inr (s ! i) else Inl Undefined)"

text \<open>
  \<open>str[i] == c\<close>, as the conditions of the parsers use it.
\<close>

definition sv_is :: "string \<Rightarrow> nat \<Rightarrow> char \<Rightarrow> ('e, bool) res" where
  "sv_is s i c = rbind (sv_at s i) (\<lambda>x. Inr (x = c))"

subsection \<open>Facts about searches\<close>

lemma find_index_None: "find_index P xs = None \<longleftrightarrow> (\<forall>x\<in>set xs. \<not> P x)"
  by (induction xs) auto

lemma find_index_Some:
  "find_index P xs = Some k \<longleftrightarrow> k < length xs \<and> P (xs ! k) \<and> (\<forall>j<k. \<not> P (xs ! j))"
proof (induction xs arbitrary: k)
  case (Cons x xs)
  then show ?case
    by (cases k) (auto simp: less_Suc_eq_0_disj nth_Cons split: nat.splits)
qed simp

lemma find_index_append:
  "(\<And>x. x \<in> set xs \<Longrightarrow> \<not> P x) \<Longrightarrow> find_index P (xs @ ys) = map_option (\<lambda>k. length xs + k) (find_index P ys)"
proof (induction xs)
  case Nil
  show ?case by (cases "find_index P ys") simp_all
next
  case (Cons x xs)
  then show ?case by (cases "find_index P ys") simp_all
qed

lemma find_index_append_hit:
  "(\<And>x. x \<in> set xs \<Longrightarrow> \<not> P x) \<Longrightarrow> P y \<Longrightarrow> find_index P (xs @ y # ys) = Some (length xs)"
  by (simp add: find_index_append)

lemma find_index_append_miss:
  "(\<And>x. x \<in> set xs \<Longrightarrow> \<not> P x) \<Longrightarrow> find_index P xs = None"
  by (simp add: find_index_None)

lemma find_index_eq_hit [simp]: "x \<notin> set xs \<Longrightarrow> find_index (\<lambda>y. y = x) (xs @ x # ys) = Some (length xs)"
  by (rule find_index_append_hit) auto

lemma find_index_eq_miss [simp]: "x \<notin> set xs \<Longrightarrow> find_index (\<lambda>y. y = x) xs = None"
  by (rule find_index_append_miss) auto

lemma find_index_from_0 [simp]: "find_index_from P s 0 = find_index P s"
  by (simp add: find_index_from_def option.map_ident)

lemma find_index_from_bounds:
  "find_index_from P s i = Some k \<Longrightarrow> i \<le> k \<and> k < length s \<and> P (s ! k)"
  by (auto simp: find_index_from_def find_index_Some)

lemma find_index_from_None: "find_index_from P s i = None \<longleftrightarrow> (\<forall>x\<in>set (drop i s). \<not> P x)"
  by (auto simp: find_index_from_def find_index_None)

lemma find_index_from_append:
  "i = length pre \<Longrightarrow> find_index_from P (pre @ s) i = map_option (\<lambda>k. i + k) (find_index P s)"
  by (simp add: find_index_from_def)

lemmas sv_search_defs = sv_find_def sv_find_first_of_def sv_find_first_not_of_def

section \<open>util::string\<close>

definition substring_from :: "string \<Rightarrow> nat \<Rightarrow> ('e, string) res" where
  "substring_from src start_index = sv_substr_from src start_index"

text \<open>
  With an end before the start, \<^verbatim>\<open>end_index - start_index\<close> wraps around to a huge count, so
  the rest of the string is returned.
\<close>

definition substring :: "string \<Rightarrow> nat \<Rightarrow> pos \<Rightarrow> ('e, string) res" where
  "substring src start_index end_index = (case end_index of
     None \<Rightarrow> sv_substr_from src start_index
   | Some e \<Rightarrow> if start_index \<le> e then sv_substr src start_index (e - start_index)
               else sv_substr_from src start_index)"

definition default_whitespace :: "char set" where
  "default_whitespace = {CHR '' '', CHR 0x09}"

definition trim :: "string \<Rightarrow> char set \<Rightarrow> string" where
  "trim src whitespace = (case sv_find_first_not_of whitespace src 0 of
     None \<Rightarrow> []
   | Some b \<Rightarrow> (case sv_find_last_not_of whitespace src (length src) of
       None \<Rightarrow> []
     | Some e \<Rightarrow> take (e - b + 1) (drop b src)))"

abbreviation trim_ws :: "string \<Rightarrow> string" where
  "trim_ws s \<equiv> trim s default_whitespace"

definition to_lower :: "char \<Rightarrow> char" where
  "to_lower c = (if 65 \<le> (of_char c :: nat) \<and> (of_char c :: nat) \<le> 90 then char_of ((of_char c :: nat) + 32) else c)"

definition lowercase :: "string \<Rightarrow> string" where
  "lowercase src = map to_lower src"

definition ends_with :: "string \<Rightarrow> string \<Rightarrow> bool" where
  "ends_with str suf \<longleftrightarrow> length suf \<le> length str \<and> drop (length str - length suf) str = suf"

text \<open>\<open>std::equal\<close> and \<open>std::lexicographical_compare\<close> over the lower-cased characters.\<close>

fun equal_by :: "('a \<Rightarrow> 'a \<Rightarrow> bool) \<Rightarrow> 'a list \<Rightarrow> 'a list \<Rightarrow> bool" where
  "equal_by eq [] [] = True"
| "equal_by eq (x # xs) (y # ys) = (eq x y \<and> equal_by eq xs ys)"
| "equal_by eq _ _ = False"

fun lexicographical_compare :: "('a \<Rightarrow> 'a \<Rightarrow> bool) \<Rightarrow> 'a list \<Rightarrow> 'a list \<Rightarrow> bool" where
  "lexicographical_compare lt _ [] = False"
| "lexicographical_compare lt [] (y # ys) = True"
| "lexicographical_compare lt (x # xs) (y # ys) =
     (if lt x y then True else if lt y x then False else lexicographical_compare lt xs ys)"

text \<open>
  The characters are compared as the \<^verbatim>\<open>int\<close> values \<^verbatim>\<open>std::tolower\<close> returns for a
  \<^verbatim>\<open>char\<close>, which is signed on the supported platforms.
\<close>

definition char_int :: "char \<Rightarrow> int" where
  "char_int c = (if (of_char c :: int) < 128 then of_char c else of_char c - 256)"

definition iequals :: "string \<Rightarrow> string \<Rightarrow> bool" where
  "iequals a b = equal_by (\<lambda>x y. to_lower x = to_lower y) a b"

definition iless :: "string \<Rightarrow> string \<Rightarrow> bool" where
  "iless a b = lexicographical_compare (\<lambda>x y. char_int (to_lower x) < char_int (to_lower y)) a b"

subsection \<open>Splitting and joining\<close>

text \<open>
  The loop of \<^verbatim>\<open>split\<close>: \<open>prev\<close> is the start of the current token and \<open>src.substr(0, pos - prev)\<close>
  is what the code pushes for it.  \<open>split_char\<close> has a character as its delimiter,
  \<open>split_string\<close> a string; an empty one makes the code loop for ever, which is \<open>None\<close>.
\<close>

lemma find_index_from_progress:
  "find_index_from P s i = Some k \<Longrightarrow> length s - Suc k < length s - i"
  using find_index_from_bounds by fastforce

function split_char_loop :: "string \<Rightarrow> char \<Rightarrow> nat \<Rightarrow> string list" where
  "split_char_loop src delim prev = (case sv_find delim src prev of
     None \<Rightarrow> [drop prev src]
   | Some p \<Rightarrow> take (p - prev) src # split_char_loop src delim (Suc p))"
  by pat_completeness auto
termination
  by (relation "measure (\<lambda>(src, delim, prev). length src - prev)")
    (auto simp: sv_find_def dest: find_index_from_progress)

declare split_char_loop.simps [simp del]

definition split_char :: "string \<Rightarrow> char \<Rightarrow> string list" where
  "split_char src delim = split_char_loop src delim 0"

fun find_sub :: "string \<Rightarrow> string \<Rightarrow> pos" where
  "find_sub d [] = (if d = [] then Some 0 else None)"
| "find_sub d (x # xs) = (if take (length d) (x # xs) = d then Some 0 else map_option Suc (find_sub d xs))"

definition sv_find_sub :: "string \<Rightarrow> string \<Rightarrow> nat \<Rightarrow> pos" where
  "sv_find_sub d s i = (if i \<le> length s then map_option (\<lambda>k. i + k) (find_sub d (drop i s)) else None)"

lemma find_sub_bound: "find_sub d s = Some k \<Longrightarrow> k + length d \<le> length s"
proof (induction s arbitrary: k)
  case Nil
  then show ?case by (auto split: if_splits)
next
  case (Cons x xs)
  show ?case
  proof (cases "take (length d) (x # xs) = d")
    case True
    then have "length d \<le> length (x # xs)" by (metis length_take min.cobounded1)
    with True Cons.prems show ?thesis by simp
  next
    case False
    with Cons show ?thesis by auto
  qed
qed

lemma sv_find_sub_bound: "sv_find_sub d s i = Some k \<Longrightarrow> i \<le> k \<and> k + length d \<le> length s"
  by (auto simp: sv_find_sub_def split: if_splits dest: find_sub_bound)

function split_string_loop :: "string \<Rightarrow> string \<Rightarrow> nat \<Rightarrow> string list" where
  "split_string_loop src delim prev = (if delim = [] then [] else (case sv_find_sub delim src prev of
     None \<Rightarrow> [drop prev src]
   | Some p \<Rightarrow> take (p - prev) src # split_string_loop src delim (p + length delim)))"
  by pat_completeness auto
termination
proof (relation "measure (\<lambda>(src, delim, prev). length src - prev)", goal_cases)
  case (2 src delim prev p)
  then have b: "prev \<le> p" "p + length delim \<le> length src" "0 < length delim"
    by (auto dest: sv_find_sub_bound)
  then have "length src - (p + length delim) < length src - prev"
    by (intro diff_less_mono2) linarith+
  then show ?case by simp
qed simp

declare split_string_loop.simps [simp del]

definition split_string :: "string \<Rightarrow> string \<Rightarrow> string list option" where
  "split_string src delim = (if delim = [] then None else Some (split_string_loop src delim 0))"

text \<open>
  \<^verbatim>\<open>split_trim\<close>; in both branches the search for the next delimiter starts behind the one
  found, unless the delimiter is itself a whitespace character.
\<close>

function split_trim_loop :: "string \<Rightarrow> char \<Rightarrow> char set \<Rightarrow> nat \<Rightarrow> string list \<Rightarrow> string list \<times> pos" where
  "split_trim_loop src delim ws prev tokens = (case sv_find delim src prev of
     None \<Rightarrow> (tokens, Some prev)
   | Some p \<Rightarrow> (case sv_find_first_not_of ws src prev of
       None \<Rightarrow> (tokens, None)
     | Some b \<Rightarrow>
        if p \<le> b then split_trim_loop src delim ws (b + 1) tokens
        else (case sv_find_last_not_of ws src p of
           None \<Rightarrow> (tokens, None)
         | Some e \<Rightarrow>
             split_trim_loop src delim ws (p + 1) (tokens @ [take (e - b + 1) (drop b src)]))))"
  by pat_completeness auto
termination
proof (relation "measure (\<lambda>(src, delim, ws, prev, tokens). length src - prev)", goal_cases)
  case (2 src delim ws prev tokens p b)
  then show ?case
    by (auto simp: sv_search_defs dest!: find_index_from_bounds)
next
  case (3 src delim ws prev tokens p b e)
  then show ?case
    by (auto simp: sv_search_defs dest!: find_index_from_bounds)
qed simp

declare split_trim_loop.simps [simp del]

text \<open>
  The branch \<open>None\<close> of the inner search is not reached: \<open>b\<close> itself is such a character.  Behind
  the loop, the rest of the string is pushed if it is not all whitespace.
\<close>

lemma split_trim_inner:
  assumes "sv_find_first_not_of ws src prev = Some b" and "b < p"
  shows "\<exists>e. sv_find_last_not_of ws src p = Some e \<and> b \<le> e \<and> e < p"
proof -
  let ?t = "take p src"
  from assms have b: "b < length src" "src ! b \<notin> ws"
    by (auto simp: sv_find_first_not_of_def dest: find_index_from_bounds)
  with assms(2) have mem: "src ! b \<in> set (rev ?t)"
    by (auto simp: in_set_conv_nth intro!: exI[of _ b])
  show ?thesis
  proof (cases "find_index (\<lambda>x. x \<notin> ws) (rev ?t)")
    case None
    with mem b(2) show ?thesis by (auto simp: find_index_None)
  next
    case (Some k)
    then have k: "k < length ?t" "\<forall>j<k. rev ?t ! j \<in> ws"
      by (auto simp: find_index_Some)
    have "b \<le> length ?t - 1 - k"
    proof (rule ccontr)
      assume "\<not> b \<le> length ?t - 1 - k"
      then have j: "length ?t - 1 - b < k" "b < length ?t"
        using b(1) assms(2) k(1) by auto
      with k(2) have "rev ?t ! (length ?t - 1 - b) \<in> ws" by blast
      moreover have "rev ?t ! (length ?t - 1 - b) = ?t ! b"
        using j(2) by (subst rev_nth) auto
      moreover have "?t ! b = src ! b" using assms(2) by simp
      ultimately show False using b(2) by simp
    qed
    moreover have "length ?t - 1 - k < p" using k(1) by auto
    ultimately show ?thesis
      using Some by (simp add: sv_find_last_not_of_def Let_def)
  qed
qed

definition split_trim :: "string \<Rightarrow> char \<Rightarrow> char set \<Rightarrow> string list" where
  "split_trim src delim ws = (case split_trim_loop src delim ws 0 [] of
     (tokens, None) \<Rightarrow> tokens
   | (tokens, Some prev) \<Rightarrow> (case sv_find_first_not_of ws src prev of
       None \<Rightarrow> tokens
     | Some b \<Rightarrow> (case sv_find_last_not_of ws src (length src) of
         None \<Rightarrow> tokens
       | Some e \<Rightarrow> tokens @ [take (e - b + 1) (drop b src)])))"

definition split_trim_ws :: "string \<Rightarrow> char \<Rightarrow> string list" where
  "split_trim_ws src delim = split_trim src delim default_whitespace"

fun join :: "string list \<Rightarrow> string \<Rightarrow> string" where
  "join [] delim = []"
| "join [x] delim = x"
| "join (x # xs) delim = x @ delim @ join xs delim"

end
