(* ===== verification/String_Facts.thy ===== *)
theory String_Facts
  imports Strings
begin

text \<open>
  Correctness of util/string: trimming removes exactly the surrounding whitespace, \<open>split_trim\<close>
  is the reference split followed by trimming and dropping the empty entries, and what
  \<open>split\<close> really returns.
\<close>

section \<open>Trimming\<close>

lemma take_drop_middle:
  "s = u @ m @ v \<Longrightarrow> take (length m) (drop (length u) s) = m"
  by simp

lemma find_last_not_of_append:
  assumes "m \<noteq> []" "last m \<notin> ws" "set v \<subseteq> ws" "n = length u + length m + length v"
  shows "sv_find_last_not_of ws (u @ m @ v @ w) n = Some (length u + length m - 1)"
proof -
  have t: "take n (u @ m @ v @ w) = u @ m @ v" using assms(4) by simp
  obtain m' l where m: "m = m' @ [l]" using assms(1) by (cases m rule: rev_cases) auto
  have "find_index (\<lambda>x. x \<notin> ws) (rev v @ l # (rev m' @ rev u)) = Some (length (rev v))"
    using assms(2,3) m by (intro find_index_append_hit) auto
  then show ?thesis unfolding sv_find_last_not_of_def t Let_def by (simp add: m)
qed

lemma trim_all_ws: "set s \<subseteq> ws \<Longrightarrow> trim s ws = []"
proof -
  assume "set s \<subseteq> ws"
  then have "sv_find_first_not_of ws s 0 = None"
    by (auto simp: sv_find_first_not_of_def find_index_None)
  then show ?thesis by (simp add: trim_def)
qed

lemma trim_unique:
  assumes "s = u @ m @ v" "set u \<subseteq> ws" "set v \<subseteq> ws" "m \<noteq> [] \<longrightarrow> hd m \<notin> ws \<and> last m \<notin> ws"
  shows "trim s ws = m"
proof (cases "m = []")
  case True
  with assms show ?thesis by (simp add: trim_all_ws)
next
  case False
  then obtain h m' where m: "m = h # m'" by (cases m) auto
  have f: "sv_find_first_not_of ws s 0 = Some (length u)"
    unfolding sv_find_first_not_of_def assms(1) m find_index_from_0 append_Cons
    by (rule find_index_append_hit) (use assms m in auto)
  have l: "sv_find_last_not_of ws s (length s) = Some (length u + length m - 1)"
    using find_last_not_of_append[of m ws v "length s" u "[]"] assms False by simp
  have "length u + length m - 1 - length u + 1 = length m" using False by (cases m) auto
  with f l show ?thesis by (simp add: trim_def assms(1))
qed

lemma trim_decomp:
  "\<exists>u v. s = u @ trim s ws @ v \<and> set u \<subseteq> ws \<and> set v \<subseteq> ws \<and>
     (trim s ws \<noteq> [] \<longrightarrow> hd (trim s ws) \<notin> ws \<and> last (trim s ws) \<notin> ws)"
proof -
  let ?in = "\<lambda>x. x \<in> ws"
  let ?d = "dropWhile ?in s"
  let ?m = "rev (dropWhile ?in (rev ?d))"
  let ?u = "takeWhile ?in s" and ?v = "rev (takeWhile ?in (rev ?d))"
  have d: "?d = ?m @ ?v"
    by (metis rev_append rev_rev_ident takeWhile_dropWhile_id)
  have s: "s = ?u @ ?m @ ?v" by (metis d takeWhile_dropWhile_id)
  have u: "set ?u \<subseteq> ws" and v: "set ?v \<subseteq> ws" by (auto dest: set_takeWhileD)
  have ends: "hd ?m \<notin> ws \<and> last ?m \<notin> ws" if "?m \<noteq> []"
  proof -
    from that have r: "dropWhile ?in (rev ?d) \<noteq> []" by simp
    then have l: "last ?m \<notin> ws" by (metis hd_dropWhile last_rev)
    have "?d \<noteq> []" using r by (metis dropWhile.simps(1) rev.simps(1))
    moreover have "hd ?m = hd ?d" using d that by (metis hd_append2)
    ultimately have "hd ?m \<notin> ws" by (metis hd_dropWhile)
    with l show ?thesis by simp
  qed
  then have "trim s ws = ?m" by (intro trim_unique[OF s u v]) blast
  with s u v ends show ?thesis by metis
qed

section \<open>Splitting\<close>

text \<open>The reference: the maximal delimiter-free pieces, in order.\<close>

fun split_on :: "'a \<Rightarrow> 'a list \<Rightarrow> 'a list list" where
  "split_on d [] = [[]]"
| "split_on d (x # xs) = (if x = d then [] # split_on d xs
     else (case split_on d xs of [] \<Rightarrow> [[x]] | t # ts \<Rightarrow> (x # t) # ts))"

lemma split_on_no_delim: "d \<notin> set xs \<Longrightarrow> split_on d xs = [xs]"
  by (induction xs) auto

lemma split_on_append: "d \<notin> set t \<Longrightarrow> split_on d (t @ d # xs) = t # split_on d xs"
  by (induction t) auto

lemma split_on_nonempty [simp]: "split_on d xs \<noteq> []"
  by (induction xs) (auto split: list.splits)

lemma split_on_free: "t \<in> set (split_on d xs) \<Longrightarrow> d \<notin> set t"
  by (induction xs arbitrary: t) (auto split: list.splits if_splits)

lemma find_index_from_split:
  assumes "find_index_from P src prev = Some p"
  shows "drop prev src = take (p - prev) (drop prev src) @ src ! p # drop (Suc p) src"
    and "\<forall>x \<in> set (take (p - prev) (drop prev src)). \<not> P x"
    and "length (take (p - prev) (drop prev src)) = p - prev"
proof -
  from assms obtain k where k: "find_index P (drop prev src) = Some k" "p = prev + k"
    by (auto simp: find_index_from_def)
  then have kl: "k < length (drop prev src)" and nP: "\<forall>j<k. \<not> P (drop prev src ! j)"
    by (auto simp: find_index_Some)
  have n: "src ! p = drop prev src ! k" using k(2) kl by simp
  show "drop prev src = take (p - prev) (drop prev src) @ src ! p # drop (Suc p) src"
    unfolding n using k(2) id_take_nth_drop[OF kl] by (simp add: add.commute)
  show "\<forall>x \<in> set (take (p - prev) (drop prev src)). \<not> P x"
    using nP k(2) by (auto simp: in_set_conv_nth)
  show "length (take (p - prev) (drop prev src)) = p - prev" using kl k(2) by simp
qed

lemma split_on_find:
  assumes "sv_find d src prev = Some p"
  shows "split_on d (drop prev src) = take (p - prev) (drop prev src) # split_on d (drop (Suc p) src)"
proof -
  note f = find_index_from_split[OF assms[unfolded sv_find_def]]
  have "src ! p = d" using assms by (auto simp: sv_find_def dest: find_index_from_bounds)
  then have e: "drop prev src = take (p - prev) (drop prev src) @ d # drop (Suc p) src"
    using f(1) by simp
  have "d \<notin> set (take (p - prev) (drop prev src))" using f(2) by auto
  then show ?thesis by (subst e) (rule split_on_append)
qed

lemma split_on_find_None: "sv_find d src prev = None \<Longrightarrow> split_on d (drop prev src) = [drop prev src]"
  by (intro split_on_no_delim) (auto simp: sv_find_def find_index_from_None)

text \<open>
  What \<open>split\<close> computes: every token but the last is a prefix of the whole string with the
  length of the true token, because the code takes \<open>substr(0, pos - prev)\<close>.
\<close>

definition prefixes_of_lengths :: "'a list \<Rightarrow> 'a list list \<Rightarrow> 'a list list" where
  "prefixes_of_lengths src ts = map (\<lambda>t. take (length t) src) (butlast ts) @ [last ts]"

lemma split_char_loop_result:
  "split_char_loop src d prev = prefixes_of_lengths src (split_on d (drop prev src))"
proof (induction src d prev rule: split_char_loop.induct)
  case (1 src d prev)
  show ?case
  proof (cases "sv_find d src prev")
    case None
    then show ?thesis
      by (simp add: split_char_loop.simps[of src d prev] split_on_find_None prefixes_of_lengths_def)
  next
    case (Some p)
    have "length (take (p - prev) (drop prev src)) = p - prev"
      using find_index_from_split(3) Some by (simp add: sv_find_def)
    with 1 Some show ?thesis
      by (simp add: split_char_loop.simps[of src d prev] split_on_find prefixes_of_lengths_def)
  qed
qed


section \<open>split_trim\<close>

text \<open>The pieces \<open>split_trim\<close> pushes are the trimmed segments.\<close>

lemma trim_segment:
  assumes b: "sv_find_first_not_of ws src prev = Some b"
    and e: "sv_find_last_not_of ws src p = Some e" and "b \<le> e" "e < p" "p \<le> length src"
  shows "trim (take (p - prev) (drop prev src)) ws = take (e - b + 1) (drop b src)"
    and "take (e - b + 1) (drop b src) \<noteq> []"
proof -
  have bb: "prev \<le> b" "b < length src" "src ! b \<notin> ws"
    using b by (auto simp: sv_find_first_not_of_def dest: find_index_from_bounds)
  have u: "set (take (b - prev) (drop prev src)) \<subseteq> ws"
    using find_index_from_split(2)[OF b[unfolded sv_find_first_not_of_def]] by auto
  let ?t = "take p src"
  obtain k where k: "find_index (\<lambda>x. x \<notin> ws) (rev ?t) = Some k" "e = length ?t - 1 - k"
    using e by (auto simp: sv_find_last_not_of_def Let_def)
  then have kb: "k < length ?t" "rev ?t ! k \<notin> ws" "\<forall>j<k. rev ?t ! j \<in> ws"
    by (auto simp: find_index_Some)
  have el: "src ! e \<notin> ws" using kb(1,2) k(2) assms(4) by (simp add: rev_nth)
  have v: "set (drop (Suc e) ?t) \<subseteq> ws"
  proof
    fix x assume "x \<in> set (drop (Suc e) ?t)"
    then obtain i where i0: "i < length (drop (Suc e) ?t)" "x = drop (Suc e) ?t ! i"
      by (metis in_set_conv_nth)
    with assms(4,5) have i: "i < length ?t - Suc e" "x = ?t ! (Suc e + i)" by simp_all
    then have "length ?t - 1 - (Suc e + i) < k" using k(2) kb(1) by auto
    with kb(3) have "rev ?t ! (length ?t - 1 - (Suc e + i)) \<in> ws" by blast
    moreover have "rev ?t ! (length ?t - 1 - (Suc e + i)) = ?t ! (length ?t - Suc (length ?t - 1 - (Suc e + i)))"
      using i(1) by (intro rev_nth) linarith
    moreover have "length ?t - Suc (length ?t - 1 - (Suc e + i)) = Suc e + i"
      using i(1) by linarith
    ultimately show "x \<in> ws" using i(2) by metis
  qed
  let ?m = "take (e - b + 1) (drop b src)"
  have len: "length ?m = e - b + 1" using assms(3-5) by simp
  then show ne: "?m \<noteq> []" by auto
  have hd: "hd ?m = src ! b" using ne bb(2) by (simp add: hd_drop_conv_nth)
  have last: "last ?m = src ! e"
    using ne len assms(3-5) by (simp add: last_conv_nth)
  have ends: "?m \<noteq> [] \<longrightarrow> hd ?m \<notin> ws \<and> last ?m \<notin> ws"
    using hd last bb(3) el by metis
  have eq: "take (p - prev) (drop prev src) = take (b - prev) (drop prev src) @ ?m @ drop (Suc e) ?t"
  proof (rule nth_equalityI)
    show "length (take (p - prev) (drop prev src)) =
        length (take (b - prev) (drop prev src) @ ?m @ drop (Suc e) ?t)"
      using bb(1,2) assms(3-5) by simp
    show "take (p - prev) (drop prev src) ! i = (take (b - prev) (drop prev src) @ ?m @ drop (Suc e) ?t) ! i"
      if "i < length (take (p - prev) (drop prev src))" for i
      using that bb(1,2) assms(3-5) by (auto simp: nth_append intro!: arg_cong[where f = "(!) src"])
  qed
  show "trim (take (p - prev) (drop prev src)) ws = ?m"
    by (rule trim_unique[OF eq u v ends])
qed

definition nonempty_trimmed :: "char set \<Rightarrow> string list \<Rightarrow> string list" where
  "nonempty_trimmed ws ts = filter (\<lambda>t. t \<noteq> []) (map (\<lambda>t. trim t ws) ts)"

definition split_trim_end :: "string \<Rightarrow> char set \<Rightarrow> string list \<times> pos \<Rightarrow> string list" where
  "split_trim_end src ws r = (case r of
     (tokens, None) \<Rightarrow> tokens
   | (tokens, Some prev) \<Rightarrow> (case sv_find_first_not_of ws src prev of
       None \<Rightarrow> tokens
     | Some b \<Rightarrow> (case sv_find_last_not_of ws src (length src) of
         None \<Rightarrow> tokens
       | Some e \<Rightarrow> tokens @ [take (e - b + 1) (drop b src)])))"

lemma split_trim_last:
  assumes "sv_find d src prev = None"
  shows "split_trim_end src ws (tokens, Some prev) = tokens @ nonempty_trimmed ws (split_on d (drop prev src))"
proof (cases "sv_find_first_not_of ws src prev")
  case None
  then have "set (drop prev src) \<subseteq> ws"
    by (auto simp: sv_find_first_not_of_def find_index_from_None)
  with None assms show ?thesis
    by (simp add: split_trim_end_def split_on_find_None nonempty_trimmed_def trim_all_ws)
next
  case (Some b)
  then have "b < length src" by (auto simp: sv_find_first_not_of_def dest: find_index_from_bounds)
  from split_trim_inner[OF Some this] obtain e where
    e: "sv_find_last_not_of ws src (length src) = Some e" "b \<le> e" "e < length src" by blast
  have t: "take (length src - prev) (drop prev src) = drop prev src" by simp
  from trim_segment[OF Some e(1,2,3)] show ?thesis
    by (simp add: split_trim_end_def Some e(1) assms split_on_find_None nonempty_trimmed_def t)
qed

lemma split_trim_loop_result:
  assumes "d \<notin> ws"
  shows "split_trim_end src ws (split_trim_loop src d ws prev tokens)
    = tokens @ nonempty_trimmed ws (split_on d (drop prev src))"
  using assms
proof (induction src d ws prev tokens rule: split_trim_loop.induct)
  case (1 src d ws prev tokens)
  show ?case
  proof (cases "sv_find d src prev")
    case None
    with split_trim_last show ?thesis by (simp add: split_trim_loop.simps[of src d ws prev])
  next
    case (Some p)
    then have p: "prev \<le> p" "p < length src" "src ! p = d"
      by (auto simp: sv_find_def dest: find_index_from_bounds)
    then have "d \<in> set (drop prev src)"
      by (auto simp: in_set_conv_nth intro!: exI[of _ "p - prev"])
    with "1.prems" obtain b where b: "sv_find_first_not_of ws src prev = Some b"
      by (cases "sv_find_first_not_of ws src prev")
        (auto simp: sv_find_first_not_of_def find_index_from_None)
    note seg = split_on_find[OF Some]
    show ?thesis
    proof (cases "p \<le> b")
      case True
      have sub: "set (take (b - prev) (drop prev src)) \<subseteq> ws"
        using find_index_from_split(2)[OF b[unfolded sv_find_first_not_of_def]] by auto
      have pb: "p = b"
      proof (rule ccontr)
        assume "p \<noteq> b"
        with True p have "src ! p \<in> set (take (b - prev) (drop prev src))"
          by (auto simp: in_set_conv_nth intro!: exI[of _ "p - prev"])
        with sub p(3) "1.prems" show False by auto
      qed
      then have "trim (take (p - prev) (drop prev src)) ws = []" using sub by (simp add: trim_all_ws)
      with "1.IH"(1)[OF Some b] True pb "1.prems" show ?thesis
        by (simp add: split_trim_loop.simps[of src d ws prev] Some b seg nonempty_trimmed_def)
    next
      case False
      then have "b < p" by simp
      from split_trim_inner[OF b this] obtain e where
        e: "sv_find_last_not_of ws src p = Some e" "b \<le> e" "e < p" by blast
      from trim_segment[OF b e(1,2,3)] p(2) have
        "trim (take (p - prev) (drop prev src)) ws = take (e - b + 1) (drop b src)"
        "take (e - b + 1) (drop b src) \<noteq> []" by auto
      with "1.IH"(2)[OF Some b] False e "1.prems" show ?thesis
        by (simp add: split_trim_loop.simps[of src d ws prev] Some b seg nonempty_trimmed_def)
    qed
  qed
qed

lemma split_trim_nonempty_trimmed:
  "d \<notin> ws \<Longrightarrow> split_trim src d ws = nonempty_trimmed ws (split_on d src)"
  using split_trim_loop_result[of d ws src 0 "[]"]
  by (simp add: split_trim_def split_trim_end_def)

end
