(* ===== verification/Numbers.thy ===== *)
theory Numbers
  imports String_Facts
begin

text \<open>
  Numbers as text: what \<^verbatim>\<open>operator<<\<close> prints for an unsigned integer (decimal, or
  hexadecimal behind \<^verbatim>\<open>std::hex\<close>), what \<^verbatim>\<open>operator>>\<close> reads behind \<^verbatim>\<open>std::hex\<close>, and
  \<^verbatim>\<open>util::string::parse_hexadecimal\<close> built on it.  \<^verbatim>\<open>boost::lexical_cast\<close> is library code
  outside the repository; it is a parameter of the definitions that use it, and
  \<open>lexical_cast_decimal\<close> states what they rely on.
\<close>

section \<open>Printing\<close>

definition digit_char :: "nat \<Rightarrow> char" where
  "digit_char n = (if n < 10 then char_of (48 + n) else char_of (87 + n))"

function show_base :: "nat \<Rightarrow> nat \<Rightarrow> string" where
  "show_base b n = (if b < 2 \<or> n < b then [digit_char n] else show_base b (n div b) @ [digit_char (n mod b)])"
  by pat_completeness auto
termination
  by (relation "measure (\<lambda>(b, n). n)") auto

declare show_base.simps [simp del]

definition decimal :: "nat \<Rightarrow> string" where
  "decimal n = show_base 10 n"

definition hexadecimal :: "nat \<Rightarrow> string" where
  "hexadecimal n = show_base 16 n"

section \<open>Reading\<close>

definition digit_value :: "char \<Rightarrow> nat option" where
  "digit_value c = (let n = (of_char c :: nat) in
     if 48 \<le> n \<and> n \<le> 57 then Some (n - 48)
     else if 97 \<le> n \<and> n \<le> 102 then Some (n - 87)
     else if 65 \<le> n \<and> n \<le> 70 then Some (n - 55)
     else None)"

definition is_hex_digit :: "char \<Rightarrow> bool" where
  "is_hex_digit c \<longleftrightarrow> digit_value c \<noteq> None"

definition digits_value :: "nat \<Rightarrow> string \<Rightarrow> nat" where
  "digits_value b ds = foldl (\<lambda>a c. a * b + the (digit_value c)) 0 ds"

definition is_space :: "char \<Rightarrow> bool" where
  "is_space c \<longleftrightarrow> c = CHR '' '' \<or> (9 \<le> (of_char c :: nat) \<and> (of_char c :: nat) \<le> 13)"

text \<open>
  \<^verbatim>\<open>std::istream >> size_t\<close> in base 16: leading whitespace, an optional sign, an optional
  \<open>0x\<close>, digits.  A value of \<open>2 ^ 64\<close> or more fails; a minus sign negates modulo \<open>2 ^ 64\<close>.
  The result is the value and what is left of the stream.
\<close>

definition read_sign :: "string \<Rightarrow> bool \<times> string" where
  "read_sign s = (case s of
     [] \<Rightarrow> (False, [])
   | c # t \<Rightarrow> if c = CHR ''-'' then (True, t) else if c = CHR ''+'' then (False, t) else (False, s))"

definition skip_hex_prefix :: "string \<Rightarrow> string" where
  "skip_hex_prefix s = (case s of
     c # x # t \<Rightarrow> if c = CHR ''0'' \<and> (x = CHR ''x'' \<or> x = CHR ''X'') then t else s
   | _ \<Rightarrow> s)"

definition stream_read_hex :: "string \<Rightarrow> (u64 \<times> string) option" where
  "stream_read_hex s =
     (let (neg, s1) = read_sign (dropWhile is_space s);
          s2 = skip_hex_prefix s1;
          ds = takeWhile is_hex_digit s2;
          n = digits_value 16 ds
      in if ds = [] \<or> 2 ^ 64 \<le> n then None
         else Some (if neg then - of_nat n else of_nat n, dropWhile is_hex_digit s2))"

type_synonym generic_error = string

definition parse_hexadecimal :: "string \<Rightarrow> (generic_error, u64) res" where
  "parse_hexadecimal src = (case stream_read_hex src of
     None \<Rightarrow> Inl (Error ''String is not a hexadecimal integer'')
   | Some (out, rest) \<Rightarrow>
       if dropWhile is_space rest \<noteq> [] then Inl (Error ''String is not a hexadecimal integer'')
       else Inr out)"

section \<open>Round trips\<close>

lemma of_char_digit: "n < 16 \<Longrightarrow> (of_char (digit_char n) :: nat) = (if n < 10 then 48 + n else 87 + n)"
  by (simp add: digit_char_def)

lemma digit_value_digit_char: "n < 16 \<Longrightarrow> digit_value (digit_char n) = Some n"
  by (simp add: digit_value_def of_char_digit Let_def)

lemma digits_value_snoc: "digits_value b (ds @ [c]) = digits_value b ds * b + the (digit_value c)"
  by (simp add: digits_value_def)

lemma digits_value_show_base:
  "2 \<le> b \<Longrightarrow> b \<le> 16 \<Longrightarrow> digits_value b (show_base b n) = n"
proof (induction b n rule: show_base.induct)
  case (1 b n)
  show ?case
  proof (cases "n < b")
    case True
    with 1 show ?thesis
      by (simp add: show_base.simps[of b n] digits_value_def digit_value_digit_char)
  next
    case False
    from 1 have "n mod b < 16" using mod_less_divisor[of b n] by linarith
    with 1 False show ?thesis
      by (simp add: show_base.simps[of b n] digits_value_snoc digit_value_digit_char)
  qed
qed

lemma show_base_digits: "2 \<le> b \<Longrightarrow> b \<le> 16 \<Longrightarrow> c \<in> set (show_base b n) \<Longrightarrow> \<exists>k<b. c = digit_char k"
proof (induction b n rule: show_base.induct)
  case (1 b n)
  show ?case
  proof (cases "n < b")
    case True
    then have "c = digit_char n" using "1.prems"(3) by (simp add: show_base.simps[of b n])
    with True show ?thesis by blast
  next
    case False
    then have "c \<in> set (show_base b (n div b)) \<or> c = digit_char (n mod b)"
      using "1.prems" by (auto simp: show_base.simps[of b n])
    moreover have "n mod b < b" using "1.prems"(1) by simp
    moreover have "\<not> (b < 2 \<or> n < b)" using False "1.prems"(1) by simp
    ultimately show ?thesis using "1.IH" "1.prems"(1,2) by blast
  qed
qed

lemma show_base_nonempty [simp]: "show_base b n \<noteq> []"
  by (subst show_base.simps) simp

lemma decimal_digits: "c \<in> set (decimal n) \<Longrightarrow> 48 \<le> (of_char c :: nat) \<and> (of_char c :: nat) \<le> 57"
  unfolding decimal_def by (drule show_base_digits[rotated 2]) (auto simp: of_char_digit)

lemma decimal_nonempty [simp]: "decimal n \<noteq> []"
  by (simp add: decimal_def)

lemma decimal_no_char:
  "(of_char c :: nat) < 48 \<or> 57 < (of_char c :: nat) \<Longrightarrow> c \<notin> set (decimal n)"
  using decimal_digits[of c n] by auto

lemma digits_value_decimal: "digits_value 10 (decimal n) = n"
  by (simp add: decimal_def digits_value_show_base)

lemma digits_value_hexadecimal: "digits_value 16 (hexadecimal n) = n"
  by (simp add: hexadecimal_def digits_value_show_base)

lemma decimal_inj: "decimal m = decimal n \<Longrightarrow> m = n"
  by (metis digits_value_decimal)

lemma hexadecimal_digit: "c \<in> set (hexadecimal n) \<Longrightarrow> is_hex_digit c"
  unfolding hexadecimal_def is_hex_digit_def
  by (drule show_base_digits[rotated 2]) (auto simp: digit_value_digit_char)

lemma hex_digit_no_space: "is_hex_digit c \<Longrightarrow> \<not> is_space c"
  by (auto simp: is_hex_digit_def digit_value_def is_space_def Let_def split: if_splits)

lemma hex_digit_no_sign: "is_hex_digit c \<Longrightarrow> c \<noteq> CHR ''-'' \<and> c \<noteq> CHR ''+'' \<and> c \<noteq> CHR ''x'' \<and> c \<noteq> CHR ''X''"
  by (auto simp: is_hex_digit_def digit_value_def Let_def)

lemma skip_hex_prefix_digits: "\<forall>c\<in>set s. is_hex_digit c \<Longrightarrow> skip_hex_prefix s = s"
  using hex_digit_no_sign by (auto simp: skip_hex_prefix_def split: list.splits)

lemma stream_read_hex_digits:
  assumes "s \<noteq> []" "\<forall>c\<in>set s. is_hex_digit c" "digits_value 16 s < 2 ^ 64"
  shows "stream_read_hex s = Some (of_nat (digits_value 16 s), [])"
proof -
  obtain c t where s: "s = c # t" using assms(1) by (cases s) auto
  then have c: "\<not> is_space c" "c \<noteq> CHR ''-''" "c \<noteq> CHR ''+''"
    using assms(2) hex_digit_no_space hex_digit_no_sign by auto
  then have "read_sign (dropWhile is_space s) = (False, s)" by (simp add: s read_sign_def)
  with assms show ?thesis
    by (simp add: stream_read_hex_def skip_hex_prefix_digits takeWhile_eq_all_conv[THEN iffD2]
      dropWhile_eq_Nil_conv[THEN iffD2])
qed

section \<open>What is relied on of boost::lexical_cast\<close>

text \<open>\<open>lexical_cast_decimal lc\<close>: \<^verbatim>\<open>boost::lexical_cast<std::size_t>\<close> reads back what is printed.\<close>

definition lexical_cast_decimal :: "(string \<Rightarrow> u64 option) \<Rightarrow> bool" where
  "lexical_cast_decimal lc \<longleftrightarrow> (\<forall>n. n < 2 ^ 64 \<longrightarrow> lc (decimal n) = Some (of_nat n))"

text \<open>A concrete reader of that kind, for witnesses.\<close>

definition decimal_reader :: "string \<Rightarrow> u64 option" where
  "decimal_reader s = (if s \<noteq> [] \<and> (\<forall>c\<in>set s. 48 \<le> (of_char c :: nat) \<and> (of_char c :: nat) \<le> 57)
      \<and> digits_value 10 s < 2 ^ 64 then Some (of_nat (digits_value 10 s)) else None)"

lemma decimal_reader_ok: "lexical_cast_decimal decimal_reader"
  unfolding lexical_cast_decimal_def decimal_reader_def
  using decimal_digits digits_value_show_base[of 10] by (auto simp: decimal_def)

section \<open>Properties\<close>

text \<open>\<^verbatim>\<open>split_trim\<close> is the reference split of the string at the delimiter, each piece trimmed and
  the empty ones dropped, whenever the delimiter is not itself a whitespace character.
\<close>

theorem split_trim_correct:
  assumes "d \<notin> ws"
  shows "split_trim src d ws = filter (\<lambda>t. t \<noteq> []) (map (\<lambda>t. trim t ws) (split_on d src))"
  using split_trim_nonempty_trimmed[OF assms] by (simp add: nonempty_trimmed_def)

theorem split_trim_correct_witness:
  "CHR '','' \<notin> default_whitespace \<and>
   split_trim ''a , ,b'' (CHR '','') default_whitespace = [''a'', ''b'']"
proof -
  have h: "CHR '','' \<notin> default_whitespace" by (simp add: default_whitespace_def)
  have e: "split_on (CHR '','') ''a , ,b'' = [''a '', '' '', ''b'']" by simp
  have "trim ''a '' default_whitespace = ''a''" "trim '' '' default_whitespace = []"
    "trim ''b'' default_whitespace = ''b''"
    by (rule trim_unique[of _ "[]" _ "'' ''"], simp_all add: default_whitespace_def)
      (rule trim_all_ws, simp add: default_whitespace_def,
       rule trim_unique[of _ "[]" _ "[]"], simp_all add: default_whitespace_def)
  with h show ?thesis using split_trim_correct[OF h, of "''a , ,b''"] by (simp add: e)
qed

end
