(* ===== verification/Bytes.thy ===== *)
theory Bytes
  imports Numbers
begin

text \<open>
  util/bytes.hpp: big-endian byte strings.

  \<open>concat_bytes\<close> is the variadic \<^verbatim>\<open>concat\<close> (every intermediate type is wide enough for the
  bytes it holds, so the model keeps a 64-bit accumulator), \<open>insert_bytes N\<close> is \<^verbatim>\<open>insert<N>\<close>,
  \<open>extract_byte N\<close> is \<^verbatim>\<open>extract_byte<N>\<close>.  \<^verbatim>\<open>parse_network_byte_order<N>\<close> shifts an
  \<^verbatim>\<open>unsigned char\<close>, which C++ promotes to a 32-bit \<^verbatim>\<open>int\<close>: the result of a shift is
  sign-extended to 64 bits, and a shift by 32 or more is undefined.  What such a shift gives is
  the parameter \<open>ub_shl\<close>; \<open>x86_shl\<close> is the hardware's answer, which uses the low five bits of
  the count.
\<close>

definition concat_bytes :: "u8 list \<Rightarrow> u64" where
  "concat_bytes bs = foldl (\<lambda>left b. push_bit 8 left OR ucast b) 0 bs"

definition insert_bytes :: "nat \<Rightarrow> u64 \<Rightarrow> u8 list" where
  "insert_bytes n byte_string = map (\<lambda>i. ucast (drop_bit (8 * i) byte_string AND 0xFF)) (rev [0..<n])"

definition extract_byte :: "nat \<Rightarrow> u32 \<Rightarrow> u8" where
  "extract_byte n w = ucast (drop_bit ((n - 1) * 8) w AND 0xFF)"

type_synonym int_shift = "nat \<Rightarrow> u32 \<Rightarrow> u32"

definition x86_shl :: int_shift where
  "x86_shl n x = push_bit (n mod 32) x"

definition int_shl :: "int_shift \<Rightarrow> u8 \<Rightarrow> nat \<Rightarrow> u32" where
  "int_shl ub_shl b n = (if n < 32 then push_bit n (ucast b) else ub_shl n (ucast b))"

fun parse_network_loop :: "int_shift \<Rightarrow> nat \<Rightarrow> nat \<Rightarrow> u8 list \<Rightarrow> u64 \<Rightarrow> u64" where
  "parse_network_loop ub n i [] result = result"
| "parse_network_loop ub n i (b # bs) result =
     (if i \<le> n then parse_network_loop ub n (i + 1) bs (result OR scast (int_shl ub b ((n - i) * 8)))
      else result)"

definition parse_network_byte_order :: "int_shift \<Rightarrow> nat \<Rightarrow> u8 list \<Rightarrow> u64" where
  "parse_network_byte_order ub n bytes = parse_network_loop ub n 1 bytes 0"

definition to_wire_format :: "nat \<Rightarrow> u8 list list \<Rightarrow> u8 list" where
  "to_wire_format n vals = concat (map (\<lambda>val. insert_bytes n (of_nat (length val)) @ val) vals)"

section \<open>Facts\<close>

lemma length_insert_bytes [simp]: "length (insert_bytes n x) = n"
  by (simp add: insert_bytes_def)

lemma bit_255: "bit (0xFF :: 'a :: len word) k \<longleftrightarrow> k < 8 \<and> k < LENGTH('a)"
proof -
  have m: "(0xFF :: 'a word) = mask 8" by (simp add: mask_eq_exp_minus_1)
  have "bit (mask 8 :: 'a word) k \<longleftrightarrow> k < 8 \<and> k < LENGTH('a)" by (auto simp: bit_simps)
  then show ?thesis by (simp only: m)
qed

lemma bit_255_int: "bit (0xFF :: int) k \<longleftrightarrow> k < 8"
proof -
  have m: "(0xFF :: int) = mask 8" by (simp add: mask_eq_exp_minus_1)
  have "bit (mask 8 :: int) k \<longleftrightarrow> k < 8" by (auto simp: bit_simps)
  then show ?thesis by (simp only: m)
qed

lemmas bit_byte = bit_simps bit_255 bit_255_int

lemma scast_u64_nonneg: "\<not> bit (w :: u32) 31 \<Longrightarrow> (scast w :: u64) = ucast w"
proof (rule bit_word_eqI)
  fix n assume h: "\<not> bit w 31" "n < LENGTH(64)"
  show "bit (scast w :: u64) n \<longleftrightarrow> bit (ucast w :: u64) n"
  proof (cases "n < 32")
    case True
    then have "min 31 n = n" by simp
    with True show ?thesis by (simp add: bit_signed_iff bit_unsigned_iff)
  next
    case False
    then have "min 31 n = 31" by simp
    with False h show ?thesis by (auto simp: bit_signed_iff bit_unsigned_iff dest: bit_imp_le_length)
  qed
qed

lemma ucast_byte_and_255: "(ucast (w AND 0xFF) :: u8) = ucast (w :: 'a :: len word)"
  by (rule bit_word_eqI) (auto simp: bit_byte dest: bit_imp_le_length)

lemma insert_bytes_2: "insert_bytes 2 x = [ucast (drop_bit 8 x), ucast x]"
  by (simp add: insert_bytes_def ucast_byte_and_255 upt_rec numeral_eq_Suc)

lemma extract_byte_bit: "0 < n \<Longrightarrow> bit (extract_byte n w) k \<longleftrightarrow> k < 8 \<and> bit w ((n - 1) * 8 + k)"
  by (auto simp: extract_byte_def bit_byte dest: bit_imp_le_length)

lemma parse_two_bytes:
  "parse_network_byte_order ub 2 [a, b] = push_bit 8 (ucast a) OR ucast b"
proof -
  have "\<not> bit (push_bit 8 (ucast a :: u32)) 31" "\<not> bit (ucast b :: u32) 31"
    by (auto simp: bit_simps dest: bit_imp_le_length)
  then have "(scast (push_bit 8 (ucast a :: u32)) :: u64) = ucast (push_bit 8 (ucast a :: u32))"
    "(scast (ucast b :: u32) :: u64) = ucast b"
    by (simp_all add: scast_u64_nonneg) (rule bit_word_eqI, auto simp: bit_simps dest: bit_imp_le_length)
  moreover have "ucast (push_bit 8 (ucast a :: u32)) = (push_bit 8 (ucast a) :: u64)"
    by (rule bit_word_eqI) (auto simp: bit_simps dest: bit_imp_le_length)
  ultimately show ?thesis
    by (simp add: parse_network_byte_order_def int_shl_def)
qed

lemma insert_bytes_Suc: "insert_bytes (Suc n) x = ucast (drop_bit (8 * n) x) # insert_bytes n x"
  by (simp add: insert_bytes_def ucast_byte_and_255)

lemma insert_bytes_0 [simp]: "insert_bytes 0 x = []"
  by (simp add: insert_bytes_def)

text \<open>\<open>concat\<close> reads back what \<open>insert\<close> writes, modulo the bytes that were written.\<close>

lemma foldl_concat_insert:
  "foldl (\<lambda>left b. push_bit 8 left OR ucast b) acc (insert_bytes n x)
     = (push_bit (8 * n) acc OR take_bit (8 * n) x :: u64)"
proof (induction n arbitrary: acc)
  case 0
  then show ?case by simp
next
  case (Suc n)
  have "push_bit (8 * n) (push_bit 8 acc OR ucast (ucast (drop_bit (8 * n) x) :: u8)) OR take_bit (8 * n) x
      = push_bit (8 * Suc n) acc OR take_bit (8 * Suc n) x"
    by (rule bit_word_eqI) (auto simp: bit_simps algebra_simps)
  with Suc show ?case by (simp add: insert_bytes_Suc)
qed

lemma concat_insert_bytes: "concat_bytes (insert_bytes n x) = take_bit (8 * n) x"
  by (simp add: concat_bytes_def foldl_concat_insert)

lemma bit_unat_bound: "unat (x :: 'a :: len word) < 2 ^ k \<Longrightarrow> bit x n \<Longrightarrow> n < k"
proof -
  assume h: "unat x < 2 ^ k" "bit x n"
  then have "take_bit k (unat x) = unat x" by (simp add: take_bit_nat_eq_self)
  moreover have "bit (unat x) n" using h(2) by (simp add: bit_unsigned_iff)
  ultimately show "n < k" by (metis bit_take_bit_iff)
qed

lemma scast_shifted_byte:
  assumes "k \<le> 24" "k = 24 \<longrightarrow> \<not> bit (b :: u8) 7"
  shows "(scast (push_bit k (ucast b :: u32)) :: u64) = push_bit k (ucast b)"
proof -
  have "\<not> bit (push_bit k (ucast b :: u32)) 31"
  proof
    assume "bit (push_bit k (ucast b :: u32)) 31"
    then have b: "bit b (31 - k)" by (auto simp: bit_simps)
    then have "31 - k < 8" using bit_imp_le_length by fastforce
    then have "k = 24" using assms(1) by linarith
    with b assms(2) show False by simp
  qed
  then have "(scast (push_bit k (ucast b :: u32)) :: u64) = ucast (push_bit k (ucast b :: u32))"
    by (rule scast_u64_nonneg)
  also have "\<dots> = push_bit k (ucast b)"
    using assms(1) by (intro bit_word_eqI) (auto simp: bit_simps dest: bit_imp_le_length)
  finally show ?thesis .
qed

lemma parse_insert_2:
  assumes "unat x < 2 ^ 16"
  shows "parse_network_byte_order ub 2 (insert_bytes 2 x) = x"
  unfolding insert_bytes_2 parse_two_bytes
  by (rule bit_word_eqI) (auto simp: bit_simps dest: bit_unat_bound[OF assms])

lemma insert_bytes_8:
  "insert_bytes 8 x = [ucast (drop_bit 56 x), ucast (drop_bit 48 x), ucast (drop_bit 40 x), ucast (drop_bit 32 x),
     ucast (drop_bit 24 x), ucast (drop_bit 16 x), ucast (drop_bit 8 x), ucast x]"
  using insert_bytes_Suc[of 7 x] insert_bytes_Suc[of 6 x] insert_bytes_Suc[of 5 x] insert_bytes_Suc[of 4 x]
    insert_bytes_Suc[of 3 x] insert_bytes_Suc[of 2 x] insert_bytes_Suc[of 1 x] insert_bytes_Suc[of 0 x]
  by (simp add: numeral_eq_Suc)

lemma insert_bytes_4:
  "insert_bytes 4 x = [ucast (drop_bit 24 x), ucast (drop_bit 16 x), ucast (drop_bit 8 x), ucast x]"
  using insert_bytes_Suc[of 3 x] insert_bytes_Suc[of 2 x] insert_bytes_Suc[of 1 x] insert_bytes_Suc[of 0 x]
  by (simp add: numeral_eq_Suc)

text \<open>
  Eight-byte lengths below \<open>2 ^ 31\<close> are read back correctly: the bytes whose shift is undefined
  are zero, whatever \<open>ub_shl\<close> makes of a zero, provided it is zero.
\<close>

lemma parse_insert_8:
  assumes "unat x < 2 ^ 31" and ub: "\<And>n. ub n 0 = 0"
  shows "parse_network_byte_order ub 8 (insert_bytes 8 x) = x"
proof -
  have z: "(ucast (drop_bit 56 x) :: u8) = 0" "(ucast (drop_bit 48 x) :: u8) = 0"
    "(ucast (drop_bit 40 x) :: u8) = 0" "(ucast (drop_bit 32 x) :: u8) = 0"
    by (rule bit_word_eqI, auto simp: bit_simps dest: bit_unat_bound[OF assms(1)])+
  have b7: "\<not> bit (ucast (drop_bit 24 x) :: u8) 7"
    by (auto simp: bit_simps dest: bit_unat_bound[OF assms(1)])
  have "parse_network_byte_order ub 8 (insert_bytes 8 x)
     = (push_bit 24 (ucast (ucast (drop_bit 24 x) :: u8)) OR push_bit 16 (ucast (ucast (drop_bit 16 x) :: u8))
       OR push_bit 8 (ucast (ucast (drop_bit 8 x) :: u8)) OR push_bit 0 (ucast (ucast x :: u8)) :: u64)"
    unfolding insert_bytes_8 parse_network_byte_order_def z
    using scast_shifted_byte[of 24 "ucast (drop_bit 24 x)"] b7 scast_shifted_byte[of 0 "ucast x"]
    by (simp add: int_shl_def ub scast_shifted_byte or.assoc)
  also have "\<dots> = x"
  proof (rule bit_word_eqI)
    fix n :: nat assume "n < LENGTH(64)"
    consider "n < 8" | "8 \<le> n" "n < 16" | "16 \<le> n" "n < 24" | "24 \<le> n" "n < 32" | "32 \<le> n" by linarith
    then show "bit (push_bit 24 (ucast (ucast (drop_bit 24 x) :: u8)) OR push_bit 16 (ucast (ucast (drop_bit 16 x) :: u8))
       OR push_bit 8 (ucast (ucast (drop_bit 8 x) :: u8)) OR push_bit 0 (ucast (ucast x :: u8)) :: u64) n = bit x n"
      using \<open>n < LENGTH(64)\<close> by cases (auto simp: bit_simps dest: bit_unat_bound[OF assms(1)])
  qed
  finally show ?thesis .
qed

text \<open>A four-byte masking key, which the code reads with \<^verbatim>\<open>parse_network_byte_order<8>\<close>.\<close>

lemma parse_key:
  fixes key :: u32
  shows "ucast (parse_network_byte_order x86_shl 8 (insert_bytes 4 (ucast key))) = key"
proof -
  have low: "(ucast (scast w :: u64) :: u32) = w" for w :: u32
  proof (rule bit_word_eqI)
    fix n assume "n < LENGTH(32)"
    then have "min 31 n = n" "n < 32" by simp_all
    then show "bit (ucast (scast w :: u64) :: u32) n \<longleftrightarrow> bit w n"
      by (auto simp: bit_signed_iff bit_unsigned_iff dest: bit_imp_le_length)
  qed
  have u32_or: "(ucast (a OR b) :: u32) = ucast a OR ucast b" for a b :: u64
    by (rule bit_word_eqI) (auto simp: bit_simps)
  have "ucast (parse_network_byte_order x86_shl 8 (insert_bytes 4 (ucast key)))
     = (push_bit 24 (ucast (ucast (drop_bit 24 key) :: u8)) OR push_bit 16 (ucast (ucast (drop_bit 16 key) :: u8))
       OR push_bit 8 (ucast (ucast (drop_bit 8 key) :: u8)) OR ucast (ucast key :: u8) :: u32)"
  proof -
    have d: "(ucast (drop_bit k (ucast key :: u64)) :: u8) = ucast (drop_bit k key)" for k
      by (rule bit_word_eqI) (auto simp: bit_simps dest: bit_imp_le_length)
    have d0: "(ucast (ucast key :: u64) :: u8) = ucast key"
      by (rule bit_word_eqI) (auto simp: bit_simps)
    show ?thesis
      unfolding insert_bytes_4 parse_network_byte_order_def d d0
      by (simp add: int_shl_def x86_shl_def u32_or low or.assoc)
  qed
  also have "\<dots> = key"
  proof (rule bit_word_eqI)
    fix n :: nat assume "n < LENGTH(32)"
    then consider "n < 8" | "8 \<le> n" "n < 16" | "16 \<le> n" "n < 24" | "24 \<le> n" "n < 32" by fastforce
    then show "bit (push_bit 24 (ucast (ucast (drop_bit 24 key) :: u8)) OR push_bit 16 (ucast (ucast (drop_bit 16 key) :: u8))
       OR push_bit 8 (ucast (ucast (drop_bit 8 key) :: u8)) OR ucast (ucast key :: u8) :: u32) n = bit key n"
      by cases (auto simp: bit_simps)
  qed
  finally show ?thesis .
qed

section \<open>Characters and bytes\<close>

text \<open>
  A \<^verbatim>\<open>char\<close> of a buffer and the \<^verbatim>\<open>byte_t\<close> it is cast to are the same number.
\<close>

definition to_byte :: "char \<Rightarrow> u8" where
  "to_byte c = word_of_nat (of_char c)"

definition of_byte :: "u8 \<Rightarrow> char" where
  "of_byte b = char_of (unat b)"

lemma of_char_256 [simp]: "(of_char c :: nat) < 256"
  by (metis char_of_take_bit_eq of_char_of char_of_char mod_less_divisor zero_less_numeral)

lemma of_byte_to_byte [simp]: "of_byte (to_byte c) = c"
  by (simp add: of_byte_def to_byte_def unsigned_of_nat take_bit_nat_eq_self)

lemma to_byte_of_byte [simp]: "to_byte (of_byte b) = b"
proof -
  have "unat b < 256" using unsigned_less[of b] by simp
  then have "(of_char (char_of (unat b)) :: nat) = unat b" by (simp add: of_char_of)
  then show ?thesis by (simp add: of_byte_def to_byte_def)
qed

lemma map_to_of_byte [simp]: "map to_byte (map of_byte bs) = bs" "map of_byte (map to_byte cs) = cs"
  by (simp_all add: comp_def)

end
