(* ===== verification/Streambuf.thy ===== *)
theory Streambuf
  imports Bytes
begin

text \<open>
  util/streambuf.hpp and util/double_buffer.hpp: the byte buffer under every connection and
  parser.  The model keeps the memory of the \<^verbatim>\<open>std::vector\<close> and the three stream positions
  as offsets, exactly as \<^verbatim>\<open>reserve\<close> computes them: \<open>sb_gnext\<close> (\<^verbatim>\<open>gptr\<close>), \<open>sb_pnext\<close>
  (\<^verbatim>\<open>pptr\<close>) and \<open>sb_pend\<close> (\<^verbatim>\<open>epptr\<close>).  \<^verbatim>\<open>egptr\<close> is not kept: \<^verbatim>\<open>underflow\<close> moves it to
  \<^verbatim>\<open>pptr\<close> before any character is reported missing, so no operation depends on it.
  \<open>None\<close> is the \<^verbatim>\<open>std::length_error\<close> of \<^verbatim>\<open>reserve\<close>, which terminates the program when it
  leaves the \<^verbatim>\<open>noexcept\<close> function \<^verbatim>\<open>prepare\<close>.

  \<open>sb_data\<close> is the abstraction to the bytes the buffer holds.  The locale \<open>byte_store\<close> is the
  interface the parsers and services rely on; it is interpreted on these definitions at the end.
\<close>

section \<open>The buffer\<close>

record streambuf =
  sb_mem :: "u8 list"
  sb_gnext :: nat
  sb_pnext :: nat
  sb_pend :: nat
  sb_max :: nat

definition size_max :: nat where
  "size_max = 2 ^ 64 - 1"

definition buffer_delta :: nat where
  "buffer_delta = 128"

text \<open>\<^verbatim>\<open>std::vector<char>::max_size()\<close>: a longer \<^verbatim>\<open>resize\<close> throws \<^verbatim>\<open>std::length_error\<close>.\<close>

definition vector_max :: nat where
  "vector_max = 2 ^ 63 - 1"

definition sb_new :: "nat \<Rightarrow> streambuf" where
  "sb_new max_size = (let pend = min max_size buffer_delta in
     \<lparr>sb_mem = replicate (max pend 1) 0, sb_gnext = 0, sb_pnext = 0, sb_pend = pend, sb_max = max_size\<rparr>)"

definition sb_size :: "streambuf \<Rightarrow> nat" where
  "sb_size sb = sb_pnext sb - sb_gnext sb"

definition sb_data :: "streambuf \<Rightarrow> u8 list" where
  "sb_data sb = take (sb_size sb) (drop (sb_gnext sb) (sb_mem sb))"

definition vector_resize :: "nat \<Rightarrow> u8 list \<Rightarrow> u8 list" where
  "vector_resize n v = take n v @ replicate (n - length v) 0"

definition sb_reserve :: "nat \<Rightarrow> streambuf \<Rightarrow> streambuf option" where
  "sb_reserve n sb =
     (let gnext = sb_gnext sb; pnext = sb_pnext sb; pend = sb_pend sb in
      if n \<le> pend - pnext then Some sb
      else
        let pnext' = (if 0 < gnext then pnext - gnext else pnext);
            mem' = (if 0 < gnext then take pnext' (drop gnext (sb_mem sb)) @ drop pnext' (sb_mem sb)
                    else sb_mem sb)
        in if pend - pnext' < n
           then if n \<le> sb_max sb \<and> pnext' \<le> sb_max sb - n \<and> pnext' + n \<le> vector_max
                then Some (sb\<lparr>sb_mem := vector_resize (max (pnext' + n) 1) mem',
                              sb_gnext := 0, sb_pnext := pnext', sb_pend := pnext' + n\<rparr>)
                else None
           else Some (sb\<lparr>sb_mem := mem', sb_gnext := 0, sb_pnext := pnext'\<rparr>))"

definition sb_prepare :: "nat \<Rightarrow> streambuf \<Rightarrow> streambuf option" where
  "sb_prepare n sb = sb_reserve n sb"

text \<open>A store through the pointer that \<^verbatim>\<open>prepare\<close> returns, at index \<open>i\<close> of the output sequence.\<close>

definition list_write :: "nat \<Rightarrow> 'a list \<Rightarrow> 'a list \<Rightarrow> 'a list" where
  "list_write i bs v = take i v @ bs @ drop (i + length bs) v"

definition sb_store :: "nat \<Rightarrow> u8 list \<Rightarrow> streambuf \<Rightarrow> streambuf" where
  "sb_store i bs sb = sb\<lparr>sb_mem := list_write (sb_pnext sb + i) bs (sb_mem sb)\<rparr>"

text \<open>
  \<^verbatim>\<open>pbump\<close> and \<^verbatim>\<open>gbump\<close> take an \<^verbatim>\<open>int\<close>: a move of \<open>2 ^ 31\<close> bytes or more is cast to a move of
  another length, backwards for up to \<open>2 ^ 32\<close>.  A position in front of the vector, which only
  such a cast can produce, is cut off at 0.
\<close>

definition int_cast :: "nat \<Rightarrow> int" where
  "int_cast n = sint (word_of_nat n :: 32 word)"

definition bump :: "nat \<Rightarrow> int \<Rightarrow> nat" where
  "bump p d = nat (int p + d)"

definition int_max :: nat where
  "int_max = 2 ^ 31 - 1"

definition sb_commit :: "nat \<Rightarrow> streambuf \<Rightarrow> streambuf" where
  "sb_commit n sb = sb\<lparr>sb_pnext := bump (sb_pnext sb) (int_cast (min n (sb_pend sb - sb_pnext sb)))\<rparr>"

definition sb_uncommit :: "nat \<Rightarrow> streambuf \<Rightarrow> streambuf" where
  "sb_uncommit n sb = sb\<lparr>sb_pnext := bump (sb_pnext sb) (- int_cast (min n (sb_size sb)))\<rparr>"

definition sb_consume :: "nat \<Rightarrow> streambuf \<Rightarrow> streambuf" where
  "sb_consume n sb = sb\<lparr>sb_gnext := bump (sb_gnext sb)
     (int_cast (if sb_pnext sb < sb_gnext sb + n then sb_size sb else n))\<rparr>"

definition sb_reset :: "streambuf \<Rightarrow> streambuf" where
  "sb_reset sb = sb_consume (sb_size sb) sb"

definition sb_make_new :: "streambuf \<Rightarrow> streambuf" where
  "sb_make_new sb = sb_new size_max"

definition sb_overflow :: "u8 \<Rightarrow> streambuf \<Rightarrow> streambuf option" where
  "sb_overflow c sb =
     (let grown = (if sb_pnext sb = sb_pend sb then
          let buffer_size = sb_size sb; delta = sb_max sb - buffer_size in
          if buffer_size < sb_max sb \<and> delta < buffer_delta then sb_reserve delta sb
          else sb_reserve buffer_delta sb
        else Some sb)
      in map_option (\<lambda>sb'. sb'\<lparr>sb_mem := (sb_mem sb')[sb_pnext sb' := c], sb_pnext := sb_pnext sb' + 1\<rparr>) grown)"

text \<open>\<^verbatim>\<open>std::streambuf::sputc\<close>, and a copy through \<^verbatim>\<open>std::ostreambuf_iterator\<close>.\<close>

definition sb_sputc :: "u8 \<Rightarrow> streambuf \<Rightarrow> streambuf option" where
  "sb_sputc c sb =
     (if sb_pnext sb < sb_pend sb
      then Some (sb\<lparr>sb_mem := (sb_mem sb)[sb_pnext sb := c], sb_pnext := sb_pnext sb + 1\<rparr>)
      else sb_overflow c sb)"

fun sb_put :: "u8 list \<Rightarrow> streambuf \<Rightarrow> streambuf option" where
  "sb_put [] sb = Some sb"
| "sb_put (c # cs) sb = (case sb_sputc c sb of None \<Rightarrow> None | Some sb' \<Rightarrow> sb_put cs sb')"

text \<open>\<^verbatim>\<open>sgetn\<close>: the bytes read and the advanced buffer.\<close>

definition sb_sgetn :: "nat \<Rightarrow> streambuf \<Rightarrow> u8 list \<times> streambuf" where
  "sb_sgetn n sb = (take n (sb_data sb), sb\<lparr>sb_gnext := sb_gnext sb + min n (sb_size sb)\<rparr>)"

section \<open>The invariant\<close>

definition sb_ok :: "streambuf \<Rightarrow> bool" where
  "sb_ok sb \<longleftrightarrow> sb_gnext sb \<le> sb_pnext sb \<and> sb_pnext sb \<le> sb_pend sb \<and> sb_pend sb \<le> length (sb_mem sb)
     \<and> sb_size sb \<le> sb_max sb"

lemma sb_ok_new: "sb_ok (sb_new m)"
  by (simp add: sb_ok_def sb_new_def Let_def sb_size_def)

lemma sb_data_new [simp]: "sb_data (sb_new m) = []"
  by (simp add: sb_data_def sb_size_def sb_new_def Let_def)

lemma length_sb_data [simp]: "sb_ok sb \<Longrightarrow> length (sb_data sb) = sb_size sb"
  by (auto simp: sb_ok_def sb_data_def sb_size_def)

lemma length_vector_resize [simp]: "length (vector_resize n v) = n"
  by (simp add: vector_resize_def)

lemma take_vector_resize: "k \<le> n \<Longrightarrow> k \<le> length v \<Longrightarrow> take k (vector_resize n v) = take k v"
  by (simp add: vector_resize_def min_def)

text \<open>Reserving never changes the contents and makes room for what was asked.\<close>

lemma sb_reserve_correct:
  assumes "sb_ok sb" "sb_reserve n sb = Some sb'"
  shows "sb_ok sb' \<and> sb_data sb' = sb_data sb \<and> sb_size sb' = sb_size sb \<and> n \<le> sb_pend sb' - sb_pnext sb'
    \<and> sb_max sb' = sb_max sb"
proof (cases "n \<le> sb_pend sb - sb_pnext sb")
  case True
  with assms show ?thesis by (simp add: sb_reserve_def)
next
  case False
  let ?p = "sb_pnext sb - sb_gnext sb"
  let ?m = "take ?p (drop (sb_gnext sb) (sb_mem sb)) @ drop ?p (sb_mem sb)"
  have ok: "sb_gnext sb \<le> sb_pnext sb" "sb_pnext sb \<le> sb_pend sb" "sb_pend sb \<le> length (sb_mem sb)"
    "?p \<le> sb_max sb"
    using assms(1) by (auto simp: sb_ok_def sb_size_def)
  have len: "length ?m = length (sb_mem sb)" using ok by simp
  have m: "(if 0 < sb_gnext sb then ?m else sb_mem sb) = ?m" by simp
  have pn: "(if 0 < sb_gnext sb then ?p else sb_pnext sb) = ?p" by simp
  have mp: "(if 0 < sb_gnext sb then take (if 0 < sb_gnext sb then ?p else sb_pnext sb) (drop (sb_gnext sb) (sb_mem sb))
      @ drop (if 0 < sb_gnext sb then ?p else sb_pnext sb) (sb_mem sb) else sb_mem sb) = ?m" by simp
  have take_m: "take ?p ?m = take ?p (drop (sb_gnext sb) (sb_mem sb))" using ok by simp
  show ?thesis
  proof (cases "sb_pend sb - ?p < n")
    case True
    then have max: "n \<le> sb_max sb" "?p \<le> sb_max sb - n"
      and sb': "sb' = sb\<lparr>sb_mem := vector_resize (max (?p + n) 1) ?m, sb_gnext := 0, sb_pnext := ?p, sb_pend := ?p + n\<rparr>"
      using assms(2) False unfolding sb_reserve_def Let_def pn mp by (auto split: if_splits)
    have tk: "take ?p (vector_resize (max (?p + n) (Suc 0)) ?m) = take ?p (drop (sb_gnext sb) (sb_mem sb))"
      using len ok take_m by (subst take_vector_resize) linarith+
    have "sb_ok sb'" using max ok by (simp add: sb' sb_ok_def sb_size_def)
    moreover have "sb_data sb' = sb_data sb" by (simp add: sb' sb_data_def sb_size_def tk)
    moreover have "sb_size sb' = sb_size sb" "n \<le> sb_pend sb' - sb_pnext sb'" "sb_max sb' = sb_max sb"
      by (simp_all add: sb' sb_size_def)
    ultimately show ?thesis by blast
  next
    case F: False
    then have sb': "sb' = sb\<lparr>sb_mem := ?m, sb_gnext := 0, sb_pnext := ?p\<rparr>"
      using assms(2) False unfolding sb_reserve_def Let_def pn mp by (auto split: if_splits)
    have "sb_ok sb'" using ok len by (simp add: sb' sb_ok_def sb_size_def)
    moreover have "sb_data sb' = sb_data sb" using ok by (simp add: sb' sb_data_def sb_size_def)
    moreover have "sb_size sb' = sb_size sb" "n \<le> sb_pend sb' - sb_pnext sb'" "sb_max sb' = sb_max sb"
      using F by (simp_all add: sb' sb_size_def)
    ultimately show ?thesis by blast
  qed
qed

text \<open>A store behind the contents does not change them; committing it appends it.\<close>

lemma length_list_write [simp]: "i + length bs \<le> length v \<Longrightarrow> length (list_write i bs v) = length v"
  by (simp add: list_write_def)

lemma take_list_write: "k \<le> i \<Longrightarrow> i \<le> length v \<Longrightarrow> take k (list_write i bs v) = take k v"
  by (simp add: list_write_def min_def)

lemma drop_list_write: "i \<le> length v \<Longrightarrow> drop i (list_write i bs v) = bs @ drop (i + length bs) v"
  by (simp add: list_write_def)

lemma list_write_one: "i < length v \<Longrightarrow> list_write i [c] v = v[i := c]"
  by (simp add: list_write_def upd_conv_take_nth_drop)

lemma sb_data_take_drop: "sb_data sb = drop (sb_gnext sb) (take (sb_pnext sb) (sb_mem sb))"
  by (simp add: sb_data_def sb_size_def drop_take)

lemma int_cast_small [simp]: "n \<le> int_max \<Longrightarrow> int_cast n = int n"
  by (simp add: int_cast_def int_max_def signed_of_nat signed_take_bit_int_eq_self_iff)

lemma bump_int [simp]: "bump p (int n) = p + n" "bump p (- int n) = p - n"
  by (simp_all add: bump_def)

lemma sb_commit_small:
  "min n (sb_pend sb - sb_pnext sb) \<le> int_max \<Longrightarrow>
    sb_commit n sb = sb\<lparr>sb_pnext := sb_pnext sb + min n (sb_pend sb - sb_pnext sb)\<rparr>"
  by (simp only: sb_commit_def int_cast_small bump_int)

lemma sb_uncommit_small:
  "min n (sb_size sb) \<le> int_max \<Longrightarrow> sb_uncommit n sb = sb\<lparr>sb_pnext := sb_pnext sb - min n (sb_size sb)\<rparr>"
  by (simp only: sb_uncommit_def int_cast_small bump_int)

lemma sb_consume_small:
  assumes "sb_gnext sb \<le> sb_pnext sb" "min n (sb_size sb) \<le> int_max"
  shows "sb_consume n sb = sb\<lparr>sb_gnext := sb_gnext sb + min n (sb_size sb)\<rparr>"
proof -
  have "(if sb_pnext sb < sb_gnext sb + n then sb_size sb else n) = min n (sb_size sb)"
    using assms(1) by (auto simp: sb_size_def)
  with assms(2) show ?thesis by (simp only: sb_consume_def int_cast_small bump_int)
qed

lemma sb_commit_store:
  assumes ok: "sb_ok sb" and room: "length bs \<le> sb_pend sb - sb_pnext sb"
    and max: "sb_size sb + length bs \<le> sb_max sb" and small: "length bs \<le> int_max"
  shows "sb_ok (sb_commit (length bs) (sb_store 0 bs sb))"
    and "sb_data (sb_commit (length bs) (sb_store 0 bs sb)) = sb_data sb @ bs"
    and "sb_commit (length bs) (sb_store 0 bs sb) = sb\<lparr>sb_mem := list_write (sb_pnext sb) bs (sb_mem sb), sb_pnext := sb_pnext sb + length bs\<rparr>"
proof -
  let ?sb = "sb_commit (length bs) (sb_store 0 bs sb)"
  have o: "sb_gnext sb \<le> sb_pnext sb" "sb_pnext sb \<le> sb_pend sb" "sb_pend sb \<le> length (sb_mem sb)"
    using ok by (auto simp: sb_ok_def)
  have m: "min (length bs) (sb_pend sb - sb_pnext sb) = length bs" using room by simp
  then show c: "?sb = sb\<lparr>sb_mem := list_write (sb_pnext sb) bs (sb_mem sb), sb_pnext := sb_pnext sb + length bs\<rparr>"
    using small by (subst sb_commit_small) (simp_all add: sb_store_def)
  have l: "sb_pnext sb + length bs \<le> length (sb_mem sb)" using o room by linarith
  show "sb_ok ?sb"
    unfolding c using o l max room by (simp add: sb_ok_def sb_size_def)
  have "take (sb_pnext sb + length bs) (list_write (sb_pnext sb) bs (sb_mem sb)) = take (sb_pnext sb) (sb_mem sb) @ bs"
    using l by (simp add: list_write_def)
  then show "sb_data ?sb = sb_data sb @ bs"
    unfolding c using o by (simp add: sb_data_take_drop)
qed

lemma sb_consume_correct:
  assumes "sb_ok sb" "min n (sb_size sb) \<le> int_max"
  shows "sb_ok (sb_consume n sb)" and "sb_data (sb_consume n sb) = drop n (sb_data sb)"
proof -
  have o: "sb_gnext sb \<le> sb_pnext sb" "sb_pnext sb \<le> sb_pend sb" "sb_pend sb \<le> length (sb_mem sb)"
    "sb_size sb \<le> sb_max sb" using assms by (auto simp: sb_ok_def)
  note c = sb_consume_small[OF o(1) assms(2)]
  show "sb_ok (sb_consume n sb)"
    unfolding c using o by (auto simp: sb_ok_def sb_size_def)
  have "drop (min n (sb_size sb)) (sb_data sb) = drop n (sb_data sb)"
    using length_sb_data[OF assms(1)] by (simp add: min_def)
  then show "sb_data (sb_consume n sb) = drop n (sb_data sb)"
    unfolding c by (simp add: sb_data_take_drop add.commute)
qed

lemma sb_uncommit_correct:
  assumes "sb_ok sb" "min n (sb_size sb) \<le> int_max"
  shows "sb_ok (sb_uncommit n sb)" and "sb_data (sb_uncommit n sb) = take (sb_size sb - n) (sb_data sb)"
proof -
  have o: "sb_gnext sb \<le> sb_pnext sb" "sb_pnext sb \<le> sb_pend sb" "sb_pend sb \<le> length (sb_mem sb)"
    "sb_size sb \<le> sb_max sb" using assms by (auto simp: sb_ok_def)
  note c = sb_uncommit_small[OF assms(2)]
  show "sb_ok (sb_uncommit n sb)"
    unfolding c using o by (auto simp: sb_ok_def sb_size_def)
  have "sb_pnext sb - min n (sb_size sb) - sb_gnext sb = sb_size sb - n"
    using o by (auto simp: sb_size_def)
  then show "sb_data (sb_uncommit n sb) = take (sb_size sb - n) (sb_data sb)"
    unfolding c by (simp add: sb_data_def sb_size_def)
qed

lemma sb_reset_correct:
  "sb_ok sb \<Longrightarrow> sb_size sb \<le> int_max \<Longrightarrow> sb_ok (sb_reset sb) \<and> sb_data (sb_reset sb) = []"
  unfolding sb_reset_def by (simp add: sb_consume_correct)

lemma sb_sgetn_correct:
  assumes "sb_ok sb"
  shows "fst (sb_sgetn n sb) = take n (sb_data sb)" and "sb_data (snd (sb_sgetn n sb)) = drop n (sb_data sb)"
    and "sb_ok (snd (sb_sgetn n sb))"
proof -
  have o: "sb_gnext sb \<le> sb_pnext sb" "sb_pnext sb \<le> sb_pend sb" "sb_pend sb \<le> length (sb_mem sb)"
    "sb_size sb \<le> sb_max sb" using assms by (auto simp: sb_ok_def)
  show "fst (sb_sgetn n sb) = take n (sb_data sb)" by (simp add: sb_sgetn_def)
  show "sb_ok (snd (sb_sgetn n sb))"
    using o by (auto simp: sb_ok_def sb_sgetn_def sb_size_def)
  have "drop (min n (sb_size sb)) (sb_data sb) = drop n (sb_data sb)"
    using length_sb_data[OF assms] by (simp add: min_def)
  then show "sb_data (snd (sb_sgetn n sb)) = drop n (sb_data sb)"
    by (simp add: sb_sgetn_def sb_data_take_drop add.commute)
qed

lemma sb_sputc_correct:
  assumes ok: "sb_ok sb" and put: "sb_sputc c sb = Some sb'" and max: "sb_size sb < sb_max sb"
  shows "sb_ok sb' \<and> sb_data sb' = sb_data sb @ [c] \<and> sb_max sb' = sb_max sb"
proof -
  have step: "sb_ok t \<and> sb_data t = sb_data s @ [c] \<and> sb_max t = sb_max s"
    if "sb_ok s" "sb_pnext s < sb_pend s" "sb_size s < sb_max s"
      "t = s\<lparr>sb_mem := (sb_mem s)[sb_pnext s := c], sb_pnext := sb_pnext s + 1\<rparr>" for s t
  proof -
    have "sb_pnext s < length (sb_mem s)" using that(1,2) by (simp add: sb_ok_def)
    moreover have "length [c] \<le> sb_pend s - sb_pnext s" "sb_size s + length [c] \<le> sb_max s" "length [c] \<le> int_max"
      using that(2,3) by (simp_all add: int_max_def)
    note sb_commit_store[OF that(1) this]
    ultimately show ?thesis
      using that(4) by (simp add: list_write_one)
  qed
  show ?thesis
  proof (cases "sb_pnext sb < sb_pend sb")
    case True
    with put have "sb' = sb\<lparr>sb_mem := (sb_mem sb)[sb_pnext sb := c], sb_pnext := sb_pnext sb + 1\<rparr>"
      by (simp add: sb_sputc_def)
    from step[OF ok True max this] show ?thesis .
  next
    case False
    then have full: "sb_pnext sb = sb_pend sb" using ok by (simp add: sb_ok_def)
    let ?n = "if sb_max sb - sb_size sb < buffer_delta then sb_max sb - sb_size sb else buffer_delta"
    from put False full max obtain s where
      r: "sb_reserve ?n sb = Some s"
      and sb': "sb' = s\<lparr>sb_mem := (sb_mem s)[sb_pnext s := c], sb_pnext := sb_pnext s + 1\<rparr>"
      by (auto simp: sb_sputc_def sb_overflow_def Let_def split: if_splits)
    have "0 < ?n" using max by (simp add: buffer_delta_def)
    with sb_reserve_correct[OF ok r] have s: "sb_ok s" "sb_pnext s < sb_pend s" "sb_size s < sb_max s"
      "sb_data s = sb_data sb" "sb_max s = sb_max sb"
      using max by auto
    from step[OF s(1-3) sb'] s(4,5) show ?thesis by simp
  qed
qed

lemma sb_put_correct:
  assumes "sb_ok sb" "sb_put cs sb = Some sb'" "sb_size sb + length cs \<le> sb_max sb"
  shows "sb_ok sb' \<and> sb_data sb' = sb_data sb @ cs \<and> sb_max sb' = sb_max sb"
  using assms
proof (induction cs arbitrary: sb)
  case (Cons c cs)
  then obtain s where s: "sb_sputc c sb = Some s" "sb_put cs s = Some sb'"
    by (auto split: option.splits)
  have "sb_size sb < sb_max sb" using Cons.prems(3) by simp
  from sb_sputc_correct[OF Cons.prems(1) s(1) this]
  have c: "sb_ok s" "sb_data s = sb_data sb @ [c]" "sb_max s = sb_max sb" by auto
  then have "sb_size s = sb_size sb + 1" using length_sb_data[OF c(1)] length_sb_data[OF Cons.prems(1)] by simp
  with Cons.IH[OF c(1) s(2)] Cons.prems(3) c show ?case by simp
qed simp

text \<open>No exception while the maximum size is not exceeded.\<close>

definition sb_capacity :: "streambuf \<Rightarrow> nat" where
  "sb_capacity sb = (if sb_max sb \<le> vector_max then sb_max sb else vector_max - buffer_delta)"

lemma sb_capacity_le: "sb_capacity sb \<le> sb_max sb"
  by (auto simp: sb_capacity_def)

lemma sb_reserve_Some:
  "sb_ok sb \<Longrightarrow> sb_size sb + n \<le> sb_max sb \<Longrightarrow> sb_size sb + n \<le> vector_max \<Longrightarrow> \<exists>sb'. sb_reserve n sb = Some sb'"
  by (auto simp: sb_reserve_def Let_def sb_size_def sb_ok_def)

lemma sb_sputc_Some:
  assumes "sb_ok sb" "sb_size sb < sb_capacity sb"
  shows "\<exists>sb'. sb_sputc c sb = Some sb'"
proof (cases "sb_pnext sb < sb_pend sb")
  case True
  then show ?thesis by (simp add: sb_sputc_def)
next
  case False
  show ?thesis
  proof (cases "sb_max sb - sb_size sb < buffer_delta")
    case True
    then have "sb_size sb + (sb_max sb - sb_size sb) \<le> vector_max"
      using assms(2) by (auto simp: sb_capacity_def split: if_splits)
    with assms sb_capacity_le[of sb] obtain s where "sb_reserve (sb_max sb - sb_size sb) sb = Some s"
      using sb_reserve_Some[of sb "sb_max sb - sb_size sb"] by auto
    with True False assms sb_capacity_le[of sb] show ?thesis by (auto simp: sb_sputc_def sb_overflow_def Let_def)
  next
    case F: False
    then have "sb_size sb + buffer_delta \<le> sb_max sb" "sb_size sb + buffer_delta \<le> vector_max"
      using assms(2) by (auto simp: sb_capacity_def buffer_delta_def vector_max_def split: if_splits)
    with assms obtain s where "sb_reserve buffer_delta sb = Some s"
      using sb_reserve_Some[of sb buffer_delta] by auto
    with F False assms show ?thesis by (auto simp: sb_sputc_def sb_overflow_def Let_def)
  qed
qed

lemma sb_put_Some: "sb_ok sb \<Longrightarrow> sb_size sb + length cs \<le> sb_capacity sb \<Longrightarrow> \<exists>sb'. sb_put cs sb = Some sb'"
proof (induction cs arbitrary: sb)
  case (Cons c cs)
  then have lt: "sb_size sb < sb_capacity sb" by simp
  from sb_sputc_Some[OF Cons.prems(1) this] obtain s where s: "sb_sputc c sb = Some s" by blast
  have "sb_size sb < sb_max sb" using lt sb_capacity_le[of sb] by linarith
  from sb_sputc_correct[OF Cons.prems(1) s this]
  have c: "sb_ok s" "sb_data s = sb_data sb @ [c]" "sb_max s = sb_max sb" by auto
  moreover have "sb_size s = sb_size sb + 1"
    using length_sb_data[OF c(1)] length_sb_data[OF Cons.prems(1)] c(2) by simp
  ultimately have "sb_size s + length cs \<le> sb_capacity s"
    using Cons.prems(2) c(3) by (simp add: sb_capacity_def split: if_splits)
  from Cons.IH[OF c(1) this] s show ?case by auto
qed simp

section \<open>The interface: a store of bytes\<close>

text \<open>
  \<open>stream_copy\<close> is \<^verbatim>\<open>std::copy\<close> from an \<^verbatim>\<open>istreambuf_iterator\<close> to an
  \<^verbatim>\<open>ostreambuf_iterator\<close>: everything the source holds, until it is empty.
\<close>

definition stream_copy ::
  "('q \<Rightarrow> u8 list) \<Rightarrow> (nat \<Rightarrow> 'q \<Rightarrow> u8 list \<times> 'q) \<Rightarrow> (u8 list \<Rightarrow> 'r \<Rightarrow> 'r option) \<Rightarrow> 'q \<Rightarrow> 'r \<Rightarrow> ('q \<times> 'r) option" where
  "stream_copy content get put src dst =
     (let (bs, src') = get (length (content src)) src in map_option (\<lambda>dst'. (src', dst')) (put bs dst))"

locale byte_store =
  fixes content :: "'q \<Rightarrow> u8 list"
    and ok :: "'q \<Rightarrow> bool"
    and capacity :: "'q \<Rightarrow> nat"
    and put :: "u8 list \<Rightarrow> 'q \<Rightarrow> 'q option"
    and get :: "nat \<Rightarrow> 'q \<Rightarrow> u8 list \<times> 'q"
  assumes put_total: "ok q \<Longrightarrow> length (content q) + length bs \<le> capacity q \<Longrightarrow> \<exists>q'. put bs q = Some q'"
    and put_content: "ok q \<Longrightarrow> length (content q) + length bs \<le> capacity q \<Longrightarrow> put bs q = Some q' \<Longrightarrow>
      ok q' \<and> content q' = content q @ bs \<and> capacity q' = capacity q"
    and get_content: "ok q \<Longrightarrow> fst (get n q) = take n (content q) \<and> content (snd (get n q)) = drop n (content q)
      \<and> ok (snd (get n q)) \<and> capacity (snd (get n q)) = capacity q"
begin

text \<open>Bytes come out in the order they went in.\<close>

lemma put_get:
  assumes "ok q" "length (content q) + length bs \<le> capacity q" "content q = []"
  shows "\<exists>q' q''. put bs q = Some q' \<and> get (length bs) q' = (bs, q'') \<and> ok q'' \<and> content q'' = []"
proof -
  from put_total[OF assms(1,2)] obtain q' where q': "put bs q = Some q'" by blast
  from put_content[OF assms(1,2) this] assms(3) have c: "ok q'" "content q' = bs" by auto
  with get_content[OF c(1), of "length bs"] show ?thesis
    using q' by (cases "get (length bs) q'") auto
qed

lemma copy_all:
  assumes "ok src" "ok dst" "length (content dst) + length (content src) \<le> capacity dst"
  shows "\<exists>src' dst'. stream_copy content get put src dst = Some (src', dst') \<and> ok src' \<and> ok dst'
    \<and> content src' = [] \<and> content dst' = content dst @ content src"
proof -
  obtain bs src' where g: "get (length (content src)) src = (bs, src')" by fastforce
  with get_content[OF assms(1), of "length (content src)"]
  have s: "bs = content src" "content src' = []" "ok src'" by auto
  from put_total[OF assms(2)] assms(3) s(1) obtain dst' where d: "put bs dst = Some dst'" by blast
  with put_content[OF assms(2)] assms(3) s(1) have "ok dst'" "content dst' = content dst @ bs" by blast+
  with g s d show ?thesis by (simp add: stream_copy_def)
qed

end

interpretation sbuf: byte_store sb_data sb_ok sb_capacity sb_put sb_sgetn
proof
  fix q :: streambuf and bs :: "u8 list" assume h: "sb_ok q" "length (sb_data q) + length bs \<le> sb_capacity q"
  then show "\<exists>q'. sb_put bs q = Some q'" by (intro sb_put_Some) simp_all
  fix q' :: streambuf assume p: "sb_put bs q = Some q'"
  have "sb_size q + length bs \<le> sb_max q" using h sb_capacity_le[of q] by simp
  from sb_put_correct[OF h(1) p this] show "sb_ok q' \<and> sb_data q' = sb_data q @ bs \<and> sb_capacity q' = sb_capacity q"
    by (simp add: sb_capacity_def)
next
  fix q :: streambuf and n :: nat assume "sb_ok q"
  with sb_sgetn_correct[OF this, of n] show "fst (sb_sgetn n q) = take n (sb_data q)
      \<and> sb_data (snd (sb_sgetn n q)) = drop n (sb_data q)
      \<and> sb_ok (snd (sb_sgetn n q)) \<and> sb_capacity (snd (sb_sgetn n q)) = sb_capacity q"
    by (simp add: sb_sgetn_def sb_capacity_def)
qed

section \<open>Double buffers\<close>

text \<open>
  util/double_buffer.hpp: two buffers and which of them is the input.  The element type is a
  parameter: the frame parser's model uses it over byte lists.
\<close>

record 'b double_buffer =
  db_first :: 'b
  db_second :: 'b
  db_current :: nat

definition double_buffer_make :: "'b \<Rightarrow> 'b \<Rightarrow> 'b double_buffer" where
  "double_buffer_make input output = \<lparr>db_first = input, db_second = output, db_current = 0\<rparr>"

definition db_swap :: "'b double_buffer \<Rightarrow> 'b double_buffer" where
  "db_swap d = d\<lparr>db_current := (if db_current d = 0 then 1 else 0)\<rparr>"

definition db_is_swapped :: "'b double_buffer \<Rightarrow> bool" where
  "db_is_swapped d \<longleftrightarrow> db_current d = 1"

definition db_input :: "'b double_buffer \<Rightarrow> 'b" where
  "db_input d = (if db_current d = 0 then db_first d else db_second d)"

definition db_output :: "'b double_buffer \<Rightarrow> 'b" where
  "db_output d = (if db_current d = 0 then db_second d else db_first d)"

definition db_set :: "'b \<Rightarrow> 'b \<Rightarrow> 'b double_buffer \<Rightarrow> 'b double_buffer" where
  "db_set input output d = (if db_current d = 0 then d\<lparr>db_first := input, db_second := output\<rparr>
     else d\<lparr>db_first := output, db_second := input\<rparr>)"

text \<open>\<^verbatim>\<open>move_and_swap\<close> over real buffers.\<close>

definition db_move_and_swap :: "streambuf double_buffer \<Rightarrow> streambuf double_buffer option" where
  "db_move_and_swap d = map_option (\<lambda>(src, dst). db_swap (db_set src dst d))
     (stream_copy sb_data sb_sgetn sb_put (db_input d) (db_output d))"

lemma db_input_set [simp]: "db_input (db_set i out d) = i" "db_output (db_set i out d) = out"
  by (simp_all add: db_input_def db_output_def db_set_def)

lemma db_swap_io [simp]: "db_current d \<le> 1 \<Longrightarrow> db_input (db_swap d) = db_output d"
  "db_current d \<le> 1 \<Longrightarrow> db_output (db_swap d) = db_input d"
  by (auto simp: db_swap_def db_input_def db_output_def)

lemma db_current_bounds [simp]: "db_current (db_swap d) \<le> 1" "db_current (db_set i out d) = db_current d"
  by (simp_all add: db_swap_def db_set_def)

end
