(* ===== verification/Segment.thy ===== *)
theory Segment
  imports Streambuf Strings Numbers
begin

text \<open>
  util/buffer_segment.{hpp,cpp}: a piece of input that is collected over several reads.

  The sources are the standard library's: a \<^verbatim>\<open>std::streambuf\<close> is the list of characters it still
  holds, a \<^verbatim>\<open>std::istream\<close> that list with its \<^verbatim>\<open>eofbit\<close> and \<^verbatim>\<open>failbit\<close>.

  \<^item> \<open>segment\<close> is what the parsers see: the committed characters, the characters read but not
    committed (which lie behind the put pointer in the buffer's memory), the completion flag.  It is
    polymorphic in the character: HTTP parses \<open>char\<close>, WebSocket \<open>u8\<close>.
  \<^item> \<open>base_segment\<close> is the class itself, over the memory model of \<open>Streambuf\<close>; the refinement
    theorems show that each of its operations is the one on \<open>segment\<close>.
  \<^item> \<open>cs_read_up_to_bytes\<close> is \<^verbatim>\<open>const_buffer_segment\<close>, which is only modelled on the memory.

  \<open>None\<close> is a call that does not return: \<^verbatim>\<open>std::length_error\<close> leaving the \<^verbatim>\<open>noexcept\<close> function
  \<^verbatim>\<open>prepare\<close>, or an empty delimiter (undefined behaviour of \<^verbatim>\<open>*delim.rbegin()\<close>).
\<close>

section \<open>Streams\<close>

record 'a istream =
  in_data :: "'a list"
  in_eof :: bool
  in_fail :: bool

definition istream_of :: "'a list \<Rightarrow> 'a istream" where
  "istream_of d = \<lparr>in_data = d, in_eof = False, in_fail = False\<rparr>"

definition in_good :: "'a istream \<Rightarrow> bool" where
  "in_good i \<longleftrightarrow> \<not> in_eof i \<and> \<not> in_fail i"

lemma istream_of_simps [simp]: "in_data (istream_of d) = d" "in_good (istream_of d)"
  "\<not> in_eof (istream_of d)" "\<not> in_fail (istream_of d)"
  by (simp_all add: istream_of_def in_good_def)

text \<open>\<^verbatim>\<open>std::getline\<close>: the delimiter is extracted, not stored.\<close>

definition in_getline :: "'a \<Rightarrow> 'a istream \<Rightarrow> 'a list \<times> 'a istream" where
  "in_getline delim i = (if \<not> in_good i then ([], i\<lparr>in_fail := True\<rparr>)
     else case find_index (\<lambda>x. x = delim) (in_data i) of
       None \<Rightarrow> (in_data i, i\<lparr>in_data := [], in_eof := True, in_fail := (in_data i = [])\<rparr>)
     | Some k \<Rightarrow> (take k (in_data i), i\<lparr>in_data := drop (Suc k) (in_data i)\<rparr>))"

text \<open>\<^verbatim>\<open>istream::read\<close>; a negative count, to which the subtraction of the callers may lead,
  reads nothing and fails.\<close>

definition in_read :: "int \<Rightarrow> 'a istream \<Rightarrow> 'a list \<times> 'a istream" where
  "in_read n i = (if \<not> in_good i then ([], i\<lparr>in_fail := True\<rparr>)
     else let bs = take (nat n) (in_data i); short = (int (length bs) \<noteq> n) in
       (bs, i\<lparr>in_data := drop (nat n) (in_data i), in_eof := short, in_fail := short\<rparr>))"

text \<open>Everything an \<^verbatim>\<open>istream_iterator<char>\<close> delivers: \<^verbatim>\<open>operator>>\<close> skips white space.\<close>

definition in_iterate :: "('a \<Rightarrow> bool) \<Rightarrow> 'a istream \<Rightarrow> 'a list \<times> 'a istream" where
  "in_iterate space i = (if \<not> in_good i then ([], i\<lparr>in_fail := True\<rparr>)
     else (filter (\<lambda>c. \<not> space c) (in_data i), i\<lparr>in_data := [], in_eof := True, in_fail := True\<rparr>))"

section \<open>Segments as the parsers see them\<close>

record 'a segment =
  seg_complete :: bool
  seg_data :: "'a list"
  seg_pending :: "'a list"
  seg_last :: nat

definition seg_new :: "'a segment" where
  "seg_new = \<lparr>seg_complete = False, seg_data = [], seg_pending = [], seg_last = 0\<rparr>"

definition seg_reset :: "'a segment \<Rightarrow> 'a segment" where
  "seg_reset s = s\<lparr>seg_complete := False, seg_data := [], seg_pending := []\<rparr>"

definition seg_commit_buffer :: "'a segment \<Rightarrow> 'a segment" where
  "seg_commit_buffer s = s\<lparr>seg_data := seg_data s @ seg_pending s, seg_pending := []\<rparr>"

definition seg_commit :: "'a segment \<Rightarrow> 'a segment" where
  "seg_commit s = (seg_commit_buffer s)\<lparr>seg_complete := True\<rparr>"

definition seg_mark_as_complete :: "'a segment \<Rightarrow> 'a segment" where
  "seg_mark_as_complete s = s\<lparr>seg_complete := True\<rparr>"

definition seg_mark_as_incomplete :: "'a segment \<Rightarrow> 'a segment" where
  "seg_mark_as_incomplete s = s\<lparr>seg_complete := False\<rparr>"

definition seg_room :: "nat \<Rightarrow> 'a segment \<Rightarrow> bool" where
  "seg_room n s \<longleftrightarrow> length (seg_data s) + n \<le> vector_max"

definition seg_read_bytes :: "nat \<Rightarrow> 'a list \<Rightarrow> 'a segment \<Rightarrow> (bool \<times> 'a list \<times> 'a segment) option" where
  "seg_read_bytes bytes inp s =
     (if seg_complete s then Some (True, inp, s)
      else if bytes = 0 then Some (True, inp, seg_mark_as_complete s)
      else if \<not> seg_room bytes s then None
      else let n = bytes - length (seg_pending s); bs = take n inp;
             s1 = s\<lparr>seg_last := length bs, seg_pending := seg_pending s @ bs\<rparr>
           in if length (seg_pending s1) = bytes then Some (True, drop n inp, seg_commit s1)
              else Some (False, drop n inp, s1))"

definition seg_in_bytes :: "nat \<Rightarrow> 'a istream \<Rightarrow> 'a segment \<Rightarrow> (bool \<times> 'a istream \<times> 'a segment) option" where
  "seg_in_bytes bytes i s =
     (if seg_complete s then Some (True, i, s)
      else if bytes = 0 then Some (True, i, seg_mark_as_complete s)
      else if \<not> seg_room bytes s then None
      else let (bs, i1) = in_read (int bytes - int (length (seg_pending s))) i;
             c = (\<not> in_fail i1 \<and> \<not> in_eof i1);
             s1 = s\<lparr>seg_complete := c, seg_last := length bs, seg_pending := seg_pending s @ bs\<rparr>
           in Some (c, i1, if c then seg_commit_buffer s1 else s1))"

definition seg_in_until_char :: "'a \<Rightarrow> 'a istream \<Rightarrow> 'a segment \<Rightarrow> bool \<times> 'a istream \<times> 'a segment" where
  "seg_in_until_char delim i s =
     (if seg_complete s then (True, i, s)
      else let (temp, i1) = in_getline delim i; c = (\<not> in_fail i1 \<and> \<not> in_eof i1) in
        (c, i1, s\<lparr>seg_complete := c, seg_data := seg_data s @ temp, seg_last := length temp, seg_pending := []\<rparr>))"

definition ends_with_delim :: "'a list \<Rightarrow> 'a list \<Rightarrow> bool" where
  "ends_with_delim delim d \<longleftrightarrow> drop (length d - length delim) d = delim"

lemma in_getline_less:
  "in_getline delim i = (next, i1) \<Longrightarrow> \<not> in_fail i1 \<Longrightarrow> \<not> in_eof i1 \<Longrightarrow> length (in_data i1) < length (in_data i)"
  by (auto simp: in_getline_def in_good_def find_index_Some split: if_splits option.splits)

function seg_in_until_loop :: "'a list \<Rightarrow> 'a istream \<Rightarrow> 'a segment \<Rightarrow> bool \<times> 'a istream \<times> 'a segment" where
  "seg_in_until_loop delim i s =
     (let (next, i1) = in_getline (last delim) i; success = (\<not> in_fail i1); eof = in_eof i1;
        s1 = (if success then s\<lparr>seg_data := seg_data s @ next @ (if eof then [] else [last delim]),
                               seg_last := length next + (if eof then 0 else 1), seg_pending := []\<rparr> else s)
      in if \<not> success \<or> eof then (False, i1, s1)
         else if length (seg_data s1) < length delim \<or> \<not> ends_with_delim delim (seg_data s1)
              then seg_in_until_loop delim i1 s1
         else (True, i1, s1\<lparr>seg_complete := True,
                seg_data := take (length (seg_data s1) - length delim) (seg_data s1)\<rparr>))"
  by pat_completeness auto
termination
  by (relation "measure (\<lambda>(delim, i, s). length (in_data i))") (auto dest: in_getline_less[OF sym])

declare seg_in_until_loop.simps [simp del]

definition seg_in_until :: "'a list \<Rightarrow> 'a istream \<Rightarrow> 'a segment \<Rightarrow> (bool \<times> 'a istream \<times> 'a segment) option" where
  "seg_in_until delim i s = (if seg_complete s then Some (True, i, s)
     else if delim = [] then None else Some (seg_in_until_loop delim i s))"

text \<open>The versions over a stream buffer make a stream of their own.\<close>

definition seg_until_char :: "'a \<Rightarrow> 'a list \<Rightarrow> 'a segment \<Rightarrow> bool \<times> 'a list \<times> 'a segment" where
  "seg_until_char delim inp s = (case seg_in_until_char delim (istream_of inp) s of (r, i, s') \<Rightarrow> (r, in_data i, s'))"

definition seg_until :: "'a list \<Rightarrow> 'a list \<Rightarrow> 'a segment \<Rightarrow> (bool \<times> 'a list \<times> 'a segment) option" where
  "seg_until delim inp s =
     map_option (\<lambda>(r, i, s'). (r, in_data i, s')) (seg_in_until delim (istream_of inp) s)"

definition seg_read_all :: "'a list \<Rightarrow> 'a segment \<Rightarrow> 'a list \<times> 'a segment" where
  "seg_read_all inp s = (if seg_complete s then (inp, s)
     else ([], s\<lparr>seg_data := seg_data s @ inp, seg_complete := True, seg_pending := []\<rparr>))"

definition seg_in_all :: "('a \<Rightarrow> bool) \<Rightarrow> 'a istream \<Rightarrow> 'a segment \<Rightarrow> 'a istream \<times> 'a segment" where
  "seg_in_all space i s = (if seg_complete s then (i, s)
     else let (bs, i1) = in_iterate space i in
       (i1, s\<lparr>seg_data := seg_data s @ bs, seg_complete := True, seg_pending := []\<rparr>))"

section \<open>Reading up to a delimiter\<close>

text \<open>
  The reference: take characters until the collected ones end with the delimiter.  The result is
  whether it was found, the rest of the input and the collected characters without the delimiter.
\<close>

fun until_ref :: "'a list \<Rightarrow> 'a list \<Rightarrow> 'a list \<Rightarrow> bool \<times> 'a list \<times> 'a list" where
  "until_ref delim d [] = (False, [], d)"
| "until_ref delim d (c # cs) =
     (if c = last delim \<and> length delim \<le> Suc (length d) \<and> ends_with_delim delim (d @ [c])
      then (True, cs, take (Suc (length d) - length delim) (d @ [c]))
      else until_ref delim (d @ [c]) cs)"

lemma until_ref_skip: "last delim \<notin> set xs \<Longrightarrow> until_ref delim d (xs @ ys) = until_ref delim (d @ xs) ys"
  by (induction xs arbitrary: d) auto

lemma until_ref_skip_all: "last delim \<notin> set xs \<Longrightarrow> until_ref delim d xs = (False, [], d @ xs)"
  using until_ref_skip[of delim xs d "[]"] by simp

lemma until_ref_False: "until_ref delim d xs = (False, rest, d') \<Longrightarrow> rest = [] \<and> d' = d @ xs"
proof (induction xs arbitrary: d)
  case (Cons a xs)
  then have "until_ref delim (d @ [a]) xs = (False, rest, d')" by (simp split: if_splits)
  from Cons.IH[OF this] show ?case by simp
qed simp

lemma until_ref_more: "until_ref delim d xs = (False, rest, d') \<Longrightarrow> until_ref delim d (xs @ ys) = until_ref delim d' ys"
  by (induction xs arbitrary: d) (auto split: if_splits)

lemma until_ref_done: "until_ref delim d xs = (True, rest, d') \<Longrightarrow> until_ref delim d (xs @ ys) = (True, rest @ ys, d')"
  by (induction xs arbitrary: d) (auto split: if_splits)

lemma in_getline_found:
  "x \<notin> set xs \<Longrightarrow> in_getline x (istream_of (xs @ x # ys)) = (xs, istream_of ys)"
  by (simp add: in_getline_def istream_of_def in_good_def)

lemma in_getline_end:
  "x \<notin> set xs \<Longrightarrow> in_getline x (istream_of xs) = (xs, \<lparr>in_data = [], in_eof = True, in_fail = (xs = [])\<rparr>)"
  by (simp add: in_getline_def istream_of_def in_good_def)

lemma seg_in_until_loop_ref:
  assumes "seg_pending s = []" "\<not> seg_complete s"
  shows "\<exists>n fl. seg_in_until_loop delim (istream_of inp) s =
    (case until_ref delim (seg_data s) inp of (r, rest, d) \<Rightarrow>
       (r, \<lparr>in_data = rest, in_eof = \<not> r, in_fail = fl\<rparr>,
        s\<lparr>seg_complete := r, seg_data := d, seg_last := n\<rparr>))
    \<and> (fst (until_ref delim (seg_data s) inp) \<longrightarrow> \<not> fl)"
  using assms
proof (induction "length inp" arbitrary: inp s rule: less_induct)
  case less
  let ?x = "last delim"
  show ?case
  proof (cases "?x \<in> set inp")
    case False
    have "seg_in_until_loop delim (istream_of inp) s = (False, \<lparr>in_data = [], in_eof = True, in_fail = (inp = [])\<rparr>,
        s\<lparr>seg_data := seg_data s @ inp, seg_last := if inp = [] then seg_last s else length inp\<rparr>)"
      using less.prems in_getline_end[OF False]
      by (subst seg_in_until_loop.simps) (simp add: Let_def)
    then show ?thesis
      using less.prems until_ref_skip_all[OF False, of "seg_data s"]
      by (intro exI[of _ "if inp = [] then seg_last s else length inp"] exI[of _ "inp = []"]) simp
  next
    case True
    then obtain xs ys where inp: "inp = xs @ ?x # ys" and xs: "?x \<notin> set xs"
      by (meson split_list_first)
    define s1 where "s1 = s\<lparr>seg_data := seg_data s @ xs @ [?x], seg_last := length xs + 1\<rparr>"
    have s1: "seg_pending s1 = []" "\<not> seg_complete s1" "s\<lparr>seg_data := seg_data s @ xs @ [?x], seg_last := length xs + 1,
        seg_pending := []\<rparr> = s1"
      using less.prems by (simp_all add: s1_def)
    have step: "seg_in_until_loop delim (istream_of inp) s =
        (if length (seg_data s1) < length delim \<or> \<not> ends_with_delim delim (seg_data s1)
         then seg_in_until_loop delim (istream_of ys) s1
         else (True, istream_of ys, s1\<lparr>seg_complete := True,
                seg_data := take (length (seg_data s1) - length delim) (seg_data s1)\<rparr>))"
      using s1(3) in_getline_found[OF xs, of ys]
      by (subst seg_in_until_loop.simps) (simp add: Let_def inp)
    have ref: "until_ref delim (seg_data s) inp =
        (if length (seg_data s1) < length delim \<or> \<not> ends_with_delim delim (seg_data s1)
         then until_ref delim (seg_data s1) ys
         else (True, ys, take (length (seg_data s1) - length delim) (seg_data s1)))"
      unfolding inp until_ref_skip[OF xs] by (auto simp: s1_def)
    show ?thesis
    proof (cases "length (seg_data s1) < length delim \<or> \<not> ends_with_delim delim (seg_data s1)")
      case True
      have "length ys < length inp" by (simp add: inp)
      from less.hyps[OF this s1(1,2)] show ?thesis
        unfolding step ref if_P[OF True] by (auto simp: s1_def split: prod.splits)
    next
      case False
      then show ?thesis
        unfolding step ref if_not_P[OF False]
        by (intro exI[of _ "length xs + 1"] exI[of _ False]) (simp add: s1_def istream_of_def)
    qed
  qed
qed

lemma seg_until_ref:
  assumes "delim \<noteq> []" "seg_pending s = []" "\<not> seg_complete s"
  shows "\<exists>n. seg_until delim inp s = (case until_ref delim (seg_data s) inp of (r, rest, d) \<Rightarrow>
       Some (r, rest, s\<lparr>seg_complete := r, seg_data := d, seg_last := n\<rparr>))"
proof -
  from seg_in_until_loop_ref[OF assms(2,3), of delim inp] obtain n fl where
    "seg_in_until_loop delim (istream_of inp) s =
    (case until_ref delim (seg_data s) inp of (r, rest, d) \<Rightarrow>
       (r, \<lparr>in_data = rest, in_eof = \<not> r, in_fail = fl\<rparr>,
        s\<lparr>seg_complete := r, seg_data := d, seg_last := n\<rparr>))" by blast
  then show ?thesis
    using assms by (intro exI[of _ n]) (auto simp: seg_until_def seg_in_until_def split: prod.splits)
qed

text \<open>The same on a stream that is good, which stays good when the delimiter is found.\<close>

lemma seg_in_until_found:
  assumes "delim \<noteq> []" "seg_pending s = []" "\<not> seg_complete s"
    "until_ref delim (seg_data s) inp = (True, rest, d)"
  shows "\<exists>n. seg_in_until delim (istream_of inp) s =
    Some (True, istream_of rest, s\<lparr>seg_complete := True, seg_data := d, seg_last := n\<rparr>)"
  using seg_in_until_loop_ref[OF assms(2,3), of delim inp] assms
  by (auto simp: seg_in_until_def istream_of_def)

section \<open>The interface: an incremental reader\<close>

text \<open>
  What the parsers rely on: how the input is cut into pieces does not matter.  \<open>feed\<close> gives a reader
  the pieces as they come from the socket, until it is done; the pieces behind that point stay
  unread.
\<close>

fun feed :: "('a list \<Rightarrow> 's \<Rightarrow> (bool \<times> 'a list \<times> 's) option) \<Rightarrow> 'a list \<Rightarrow> 'a list list \<Rightarrow> 's \<Rightarrow>
    (bool \<times> 'a list \<times> 's) option" where
  "feed read c [] s = read c s"
| "feed read c (d # ds) s = (case read c s of
     None \<Rightarrow> None
   | Some (r, rest, s') \<Rightarrow> if r then Some (True, rest @ concat (d # ds), s') else feed read d ds s')"

locale incremental_reader =
  fixes read :: "'a list \<Rightarrow> 's \<Rightarrow> (bool \<times> 'a list \<times> 's) option" and inv :: "'s \<Rightarrow> bool"
  assumes read_total: "inv s \<Longrightarrow> read xs s \<noteq> None"
    and read_inv: "inv s \<Longrightarrow> read xs s = Some (r, rest, s') \<Longrightarrow> inv s'"
    and read_more: "inv s \<Longrightarrow> read xs s = Some (False, rest, s') \<Longrightarrow> rest = [] \<and> read (xs @ ys) s = read ys s'"
    and read_done: "inv s \<Longrightarrow> read xs s = Some (True, rest, s') \<Longrightarrow> read (xs @ ys) s = Some (True, rest @ ys, s')"
begin

lemma feed_read: "inv s \<Longrightarrow> feed read c ds s = read (c @ concat ds) s"
proof (induction ds arbitrary: c s)
  case (Cons d ds)
  from read_total[OF Cons.prems] obtain r rest s' where r: "read c s = Some (r, rest, s')" by (metis not_None_eq prod_cases3)
  show ?case
  proof (cases r)
    case True
    with read_done[OF Cons.prems] r show ?thesis by simp
  next
    case False
    with r have "read c s = Some (False, rest, s')" by simp
    from read_more[OF Cons.prems this] have "read (c @ concat (d # ds)) s = read (concat (d # ds)) s'" by blast
    with Cons.IH[OF read_inv[OF Cons.prems r], of d] r False show ?thesis by simp
  qed
qed simp

lemma feed_cut: "inv s \<Longrightarrow> concat (c # ds) = concat (c' # ds') \<Longrightarrow> feed read c ds s = feed read c' ds' s"
  by (simp add: feed_read)

end

text \<open>
  The readers of a segment, up to \<open>bytes_last_read\<close>, which tells how much the last call read and so
  depends on the cut.
\<close>

definition forget_last :: "(bool \<times> 'b \<times> 'a segment) option \<Rightarrow> (bool \<times> 'b \<times> 'a segment) option" where
  "forget_last = map_option (\<lambda>(r, rest, s). (r, rest, s\<lparr>seg_last := 0\<rparr>))"

definition until_reader :: "'a list \<Rightarrow> 'a list \<Rightarrow> 'a segment \<Rightarrow> (bool \<times> 'a list \<times> 'a segment) option" where
  "until_reader delim inp s = forget_last (seg_until delim inp s)"

definition bytes_reader :: "nat \<Rightarrow> 'a list \<Rightarrow> 'a segment \<Rightarrow> (bool \<times> 'a list \<times> 'a segment) option" where
  "bytes_reader n inp s = forget_last (seg_read_bytes n inp s)"

definition bytes_inv :: "nat \<Rightarrow> 'a segment \<Rightarrow> bool" where
  "bytes_inv n s \<longleftrightarrow> seg_complete s \<or> n = 0 \<or> length (seg_pending s) < n \<and> seg_room n s"

lemma until_reader_ref:
  assumes "delim \<noteq> []" "seg_pending s = []"
  shows "until_reader delim inp s = (if seg_complete s then Some (True, inp, s\<lparr>seg_last := 0\<rparr>)
    else case until_ref delim (seg_data s) inp of (r, rest, d) \<Rightarrow>
      Some (r, rest, s\<lparr>seg_complete := r, seg_data := d, seg_last := 0\<rparr>))"
proof (cases "seg_complete s")
  case True
  then show ?thesis by (simp add: until_reader_def forget_last_def seg_until_def seg_in_until_def)
next
  case False
  from seg_until_ref[OF assms False, of inp] show ?thesis
    using False by (auto simp: until_reader_def forget_last_def split: prod.splits)
qed

lemma bytes_reader_ref:
  assumes "bytes_inv n s"
  shows "bytes_reader n inp s = (if seg_complete s then Some (True, inp, s\<lparr>seg_last := 0\<rparr>)
    else if n = 0 then Some (True, inp, s\<lparr>seg_complete := True, seg_last := 0\<rparr>)
    else let p = seg_pending s @ inp in
      if n \<le> length p then Some (True, drop n p, s\<lparr>seg_complete := True, seg_data := seg_data s @ take n p,
        seg_pending := [], seg_last := 0\<rparr>)
      else Some (False, [], s\<lparr>seg_pending := p, seg_last := 0\<rparr>))"
proof (cases "seg_complete s \<or> n = 0")
  case True
  then show ?thesis
    by (auto simp: bytes_reader_def forget_last_def seg_read_bytes_def seg_mark_as_complete_def)
next
  case False
  with assms have lt: "length (seg_pending s) < n" and room: "seg_room n s" by (auto simp: bytes_inv_def)
  let ?k = "n - length (seg_pending s)"
  have split: "take n (seg_pending s @ inp) = seg_pending s @ take ?k inp"
    "drop n (seg_pending s @ inp) = drop ?k inp"
    using lt by simp_all
  have len: "length (seg_pending s @ take ?k inp) = n \<longleftrightarrow> n \<le> length (seg_pending s @ inp)"
    using lt by (auto simp: min_def)
  show ?thesis
  proof (cases "n \<le> length (seg_pending s @ inp)")
    case True
    with len have "length (seg_pending s @ take ?k inp) = n" by blast
    with False True room show ?thesis
      by (simp add: bytes_reader_def forget_last_def seg_read_bytes_def seg_commit_def seg_commit_buffer_def Let_def split)
  next
    case short: False
    with len have "length (seg_pending s @ take ?k inp) \<noteq> n" by blast
    moreover have "take ?k inp = inp" "drop ?k inp = []" using short lt by auto
    ultimately show ?thesis using False short room
      by (simp add: bytes_reader_def forget_last_def seg_read_bytes_def Let_def)
  qed
qed

interpretation until_rd: incremental_reader "until_reader delim" "\<lambda>s. delim \<noteq> [] \<and> seg_pending s = []"
  for delim :: "'a list"
proof
  fix s :: "'a segment" and xs ys rest :: "'a list" and r s'
  assume "delim \<noteq> [] \<and> seg_pending s = []"
  then have inv: "delim \<noteq> []" "seg_pending s = []" by auto
  note ref = until_reader_ref[OF this]
  show "until_reader delim xs s \<noteq> None" by (auto simp: ref split: prod.splits)
  show "delim \<noteq> [] \<and> seg_pending s' = []" if "until_reader delim xs s = Some (r, rest, s')"
    using that inv by (auto simp: ref split: prod.splits if_splits)
  show "until_reader delim (xs @ ys) s = Some (True, rest @ ys, s')" if "until_reader delim xs s = Some (True, rest, s')"
    using that by (auto simp: ref until_ref_done split: prod.splits if_splits)
  show "rest = [] \<and> until_reader delim (xs @ ys) s = until_reader delim ys s'"
    if "until_reader delim xs s = Some (False, rest, s')"
  proof -
    from that obtain d where u: "until_ref delim (seg_data s) xs = (False, rest, d)"
      and s': "s' = s\<lparr>seg_complete := False, seg_data := d, seg_last := 0\<rparr>" and c: "\<not> seg_complete s"
      by (auto simp: ref split: prod.splits if_splits)
    have "seg_pending s' = []" using s' inv by simp
    from until_reader_ref[OF inv(1) this] until_ref_more[OF u] until_ref_False[OF u] s' c show ?thesis
      by (simp add: ref)
  qed
qed

interpretation bytes_rd: incremental_reader "bytes_reader n" "bytes_inv n" for n
proof
  fix s :: "'a segment" and xs ys rest :: "'a list" and r s'
  assume inv: "bytes_inv n s"
  note ref = bytes_reader_ref[OF this]
  show "bytes_reader n xs s \<noteq> None" by (auto simp: ref Let_def)
  show i': "bytes_inv n s'" if "bytes_reader n xs s = Some (r, rest, s')"
    using that inv by (auto simp: ref bytes_inv_def seg_room_def Let_def split: if_splits)
  show "bytes_reader n (xs @ ys) s = Some (True, rest @ ys, s')" if "bytes_reader n xs s = Some (True, rest, s')"
    using that by (auto simp: ref Let_def split: if_splits)
  show "rest = [] \<and> bytes_reader n (xs @ ys) s = bytes_reader n ys s'"
    if "bytes_reader n xs s = Some (False, rest, s')"
  proof -
    from that have s': "s' = s\<lparr>seg_pending := seg_pending s @ xs, seg_last := 0\<rparr>" "rest = []"
      and c: "\<not> seg_complete s" "n \<noteq> 0" "\<not> n \<le> length (seg_pending s @ xs)"
      by (auto simp: ref Let_def split: if_splits)
    have "bytes_inv n s'" using c inv by (simp add: s' bytes_inv_def seg_room_def)
    from bytes_reader_ref[OF this] c s' show ?thesis by (simp add: ref Let_def)
  qed
qed

section \<open>The first occurrence of the delimiter\<close>

lemma find_sub_Some:
  "find_sub d s = Some k \<longleftrightarrow> take (length d) (drop k s) = d \<and> k \<le> length s \<and> (\<forall>j<k. take (length d) (drop j s) \<noteq> d)"
proof (induction s arbitrary: k)
  case (Cons x xs)
  show ?case
  proof (cases k)
    case (Suc n)
    have "(\<forall>j<k. take (length d) (drop j (x # xs)) \<noteq> d) \<longleftrightarrow>
        take (length d) (x # xs) \<noteq> d \<and> (\<forall>j<n. take (length d) (drop j xs) \<noteq> d)"
      unfolding Suc All_less_Suc2 by simp
    with Suc Cons.IH[of n] show ?thesis by (simp del: take_Suc_Cons)
  qed auto
qed (auto simp: take_Cons')

lemma find_sub_None: "find_sub d s = None \<longleftrightarrow> (\<forall>j<Suc (length s). take (length d) (drop j s) \<noteq> d)"
proof (induction s)
  case (Cons x xs)
  have "(\<forall>j<Suc (length (x # xs)). take (length d) (drop j (x # xs)) \<noteq> d) \<longleftrightarrow>
      take (length d) (x # xs) \<noteq> d \<and> (\<forall>j<Suc (length xs). take (length d) (drop j xs) \<noteq> d)"
    unfolding All_less_Suc2[of "length (x # xs)"] by simp
  with Cons.IH show ?case by simp
qed (auto simp: take_Cons')

lemma ends_with_delim_take:
  "length delim \<le> length d \<Longrightarrow> ends_with_delim delim d \<longleftrightarrow> take (length delim) (drop (length d - length delim) d) = delim"
  by (simp add: ends_with_delim_def)

lemma find_sub_snoc:
  assumes "find_sub delim d = None"
  shows "find_sub delim (d @ [c]) = (if length delim \<le> Suc (length d) \<and> ends_with_delim delim (d @ [c])
    then Some (Suc (length d) - length delim) else None)"
proof -
  have ne: "take (length delim) (drop j d) \<noteq> delim" if "j < Suc (length d)" for j
    using assms that by (auto simp: find_sub_None)
  have ne0: "delim \<noteq> []" using ne[of 0] by auto
  have old: "take (length delim) (drop j (d @ [c])) \<noteq> delim" if "j + length delim < Suc (length d)" for j
    using ne[of j] that by simp
  have over: "take (length delim) (drop j (d @ [c])) \<noteq> delim" if "Suc (length d) < j + length delim" for j
  proof
    assume eq: "take (length delim) (drop j (d @ [c])) = delim"
    have "length (take (length delim) (drop j (d @ [c]))) \<le> Suc (length d) - j" by simp
    then have "length delim \<le> Suc (length d) - j" by (simp only: eq)
    moreover have "0 < length delim" using ne0 by simp
    ultimately show False using that by linarith
  qed
  show ?thesis
  proof (cases "length delim \<le> Suc (length d) \<and> ends_with_delim delim (d @ [c])")
    case True
    then have "take (length delim) (drop (Suc (length d) - length delim) (d @ [c])) = delim"
      using ends_with_delim_take[of delim "d @ [c]"] by simp
    then have "find_sub delim (d @ [c]) = Some (Suc (length d) - length delim)"
      using old by (simp add: find_sub_Some)
    with True show ?thesis by simp
  next
    case False
    have "take (length delim) (drop j (d @ [c])) \<noteq> delim" for j
    proof (cases "j + length delim = Suc (length d)")
      case True
      then have "length delim \<le> Suc (length d)" "j = Suc (length d) - length delim" by linarith+
      with False ends_with_delim_take[of delim "d @ [c]"] show ?thesis by simp
    next
      case False
      with old over show ?thesis by (meson linorder_neqE_nat)
    qed
    then have "find_sub delim (d @ [c]) = None" by (simp add: find_sub_None)
    with False show ?thesis by auto
  qed
qed

lemma find_sub_append: "find_sub delim d = Some k \<Longrightarrow> k + length delim \<le> length d \<Longrightarrow> find_sub delim (d @ e) = Some k"
  by (auto simp: find_sub_Some)

lemma until_ref_find_sub:
  assumes "find_sub delim d = None" "delim \<noteq> []"
  shows "until_ref delim d xs = (case find_sub delim (d @ xs) of
    None \<Rightarrow> (False, [], d @ xs)
  | Some k \<Rightarrow> (True, drop (k + length delim) (d @ xs), take k (d @ xs)))"
  using assms(1)
proof (induction xs arbitrary: d)
  case (Cons c cs)
  note snoc = find_sub_snoc[OF Cons.prems, of c]
  show ?case
  proof (cases "length delim \<le> Suc (length d) \<and> ends_with_delim delim (d @ [c])")
    case True
    then have "find_sub delim (d @ [c]) = Some (Suc (length d) - length delim)" using snoc by simp
    from find_sub_append[OF this, of cs] True
    have "find_sub delim (d @ c # cs) = Some (Suc (length d) - length delim)" by simp
    moreover have "drop (length (d @ [c]) - length delim) (d @ [c]) = delim"
      using True by (simp add: ends_with_delim_def)
    then have "last delim = c" using assms(2) True
      by (metis last_drop last_snoc length_drop less_imp_diff_less diff_less length_greater_0_conv snoc_eq_iff_butlast)
    moreover have "Suc 0 - length delim = 0" using assms(2) by (cases delim) auto
    ultimately show ?thesis using True by simp
  next
    case False
    then have "find_sub delim (d @ [c]) = None" using snoc by auto
    note none = this
    have e: "(d @ [c]) @ cs = d @ c # cs" by simp
    have "until_ref delim (d @ [c]) cs = (case find_sub delim (d @ c # cs) of
        None \<Rightarrow> (False, [], d @ c # cs)
      | Some k \<Rightarrow> (True, drop (k + length delim) (d @ c # cs), take k (d @ c # cs)))"
      using Cons.IH[OF none] unfolding e .
    with False show ?thesis by auto
  qed
qed simp

section \<open>The classes over the buffer's memory\<close>

record base_segment =
  bs_complete :: bool
  bs_buffer :: streambuf
  bs_in_buffer :: nat
  bs_last :: nat

definition bs_new :: base_segment where
  "bs_new = \<lparr>bs_complete = False, bs_buffer = sb_new size_max, bs_in_buffer = 0, bs_last = 0\<rparr>"

definition bytes_committed :: "base_segment \<Rightarrow> nat" where
  "bytes_committed s = sb_size (bs_buffer s)"

definition bs_reset :: "base_segment \<Rightarrow> base_segment" where
  "bs_reset s = s\<lparr>bs_complete := False, bs_buffer := sb_reset (bs_buffer s), bs_in_buffer := 0\<rparr>"

definition bs_commit_buffer :: "nat \<Rightarrow> base_segment \<Rightarrow> base_segment" where
  "bs_commit_buffer bytes s = s\<lparr>bs_buffer := sb_commit (min bytes (bs_in_buffer s)) (bs_buffer s), bs_in_buffer := 0\<rparr>"

definition bs_commit :: "base_segment \<Rightarrow> base_segment" where
  "bs_commit s = (bs_commit_buffer size_max s)\<lparr>bs_complete := True\<rparr>"

text \<open>The read into \<^verbatim>\<open>&sequence[bytes_in_buffer_]\<close>, behind the pending bytes.\<close>

definition bs_store :: "u8 list \<Rightarrow> base_segment \<Rightarrow> base_segment" where
  "bs_store bs s = s\<lparr>bs_buffer := sb_store (bs_in_buffer s) bs (bs_buffer s), bs_last := length bs,
     bs_in_buffer := bs_in_buffer s + length bs\<rparr>"

definition bs_read_bytes :: "nat \<Rightarrow> u8 list \<Rightarrow> base_segment \<Rightarrow> (bool \<times> u8 list \<times> base_segment) option" where
  "bs_read_bytes bytes inp s =
     (if bs_complete s then Some (True, inp, s)
      else if bytes = 0 then Some (True, inp, s\<lparr>bs_complete := True\<rparr>)
      else case sb_prepare bytes (bs_buffer s) of
        None \<Rightarrow> None
      | Some sb \<Rightarrow>
          let n = bytes - bs_in_buffer s; bs = take n inp;
            s1 = bs_store bs (s\<lparr>bs_buffer := sb\<rparr>)
          in if bs_in_buffer s1 = bytes then Some (True, drop n inp, bs_commit s1)
             else Some (False, drop n inp, s1))"

definition bs_in_bytes :: "nat \<Rightarrow> u8 istream \<Rightarrow> base_segment \<Rightarrow> (bool \<times> u8 istream \<times> base_segment) option" where
  "bs_in_bytes bytes i s =
     (if bs_complete s then Some (True, i, s)
      else if bytes = 0 then Some (True, i, s\<lparr>bs_complete := True\<rparr>)
      else case sb_prepare bytes (bs_buffer s) of
        None \<Rightarrow> None
      | Some sb \<Rightarrow>
          let (bs, i1) = in_read (int bytes - int (bs_in_buffer s)) i;
            c = (\<not> in_fail i1 \<and> \<not> in_eof i1);
            s1 = (bs_store bs (s\<lparr>bs_buffer := sb\<rparr>))\<lparr>bs_complete := c\<rparr>
          in Some (c, i1, if c then bs_commit_buffer size_max s1 else s1))"

definition bs_in_until_char :: "u8 \<Rightarrow> u8 istream \<Rightarrow> base_segment \<Rightarrow> (bool \<times> u8 istream \<times> base_segment) option" where
  "bs_in_until_char delim i s =
     (if bs_complete s then Some (True, i, s)
      else let (temp, i1) = in_getline delim i; c = (\<not> in_fail i1 \<and> \<not> in_eof i1) in
        map_option (\<lambda>sb. (c, i1, s\<lparr>bs_complete := c, bs_buffer := sb, bs_last := length temp, bs_in_buffer := 0\<rparr>))
          (sb_put temp (bs_buffer s)))"

function bs_in_until_loop :: "u8 list \<Rightarrow> u8 istream \<Rightarrow> base_segment \<Rightarrow> (bool \<times> u8 istream \<times> base_segment) option" where
  "bs_in_until_loop delim i s =
     (let (next, i1) = in_getline (last delim) i; success = (\<not> in_fail i1); eof = in_eof i1 in
      case (if success then
              map_option (\<lambda>sb. s\<lparr>bs_buffer := sb, bs_last := length next + (if eof then 0 else 1), bs_in_buffer := 0\<rparr>)
                (sb_put (next @ (if eof then [] else [last delim])) (bs_buffer s))
            else Some s) of
        None \<Rightarrow> None
      | Some s1 \<Rightarrow>
        if \<not> success \<or> eof then Some (False, i1, s1)
        else if sb_size (bs_buffer s1) < length delim \<or> \<not> ends_with_delim delim (sb_data (bs_buffer s1))
             then bs_in_until_loop delim i1 s1
        else Some (True, i1, s1\<lparr>bs_complete := True, bs_buffer := sb_uncommit (length delim) (bs_buffer s1)\<rparr>))"
  by pat_completeness auto
termination
  by (relation "measure (\<lambda>(delim, i, s). length (in_data i))") (auto dest: in_getline_less[OF sym])

declare bs_in_until_loop.simps [simp del]

definition bs_in_until :: "u8 list \<Rightarrow> u8 istream \<Rightarrow> base_segment \<Rightarrow> (bool \<times> u8 istream \<times> base_segment) option" where
  "bs_in_until delim i s = (if bs_complete s then Some (True, i, s)
     else if delim = [] then None else bs_in_until_loop delim i s)"

definition bs_in_all :: "(u8 \<Rightarrow> bool) \<Rightarrow> u8 istream \<Rightarrow> base_segment \<Rightarrow> (u8 istream \<times> base_segment) option" where
  "bs_in_all space i s = (if bs_complete s then Some (i, s)
     else let (bs, i1) = in_iterate space i in
       map_option (\<lambda>sb. (i1, s\<lparr>bs_buffer := sb, bs_complete := True, bs_in_buffer := 0\<rparr>)) (sb_put bs (bs_buffer s)))"

section \<open>The classes implement the segments\<close>

definition bs_abs :: "base_segment \<Rightarrow> u8 segment" where
  "bs_abs s = \<lparr>seg_complete = bs_complete s, seg_data = sb_data (bs_buffer s),
     seg_pending = take (bs_in_buffer s) (drop (sb_pnext (bs_buffer s)) (sb_mem (bs_buffer s))),
     seg_last = bs_last s\<rparr>"

definition bs_ok :: "base_segment \<Rightarrow> bool" where
  "bs_ok s \<longleftrightarrow> sb_ok (bs_buffer s) \<and> sb_max (bs_buffer s) = size_max \<and> length (sb_mem (bs_buffer s)) \<le> vector_max
     \<and> bs_in_buffer s \<le> sb_pend (bs_buffer s) - sb_pnext (bs_buffer s)"

text \<open>The room a pending read has reserved, so that the next \<open>prepare\<close> does not move the memory.\<close>

definition bs_reserved :: "nat \<Rightarrow> base_segment \<Rightarrow> bool" where
  "bs_reserved n s \<longleftrightarrow> bs_in_buffer s = 0 \<or> n \<le> sb_pend (bs_buffer s) - sb_pnext (bs_buffer s)"

definition abs_result :: "(bool \<times> 'b \<times> base_segment) option \<Rightarrow> (bool \<times> 'b \<times> u8 segment) option" where
  "abs_result = map_option (\<lambda>(r, rest, s). (r, rest, bs_abs s))"

lemmas limits = size_max_def vector_max_def int_max_def

lemma sb_reserve_mem:
  assumes "sb_reserve n sb = Some sb'" "sb_ok sb" "length (sb_mem sb) \<le> vector_max"
  shows "length (sb_mem sb') \<le> vector_max"
  using assms by (auto simp: sb_reserve_def Let_def sb_ok_def vector_max_def split: if_splits)

lemma take_drop_list_write:
  "p + k \<le> length v \<Longrightarrow> take (k + length bs) (drop p (list_write (p + k) bs v)) = take k (drop p v) @ bs"
  by (simp add: list_write_def drop_take)

lemma sb_commit_pending:
  assumes "sb_ok sb" "k \<le> sb_pend sb - sb_pnext sb" "k \<le> int_max" "sb_size sb + k \<le> sb_max sb"
  shows "sb_ok (sb_commit k sb)" and "sb_data (sb_commit k sb) = sb_data sb @ take k (drop (sb_pnext sb) (sb_mem sb))"
    and "sb_mem (sb_commit k sb) = sb_mem sb" and "sb_max (sb_commit k sb) = sb_max sb"
proof -
  have o: "sb_gnext sb \<le> sb_pnext sb" "sb_pnext sb \<le> sb_pend sb" "sb_pend sb \<le> length (sb_mem sb)"
    using assms(1) by (auto simp: sb_ok_def)
  have c: "sb_commit k sb = sb\<lparr>sb_pnext := sb_pnext sb + k\<rparr>"
    using assms(2,3) by (simp add: sb_commit_small)
  show "sb_ok (sb_commit k sb)" using o assms unfolding c by (simp add: sb_ok_def sb_size_def)
  show "sb_data (sb_commit k sb) = sb_data sb @ take k (drop (sb_pnext sb) (sb_mem sb))"
    using o unfolding c by (simp add: sb_data_take_drop take_add)
qed (simp_all add: sb_commit_def)

lemma bs_prepare:
  assumes ok: "bs_ok s" and res: "bs_reserved n s" and small: "n \<le> int_max" "sb_size (bs_buffer s) \<le> int_max"
  shows "\<exists>sb. sb_prepare n (bs_buffer s) = Some sb \<and> bs_ok (s\<lparr>bs_buffer := sb\<rparr>)
    \<and> bs_abs (s\<lparr>bs_buffer := sb\<rparr>) = bs_abs s \<and> n \<le> sb_pend sb - sb_pnext sb \<and> sb_size sb = sb_size (bs_buffer s)"
proof (cases "n \<le> sb_pend (bs_buffer s) - sb_pnext (bs_buffer s)")
  case True
  then have "sb_prepare n (bs_buffer s) = Some (bs_buffer s)" by (simp add: sb_prepare_def sb_reserve_def)
  with True ok show ?thesis by simp
next
  case False
  with res have z: "bs_in_buffer s = 0" by (simp add: bs_reserved_def)
  have b: "sb_ok (bs_buffer s)" "sb_max (bs_buffer s) = size_max" "length (sb_mem (bs_buffer s)) \<le> vector_max"
    using ok by (auto simp: bs_ok_def)
  have "sb_size (bs_buffer s) + n \<le> vector_max" using small by (simp add: limits)
  moreover have "sb_size (bs_buffer s) + n \<le> sb_max (bs_buffer s)" using small b(2) by (simp add: limits)
  ultimately obtain sb where sb: "sb_reserve n (bs_buffer s) = Some sb"
    using sb_reserve_Some[OF b(1)] by blast
  from sb_reserve_correct[OF b(1) sb] sb_reserve_mem[OF sb b(1,3)] b(2) z
  have "bs_ok (s\<lparr>bs_buffer := sb\<rparr>)" "bs_abs (s\<lparr>bs_buffer := sb\<rparr>) = bs_abs s" "n \<le> sb_pend sb - sb_pnext sb"
    "sb_size sb = sb_size (bs_buffer s)"
    by (simp_all add: bs_ok_def bs_abs_def)
  with sb show ?thesis by (simp add: sb_prepare_def)
qed

lemma bs_store_abs:
  assumes "bs_ok s" "bs_in_buffer s + length bs \<le> sb_pend (bs_buffer s) - sb_pnext (bs_buffer s)"
  shows "bs_ok (bs_store bs s)"
    and "bs_abs (bs_store bs s) = (bs_abs s)\<lparr>seg_last := length bs, seg_pending := seg_pending (bs_abs s) @ bs\<rparr>"
    and "sb_size (bs_buffer (bs_store bs s)) = sb_size (bs_buffer s)"
proof -
  let ?b = "bs_buffer s" and ?k = "bs_in_buffer s"
  have o: "sb_gnext ?b \<le> sb_pnext ?b" "sb_pnext ?b \<le> sb_pend ?b" "sb_pend ?b \<le> length (sb_mem ?b)"
    "sb_max ?b = size_max" "length (sb_mem ?b) \<le> vector_max" "sb_size ?b \<le> size_max"
    using assms(1) by (auto simp: bs_ok_def sb_ok_def)
  have len: "sb_pnext ?b + ?k + length bs \<le> length (sb_mem ?b)" using o assms(2) by linarith
  show "sb_size (bs_buffer (bs_store bs s)) = sb_size ?b" by (simp add: bs_store_def sb_store_def sb_size_def)
  show "bs_ok (bs_store bs s)"
    using o len assms(2) by (simp add: bs_ok_def sb_ok_def bs_store_def sb_store_def sb_size_def)
  have "take (sb_pnext ?b) (list_write (sb_pnext ?b + ?k) bs (sb_mem ?b)) = take (sb_pnext ?b) (sb_mem ?b)"
    using len by (intro take_list_write) linarith+
  then show "bs_abs (bs_store bs s) = (bs_abs s)\<lparr>seg_last := length bs, seg_pending := seg_pending (bs_abs s) @ bs\<rparr>"
    using len by (simp add: bs_abs_def bs_store_def sb_store_def sb_data_take_drop take_drop_list_write)
qed

lemma bs_commit_buffer_abs:
  assumes "bs_ok s" "bs_in_buffer s \<le> int_max" "sb_size (bs_buffer s) \<le> int_max"
  shows "bs_ok (bs_commit_buffer size_max s)"
    and "bs_abs (bs_commit_buffer size_max s) = seg_commit_buffer (bs_abs s)"
proof -
  have m: "min size_max (bs_in_buffer s) = bs_in_buffer s" using assms(2) by (simp add: limits)
  have "sb_size (bs_buffer s) + bs_in_buffer s \<le> sb_max (bs_buffer s)" using assms by (simp add: bs_ok_def limits)
  note c = sb_commit_pending[OF _ _ assms(2) this]
  have "sb_ok (bs_buffer s)" "bs_in_buffer s \<le> sb_pend (bs_buffer s) - sb_pnext (bs_buffer s)"
    using assms(1) by (auto simp: bs_ok_def)
  from c[OF this] assms(1) show "bs_ok (bs_commit_buffer size_max s)"
    "bs_abs (bs_commit_buffer size_max s) = seg_commit_buffer (bs_abs s)"
    by (simp_all add: bs_ok_def bs_commit_buffer_def m bs_abs_def seg_commit_buffer_def)
qed

lemma length_in_read: "in_read n i = (bs, i') \<Longrightarrow> length bs \<le> nat n"
  by (auto simp: in_read_def Let_def split: if_splits)

lemma bs_abs_sel [simp]: "seg_complete (bs_abs s) = bs_complete s" "seg_data (bs_abs s) = sb_data (bs_buffer s)"
  "bs_ok s \<Longrightarrow> length (seg_pending (bs_abs s)) = bs_in_buffer s"
  by (auto simp: bs_abs_def bs_ok_def sb_ok_def)

lemma bs_complete_abs: "bs_abs (s\<lparr>bs_complete := c\<rparr>) = (bs_abs s)\<lparr>seg_complete := c\<rparr>"
  "bs_ok (s\<lparr>bs_complete := c\<rparr>) = bs_ok s"
  by (simp_all add: bs_abs_def bs_ok_def)

lemma bs_room: "bs_ok s \<Longrightarrow> n \<le> int_max \<Longrightarrow> sb_size (bs_buffer s) \<le> int_max \<Longrightarrow> seg_room n (bs_abs s)"
  by (simp add: seg_room_def bs_ok_def limits)

lemma bs_commit_abs:
  assumes "bs_ok s" "bs_in_buffer s \<le> int_max" "sb_size (bs_buffer s) \<le> int_max"
  shows "bs_abs (bs_commit s) = seg_commit (bs_abs s)"
  using bs_commit_buffer_abs[OF assms] by (simp add: bs_commit_def seg_commit_def bs_complete_abs)

text \<open>\<^verbatim>\<open>read_up_to_bytes\<close> on the buffer's memory is the abstract one.\<close>

lemma bs_read_bytes_refines:
  assumes "bs_ok s" "bs_reserved n s" "bs_in_buffer s \<le> n" "n \<le> int_max" "sb_size (bs_buffer s) \<le> int_max"
  shows "abs_result (bs_read_bytes n inp s) = seg_read_bytes n inp (bs_abs s)"
proof (cases "bs_complete s \<or> n = 0")
  case True
  then show ?thesis
    by (auto simp: abs_result_def bs_read_bytes_def seg_read_bytes_def seg_mark_as_complete_def bs_complete_abs)
next
  case False
  from bs_prepare[OF assms(1,2,4,5)] obtain sb where sb: "sb_prepare n (bs_buffer s) = Some sb"
    and t: "bs_ok (s\<lparr>bs_buffer := sb\<rparr>)" "bs_abs (s\<lparr>bs_buffer := sb\<rparr>) = bs_abs s"
      "n \<le> sb_pend sb - sb_pnext sb" "sb_size sb = sb_size (bs_buffer s)" by blast
  define m where "m = n - bs_in_buffer s"
  define s1 where "s1 = bs_store (take m inp) (s\<lparr>bs_buffer := sb\<rparr>)"
  have fit: "bs_in_buffer s + length (take m inp) \<le> n" using assms(3) by (simp add: m_def)
  then have fit': "bs_in_buffer (s\<lparr>bs_buffer := sb\<rparr>) + length (take m inp)
      \<le> sb_pend (bs_buffer (s\<lparr>bs_buffer := sb\<rparr>)) - sb_pnext (bs_buffer (s\<lparr>bs_buffer := sb\<rparr>))"
    using t(3) by simp
  note st = bs_store_abs[OF t(1) fit', folded s1_def]
  have k: "bs_in_buffer s1 = bs_in_buffer s + length (take m inp)" by (simp add: s1_def bs_store_def)
  have s1: "bs_in_buffer s1 \<le> int_max" "sb_size (bs_buffer s1) \<le> int_max"
    using fit k assms(4,5) st(3) t(4) by simp_all
  have a: "bs_abs s1 = (bs_abs s)\<lparr>seg_last := length (take m inp), seg_pending := seg_pending (bs_abs s) @ take m inp\<rparr>"
    using st(2) t(2) by simp
  have c: "bs_read_bytes n inp s = (if bs_in_buffer s1 = n then Some (True, drop m inp, bs_commit s1)
      else Some (False, drop m inp, s1))"
    using False sb by (simp add: bs_read_bytes_def m_def s1_def Let_def)
  have "seg_read_bytes n inp (bs_abs s) = (if bs_in_buffer s1 = n then Some (True, drop m inp, seg_commit (bs_abs s1))
      else Some (False, drop m inp, bs_abs s1))"
    using False bs_room[OF assms(1,4,5)] assms(1) a k by (simp add: seg_read_bytes_def m_def Let_def)
  with c bs_commit_abs[OF st(1) s1] show ?thesis by (simp add: abs_result_def)
qed

lemma bs_in_bytes_refines:
  assumes "bs_ok s" "bs_reserved n s" "bs_in_buffer s \<le> n" "n \<le> int_max" "sb_size (bs_buffer s) \<le> int_max"
  shows "abs_result (bs_in_bytes n i s) = seg_in_bytes n i (bs_abs s)"
proof (cases "bs_complete s \<or> n = 0")
  case True
  then show ?thesis
    by (auto simp: abs_result_def bs_in_bytes_def seg_in_bytes_def seg_mark_as_complete_def bs_complete_abs)
next
  case False
  from bs_prepare[OF assms(1,2,4,5)] obtain sb where sb: "sb_prepare n (bs_buffer s) = Some sb"
    and t: "bs_ok (s\<lparr>bs_buffer := sb\<rparr>)" "bs_abs (s\<lparr>bs_buffer := sb\<rparr>) = bs_abs s"
      "n \<le> sb_pend sb - sb_pnext sb" "sb_size sb = sb_size (bs_buffer s)" by blast
  obtain bs i1 where r: "in_read (int n - int (bs_in_buffer s)) i = (bs, i1)" by fastforce
  define c where "c \<longleftrightarrow> \<not> in_fail i1 \<and> \<not> in_eof i1"
  define s1 where "s1 = bs_store bs (s\<lparr>bs_buffer := sb\<rparr>)"
  have fit: "bs_in_buffer s + length bs \<le> n" using length_in_read[OF r] assms(3) by simp
  then have fit': "bs_in_buffer (s\<lparr>bs_buffer := sb\<rparr>) + length bs
      \<le> sb_pend (bs_buffer (s\<lparr>bs_buffer := sb\<rparr>)) - sb_pnext (bs_buffer (s\<lparr>bs_buffer := sb\<rparr>))"
    using t(3) by simp
  note st = bs_store_abs[OF t(1) fit', folded s1_def]
  have k: "bs_in_buffer s1 = bs_in_buffer s + length bs" by (simp add: s1_def bs_store_def)
  have s1: "bs_in_buffer (s1\<lparr>bs_complete := c\<rparr>) \<le> int_max" "sb_size (bs_buffer (s1\<lparr>bs_complete := c\<rparr>)) \<le> int_max"
    "bs_ok (s1\<lparr>bs_complete := c\<rparr>)"
    using fit k assms(4,5) st(1,3) t(4) by (simp_all add: bs_complete_abs)
  have "bs_in_bytes n i s = Some (c, i1, if c then bs_commit_buffer size_max (s1\<lparr>bs_complete := c\<rparr>) else s1\<lparr>bs_complete := c\<rparr>)"
    using False sb r by (simp add: bs_in_bytes_def s1_def c_def Let_def)
  moreover have "seg_in_bytes n i (bs_abs s) = Some (c, i1, if c then seg_commit_buffer (bs_abs (s1\<lparr>bs_complete := c\<rparr>))
      else bs_abs (s1\<lparr>bs_complete := c\<rparr>))"
    using False bs_room[OF assms(1,4,5)] assms(1) st(2) t(2) r k
    by (simp add: seg_in_bytes_def c_def Let_def bs_complete_abs seg_commit_buffer_def)
  ultimately show ?thesis using bs_commit_buffer_abs(2)[OF s1(3,1,2)] by (cases c) (simp_all add: abs_result_def)
qed

text \<open>Copying into the buffer.\<close>

lemma sb_sputc_mem:
  assumes "sb_sputc c sb = Some sb'" "sb_ok sb" "length (sb_mem sb) \<le> vector_max"
  shows "length (sb_mem sb') \<le> vector_max"
proof (cases "sb_pnext sb < sb_pend sb \<or> sb_pnext sb \<noteq> sb_pend sb")
  case True
  with assms(2) have "sb_pnext sb < sb_pend sb" by (auto simp: sb_ok_def)
  with assms show ?thesis by (auto simp: sb_sputc_def)
next
  case False
  with assms(1) obtain n s where "sb_reserve n sb = Some s" "length (sb_mem sb') = length (sb_mem s)"
    by (auto simp: sb_sputc_def sb_overflow_def Let_def split: if_splits)
  with sb_reserve_mem[OF _ assms(2,3)] show ?thesis by metis
qed

lemma sb_put_mem:
  "sb_put cs sb = Some sb' \<Longrightarrow> sb_ok sb \<Longrightarrow> length (sb_mem sb) \<le> vector_max \<Longrightarrow> sb_size sb + length cs \<le> sb_max sb
    \<Longrightarrow> length (sb_mem sb') \<le> vector_max"
proof (induction cs arbitrary: sb)
  case (Cons c cs)
  then obtain s where s: "sb_sputc c sb = Some s" "sb_put cs s = Some sb'" by (auto split: option.splits)
  have lt: "sb_size sb < sb_max sb" using Cons.prems(4) by simp
  from sb_sputc_correct[OF Cons.prems(2) s(1) lt] have c: "sb_ok s" "sb_data s = sb_data sb @ [c]" "sb_max s = sb_max sb"
    by auto
  have "sb_size s = sb_size sb + 1"
    using length_sb_data[OF c(1)] length_sb_data[OF Cons.prems(2)] c(2) by simp
  then have "sb_size s + length cs \<le> sb_max s" using Cons.prems(4) c(3) by simp
  from Cons.IH[OF s(2) c(1) sb_sputc_mem[OF s(1) Cons.prems(2,3)] this] show ?case .
qed simp

lemma bs_put:
  assumes "bs_ok s" "sb_size (bs_buffer s) + length cs \<le> int_max"
  shows "\<exists>sb. sb_put cs (bs_buffer s) = Some sb \<and> sb_ok sb \<and> sb_data sb = seg_data (bs_abs s) @ cs
    \<and> bs_ok (s\<lparr>bs_buffer := sb, bs_in_buffer := 0\<rparr>) \<and> sb_size sb = sb_size (bs_buffer s) + length cs"
proof -
  have b: "sb_ok (bs_buffer s)" "sb_max (bs_buffer s) = size_max" "length (sb_mem (bs_buffer s)) \<le> vector_max"
    using assms(1) by (auto simp: bs_ok_def)
  have cap: "length (sb_data (bs_buffer s)) + length cs \<le> sb_capacity (bs_buffer s)"
    and max: "sb_size (bs_buffer s) + length cs \<le> sb_max (bs_buffer s)"
    using assms(2) b by (simp_all add: sb_capacity_def limits buffer_delta_def)
  from sbuf.put_total[OF b(1) cap] obtain sb where sb: "sb_put cs (bs_buffer s) = Some sb" by blast
  from sb_put_correct[OF b(1) sb max] b(2) sb_put_mem[OF sb b(1,3) max]
  have "sb_ok sb" "sb_data sb = sb_data (bs_buffer s) @ cs" "bs_ok (s\<lparr>bs_buffer := sb, bs_in_buffer := 0\<rparr>)"
    by (simp_all add: bs_ok_def)
  moreover from this length_sb_data[OF b(1)] length_sb_data[of sb] have "sb_size sb = sb_size (bs_buffer s) + length cs"
    by simp
  ultimately show ?thesis using sb by simp
qed

lemma seg_in_until_loop_step:
  assumes "in_getline (last delim) i = (nxt, i1)" "\<not> in_fail i1" "\<not> in_eof i1"
    "s1 = s\<lparr>seg_data := seg_data s @ nxt @ [last delim], seg_last := length nxt + 1, seg_pending := []\<rparr>"
  shows "seg_in_until_loop delim i s = (if length (seg_data s1) < length delim \<or> \<not> ends_with_delim delim (seg_data s1)
    then seg_in_until_loop delim i1 s1
    else (True, i1, s1\<lparr>seg_complete := True, seg_data := take (length (seg_data s1) - length delim) (seg_data s1)\<rparr>))"
  unfolding assms(4) by (subst seg_in_until_loop.simps) (simp add: assms(1-3))

lemma bs_in_until_loop_refines:
  assumes "bs_ok s" "sb_size (bs_buffer s) + length (in_data i) \<le> int_max"
  shows "abs_result (bs_in_until_loop delim i s) = Some (seg_in_until_loop delim i (bs_abs s))"
  using assms
proof (induction delim i s rule: bs_in_until_loop.induct)
  case (1 delim i s)
  obtain nxt i1 where g: "in_getline (last delim) i = (nxt, i1)" by fastforce
  show ?case
  proof (cases "in_fail i1")
    case True
    then show ?thesis
      by (subst bs_in_until_loop.simps, subst seg_in_until_loop.simps) (simp add: g Let_def abs_result_def)
  next
    case False
    let ?cs = "nxt @ (if in_eof i1 then [] else [last delim])"
    have len: "length ?cs + length (in_data i1) \<le> length (in_data i)"
      using g False by (auto simp: in_getline_def in_good_def find_index_Some split: if_splits option.splits)
    then have "sb_size (bs_buffer s) + length ?cs \<le> int_max" using "1.prems"(2) by linarith
    from bs_put[OF "1.prems"(1) this] obtain sb where
      sb: "sb_put ?cs (bs_buffer s) = Some sb" "sb_ok sb" "sb_data sb = seg_data (bs_abs s) @ ?cs"
      "bs_ok (s\<lparr>bs_buffer := sb, bs_in_buffer := 0\<rparr>)" "sb_size sb = sb_size (bs_buffer s) + length ?cs" by blast
    define s1 where "s1 = s\<lparr>bs_buffer := sb, bs_last := length nxt + (if in_eof i1 then 0 else 1), bs_in_buffer := 0\<rparr>"
    have s1: "bs_ok s1" "bs_abs s1 = (bs_abs s)\<lparr>seg_data := seg_data (bs_abs s) @ ?cs,
        seg_last := length nxt + (if in_eof i1 then 0 else 1), seg_pending := []\<rparr>"
      "sb_size (bs_buffer s1) + length (in_data i1) \<le> int_max" "length (seg_data (bs_abs s1)) = sb_size (bs_buffer s1)"
      using sb len "1.prems" by (simp_all add: s1_def bs_ok_def bs_abs_def)
    show ?thesis
    proof (cases "in_eof i1")
      case True
      with False sb s1 show ?thesis
        by (subst bs_in_until_loop.simps, subst seg_in_until_loop.simps) (simp add: g Let_def abs_result_def s1_def)
    next
      case noteof: False
      have c: "bs_in_until_loop delim i s =
          (if sb_size (bs_buffer s1) < length delim \<or> \<not> ends_with_delim delim (sb_data (bs_buffer s1))
           then bs_in_until_loop delim i1 s1
           else Some (True, i1, s1\<lparr>bs_complete := True, bs_buffer := sb_uncommit (length delim) (bs_buffer s1)\<rparr>))"
        using False noteof sb(1) by (subst bs_in_until_loop.simps) (simp add: g Let_def s1_def)
      have a: "seg_in_until_loop delim i (bs_abs s) =
          (if sb_size (bs_buffer s1) < length delim \<or> \<not> ends_with_delim delim (sb_data (bs_buffer s1))
           then seg_in_until_loop delim i1 (bs_abs s1)
           else (True, i1, (bs_abs s1)\<lparr>seg_complete := True,
                seg_data := take (length (seg_data (bs_abs s1)) - length delim) (seg_data (bs_abs s1))\<rparr>))"
      proof -
        have "bs_abs s1 = (bs_abs s)\<lparr>seg_data := seg_data (bs_abs s) @ nxt @ [last delim],
            seg_last := length nxt + 1, seg_pending := []\<rparr>"
          using s1(2) noteof by simp
        from seg_in_until_loop_step[OF g False noteof this] show ?thesis unfolding s1(4) by simp
      qed
      show ?thesis
      proof (cases "sb_size (bs_buffer s1) < length delim \<or> \<not> ends_with_delim delim (sb_data (bs_buffer s1))")
        case True
        have "abs_result (bs_in_until_loop delim i1 s1) = Some (seg_in_until_loop delim i1 (bs_abs s1))"
          by (rule "1.IH"[OF refl g[symmetric] refl refl _ _ True s1(1,3)])
            (use False noteof sb(1) in \<open>simp_all add: s1_def\<close>)
        then show ?thesis unfolding c a if_P[OF True] .
      next
        case fin: False
        have ok1: "sb_ok (bs_buffer s1)" using s1(1) by (simp add: bs_ok_def)
        have "min (length delim) (sb_size (bs_buffer s1)) \<le> int_max" using s1(3) by simp
        from sb_uncommit_correct(2)[OF ok1 this] s1(4) show ?thesis
          unfolding c a if_not_P[OF fin] using s1(2) by (simp add: abs_result_def bs_abs_def s1_def)
      qed
    qed
  qed
qed

lemma bs_new_ok: "bs_ok bs_new" "bs_in_buffer bs_new = 0" "sb_size (bs_buffer bs_new) = 0" "\<not> bs_complete bs_new"
  "bs_abs bs_new = seg_new"
  by (simp_all add: bs_ok_def bs_new_def sb_ok_new bs_abs_def seg_new_def)
    (simp_all add: sb_new_def Let_def limits buffer_delta_def sb_size_def)

text \<open>\<^verbatim>\<open>buffer_segment::read_up_to_bytes\<close>, on the buffer's memory, is the abstract read: the bytes
  already read wait behind the put pointer, and when the last one arrives they are committed in order.\<close>

theorem read_up_to_bytes_refines:
  assumes "bs_ok s" "bs_reserved n s" "bs_in_buffer s \<le> n" "n \<le> int_max" "sb_size (bs_buffer s) \<le> int_max"
  shows "abs_result (bs_read_bytes n inp s) = seg_read_bytes n inp (bs_abs s)
    \<and> abs_result (bs_in_bytes n i s) = seg_in_bytes n i (bs_abs s)"
  using bs_read_bytes_refines[OF assms] bs_in_bytes_refines[OF assms] by blast

theorem read_up_to_bytes_refines_witness:
  "abs_result (bs_read_bytes 3 [1, 2, 3, 4] bs_new) = seg_read_bytes 3 [1, 2, 3, 4] (bs_abs bs_new)
    \<and> abs_result (bs_in_bytes 3 (istream_of [1, 2]) bs_new) = seg_in_bytes 3 (istream_of [1, 2]) (bs_abs bs_new)"
  by (rule read_up_to_bytes_refines[of bs_new 3 "[1, 2, 3, 4]" "istream_of [1, 2]"])
    (simp_all add: bs_new_ok bs_reserved_def int_max_def)

text \<open>C33: \<^verbatim>\<open>buffer_segment::read_until\<close> on the buffer's memory is the abstract one, as long as all that
  is read stays below 2 GiB, where the casts of \<^verbatim>\<open>streambuf\<close> would break it.\<close>

theorem read_until_refines:
  assumes "bs_ok s" "sb_size (bs_buffer s) + length (in_data i) \<le> int_max"
  shows "abs_result (bs_in_until delim i s) = seg_in_until delim i (bs_abs s)"
  using bs_in_until_loop_refines[OF assms, of delim]
  by (auto simp: bs_in_until_def seg_in_until_def abs_result_def)

theorem read_until_refines_witness:
  "abs_result (bs_in_until [13, 10] (istream_of [65, 13, 66, 13, 10, 67]) bs_new)
    = seg_in_until [13, 10] (istream_of [65, 13, 66, 13, 10, 67]) (bs_abs bs_new)"
  by (rule read_until_refines) (simp_all add: bs_new_ok int_max_def)

text \<open>C32: however the input is cut into pieces, \<^verbatim>\<open>read_until\<close> delivers the text in front of the first
  occurrence of the delimiter in the whole input, consumes the delimiter and leaves what is behind
  it; without an occurrence it keeps everything and asks for more.\<close>

theorem read_until_any_cut:
  assumes "delim \<noteq> []"
  shows "feed (until_reader delim) c ds seg_new = (let all = c @ concat ds in
    case find_sub delim all of
      None \<Rightarrow> Some (False, [], seg_new\<lparr>seg_data := all\<rparr>)
    | Some k \<Rightarrow> Some (True, drop (k + length delim) all, seg_new\<lparr>seg_complete := True, seg_data := take k all\<rparr>))"
proof -
  have new: "seg_pending (seg_new :: char segment) = []" "\<not> seg_complete (seg_new :: char segment)"
    "seg_data (seg_new :: char segment) = []" "seg_last (seg_new :: char segment) = 0"
    by (simp_all add: seg_new_def)
  define all where "all = c @ concat ds"
  have f: "feed (until_reader delim) c ds seg_new = until_reader delim all seg_new"
    unfolding all_def using assms new(1) by (intro until_rd.feed_read) blast
  have "find_sub delim [] = None" using assms by simp
  note u = until_ref_find_sub[OF this assms, of all]
  have "(seg_new :: char segment)\<lparr>seg_complete := False, seg_data := all, seg_last := 0\<rparr> = seg_new\<lparr>seg_data := all\<rparr>"
    "(seg_new :: char segment)\<lparr>seg_complete := True, seg_data := d, seg_last := 0\<rparr>
      = seg_new\<lparr>seg_complete := True, seg_data := d\<rparr>" for d
    by (simp_all add: seg_new_def)
  with u until_reader_ref[OF assms new(1), of all] new show ?thesis
    unfolding f all_def[symmetric] Let_def by (cases "find_sub delim all") simp_all
qed

theorem read_until_any_cut_witness:
  "feed (until_reader ''::'') ''ab:'' ['':c::d''] seg_new
    = Some (True, ''c::d'', seg_new\<lparr>seg_complete := True, seg_data := ''ab''\<rparr>)"
  using read_until_any_cut[of "''::''" "''ab:''" "['':c::d'']"] by simp

section \<open>Constant buffers\<close>

text \<open>
  \<^verbatim>\<open>const_buffer_segment::read_up_to_bytes\<close>, with the \<^verbatim>\<open>std::size_t\<close> subtractions wrapping and the
  out-of-range copies made explicit.
\<close>

definition size_minus :: "nat \<Rightarrow> nat \<Rightarrow> nat" where
  "size_minus a b = unat (word_of_nat a - word_of_nat b :: u64)"

definition cs_read_up_to_bytes :: "u8 list \<Rightarrow> nat \<Rightarrow> nat \<Rightarrow> base_segment \<Rightarrow> (unit, bool \<times> base_segment) res" where
  "cs_read_up_to_bytes buf bytes sz s =
     (if bs_complete s then Inr (True, s)
      else if bytes = 0 then Inr (True, s\<lparr>bs_complete := True\<rparr>)
      else let offset = sb_size (bs_buffer s); available = size_minus sz offset;
             to_read = size_minus bytes (bs_in_buffer s) in
        case sb_prepare to_read (bs_buffer s) of
          None \<Rightarrow> Inl (Exception Length_error)
        | Some sb \<Rightarrow>
          let from = offset + bs_in_buffer s;
              until = (if to_read \<le> available then offset + to_read else length buf);
              bs = take (until - from) (drop from buf) in
          if until < from \<or> length buf < until
             \<or> length (sb_mem sb) < sb_pnext sb + bs_in_buffer s + length bs
          then Inl Undefined
          else let s1 = s\<lparr>bs_buffer := sb_store (bs_in_buffer s) bs sb\<rparr> in
            if to_read \<le> available
            then Inr (True, bs_commit_buffer size_max (s1\<lparr>bs_last := to_read,
                   bs_in_buffer := bs_in_buffer s + to_read, bs_complete := True\<rparr>))
            else Inr (False, s1\<lparr>bs_last := available, bs_in_buffer := bs_in_buffer s + available, bs_complete := False\<rparr>))"

lemma unat_word_of_nat [simp]: "m < 2 ^ 64 \<Longrightarrow> unat (word_of_nat m :: u64) = m"
  by (simp add: unsigned_of_nat take_bit_nat_eq_self)

lemma size_minus_le: "b \<le> a \<Longrightarrow> a < 2 ^ 64 \<Longrightarrow> size_minus a b = a - b"
proof -
  assume h: "b \<le> a" "a < 2 ^ 64"
  have "word_of_nat a - word_of_nat b = (word_of_nat (a - b) :: u64)" using h(1) by (simp add: of_nat_diff)
  then have "size_minus a b = unat (word_of_nat (a - b) :: u64)" by (simp only: size_minus_def)
  also have "\<dots> = a - b" using h by (intro unat_word_of_nat) linarith
  finally show ?thesis .
qed

text \<open>A read that finds all its bytes at once appends them.\<close>

lemma cs_read_at_once:
  assumes ok: "bs_ok s" and start: "bs_in_buffer s = 0" "\<not> bs_complete s" "0 < n"
    and there: "sb_size (bs_buffer s) + n \<le> length buf" and small: "length buf \<le> int_max"
  shows "\<exists>s'. cs_read_up_to_bytes buf n (length buf) s = Inr (True, s') \<and> bs_ok s' \<and> bs_complete s' \<and> bs_in_buffer s' = 0
    \<and> sb_data (bs_buffer s') = sb_data (bs_buffer s) @ take n (drop (sb_size (bs_buffer s)) buf)"
proof -
  let ?o = "sb_size (bs_buffer s)"
  let ?bs = "take n (drop ?o buf)"
  have n: "n \<le> int_max" "?o \<le> int_max" "length buf < 2 ^ 64" "length ?bs = n" using there small by (simp_all add: int_max_def)
  have res: "bs_reserved n s" using start by (simp add: bs_reserved_def)
  from bs_prepare[OF ok this n(1,2)] obtain sb where sb: "sb_prepare n (bs_buffer s) = Some sb"
    and t: "bs_ok (s\<lparr>bs_buffer := sb\<rparr>)" "bs_abs (s\<lparr>bs_buffer := sb\<rparr>) = bs_abs s"
      "n \<le> sb_pend sb - sb_pnext sb" "sb_size sb = ?o" by blast
  define s1 where "s1 = bs_store ?bs (s\<lparr>bs_buffer := sb\<rparr>)"
  have "bs_in_buffer (s\<lparr>bs_buffer := sb\<rparr>) + length ?bs
      \<le> sb_pend (bs_buffer (s\<lparr>bs_buffer := sb\<rparr>)) - sb_pnext (bs_buffer (s\<lparr>bs_buffer := sb\<rparr>))"
    using t(3) n(4) start(1) by simp
  note st = bs_store_abs[OF t(1) this, folded s1_def]
  define s2 where "s2 = s1\<lparr>bs_complete := True\<rparr>"
  have s2: "bs_ok s2" "bs_in_buffer s2 = n" "sb_size (bs_buffer s2) = ?o"
    using st t(4) n(4) start(1) by (simp_all add: s2_def bs_complete_abs) (simp add: s1_def bs_store_def)
  have "sb_ok sb" "sb_pend sb \<le> length (sb_mem sb)" "sb_pnext sb \<le> sb_pend sb"
    using t(1) by (auto simp: bs_ok_def sb_ok_def)
  with t(3) have "sb_pnext sb + n \<le> length (sb_mem sb)" by linarith
  moreover have "size_minus (length buf) ?o = length buf - ?o" "size_minus n 0 = n"
    using there n(3) by (simp_all add: size_minus_le)
  ultimately have "cs_read_up_to_bytes buf n (length buf) s = Inr (True, bs_commit_buffer size_max s2)"
    using start there sb n(4) by (simp add: cs_read_up_to_bytes_def Let_def s2_def s1_def bs_store_def)
  moreover have "seg_data (bs_abs s2) = sb_data (bs_buffer s)" "seg_pending (bs_abs s2) = ?bs"
    using st(2) t(2) start(1) by (simp_all add: s2_def bs_complete_abs) (simp_all add: bs_abs_def)
  moreover have "bs_complete (bs_commit_buffer size_max s2)" "bs_in_buffer (bs_commit_buffer size_max s2) = 0"
    by (simp_all add: bs_commit_buffer_def s2_def)
  moreover have "bs_ok (bs_commit_buffer size_max s2)"
    "bs_abs (bs_commit_buffer size_max s2) = seg_commit_buffer (bs_abs s2)"
    using bs_commit_buffer_abs[of s2] s2 n(1,2) by simp_all
  moreover have "sb_data (bs_buffer (bs_commit_buffer size_max s2)) = seg_data (bs_abs (bs_commit_buffer size_max s2))" by simp
  ultimately show ?thesis by (simp add: seg_commit_buffer_def)
qed

text \<open>A read that is continued after a short one delivers wrong bytes: the second call takes the
  whole buffer for unread, asks for the missing count only, and copies nothing, so that the memory
  behind the first part is committed as it happens to be.\<close>

theorem const_read_resumed_wrong:
  "rbind (cs_read_up_to_bytes [1, 2] 4 2 bs_new) (\<lambda>(r1, s1).
     rbind (cs_read_up_to_bytes [1, 2, 3, 4] 4 4 s1) (\<lambda>(r2, s2). Inr (r1, r2, sb_data (bs_buffer s2))))
   = Inr (False, True, [1, 2, 0, 0])"
proof -
  define t where "t k m n c = \<lparr>bs_complete = c, bs_buffer = \<lparr>sb_mem = m, sb_gnext = 0, sb_pnext = k, sb_pend = 128,
      sb_max = size_max\<rparr>, bs_in_buffer = n, bs_last = 2\<rparr>" for k m n c
  have new: "bs_new = (t 0 (replicate 128 0) 0 False)\<lparr>bs_last := 0\<rparr>"
    by (simp add: bs_new_def t_def sb_new_def Let_def buffer_delta_def size_max_def)
  have room: "sb_reserve n \<lparr>sb_mem = m, sb_gnext = 0, sb_pnext = 0, sb_pend = 128, sb_max = size_max\<rparr>
      = Some \<lparr>sb_mem = m, sb_gnext = 0, sb_pnext = 0, sb_pend = 128, sb_max = size_max\<rparr>" if "n \<le> 128" for n m
    using that by (simp add: sb_reserve_def)
  have m: "list_write 0 [1, 2] (replicate 128 0) = 1 # 2 # replicate 126 (0 :: u8)" by (simp add: list_write_def)
  have mx: "min size_max 4 = 4" by (simp add: size_max_def)
  have "cs_read_up_to_bytes [1, 2] 4 2 bs_new = Inr (False, t 0 (1 # 2 # replicate 126 0) 2 False)"
    by (simp add: new t_def cs_read_up_to_bytes_def size_minus_le sb_prepare_def room sb_size_def Let_def sb_store_def m)
  moreover have "cs_read_up_to_bytes [1, 2, 3, 4] 4 4 (t 0 (1 # 2 # replicate 126 0) 2 False)
      = Inr (True, t 4 (1 # 2 # replicate 126 0) 0 True)"
    by (simp add: t_def cs_read_up_to_bytes_def size_minus_le sb_prepare_def room sb_size_def Let_def sb_store_def
      list_write_def bs_commit_buffer_def sb_commit_small int_max_def mx)
  moreover have "sb_data (bs_buffer (t 4 (1 # 2 # replicate 126 0) 0 True)) = [1, 2, 0, 0]"
    by (simp add: t_def sb_data_def sb_size_def eval_nat_numeral)
  ultimately show ?thesis by simp
qed

end
