(* ===== verification/Http_Types.thy ===== *)
theory Http_Types
  imports Numbers
begin

text \<open>
  http/message/{method,version,status}.{hpp,cpp}: the enumerations of an HTTP message and their
  text.  The lookups go through a static \<^verbatim>\<open>std::unordered_map\<close> in the code, which holds one
  entry per enumerator.  A \<^verbatim>\<open>status\<close> is any 32-bit \<^verbatim>\<open>int\<close>, because unknown codes are let through.
\<close>

section \<open>Methods\<close>

datatype (plugins only: code) http_method =
    M_GET | M_HEAD | M_POST | M_OPTIONS | M_PUT | M_DELETE | M_TRACE | M_CONNECT | M_COPY
    | M_LOCK | M_MKCOL | M_MOVE | M_PROPFIND | M_PROPPATCH | M_UNLOCK | M_SEARCH | M_BIND
    | M_REBIND | M_UNBIND | M_ACL | M_REPORT | M_MKACTIVITY | M_CHECKOUT | M_MERGE | M_MSEARCH
    | M_NOTIFY | M_SUBSCRIBE | M_UNSUBSCRIBE | M_PATCH | M_MKCALENDAR | M_LINK | M_UNLINK
    | M_PURGE

primrec method_name :: "http_method \<Rightarrow> string" where
  "method_name M_GET = ''GET''"
| "method_name M_HEAD = ''HEAD''"
| "method_name M_POST = ''POST''"
| "method_name M_OPTIONS = ''OPTIONS''"
| "method_name M_PUT = ''PUT''"
| "method_name M_DELETE = ''DELETE''"
| "method_name M_TRACE = ''TRACE''"
| "method_name M_CONNECT = ''CONNECT''"
| "method_name M_COPY = ''COPY''"
| "method_name M_LOCK = ''LOCK''"
| "method_name M_MKCOL = ''MKCOL''"
| "method_name M_MOVE = ''MOVE''"
| "method_name M_PROPFIND = ''PROPFIND''"
| "method_name M_PROPPATCH = ''PROPPATCH''"
| "method_name M_UNLOCK = ''UNLOCK''"
| "method_name M_SEARCH = ''SEARCH''"
| "method_name M_BIND = ''BIND''"
| "method_name M_REBIND = ''REBIND''"
| "method_name M_UNBIND = ''UNBIND''"
| "method_name M_ACL = ''ACL''"
| "method_name M_REPORT = ''REPORT''"
| "method_name M_MKACTIVITY = ''MKACTIVITY''"
| "method_name M_CHECKOUT = ''CHECKOUT''"
| "method_name M_MERGE = ''MERGE''"
| "method_name M_MSEARCH = ''MSEARCH''"
| "method_name M_NOTIFY = ''NOTIFY''"
| "method_name M_SUBSCRIBE = ''SUBSCRIBE''"
| "method_name M_UNSUBSCRIBE = ''UNSUBSCRIBE''"
| "method_name M_PATCH = ''PATCH''"
| "method_name M_MKCALENDAR = ''MKCALENDAR''"
| "method_name M_LINK = ''LINK''"
| "method_name M_UNLINK = ''UNLINK''"
| "method_name M_PURGE = ''PURGE''"

definition all_methods :: "http_method list" where
  "all_methods =
    [M_GET, M_HEAD, M_POST, M_OPTIONS, M_PUT, M_DELETE, M_TRACE, M_CONNECT, M_COPY, M_LOCK
   , M_MKCOL, M_MOVE, M_PROPFIND, M_PROPPATCH, M_UNLOCK, M_SEARCH, M_BIND, M_REBIND, M_UNBIND
   , M_ACL, M_REPORT, M_MKACTIVITY, M_CHECKOUT, M_MERGE, M_MSEARCH, M_NOTIFY, M_SUBSCRIBE
   , M_UNSUBSCRIBE, M_PATCH, M_MKCALENDAR, M_LINK, M_UNLINK, M_PURGE]"

definition method_to_string :: "http_method \<Rightarrow> string result" where
  "method_to_string m = Inr (method_name m)"

definition string_to_method :: "string \<Rightarrow> http_method result" where
  "string_to_method str = (case find (\<lambda>m. method_name m = str) all_methods of
     None \<Rightarrow> err invalid_method
   | Some m \<Rightarrow> Inr m)"

lemma all_methods_complete: "m \<in> set all_methods"
  by (cases m) (simp_all add: all_methods_def)

lemma method_name_inj_list: "distinct (map method_name all_methods)"
  by (simp add: all_methods_def)

lemma find_distinct:
  "distinct (map f xs) \<Longrightarrow> x \<in> set xs \<Longrightarrow> find (\<lambda>y. f y = f x) xs = Some x"
  by (induction xs) (auto dest: image_eqI)

lemma string_to_method_name [simp]: "string_to_method (method_name m) = Inr m"
  by (simp add: string_to_method_def find_distinct[OF method_name_inj_list all_methods_complete])

lemma string_to_method_Inr: "string_to_method s = Inr m \<longleftrightarrow> s = method_name m"
proof
  assume "string_to_method s = Inr m"
  then have "find (\<lambda>m. method_name m = s) all_methods = Some m"
    by (simp add: string_to_method_def split: option.splits)
  then show "s = method_name m" by (auto simp: find_Some_iff)
qed simp

lemma method_name_chars: "c \<in> set (method_name m) \<Longrightarrow> 65 \<le> (of_char c :: nat) \<and> (of_char c :: nat) \<le> 90"
  by (cases m) auto

lemma method_name_nonempty [simp]: "method_name m \<noteq> []"
  by (cases m) simp_all

section \<open>Versions\<close>

datatype version = Http1_0 | Http1_1 | Http2_0 | Http3_0

primrec version_name :: "version \<Rightarrow> string" where
  "version_name Http1_0 = ''HTTP/1.0''"
| "version_name Http1_1 = ''HTTP/1.1''"
| "version_name Http2_0 = ''HTTP/2.0''"
| "version_name Http3_0 = ''HTTP/3.0''"

definition version_to_string :: "version \<Rightarrow> string result" where
  "version_to_string v = Inr (version_name v)"

definition string_to_version :: "string \<Rightarrow> version result" where
  "string_to_version str = (case find (\<lambda>v. version_name v = str) [Http1_0, Http1_1, Http2_0, Http3_0] of
     None \<Rightarrow> err invalid_version
   | Some v \<Rightarrow> Inr v)"

lemma string_to_version_name [simp]: "string_to_version (version_name v) = Inr v"
  by (cases v) (simp_all add: string_to_version_def)

lemma version_name_chars: "CHR 0x0D \<notin> set (version_name v)" "CHR 0x0A \<notin> set (version_name v)"
  "CHR '' '' \<notin> set (version_name v)"
  by (cases v; simp)+

section \<open>Status codes\<close>

type_synonym status = u32

definition status_table :: "(status \<times> string) list" where
  "status_table =
    [(100, ''Continue''),
     (101, ''Switching Protocols''),
     (103, ''Early Hints''),
     (200, ''OK''),
     (201, ''Created''),
     (202, ''Accepted''),
     (203, ''Non-Authoritative Information''),
     (204, ''No Content''),
     (205, ''Reset Content''),
     (206, ''Partial Content''),
     (300, ''Multiple Choices''),
     (301, ''Moved Permanently''),
     (302, ''Found''),
     (303, ''See Other''),
     (304, ''Not Modified''),
     (305, ''Use Proxy''),
     (307, ''Temporary Redirect''),
     (308, ''Permanent Redirect''),
     (400, ''Bad Request''),
     (401, ''Unauthorized''),
     (402, ''Payment Required''),
     (403, ''Forbidden''),
     (404, ''Not Found''),
     (405, ''Method Not Allowed''),
     (406, ''Not Acceptible''),
     (407, ''Proxy Authentication Required''),
     (408, ''Request Timeout''),
     (409, ''Conflict''),
     (410, ''Gone''),
     (411, ''Length Required''),
     (412, ''Precondition Failed''),
     (413, ''Payload Too Large''),
     (414, ''URI Too Long''),
     (415, ''Unsupported Media Type''),
     (416, ''Range Not Satisfiable''),
     (417, ''Expectation Failed''),
     (418, ''I'm a teapot''),
     (422, ''Unprocessable Entity''),
     (425, ''Too Early''),
     (426, ''Upgrade Required''),
     (428, ''Precondition Required''),
     (429, ''Too Many Requests''),
     (431, ''Request Header Fields Too Large''),
     (451, ''Unavailable For Legal Reasons''),
     (500, ''Internal Server Error''),
     (501, ''Not Implemented''),
     (502, ''Bad Gateway''),
     (503, ''Service Unavailable''),
     (504, ''Gateway Timeout''),
     (505, ''HTTP Version Not Supported''),
     (506, ''Variant Also Negotiates''),
     (507, ''Insufficient Storage''),
     (508, ''Loop Detected''),
     (510, ''Not Extended''),
     (511, ''Network Authentication Required'')]"

abbreviation status_continue :: status where
  "status_continue \<equiv> 100"

abbreviation status_switching_protocols :: status where
  "status_switching_protocols \<equiv> 101"

abbreviation status_ok :: status where
  "status_ok \<equiv> 200"

abbreviation status_no_content :: status where
  "status_no_content \<equiv> 204"

abbreviation status_not_modified :: status where
  "status_not_modified \<equiv> 304"

abbreviation status_bad_request :: status where
  "status_bad_request \<equiv> 400"

abbreviation status_request_timeout :: status where
  "status_request_timeout \<equiv> 408"

abbreviation status_internal_server_error :: status where
  "status_internal_server_error \<equiv> 500"

abbreviation status_bad_gateway :: status where
  "status_bad_gateway \<equiv> 502"

abbreviation status_gateway_timeout :: status where
  "status_gateway_timeout \<equiv> 504"

definition status_to_reason :: "status \<Rightarrow> string result" where
  "status_to_reason s = (case map_of status_table s of None \<Rightarrow> err invalid_status | Some r \<Rightarrow> Inr r)"

definition code_to_status :: "u64 \<Rightarrow> status" where
  "code_to_status code = ucast code"

definition string_to_status :: "(string \<Rightarrow> u64 option) \<Rightarrow> string \<Rightarrow> status" where
  "string_to_status lc str = code_to_status (case lc str of None \<Rightarrow> 500 | Some code \<Rightarrow> code)"

text \<open>\<^verbatim>\<open>operator<<\<close> prints \<^verbatim>\<open>static_cast<std::size_t>(s)\<close>, which sign-extends.\<close>

definition status_to_string :: "status \<Rightarrow> string" where
  "status_to_string s = decimal (unat (scast s :: u64))"

lemma status_round_trip:
  assumes "lexical_cast_decimal lc" "unat s < 2 ^ 31"
  shows "string_to_status lc (status_to_string s) = s"
proof -
  let ?n = "unat s"
  have n64: "?n < 2 ^ 64" using assms(2) by simp
  have "sint (word_of_nat n :: u32) = int n" if "n < 2 ^ 31" for n
    using that by (simp add: signed_of_nat signed_take_bit_int_eq_self_iff)
  from this[OF assms(2)] have "sint s = int ?n" by simp
  then have c: "(scast s :: u64) = word_of_nat ?n" by (simp add: scast_eq)
  have u: "unat (word_of_nat ?n :: u64) = ?n"
    using n64 by (simp only: unsigned_of_nat len_bit0 len_num1) (simp add: take_bit_nat_eq_self)
  have "lc (decimal ?n) = Some (word_of_nat ?n)"
    using assms(1) n64 by (simp add: lexical_cast_decimal_def)
  moreover have "ucast (word_of_nat ?n :: u64) = (word_of_nat (unat (word_of_nat ?n :: u64)) :: u32)" by simp
  then have "ucast (word_of_nat ?n :: u64) = s" by (simp only: u) simp
  ultimately show ?thesis
    by (simp only: string_to_status_def status_to_string_def code_to_status_def c u option.case)
qed

end
