(* ===== verification/Url.thy ===== *)
theory Url
  imports Http_Types
begin

text \<open>
  http/message/url.{hpp,cpp}: parsing and printing of request targets.

  The parsers index a \<^verbatim>\<open>std::string_view\<close> without looking at its length and call \<^verbatim>\<open>substr\<close> with
  computed positions, so each of them is a \<open>result\<close> that can also be undefined behaviour or an
  exception.  \<open>lc\<close> is \<^verbatim>\<open>boost::lexical_cast<std::size_t>\<close>.
\<close>

section \<open>Data\<close>

record network_location =
  nl_username :: string
  nl_password :: string
  nl_host :: string
  nl_port :: "u16 option"

datatype target_form = Origin_form | Absolute_form | Authority_form | Asterisk_form

record url =
  url_form :: target_form
  url_scheme :: string
  url_netloc :: network_location
  url_path :: string
  url_search :: string

definition empty_netloc :: network_location where
  "empty_netloc = \<lparr>nl_username = [], nl_password = [], nl_host = [], nl_port = None\<rparr>"

definition search_delims :: "char set" where
  "search_delims = {CHR '';'', CHR ''?'', CHR ''#''}"

section \<open>Printing\<close>

definition nl_empty :: "network_location \<Rightarrow> bool" where
  "nl_empty n \<longleftrightarrow> nl_username n = [] \<and> nl_password n = [] \<and> nl_host n = []"

definition has_hostname :: "network_location \<Rightarrow> bool" where
  "has_hostname n \<longleftrightarrow> nl_host n \<noteq> []"

definition has_port :: "network_location \<Rightarrow> bool" where
  "has_port n \<longleftrightarrow> nl_port n \<noteq> None"

definition to_host_string :: "network_location \<Rightarrow> string" where
  "to_host_string n = nl_host n @ (case nl_port n of None \<Rightarrow> [] | Some p \<Rightarrow> '':'' @ decimal (unat p))"

definition netloc_to_string :: "network_location \<Rightarrow> string" where
  "netloc_to_string n = (if nl_empty n then [] else
     (if nl_username n = [] then []
      else nl_username n @ (if nl_password n = [] then [] else '':'' @ nl_password n) @ ''@'')
     @ to_host_string n)"

definition origin_string :: "url \<Rightarrow> string" where
  "origin_string u = (if url_scheme u = [] then []
     else url_scheme u @ '':'' @ (if nl_empty (url_netloc u) then [] else ''//''))
     @ netloc_to_string (url_netloc u)"

definition absolute_string :: "url \<Rightarrow> string" where
  "absolute_string u = (if url_scheme u = [] then []
     else url_scheme u @ '':'' @ (if nl_empty (url_netloc u) then [] else ''//''))
     @ netloc_to_string (url_netloc u) @ url_path u @ url_search u"

definition url_to_string :: "url \<Rightarrow> string" where
  "url_to_string u = (if url_form u = Asterisk_form then ''*''
     else (if url_form u = Origin_form then []
           else (if url_scheme u = [] then []
                 else url_scheme u @ '':'' @ (if nl_empty (url_netloc u) then [] else ''//''))
                @ netloc_to_string (url_netloc u))
          @ url_path u @ url_search u)"

definition full_path :: "url \<Rightarrow> string" where
  "full_path u = url_path u @ url_search u"

definition is_host :: "string \<Rightarrow> url \<Rightarrow> bool" where
  "is_host host u \<longleftrightarrow> nl_host (url_netloc u) = host"

definition is_host_port :: "string \<Rightarrow> u16 \<Rightarrow> url \<Rightarrow> bool" where
  "is_host_port host port u \<longleftrightarrow> nl_host (url_netloc u) = host \<and> nl_port (url_netloc u) = Some port"

definition port_or_default :: "u16 \<Rightarrow> url \<Rightarrow> u16" where
  "port_or_default def u = (case nl_port (url_netloc u) of None \<Rightarrow> def | Some p \<Rightarrow> p)"

section \<open>Parsing\<close>

definition make_authority_form :: "string \<Rightarrow> u16 \<Rightarrow> url" where
  "make_authority_form host port = \<lparr>url_form = Authority_form, url_scheme = [],
     url_netloc = \<lparr>nl_username = [], nl_password = [], nl_host = host, nl_port = Some port\<rparr>,
     url_path = [], url_search = []\<rparr>"

definition make_origin_form :: "string \<Rightarrow> string \<Rightarrow> url" where
  "make_origin_form path search = \<lparr>url_form = Origin_form, url_scheme = [], url_netloc = empty_netloc,
     url_path = path, url_search = search\<rparr>"

definition make_asterisk_form :: url where
  "make_asterisk_form = \<lparr>url_form = Asterisk_form, url_scheme = [], url_netloc = empty_netloc,
     url_path = [], url_search = []\<rparr>"

definition parse_port :: "(string \<Rightarrow> u64 option) \<Rightarrow> string \<Rightarrow> u16 result" where
  "parse_port lc str = (case lc str of
     None \<Rightarrow> err_with invalid_target_port ''Target port invalid''
   | Some port_long \<Rightarrow>
       if 65535 < port_long then err_with invalid_target_port ''Target port out of range''
       else Inr (ucast port_long))"

definition parse_authority_form :: "(string \<Rightarrow> u64 option) \<Rightarrow> string \<Rightarrow> url result" where
  "parse_authority_form lc str = (case sv_find CHR '':'' str 0 of
     None \<Rightarrow> err_with invalid_target_port ''Missing port for authority form''
   | Some port_pos \<Rightarrow>
       rbind (sv_substr_from str (port_pos + 1)) (\<lambda>port_str.
       rbind (parse_port lc port_str) (\<lambda>port.
       rbind (sv_substr str 0 port_pos) (\<lambda>host.
       Inr (make_authority_form host port)))))"

definition parse_origin_form :: "string \<Rightarrow> url result" where
  "parse_origin_form str = (case sv_find_first_of search_delims str 0 of
     None \<Rightarrow> Inr (make_origin_form str [])
   | Some earliest_delim \<Rightarrow>
       rbind (sv_substr str 0 earliest_delim) (\<lambda>path.
       rbind (sv_substr_from str earliest_delim) (\<lambda>search.
       Inr (make_origin_form path search))))"

text \<open>\<open>str[i] == '/' && str[i + 1] == '/'\<close>\<close>

definition two_slashes :: "string \<Rightarrow> nat \<Rightarrow> bool result" where
  "two_slashes str i = rbind (sv_is str i CHR ''/'') (\<lambda>a. if a then sv_is str (i + 1) CHR ''/'' else Inr False)"

definition parse_user_info :: "string \<Rightarrow> nat \<Rightarrow> (string \<times> string \<times> nat) result" where
  "parse_user_info str start = (case sv_find CHR ''@'' str start of
     None \<Rightarrow> Inr ([], [], start)
   | Some user_end \<Rightarrow>
       rbind (case sv_find CHR '':'' str start of
                None \<Rightarrow> Inr []
              | Some password_start \<Rightarrow>
                  if password_start < user_end then substring str (password_start + 1) (Some user_end) else Inr [])
         (\<lambda>password.
       rbind (substring str start (Some user_end)) (\<lambda>username.
       Inr (username, password, user_end))))"

definition parse_netloc :: "(string \<Rightarrow> u64 option) \<Rightarrow> string \<Rightarrow> network_location result" where
  "parse_netloc lc str =
     rbind (two_slashes str 0) (\<lambda>slashes.
     rbind (parse_user_info str (if slashes then 2 else 0)) (\<lambda>(username, password, start).
     case sv_find CHR '':'' str start of
       None \<Rightarrow> rbind (substring_from str start) (\<lambda>host.
         Inr \<lparr>nl_username = username, nl_password = password, nl_host = host, nl_port = None\<rparr>)
     | Some port_start \<Rightarrow>
         rbind (substring_from str (port_start + 1)) (\<lambda>port_str.
         case parse_port lc port_str of
           Inr port \<Rightarrow> rbind (substring str start (Some port_start)) (\<lambda>host.
             Inr \<lparr>nl_username = username, nl_password = password, nl_host = host, nl_port = Some port\<rparr>)
         | Inl _ \<Rightarrow> rbind (substring str start (Some (length str))) (\<lambda>host.
             Inr \<lparr>nl_username = username, nl_password = password, nl_host = host, nl_port = None\<rparr>))))"

text \<open>
  The three branches of \<^verbatim>\<open>parse_absolute_form\<close> behind the scheme.
\<close>

definition parse_with_netloc :: "(string \<Rightarrow> u64 option) \<Rightarrow> string \<Rightarrow> nat \<Rightarrow> url \<Rightarrow> url result" where
  "parse_with_netloc lc str netloc_start res =
     (let earliest_nonslash_delim = sv_find_first_of search_delims str netloc_start;
          first_slash = sv_find CHR ''/'' str netloc_start;
          earliest_delim = npos_min earliest_nonslash_delim first_slash
      in rbind (substring str netloc_start earliest_delim) (\<lambda>netloc_str.
         rbind (parse_netloc lc netloc_str) (\<lambda>netloc.
         let res = res\<lparr>url_netloc := netloc\<rparr> in
         case first_slash of
           Some fs \<Rightarrow>
             (case earliest_nonslash_delim of
                Some nd \<Rightarrow>
                  if fs < nd
                  then rbind (substring str fs (Some nd)) (\<lambda>path.
                       rbind (substring_from str nd) (\<lambda>search. Inr (res\<lparr>url_path := path, url_search := search\<rparr>)))
                  else rbind (substring_from str fs) (\<lambda>path. Inr (res\<lparr>url_path := path\<rparr>))
              | None \<Rightarrow> rbind (substring_from str fs) (\<lambda>path. Inr (res\<lparr>url_path := path\<rparr>)))
         | None \<Rightarrow>
             (case earliest_nonslash_delim of
                Some nd \<Rightarrow> rbind (substring_from str nd) (\<lambda>search. Inr (res\<lparr>url_search := search\<rparr>))
              | None \<Rightarrow> Inr res))))"

definition parse_only_path :: "string \<Rightarrow> nat \<Rightarrow> url \<Rightarrow> url result" where
  "parse_only_path str start res = (case sv_find_first_of search_delims str start of
     Some nd \<Rightarrow>
       rbind (substring str start (Some nd)) (\<lambda>path.
       rbind (substring_from str nd) (\<lambda>search. Inr (res\<lparr>url_path := path, url_search := search\<rparr>)))
   | None \<Rightarrow> rbind (substring_from str start) (\<lambda>path. Inr (res\<lparr>url_path := path\<rparr>)))"

definition parse_scheme :: "string \<Rightarrow> (nat \<times> string) result" where
  "parse_scheme str = (case sv_find CHR '':'' str 0 of
     None \<Rightarrow> Inr (0, [])
   | Some netloc_start \<Rightarrow>
       rbind (two_slashes str 0) (\<lambda>slashes.
       if slashes then Inr (0, [])
       else rbind (substring str 0 (Some netloc_start)) (\<lambda>scheme. Inr (netloc_start, scheme))))"

definition parse_absolute_form :: "(string \<Rightarrow> u64 option) \<Rightarrow> string \<Rightarrow> url result" where
  "parse_absolute_form lc str =
     rbind (parse_scheme str) (\<lambda>(netloc_start, scheme).
     let res = \<lparr>url_form = Absolute_form, url_scheme = scheme, url_netloc = empty_netloc,
                url_path = [], url_search = []\<rparr> in
     rbind (two_slashes str (netloc_start + 1)) (\<lambda>slashes.
     if slashes then parse_with_netloc lc str (netloc_start + 3) res
     else rbind (sv_is str (netloc_start + 1) CHR ''/'') (\<lambda>slash.
     if slash then parse_only_path str (netloc_start + 2) res
     else rbind (substring_from str (netloc_start + 1)) (\<lambda>search. Inr (res\<lparr>url_search := search\<rparr>)))))"

definition url_parse :: "(string \<Rightarrow> u64 option) \<Rightarrow> string \<Rightarrow> url result" where
  "url_parse lc str = (if str = ''*'' then Inr make_asterisk_form
     else rbind (sv_is str 0 CHR ''/'') (\<lambda>slash.
     if slash then parse_origin_form str else parse_absolute_form lc str))"

definition parse_target :: "(string \<Rightarrow> u64 option) \<Rightarrow> string \<Rightarrow> http_method \<Rightarrow> url result" where
  "parse_target lc str verb = (if str = ''*'' then Inr make_asterisk_form
     else rbind (sv_is str 0 CHR ''/'') (\<lambda>slash.
     if slash then parse_origin_form str
     else if verb = M_CONNECT then parse_authority_form lc str
     else parse_absolute_form lc str))"

section \<open>What the parsers do on well-formed text\<close>

lemma sv_is_first: "s \<noteq> [] \<Longrightarrow> sv_is s 0 c = Inr (hd s = c)"
  by (cases s) (simp_all add: sv_is_def sv_at_def)

lemma two_slashes_no: "s \<noteq> [] \<Longrightarrow> hd s \<noteq> CHR ''/'' \<Longrightarrow> two_slashes s 0 = Inr False"
  by (simp add: two_slashes_def sv_is_first)

lemma substring_middle: "substring (a @ b @ c) (length a) (Some (length a + length b)) = Inr b"
  "substring_from (a @ b) (length a) = Inr b"
  "substring (a @ b) (length a) None = Inr b"
  "substring (a @ b) (length a) (Some (length a + length b)) = Inr b"
  "substring (b @ c) 0 (Some (length b)) = Inr b"
  by (simp_all add: substring_def substring_from_def sv_substr_def sv_substr_from_def)

definition netloc_text :: "string \<Rightarrow> bool" where
  "netloc_text s \<longleftrightarrow> (\<forall>c\<in>set s. c \<noteq> CHR ''@'' \<and> c \<noteq> CHR ''/'' \<and> c \<notin> search_delims)"

definition plain_netloc :: "network_location \<Rightarrow> bool" where
  "plain_netloc n \<longleftrightarrow> nl_username n = [] \<and> nl_password n = [] \<and> nl_host n \<noteq> []
     \<and> netloc_text (nl_host n) \<and> CHR '':'' \<notin> set (nl_host n)"

lemma parse_port_decimal:
  assumes "lexical_cast_decimal lc"
  shows "parse_port lc (decimal n) = (if n \<le> 65535 then Inr (word_of_nat n)
    else if n < 2 ^ 64 then err_with invalid_target_port ''Target port out of range'' else parse_port lc (decimal n))"
proof (cases "n < 2 ^ 64")
  case True
  then have "(65535 < (word_of_nat n :: u64)) = (65535 < n)"
    by (simp add: word_less_nat_alt unsigned_of_nat take_bit_nat_eq_self)
  moreover have "lc (decimal n) = Some (word_of_nat n)" using assms True by (simp add: lexical_cast_decimal_def)
  moreover have "n \<le> 65535 \<Longrightarrow> (ucast (word_of_nat n :: u64) :: u16) = word_of_nat n"
    using True by (simp add: unsigned_of_nat take_bit_nat_eq_self)
  ultimately show ?thesis using True by (simp add: parse_port_def)
qed auto

lemma parse_port_unat: "lexical_cast_decimal lc \<Longrightarrow> parse_port lc (decimal (unat p)) = Inr (p :: u16)"
proof -
  assume "lexical_cast_decimal lc"
  moreover have "unat p < 2 ^ 16" by (rule order.strict_trans2[OF unsigned_less]) simp
  ultimately show ?thesis using parse_port_decimal[of lc "unat p"] by simp
qed

lemma decimal_text: "netloc_text (decimal n)" "CHR '':'' \<notin> set (decimal n)"
proof -
  have "\<not> (48 \<le> (of_char c :: nat) \<and> (of_char c :: nat) \<le> 57)"
    if "c = CHR ''@'' \<or> c = CHR ''/'' \<or> c \<in> search_delims \<or> c = CHR '':''" for c
    using that by (auto simp: search_delims_def)
  with decimal_digits[of _ n] show "netloc_text (decimal n)" "CHR '':'' \<notin> set (decimal n)"
    unfolding netloc_text_def by blast+
qed

lemma netloc_text_append: "netloc_text (a @ b) \<longleftrightarrow> netloc_text a \<and> netloc_text b"
  by (auto simp: netloc_text_def)

lemma host_string_text: "plain_netloc n \<Longrightarrow> netloc_text (to_host_string n)"
proof -
  assume "plain_netloc n"
  moreover have "netloc_text '':''" by (simp add: netloc_text_def search_delims_def)
  ultimately show ?thesis
    using decimal_text(1) by (cases "nl_port n") (simp_all add: plain_netloc_def to_host_string_def netloc_text_append del: append_Cons append_Nil)
qed

lemma parse_netloc_plain:
  assumes lc: "lexical_cast_decimal lc" and n: "plain_netloc n"
  shows "parse_netloc lc (to_host_string n) = Inr n"
proof -
  have h: "nl_host n \<noteq> []" "hd (nl_host n) \<noteq> CHR ''/''" "CHR '':'' \<notin> set (nl_host n)"
    using n by (auto simp: plain_netloc_def netloc_text_def)
  then have two: "two_slashes (to_host_string n) 0 = Inr False"
    by (intro two_slashes_no) (auto simp: to_host_string_def)
  have "CHR ''@'' \<notin> set (to_host_string n)" using host_string_text[OF n] by (auto simp: netloc_text_def)
  then have ui: "parse_user_info (to_host_string n) 0 = Inr ([], [], 0)"
    by (simp add: parse_user_info_def sv_find_def)
  have n': "\<lparr>nl_username = [], nl_password = [], nl_host = nl_host n, nl_port = nl_port n\<rparr> = n"
    using n by (simp add: plain_netloc_def)
  show ?thesis
  proof (cases "nl_port n")
    case None
    with h two ui n' show ?thesis
      by (simp add: parse_netloc_def to_host_string_def sv_find_def substring_from_def sv_substr_from_def)
  next
    case (Some p)
    let ?d = "decimal (unat p)"
    have t: "to_host_string n = nl_host n @ CHR '':'' # ?d" using Some by (simp add: to_host_string_def)
    have "sv_find CHR '':'' (to_host_string n) 0 = Some (length (nl_host n))" using h(3) by (simp add: t sv_find_def)
    moreover have "substring_from (to_host_string n) (length (nl_host n) + 1) = (Inr ?d :: string result)"
      by (simp add: t substring_from_def sv_substr_from_def)
    moreover have "substring (to_host_string n) 0 (Some (length (nl_host n))) = (Inr (nl_host n) :: string result)"
      by (simp add: t substring_def sv_substr_def)
    ultimately show ?thesis
      using two ui n' Some parse_port_unat[OF lc] by (simp add: parse_netloc_def)
  qed
qed

text \<open>Path and search, as they follow a netloc.\<close>

definition plain_path :: "string \<Rightarrow> bool" where
  "plain_path p \<longleftrightarrow> (p = [] \<or> hd p = CHR ''/'') \<and> (\<forall>c\<in>set p. c \<notin> search_delims)"

definition plain_search :: "string \<Rightarrow> bool" where
  "plain_search q \<longleftrightarrow> q = [] \<or> hd q \<in> search_delims"

lemma find_delim:
  assumes "\<And>c. c \<in> set t \<Longrightarrow> c \<notin> search_delims" "plain_search q" "i = length pre"
  shows "sv_find_first_of search_delims (pre @ t @ q) i = (if q = [] then None else Some (length pre + length t))"
proof (cases q)
  case Nil
  with assms show ?thesis by (simp add: sv_find_first_of_def find_index_from_append find_index_None)
next
  case (Cons c r)
  with assms(2) have "c \<in> search_delims" by (simp add: plain_search_def)
  with Cons assms(1,3) show ?thesis by (simp add: sv_find_first_of_def find_index_from_append find_index_append_hit)
qed

lemma find_slash:
  assumes "CHR ''/'' \<notin> set t" "plain_path p" "p = [] \<Longrightarrow> CHR ''/'' \<notin> set q" "i = length pre"
  shows "sv_find CHR ''/'' (pre @ t @ p @ q) i = (if p = [] then None else Some (length pre + length t))"
proof (cases p)
  case Nil
  with assms show ?thesis by (simp add: sv_find_def find_index_from_append)
next
  case (Cons c r)
  with assms(2) have "c = CHR ''/''" by (simp add: plain_path_def)
  with Cons assms(1,4) show ?thesis by (simp add: sv_find_def find_index_from_append)
qed

lemma parse_with_netloc_plain:
  assumes lc: "lexical_cast_decimal lc" and n: "plain_netloc n" and p: "plain_path p" and q: "plain_search q"
    and pq: "p = [] \<Longrightarrow> CHR ''/'' \<notin> set q" and i: "i = length pre"
  shows "parse_with_netloc lc (pre @ to_host_string n @ p @ q) i res
    = Inr (res\<lparr>url_netloc := n, url_path := (if p = [] then url_path res else p),
        url_search := (if q = [] then url_search res else q)\<rparr>)"
proof -
  let ?t = "to_host_string n" and ?s = "pre @ to_host_string n @ p @ q"
  have t: "c \<notin> search_delims" "c \<noteq> CHR ''/''" if "c \<in> set ?t" for c
    using host_string_text[OF n] that by (auto simp: netloc_text_def)
  have d: "sv_find_first_of search_delims ?s i = (if q = [] then None else Some (length pre + length ?t + length p))"
  proof -
    have "c \<notin> search_delims" if "c \<in> set (?t @ p)" for c
      using t(1) p that by (auto simp: plain_path_def)
    from find_delim[where t = "?t @ p", OF this q i] show ?thesis by (simp add: add.assoc)
  qed
  have sl: "sv_find CHR ''/'' ?s i = (if p = [] then None else Some (length pre + length ?t))"
    using t(2) by (intro find_slash[OF _ p pq i]) blast+
  have nl: "substring ?s i (npos_min (if q = [] then None else Some (length pre + length ?t + length p))
      (if p = [] then None else Some (length pre + length ?t))) = (Inr ?t :: string result)"
    using substring_middle(1)[of pre ?t "p @ q"] substring_middle(3,4)[of pre ?t] i by auto
  have path: "substring ?s (length pre + length ?t) (Some (length pre + length ?t + length p)) = (Inr p :: string result)"
    using substring_middle(1)[of "pre @ ?t" p q] by simp
  have path2: "q = [] \<Longrightarrow> substring_from ?s (length pre + length ?t) = (Inr p :: string result)"
    using substring_middle(2)[of "pre @ ?t" p] by simp
  have srch: "substring_from ?s (length pre + length ?t + length p) = (Inr q :: string result)"
    using substring_middle(2)[of "pre @ ?t @ p" q] by (simp add: add.assoc)
  show ?thesis
    unfolding parse_with_netloc_def Let_def d sl nl
    using parse_netloc_plain[OF lc n] path path2 srch
    by (cases "p = []"; cases "q = []") simp_all
qed

section \<open>Properties\<close>

definition wf_absolute :: "url \<Rightarrow> bool" where
  "wf_absolute u \<longleftrightarrow> url_form u = Absolute_form \<and> url_scheme u \<noteq> [] \<and> hd (url_scheme u) \<noteq> CHR ''/''
     \<and> CHR '':'' \<notin> set (url_scheme u) \<and> plain_netloc (url_netloc u) \<and> plain_path (url_path u)
     \<and> plain_search (url_search u) \<and> (url_path u = [] \<longrightarrow> CHR ''/'' \<notin> set (url_search u))"

lemma parse_absolute_plain:
  assumes lc: "lexical_cast_decimal lc" and u: "wf_absolute u"
  shows "parse_absolute_form lc (url_to_string u) = Inr u"
proof -
  let ?s = "url_scheme u" and ?t = "to_host_string (url_netloc u)" and ?p = "url_path u" and ?q = "url_search u"
  have n: "plain_netloc (url_netloc u)" using u by (simp add: wf_absolute_def)
  then have ne: "\<not> nl_empty (url_netloc u)" "netloc_to_string (url_netloc u) = ?t"
    by (simp_all add: plain_netloc_def nl_empty_def netloc_to_string_def)
  define str where "str = ?s @ CHR '':'' # CHR ''/'' # CHR ''/'' # ?t @ ?p @ ?q"
  have s: "?s \<noteq> []" "hd ?s \<noteq> CHR ''/''" "CHR '':'' \<notin> set ?s" "url_form u = Absolute_form"
    using u by (simp_all add: wf_absolute_def)
  have str: "url_to_string u = str" using s ne by (simp add: url_to_string_def str_def)
  have "sv_find CHR '':'' str 0 = Some (length ?s)" using s(3) by (simp add: str_def sv_find_def)
  moreover have "two_slashes str 0 = Inr False" using s(1,2) by (intro two_slashes_no) (simp_all add: str_def)
  moreover have "substring str 0 (Some (length ?s)) = (Inr ?s :: string result)"
    by (simp add: str_def substring_def sv_substr_def)
  ultimately have sch: "parse_scheme str = Inr (length ?s, ?s)" by (simp add: parse_scheme_def)
  have sl: "two_slashes str (length ?s + 1) = Inr True"
    by (simp add: two_slashes_def sv_is_def sv_at_def str_def nth_append)
  have "parse_with_netloc lc str (length ?s + 3) \<lparr>url_form = Absolute_form, url_scheme = ?s, url_netloc = empty_netloc,
      url_path = [], url_search = []\<rparr> = Inr u"
    using parse_with_netloc_plain[OF lc n, of ?p ?q "length ?s + 3" "?s @ '':/'' @ ''/''"] u s(4)
    by (simp add: wf_absolute_def str_def)
  with sch sl show ?thesis unfolding str by (simp add: parse_absolute_form_def)
qed

text \<open>Targets in origin form that are as their parser leaves them.\<close>

definition wf_origin :: "url \<Rightarrow> bool" where
  "wf_origin u \<longleftrightarrow> u = make_origin_form (url_path u) (url_search u) \<and> url_path u \<noteq> [] \<and> plain_path (url_path u)
     \<and> plain_search (url_search u)"

lemma parse_target_origin:
  assumes "wf_origin u"
  shows "parse_target lc (url_to_string u) m = Inr u"
proof -
  let ?p = "url_path u" and ?q = "url_search u"
  have u: "u = make_origin_form ?p ?q" "?p \<noteq> []" "hd ?p = CHR ''/''" "plain_path ?p" "plain_search ?q"
    using assms by (auto simp: wf_origin_def plain_path_def)
  have s: "url_to_string u = ?p @ ?q" by (subst u(1), subst u(1)) (simp add: url_to_string_def make_origin_form_def)
  have "sv_find_first_of search_delims (?p @ ?q) 0 = (if ?q = [] then None else Some (length ?p))"
    using find_delim[of ?p ?q 0 "[]"] u(4,5) by (simp add: plain_path_def)
  then have "parse_origin_form (?p @ ?q) = Inr u"
    by (subst u(1)) (simp add: parse_origin_form_def sv_substr_def sv_substr_from_def)
  moreover have "?p @ ?q \<noteq> ''*''" "sv_is (?p @ ?q) 0 CHR ''/'' = (Inr True :: bool result)" using u(2,3) by (auto simp: sv_is_first append_eq_Cons_conv)
  ultimately show ?thesis by (simp add: s parse_target_def)
qed

lemma parse_target_absolute:
  assumes "lexical_cast_decimal lc" "wf_absolute u" "m \<noteq> M_CONNECT"
  shows "parse_target lc (url_to_string u) m = Inr u"
proof -
  have s: "url_scheme u \<noteq> []" "hd (url_scheme u) \<noteq> CHR ''/''" "url_form u = Absolute_form"
    using assms(2) by (simp_all add: wf_absolute_def)
  then obtain t where t: "url_to_string u = url_scheme u @ CHR '':'' # t" by (simp add: url_to_string_def)
  then have "url_to_string u \<noteq> ''*''" "sv_is (url_to_string u) 0 CHR ''/'' = (Inr False :: bool result)"
    using s by (auto simp: sv_is_first append_eq_Cons_conv)
  with parse_absolute_plain[OF assms(1,2)] assms(3) show ?thesis by (simp add: parse_target_def)
qed


definition example_url :: url where
  "example_url = \<lparr>url_form = Absolute_form, url_scheme = ''http'',
     url_netloc = \<lparr>nl_username = [], nl_password = [], nl_host = ''a.io'', nl_port = Some 80\<rparr>,
     url_path = ''/x'', url_search = ''?y''\<rparr>"


text \<open>User information is misread: the user name keeps the password, and the host keeps the
  \<open>@\<close>, for every \<open>user:password@host\<close> of plain parts.\<close>

theorem user_info_misread:
  assumes "netloc_text u" "netloc_text p" "netloc_text h" "u \<noteq> []"
    "CHR '':'' \<notin> set u" "CHR '':'' \<notin> set p" "CHR '':'' \<notin> set h"
  shows "parse_netloc lc (u @ '':'' @ p @ ''@'' @ h)
    = Inr \<lparr>nl_username = u @ '':'' @ p, nl_password = p, nl_host = ''@'' @ h, nl_port = None\<rparr>"
proof -
  define s where "s = u @ CHR '':'' # p @ CHR ''@'' # h"
  have "u \<noteq> [] \<Longrightarrow> hd u \<noteq> CHR ''/''" using assms(1) by (cases u) (auto simp: netloc_text_def)
  then have two: "two_slashes s 0 = Inr False" using assms(4) by (intro two_slashes_no) (simp_all add: s_def)
  have at: "sv_find CHR ''@'' s 0 = Some (length u + 1 + length p)"
    using assms(1,2) find_index_append_hit[of "u @ CHR '':'' # p" "\<lambda>x. x = CHR ''@''" "CHR ''@''" h]
    by (simp add: s_def sv_find_def netloc_text_def) fastforce
  have colon: "sv_find CHR '':'' s 0 = Some (length u)" using assms(5) by (simp add: s_def sv_find_def)
  have later: "sv_find CHR '':'' s (length u + 1 + length p) = None"
    using assms(6,7) by (auto simp: s_def sv_find_def find_index_from_None)
  have "substring s (length u + 1) (Some (length u + 1 + length p)) = (Inr p :: string result)"
    "substring s 0 (Some (length u + 1 + length p)) = (Inr (u @ '':'' @ p) :: string result)"
    "substring_from s (length u + 1 + length p) = (Inr (''@'' @ h) :: string result)"
    by (simp_all add: s_def substring_def sv_substr_def substring_from_def sv_substr_from_def)
  with two at colon later have "parse_netloc lc s
    = Inr \<lparr>nl_username = u @ '':'' @ p, nl_password = p, nl_host = ''@'' @ h, nl_port = None\<rparr>"
    by (simp add: parse_netloc_def parse_user_info_def)
  then show ?thesis by (simp add: s_def)
qed

theorem user_info_misread_witness:
  "parse_netloc decimal_reader (''bob'' @ '':'' @ ''pw'' @ ''@'' @ ''h.io'')
    = Inr \<lparr>nl_username = ''bob'' @ '':'' @ ''pw'', nl_password = ''pw'', nl_host = ''@'' @ ''h.io'', nl_port = None\<rparr>"
  by (rule user_info_misread) (simp_all add: netloc_text_def search_delims_def)

text \<open>The rest of a query is lost when it has a slash and there is no path, and an empty target is an
  out-of-range read.\<close>

lemma query_with_slash_truncated:
  "map_sum id (\<lambda>u. (url_path u, url_search u)) (parse_absolute_form decimal_reader ''http://h?a=/b'') = Inr (''/b'', [])"
  by (simp add: parse_absolute_form_def parse_scheme_def two_slashes_def sv_is_def sv_at_def sv_find_def substring_def
    sv_substr_def parse_with_netloc_def sv_find_first_of_def find_index_from_def search_delims_def Let_def
    parse_netloc_def parse_user_info_def substring_from_def sv_substr_from_def)

lemma empty_target_undefined: "parse_target lc [] m = Inl Undefined"
  by (simp add: parse_target_def sv_is_def sv_at_def)

text \<open>An origin-form target is split at the first of \<open>;?#\<close>: printing gives the text back, and no
  text is rejected.\<close>

theorem origin_form_total:
  assumes "str \<noteq> []" "hd str = CHR ''/''"
  shows "\<exists>u. parse_target lc str m = Inr u \<and> url_form u = Origin_form \<and> url_to_string u = str
    \<and> full_path u = str \<and> (\<forall>c\<in>set (url_path u). c \<notin> search_delims) \<and> plain_search (url_search u)"
proof -
  have ns: "str \<noteq> ''*''" using assms(2) by auto
  have t: "parse_target lc str m = parse_origin_form str" using assms ns by (simp add: parse_target_def sv_is_first)
  show ?thesis
  proof (cases "sv_find_first_of search_delims str 0")
    case None
    then have "parse_origin_form str = Inr (make_origin_form str [])" by (simp add: parse_origin_form_def)
    moreover have "\<forall>c\<in>set str. c \<notin> search_delims" using None by (simp add: sv_find_first_of_def find_index_None)
    ultimately show ?thesis
      by (simp add: t make_origin_form_def url_to_string_def full_path_def plain_search_def)
  next
    case (Some k)
    then have k: "k < length str" "str ! k \<in> search_delims" "\<forall>j<k. str ! j \<notin> search_delims"
      by (simp_all add: sv_find_first_of_def find_index_Some)
    then have "c \<notin> search_delims" if "c \<in> set (take k str)" for c
      using that by (auto simp: in_set_conv_nth)
    moreover have "plain_search (drop k str)" using k(1,2) by (simp add: plain_search_def hd_drop_conv_nth)
    moreover have "parse_origin_form str = Inr (make_origin_form (take k str) (drop k str))"
      using Some k(1) by (simp add: parse_origin_form_def sv_substr_def sv_substr_from_def)
    ultimately show ?thesis
      by (simp add: t make_origin_form_def url_to_string_def full_path_def)
  qed
qed

theorem origin_form_total_witness:
  "\<exists>u. parse_target decimal_reader ''/a?b/c'' M_GET = Inr u \<and> url_form u = Origin_form \<and> url_to_string u = ''/a?b/c''
    \<and> full_path u = ''/a?b/c'' \<and> (\<forall>c\<in>set (url_path u). c \<notin> search_delims) \<and> plain_search (url_search u)"
  by (rule origin_form_total) simp_all

end
