(* ===== verification/Ordered_Maps.thy ===== *)
theory Ordered_Maps
  imports Strings
begin

text \<open>
  \<^verbatim>\<open>std::multimap\<close> and \<^verbatim>\<open>std::map\<close> with a comparator, as association lists in the order of
  iteration.  The standard library compares keys with the comparator alone, so two keys are the
  same entry when neither is less than the other; a new element of a multimap goes behind the
  equivalent ones, and \<^verbatim>\<open>find\<close> gives the first of them.

  The locale \<open>key_order\<close> is the requirement the standard puts on a comparator.  The proxy uses two:
  \<^verbatim>\<open>util::string::iless\<close> for header and attribute names and \<^verbatim>\<open>std::less<>\<close> for cookie names; both
  are interpreted below.
\<close>

type_synonym ('k, 'v) omap = "('k \<times> 'v) list"

definition key_equiv :: "('k \<Rightarrow> 'k \<Rightarrow> bool) \<Rightarrow> 'k \<Rightarrow> 'k \<Rightarrow> bool" where
  "key_equiv lt a b \<longleftrightarrow> \<not> lt a b \<and> \<not> lt b a"

fun multimap_emplace :: "('k \<Rightarrow> 'k \<Rightarrow> bool) \<Rightarrow> 'k \<Rightarrow> 'v \<Rightarrow> ('k, 'v) omap \<Rightarrow> ('k, 'v) omap" where
  "multimap_emplace lt k v [] = [(k, v)]"
| "multimap_emplace lt k v ((k', v') # xs) =
     (if lt k k' then (k, v) # (k', v') # xs else (k', v') # multimap_emplace lt k v xs)"

definition omap_find :: "('k \<Rightarrow> 'k \<Rightarrow> bool) \<Rightarrow> 'k \<Rightarrow> ('k, 'v) omap \<Rightarrow> ('k \<times> 'v) option" where
  "omap_find lt k xs = find (\<lambda>(k', v). key_equiv lt k k') xs"

definition equal_range :: "('k \<Rightarrow> 'k \<Rightarrow> bool) \<Rightarrow> 'k \<Rightarrow> ('k, 'v) omap \<Rightarrow> ('k, 'v) omap" where
  "equal_range lt k xs = filter (\<lambda>(k', v). key_equiv lt k k') xs"

fun omap_erase_found :: "('k \<Rightarrow> 'k \<Rightarrow> bool) \<Rightarrow> 'k \<Rightarrow> ('k, 'v) omap \<Rightarrow> ('k, 'v) omap" where
  "omap_erase_found lt k [] = []"
| "omap_erase_found lt k ((k', v') # xs) = (if key_equiv lt k k' then xs else (k', v') # omap_erase_found lt k xs)"

definition map_emplace :: "('k \<Rightarrow> 'k \<Rightarrow> bool) \<Rightarrow> 'k \<Rightarrow> 'v \<Rightarrow> ('k, 'v) omap \<Rightarrow> ('k, 'v) omap" where
  "map_emplace lt k v xs = (if omap_find lt k xs = None then multimap_emplace lt k v xs else xs)"

text \<open>\<^verbatim>\<open>it->second = v\<close>, or \<^verbatim>\<open>emplace\<close> when the key is new.\<close>

fun map_assign_found :: "('k \<Rightarrow> 'k \<Rightarrow> bool) \<Rightarrow> 'k \<Rightarrow> 'v \<Rightarrow> ('k, 'v) omap \<Rightarrow> ('k, 'v) omap" where
  "map_assign_found lt k v [] = []"
| "map_assign_found lt k v ((k', v') # xs) =
     (if key_equiv lt k k' then (k', v) # xs else (k', v') # map_assign_found lt k v xs)"

definition map_set :: "('k \<Rightarrow> 'k \<Rightarrow> bool) \<Rightarrow> 'k \<Rightarrow> 'v \<Rightarrow> ('k, 'v) omap \<Rightarrow> ('k, 'v) omap" where
  "map_set lt k v xs = (if omap_find lt k xs = None then multimap_emplace lt k v xs else map_assign_found lt k v xs)"

definition omap_sorted :: "('k \<Rightarrow> 'k \<Rightarrow> bool) \<Rightarrow> ('k, 'v) omap \<Rightarrow> bool" where
  "omap_sorted lt xs \<longleftrightarrow> sorted_wrt (\<lambda>a b. \<not> lt (fst b) (fst a)) xs"

lemma omap_find_equal_range: "omap_find lt k xs = (case equal_range lt k xs of [] \<Rightarrow> None | e # es \<Rightarrow> Some e)"
  by (induction xs) (auto simp: omap_find_def equal_range_def)

lemma equal_range_erase: "equal_range lt k (omap_erase_found lt k xs) = tl (equal_range lt k xs)"
  by (induction xs) (auto simp: equal_range_def)

lemma set_multimap_emplace [simp]: "set (multimap_emplace lt k v xs) = insert (k, v) (set xs)"
  by (induction xs) (auto split: if_splits)

lemma set_erase_found: "set (omap_erase_found lt k xs) \<subseteq> set xs"
  by (induction xs) (auto split: if_splits)

section \<open>Comparators\<close>

locale key_order =
  fixes lt :: "'k \<Rightarrow> 'k \<Rightarrow> bool"
  assumes asym: "lt a b \<Longrightarrow> \<not> lt b a"
    and neg_trans: "\<not> lt a b \<Longrightarrow> \<not> lt b c \<Longrightarrow> \<not> lt a c"
begin

lemma equiv_refl: "key_equiv lt a a"
  using asym[of a a] by (auto simp: key_equiv_def)

lemma equiv_sym: "key_equiv lt a b \<Longrightarrow> key_equiv lt b a"
  by (auto simp: key_equiv_def)

lemma equiv_trans: "key_equiv lt a b \<Longrightarrow> key_equiv lt b c \<Longrightarrow> key_equiv lt a c"
  using neg_trans by (auto simp: key_equiv_def)

lemma emplace_sorted: "omap_sorted lt xs \<Longrightarrow> omap_sorted lt (multimap_emplace lt k v xs)"
proof (induction xs)
  case (Cons x xs)
  obtain k' v' where x: "x = (k', v')" by fastforce
  show ?case
  proof (cases "lt k k'")
    case True
    then have "\<not> lt k' k" by (rule asym)
    with Cons.prems True x show ?thesis
      using neg_trans[of _ k' k] by (fastforce simp: omap_sorted_def)
  next
    case False
    with Cons x show ?thesis by (auto simp: omap_sorted_def)
  qed
qed (simp add: omap_sorted_def)

lemma erase_sorted: "omap_sorted lt xs \<Longrightarrow> omap_sorted lt (omap_erase_found lt k xs)"
proof (induction xs)
  case (Cons x xs)
  then show ?case using set_erase_found[of lt k xs] by (cases x) (auto simp: omap_sorted_def)
qed (simp add: omap_sorted_def)

lemma equiv_cong: "key_equiv lt k k' \<Longrightarrow> key_equiv lt k a \<longleftrightarrow> key_equiv lt k' a"
  using equiv_trans[of k k' a] equiv_trans[of k' k a] equiv_sym[of k k'] by blast

lemma equal_range_cong: "key_equiv lt k k' \<Longrightarrow> equal_range lt k xs = equal_range lt k' xs"
  unfolding equal_range_def using equiv_cong by (intro filter_cong) auto

lemma equal_range_Cons: "equal_range lt k ((a, b) # xs) = (if key_equiv lt k a then [(a, b)] else []) @ equal_range lt k xs"
  by (simp add: equal_range_def)

text \<open>A new element becomes the last of its equivalence class; the others stay as they are.\<close>

lemma equal_range_emplace:
  assumes "omap_sorted lt xs"
  shows "equal_range lt k (multimap_emplace lt k' v xs)
    = equal_range lt k xs @ (if key_equiv lt k k' then [(k', v)] else [])"
  using assms
proof (induction xs)
  case (Cons x xs)
  obtain a b where x: "x = (a, b)" by fastforce
  show ?case
  proof (cases "lt k' a")
    case True
    have "\<not> key_equiv lt k' (fst y)" if "y \<in> set (x # xs)" for y
    proof -
      have "\<not> lt (fst y) a" using Cons.prems that x asym[of a a] by (auto simp: omap_sorted_def)
      then show ?thesis using True neg_trans[of k' "fst y" a] by (auto simp: key_equiv_def)
    qed
    then have "equal_range lt k (x # xs) = []" if "key_equiv lt k k'"
      unfolding equal_range_cong[OF that] by (force simp: equal_range_def filter_empty_conv)
    with True x show ?thesis by (auto simp: equal_range_Cons)
  next
    case False
    have "omap_sorted lt xs" using Cons.prems by (simp add: omap_sorted_def)
    from Cons.IH[OF this] False x show ?thesis by (simp add: equal_range_Cons)
  qed
qed (simp add: equal_range_def)

lemma equal_range_other:
  assumes "\<not> key_equiv lt k k'"
  shows "equal_range lt k (omap_erase_found lt k' xs) = equal_range lt k xs"
proof (induction xs)
  case (Cons x xs)
  obtain a b where x: "x = (a, b)" by fastforce
  have "key_equiv lt k' a \<Longrightarrow> \<not> key_equiv lt k a" using assms equiv_trans equiv_sym by blast
  with Cons x show ?case by (simp add: equal_range_Cons)
qed (simp add: equal_range_def)

end

section \<open>The comparators of the proxy\<close>

lemma lexicographical_compare_asym:
  fixes a b :: "'a :: linorder list"
  shows "lexicographical_compare (<) a b \<Longrightarrow> \<not> lexicographical_compare (<) b a"
proof (induction "(<) :: 'a \<Rightarrow> 'a \<Rightarrow> bool" a b rule: lexicographical_compare.induct)
  case (3 x xs y ys)
  then show ?case by (cases "x < y"; cases "y < x") auto
qed auto

lemma lexicographical_compare_neg_trans:
  fixes a b c :: "'a :: linorder list"
  shows "\<not> lexicographical_compare (<) a b \<Longrightarrow> \<not> lexicographical_compare (<) b c \<Longrightarrow> \<not> lexicographical_compare (<) a c"
proof (induction a arbitrary: b c)
  case Nil
  then show ?case by (cases b; cases c) auto
next
  case (Cons x xs)
  then show ?case by (cases b; cases c) (auto split: if_splits)
qed

lemma lexicographical_compare_map:
  "lexicographical_compare (\<lambda>x y. lt (f x) (f y)) a b = lexicographical_compare lt (map f a) (map f b)"
  by (induction "\<lambda>x y. lt (f x) (f y)" a b rule: lexicographical_compare.induct) auto

lemma lexicographical_compare_equal:
  fixes a b :: "'a :: linorder list"
  shows "\<not> lexicographical_compare (<) a b \<and> \<not> lexicographical_compare (<) b a \<longleftrightarrow> a = b"
proof (induction a arbitrary: b)
  case Nil
  then show ?case by (cases b) auto
next
  case (Cons x xs)
  then show ?case by (cases b) (auto split: if_splits)
qed

definition fold_case :: "string \<Rightarrow> int list" where
  "fold_case s = map (\<lambda>c. char_int (to_lower c)) s"

lemma iless_fold: "iless a b = lexicographical_compare (<) (fold_case a) (fold_case b)"
  using lexicographical_compare_map[of "(<)" "\<lambda>c. char_int (to_lower c)" a b] by (simp add: iless_def fold_case_def)

lemma char_int_inj: "char_int a = char_int b \<Longrightarrow> a = b"
proof -
  have "0 \<le> (of_char c :: int) \<and> (of_char c :: int) < 256" for c
    by (cases c) (auto simp: of_char_def horner_sum_simps)
  moreover assume "char_int a = char_int b"
  ultimately have "(of_char a :: int) = of_char b" by (auto simp: char_int_def split: if_splits) (smt (verit))+
  then show ?thesis by (simp add: of_char_eq_iff)
qed

text \<open>Two names are the same header exactly when \<^verbatim>\<open>iequals\<close> says so.\<close>

lemma fold_case_eq: "fold_case a = fold_case b \<longleftrightarrow> iequals a b"
proof -
  have "equal_by (\<lambda>x y. to_lower x = to_lower y) a b \<longleftrightarrow> map to_lower a = map to_lower b"
    by (induction "\<lambda>x y. to_lower x = to_lower y" a b rule: equal_by.induct) auto
  moreover have "fold_case a = map char_int (map to_lower a)" for a by (simp add: fold_case_def comp_def)
  moreover have "inj char_int" by (auto intro: injI char_int_inj)
  ultimately show ?thesis by (simp add: iequals_def inj_map_eq_map del: map_map)
qed

lemma key_equiv_iless: "key_equiv iless a b \<longleftrightarrow> iequals a b"
  by (simp add: key_equiv_def iless_fold lexicographical_compare_equal fold_case_eq)

definition string_less :: "string \<Rightarrow> string \<Rightarrow> bool" where
  "string_less a b = lexicographical_compare (\<lambda>x y. (of_char x :: nat) < of_char y) a b"

lemma string_less_fold: "string_less a b = lexicographical_compare (<) (map of_char a) (map of_char b :: nat list)"
  using lexicographical_compare_map[of "(<)" "of_char :: char \<Rightarrow> nat" a b] by (simp add: string_less_def)

lemma key_equiv_string_less: "key_equiv string_less a b \<longleftrightarrow> a = b"
proof -
  have "inj (of_char :: char \<Rightarrow> nat)" by (auto intro: injI simp: of_char_eq_iff)
  then show ?thesis by (simp add: key_equiv_def string_less_fold lexicographical_compare_equal inj_map_eq_map)
qed

interpretation iless_order: key_order iless
  unfolding key_order_def iless_fold using lexicographical_compare_asym lexicographical_compare_neg_trans by blast

interpretation string_order: key_order string_less
  unfolding key_order_def string_less_fold using lexicographical_compare_asym lexicographical_compare_neg_trans by blast

lemma iequals_refl [simp]: "iequals a a"
  using iless_order.equiv_refl by (simp add: key_equiv_iless)

end
