(* ===== verification/Cookie.thy ===== *)
theory Cookie
  imports Ordered_Maps String_Facts
begin

text \<open>
  http/state/{cookie,cookie_collection}.{hpp,cpp}.  The dates of an \<^verbatim>\<open>Expires\<close> attribute are
  \<^verbatim>\<open>boost::posix_time\<close> values: their type, their printer and their reader are parameters.
\<close>

record cookie =
  ck_name :: string
  ck_value :: string
  ck_attributes :: "(string, string) omap"

type_synonym cookie_collection = "(string, cookie) omap"

definition cookie_make :: "string \<Rightarrow> string \<Rightarrow> cookie" where
  "cookie_make name val = \<lparr>ck_name = name, ck_value = val, ck_attributes = []\<rparr>"

section \<open>One cookie\<close>

lemma sv_find_progress: "sv_find c s (Suc i) = Some e \<Longrightarrow> length s - e < length s - i"
  by (auto simp: sv_find_def dest!: find_index_from_bounds)

function parse_attributes :: "string \<Rightarrow> nat \<Rightarrow> (string, string) omap \<Rightarrow> (string, string) omap result" where
  "parse_attributes header i attributes =
     (if i < length header then
        let j = i + 1; attribute_end = sv_find CHR '';'' header j; separator = sv_find CHR ''='' header j;
          step = (if \<not> npos_less separator attribute_end
            then rbind (substring header j attribute_end) (\<lambda>n. Inr (map_emplace iless (trim_ws n) [] attributes))
            else rbind (substring header j separator) (\<lambda>n.
                 rbind (substring header (the separator + 1) attribute_end) (\<lambda>v.
                 Inr (map_emplace iless (trim_ws n) (trim_ws v) attributes))))
        in case attribute_end of
             None \<Rightarrow> step
           | Some e \<Rightarrow> (case step of Inl f \<Rightarrow> Inl f | Inr attributes' \<Rightarrow> parse_attributes header e attributes')
      else Inr attributes)"
  by pat_completeness auto
termination
  by (relation "measure (\<lambda>(header, i, attributes). length header - i)") (auto dest: sv_find_progress[OF sym])

declare parse_attributes.simps [simp del]

definition parse_set_header :: "string \<Rightarrow> cookie option result" where
  "parse_set_header header = (case sv_find CHR ''='' header 0 of
     None \<Rightarrow> Inr None
   | Some separator \<Rightarrow>
       let attribute_separator = sv_find CHR '';'' header 0 in
       rbind (substring header 0 (Some separator)) (\<lambda>name.
       rbind (substring header (separator + 1) attribute_separator) (\<lambda>val.
       rbind (case attribute_separator of None \<Rightarrow> Inr [] | Some a \<Rightarrow> parse_attributes header a []) (\<lambda>attributes.
       Inr (Some \<lparr>ck_name = trim_ws name, ck_value = trim_ws val, ck_attributes = attributes\<rparr>)))))"

definition get_attribute :: "string \<Rightarrow> cookie \<Rightarrow> string option" where
  "get_attribute attribute c = map_option snd (omap_find iless attribute (ck_attributes c))"

definition set_attribute :: "string \<Rightarrow> string \<Rightarrow> cookie \<Rightarrow> cookie" where
  "set_attribute attribute val c = c\<lparr>ck_attributes := map_set iless attribute val (ck_attributes c)\<rparr>"

text \<open>
  The stream that \<^verbatim>\<open>expires\<close> reads from is never given the attribute's value.
\<close>

definition cookie_expires :: "(string \<Rightarrow> 'time option) \<Rightarrow> cookie \<Rightarrow> 'time option" where
  "cookie_expires read_time c = (case omap_find iless ''Expires'' (ck_attributes c) of
     None \<Rightarrow> None
   | Some it \<Rightarrow> read_time [])"

definition cookie_domain :: "cookie \<Rightarrow> string option" where
  "cookie_domain c = (case omap_find iless ''Domain'' (ck_attributes c) of
     None \<Rightarrow> None
   | Some it \<Rightarrow> Some (if snd it \<noteq> [] \<and> hd (snd it) = CHR ''.'' then drop 1 (snd it) else snd it))"

definition set_expires :: "('time \<Rightarrow> string) \<Rightarrow> 'time \<Rightarrow> cookie \<Rightarrow> cookie" where
  "set_expires print_time time c = set_attribute ''Expires'' (print_time time) c"

definition cookie_expire :: "('time \<Rightarrow> string) \<Rightarrow> 'time \<Rightarrow> cookie \<Rightarrow> cookie" where
  "cookie_expire print_time epoch c = set_expires print_time epoch c"

definition set_domain :: "string \<Rightarrow> cookie \<Rightarrow> cookie" where
  "set_domain domain c = set_attribute ''Domain'' domain c"

definition cookie_request_string :: "cookie \<Rightarrow> string" where
  "cookie_request_string c = ck_name c @ ''='' @ ck_value c"

definition attribute_text :: "string \<times> string \<Rightarrow> string" where
  "attribute_text a = ''; '' @ fst a @ (if snd a = [] then [] else ''='' @ snd a)"

definition cookie_response_string :: "cookie \<Rightarrow> string" where
  "cookie_response_string c = ck_name c @ ''='' @ ck_value c @ concat (map attribute_text (ck_attributes c))"

definition cookie_less :: "cookie \<Rightarrow> cookie \<Rightarrow> bool" where
  "cookie_less a b = string_less (ck_name a) (ck_name b)"

section \<open>Collections\<close>

definition cookies_get :: "string \<Rightarrow> cookie_collection \<Rightarrow> cookie option" where
  "cookies_get name cs = map_option snd (omap_find string_less name cs)"

definition cookies_set :: "cookie \<Rightarrow> cookie_collection \<Rightarrow> cookie_collection" where
  "cookies_set c cs = map_set string_less (ck_name c) c cs"

definition cookies_remove :: "cookie \<Rightarrow> cookie_collection \<Rightarrow> cookie_collection" where
  "cookies_remove c cs = omap_erase_found string_less (ck_name c) cs"

definition cookies_update :: "cookie_collection \<Rightarrow> cookie_collection \<Rightarrow> cookie_collection" where
  "cookies_update new_cookies cs = foldl (\<lambda>acc e. cookies_set (snd e) acc) cs new_cookies"

definition cookies_request_string :: "cookie_collection \<Rightarrow> string" where
  "cookies_request_string cs = (case cs of
     [] \<Rightarrow> []
   | c # rest \<Rightarrow> cookie_request_string (snd c) @ concat (map (\<lambda>e. ''; '' @ cookie_request_string (snd e)) rest))"

function parse_cookies :: "string \<Rightarrow> nat \<Rightarrow> cookie_collection \<Rightarrow> cookie_collection result" where
  "parse_cookies header i cs =
     (if i < length header then
        let j = i + 1; separator = sv_find CHR ''='' header j; cookie_end = sv_find CHR '';'' header j;
          step = (if npos_less separator cookie_end
            then rbind (substring header j separator) (\<lambda>n.
                 rbind (substring header (the separator + 1) cookie_end) (\<lambda>v.
                 Inr (cookies_set (cookie_make (trim_ws n) (trim_ws v)) cs)))
            else Inr cs)
        in case cookie_end of
             None \<Rightarrow> step
           | Some e \<Rightarrow> (case step of Inl f \<Rightarrow> Inl f | Inr cs' \<Rightarrow> parse_cookies header e cs')
      else Inr cs)"
  by pat_completeness auto
termination
  by (relation "measure (\<lambda>(header, i, cs). length header - i)") (auto dest: sv_find_progress[OF sym])

declare parse_cookies.simps [simp del]

definition parse_request_header :: "string \<Rightarrow> cookie_collection result" where
  "parse_request_header header = parse_cookies header 0 []"

section \<open>Round trips\<close>

text \<open>Text that \<open>trim\<close> leaves alone.\<close>

definition trimmed :: "string \<Rightarrow> bool" where
  "trimmed s \<longleftrightarrow> (s \<noteq> [] \<longrightarrow> hd s \<notin> default_whitespace \<and> last s \<notin> default_whitespace)"

lemma trim_trimmed: "trimmed s \<Longrightarrow> trim_ws s = s"
  by (intro trim_unique[of _ "[]" _ "[]"]) (simp_all add: trimmed_def)

lemma trim_space_trimmed: "trimmed s \<Longrightarrow> trim_ws (CHR '' '' # s) = s"
  by (intro trim_unique[of _ "'' ''" _ "[]"]) (simp_all add: trimmed_def default_whitespace_def)

lemma sv_find_here: "c \<notin> set t \<Longrightarrow> i = length pre \<Longrightarrow> sv_find c (pre @ t @ c # rest) i = Some (length pre + length t)"
  by (simp add: sv_find_def find_index_from_append)

lemma sv_find_none: "c \<notin> set t \<Longrightarrow> i = length pre \<Longrightarrow> sv_find c (pre @ t) i = None"
  by (simp add: sv_find_def find_index_from_append)

lemma substring_here: "i = length pre \<Longrightarrow> j = length pre + length t \<Longrightarrow> substring (pre @ t @ rest) i (Some j) = Inr t"
  by (simp add: substring_def sv_substr_def)

lemma substring_rest: "i = length pre \<Longrightarrow> substring (pre @ t) i None = Inr t"
  by (simp add: substring_def sv_substr_from_def)

definition wf_attribute :: "string \<times> string \<Rightarrow> bool" where
  "wf_attribute a \<longleftrightarrow> CHR '';'' \<notin> set (fst a) \<and> CHR ''='' \<notin> set (fst a) \<and> trimmed (fst a)
     \<and> CHR '';'' \<notin> set (snd a) \<and> trimmed (snd a)"

definition attributes_ordered :: "(string, string) omap \<Rightarrow> bool" where
  "attributes_ordered as \<longleftrightarrow> sorted_wrt (\<lambda>a b. iless (fst a) (fst b)) as"

lemma map_emplace_last:
  assumes "\<forall>a\<in>set xs. iless (fst a) k"
  shows "map_emplace iless k v xs = xs @ [(k, v)]"
proof -
  have "\<not> key_equiv iless k (fst a)" if "a \<in> set xs" for a using assms that by (simp add: key_equiv_def)
  then have "omap_find iless k xs = None"
    by (auto simp: omap_find_def find_None_iff split_beta)
  moreover have "multimap_emplace iless k v xs = xs @ [(k, v)]"
    using assms iless_order.asym by (induction xs) auto
  ultimately show ?thesis by (simp add: map_emplace_def)
qed

text \<open>One turn of the attribute loop, with the end of the attribute at the next semicolon or the end.\<close>

lemma parse_attribute_step:
  assumes a: "wf_attribute (n, v)" and i: "i = length pre"
    and rest: "rest = [] \<or> (\<exists>r. rest = CHR '';'' # r)" and h: "header = pre @ attribute_text (n, v) @ rest"
  shows "parse_attributes header i as = (if rest = [] then Inr (map_emplace iless n v as)
    else parse_attributes header (i + length (attribute_text (n, v))) (map_emplace iless n v as))"
proof -
  let ?pre = "pre @ [CHR '';'']" and ?val = "if v = [] then [] else CHR ''='' # v"
  let ?j = "i + 1" and ?e = "length pre + length (attribute_text (n, v))"
  have h1: "header = ?pre @ (CHR '' '' # n @ ?val) @ rest" using h by (simp add: attribute_text_def)
  have j: "?j = length ?pre" using i by simp
  have wf: "CHR '';'' \<notin> set n" "CHR ''='' \<notin> set n" "trimmed n" "CHR '';'' \<notin> set v" "trimmed v"
    using a by (simp_all add: wf_attribute_def)
  have e: "sv_find CHR '';'' header ?j = (if rest = [] then None else Some ?e)"
  proof (cases "rest = []")
    case True
    then show ?thesis using sv_find_none[of "CHR '';''" "CHR '' '' # n @ ?val" ?j ?pre] wf j by (simp add: h1)
  next
    case False
    with rest obtain r where "rest = CHR '';'' # r" by blast
    then show ?thesis
      using sv_find_here[of "CHR '';''" "CHR '' '' # n @ ?val" ?j ?pre r] wf j by (simp add: h1 attribute_text_def)
  qed
  have step: "(if \<not> npos_less (sv_find CHR ''='' header ?j) (sv_find CHR '';'' header ?j)
      then rbind (substring header ?j (sv_find CHR '';'' header ?j)) (\<lambda>n. Inr (map_emplace iless (trim_ws n) [] as))
      else rbind (substring header ?j (sv_find CHR ''='' header ?j)) (\<lambda>n.
           rbind (substring header (the (sv_find CHR ''='' header ?j) + 1) (sv_find CHR '';'' header ?j)) (\<lambda>v.
           Inr (map_emplace iless (trim_ws n) (trim_ws v) as)))) = (Inr (map_emplace iless n v as) :: (string, string) omap result)"
  proof (cases "v = []")
    case True
    have "\<not> npos_less (sv_find CHR ''='' header ?j) (sv_find CHR '';'' header ?j)"
    proof (cases "rest = []")
      case True
      with \<open>v = []\<close> e wf j show ?thesis
        using sv_find_none[of "CHR ''=''" "CHR '' '' # n" ?j ?pre] by (simp add: h1)
    next
      case False
      have "length ?pre + length (CHR '' '' # n) \<le> k" if k: "sv_find CHR ''='' header ?j = Some k" for k
      proof (rule ccontr)
        assume less: "\<not> length ?pre + length (CHR '' '' # n) \<le> k"
        have b: "?j \<le> k" "header ! k = CHR ''=''" using k by (auto simp: sv_find_def dest: find_index_from_bounds)
        have "header ! k = (CHR '' '' # n) ! (k - length ?pre)"
          using less b(1) \<open>v = []\<close> j by (simp add: h1 nth_append del: append_assoc) (auto simp: nth_append nth_Cons')
        moreover have "k - length ?pre < length (CHR '' '' # n)" using less b(1) j by simp
        ultimately have "CHR ''='' \<in> set (CHR '' '' # n)" using b(2) nth_mem by metis
        with wf show False by simp
      qed
      then show ?thesis using e False \<open>v = []\<close>
        by (cases "sv_find CHR ''='' header ?j") (auto simp: attribute_text_def)
    qed
    moreover have "substring header ?j (sv_find CHR '';'' header ?j) = (Inr (CHR '' '' # n) :: string result)"
    proof (cases "rest = []")
      case True
      then show ?thesis unfolding e using substring_rest[OF j, of "CHR '' '' # n"] \<open>v = []\<close> by (simp add: h1)
    next
      case False
      then show ?thesis unfolding e using substring_here[OF j, of ?e "CHR '' '' # n" rest] \<open>v = []\<close>
        by (simp add: h1 attribute_text_def)
    qed
    ultimately show ?thesis using trim_space_trimmed[OF wf(3)] True by simp
  next
    case False
    have h2: "header = ?pre @ (CHR '' '' # n) @ CHR ''='' # v @ rest" using False by (simp add: h1)
    have s: "sv_find CHR ''='' header ?j = Some (length ?pre + length (CHR '' '' # n))"
      unfolding h2 using wf by (intro sv_find_here[OF _ j]) simp
    have "npos_less (sv_find CHR ''='' header ?j) (sv_find CHR '';'' header ?j)"
      unfolding s e using False by (simp add: attribute_text_def)
    moreover have "substring header ?j (sv_find CHR ''='' header ?j) = (Inr (CHR '' '' # n) :: string result)"
      unfolding s unfolding h2 by (rule substring_here[OF j]) simp
    moreover have "substring header (the (sv_find CHR ''='' header ?j) + 1) (sv_find CHR '';'' header ?j) = (Inr v :: string result)"
    proof -
      have h3: "header = (?pre @ (CHR '' '' # n) @ ''='') @ v @ rest" by (simp add: h2)
      have k: "the (sv_find CHR ''='' header ?j) + 1 = length (?pre @ (CHR '' '' # n) @ ''='')" unfolding s by simp
      show ?thesis
      proof (cases "rest = []")
        case True
        then show ?thesis unfolding e using substring_rest[OF k, of v] by (simp add: h3)
      next
        case f: False
        have "?e = length (?pre @ (CHR '' '' # n) @ ''='') + length v" using False by (simp add: attribute_text_def)
        from substring_here[OF k this, of rest] show ?thesis unfolding e using f by (simp only: h3 if_False)
      qed
    qed
    ultimately show ?thesis using trim_space_trimmed[OF wf(3)] trim_trimmed[OF wf(5)] by simp
  qed
  have lt: "i < length header" using i h by (simp add: attribute_text_def)
  show ?thesis
    by (subst parse_attributes.simps) (simp only: lt if_True Let_def step, simp only: e, simp add: i)
qed

lemma attribute_texts: "concat (map attribute_text as) = [] \<or> (\<exists>r. concat (map attribute_text as) = CHR '';'' # r)"
  by (cases as) (simp_all add: attribute_text_def)

lemma attribute_texts_empty: "concat (map attribute_text as) = [] \<longleftrightarrow> as = []"
  by (cases as) (simp_all add: attribute_text_def)

lemma parse_attributes_texts:
  "list_all wf_attribute bs \<Longrightarrow> attributes_ordered (as @ bs) \<Longrightarrow> header = pre @ concat (map attribute_text bs) \<Longrightarrow>
    i = length pre \<Longrightarrow> parse_attributes header i as = Inr (as @ bs)"
proof (induction bs arbitrary: as pre i)
  case Nil
  then show ?case by (subst parse_attributes.simps) simp
next
  case (Cons b bs)
  obtain n v where b: "b = (n, v)" by fastforce
  have "\<forall>a\<in>set as. iless (fst a) n" using Cons.prems(2) b by (auto simp: attributes_ordered_def sorted_wrt_append)
  note e = map_emplace_last[OF this, of v]
  have h: "header = pre @ attribute_text (n, v) @ concat (map attribute_text bs)" using Cons.prems(3) b by simp
  have w: "wf_attribute (n, v)" using Cons.prems(1) b by simp
  note st = parse_attribute_step[OF w Cons.prems(4) attribute_texts h, of as]
  show ?case
  proof (cases "bs = []")
    case True
    then show ?thesis using st e b by simp
  next
    case False
    have "parse_attributes header (i + length (attribute_text (n, v))) (as @ [b]) = Inr ((as @ [b]) @ bs)"
      using Cons.prems(1,2,4) h b by (intro Cons.IH[of _ "pre @ attribute_text (n, v)"]) simp_all
    moreover have "concat (map attribute_text bs) \<noteq> []" using False attribute_texts_empty by blast
    ultimately show ?thesis using e b unfolding st by (simp only: if_False) simp
  qed
qed

definition wf_cookie :: "cookie \<Rightarrow> bool" where
  "wf_cookie c \<longleftrightarrow> CHR '';'' \<notin> set (ck_name c) \<and> CHR ''='' \<notin> set (ck_name c) \<and> trimmed (ck_name c)
     \<and> CHR '';'' \<notin> set (ck_value c) \<and> trimmed (ck_value c)
     \<and> list_all wf_attribute (ck_attributes c) \<and> attributes_ordered (ck_attributes c)"

text \<open>A \<^verbatim>\<open>Set-Cookie\<close> header that was printed from a cookie is parsed back to it, with all its
  attributes.\<close>

theorem set_cookie_round_trip:
  assumes "wf_cookie c"
  shows "parse_set_header (cookie_response_string c) = Inr (Some c)"
proof -
  let ?n = "ck_name c" and ?v = "ck_value c" and ?as = "ck_attributes c"
  let ?t = "concat (map attribute_text ?as)"
  have wf: "CHR '';'' \<notin> set ?n" "CHR ''='' \<notin> set ?n" "trimmed ?n" "CHR '';'' \<notin> set ?v" "trimmed ?v"
    "list_all wf_attribute ?as" "attributes_ordered ?as" using assms by (simp_all add: wf_cookie_def)
  have h: "cookie_response_string c = ?n @ CHR ''='' # ?v @ ?t" by (simp add: cookie_response_string_def)
  have s: "sv_find CHR ''='' (cookie_response_string c) 0 = Some (length ?n)"
    using sv_find_here[OF wf(2), of 0 "[]"] h by simp
  have a: "sv_find CHR '';'' (cookie_response_string c) 0 = (if ?as = [] then None else Some (length ?n + 1 + length ?v))"
  proof (cases "?as = []")
    case True
    then show ?thesis using sv_find_none[of "CHR '';''" "?n @ CHR ''='' # ?v" 0 "[]"] wf h by simp
  next
    case False
    with attribute_texts[of ?as] attribute_texts_empty[of ?as] obtain r where "?t = CHR '';'' # r" by blast
    then show ?thesis using sv_find_here[of "CHR '';''" "?n @ CHR ''='' # ?v" 0 "[]" r] wf h False by simp
  qed
  have n: "substring (cookie_response_string c) 0 (Some (length ?n)) = (Inr ?n :: string result)"
    by (simp add: h substring_def sv_substr_def)
  have h2: "cookie_response_string c = (?n @ ''='') @ ?v @ ?t" using h by simp
  have v: "substring (cookie_response_string c) (length ?n + 1) (if ?as = [] then None else Some (length ?n + 1 + length ?v))
      = (Inr ?v :: string result)"
    by (simp add: h substring_def sv_substr_def sv_substr_from_def)
  have "parse_attributes (cookie_response_string c) (length ?n + 1 + length ?v) [] = Inr ?as"
    using wf(6,7) h2 by (intro parse_attributes_texts[of ?as "[]" _ "?n @ ''='' @ ?v", simplified]) simp_all
  with s a n v trim_trimmed[OF wf(3)] trim_trimmed[OF wf(5)] show ?thesis
    by (simp add: parse_set_header_def Let_def)
qed

theorem set_cookie_round_trip_witness:
  "parse_set_header (cookie_response_string \<lparr>ck_name = ''id'', ck_value = ''7'', ck_attributes = [(''Path'', ''/''), (''Secure'', [])]\<rparr>)
    = Inr (Some \<lparr>ck_name = ''id'', ck_value = ''7'', ck_attributes = [(''Path'', ''/''), (''Secure'', [])]\<rparr>)"
proof -
  have "iless ''Path'' ''Secure''" by code_simp
  then show ?thesis
    by (intro set_cookie_round_trip)
      (simp add: wf_cookie_def trimmed_def default_whitespace_def wf_attribute_def attributes_ordered_def)
qed

text \<open>The request header.\<close>

lemma find_none_string_less:
  "\<forall>e\<in>set cs. string_less (fst e) k \<Longrightarrow> map_set string_less k c cs = cs @ [(k, c)]"
proof -
  assume l: "\<forall>e\<in>set cs. string_less (fst e) k"
  then have "\<not> key_equiv string_less k (fst e)" if "e \<in> set cs" for e using that by (simp add: key_equiv_def)
  then have "omap_find string_less k cs = None" by (auto simp: omap_find_def find_None_iff split_beta)
  moreover have "multimap_emplace string_less k c cs = cs @ [(k, c)]"
    using l string_order.asym by (induction cs) auto
  ultimately show ?thesis by (simp add: map_set_def)
qed

definition wf_pair :: "cookie \<Rightarrow> bool" where
  "wf_pair c \<longleftrightarrow> ck_attributes c = [] \<and> CHR '';'' \<notin> set (ck_name c) \<and> CHR ''='' \<notin> set (ck_name c)
     \<and> trimmed (ck_name c) \<and> CHR '';'' \<notin> set (ck_value c) \<and> trimmed (ck_value c)"

lemma parse_cookie_step:
  assumes c: "wf_pair c" and i: "i = length pre" and l: "l = [] \<or> l = '' ''"
    and rest: "rest = [] \<or> (\<exists>r. rest = CHR '';'' # r)"
    and h: "header = pre @ x # l @ cookie_request_string c @ rest"
  shows "parse_cookies header i cs = (if rest = [] then Inr (cookies_set c cs)
    else parse_cookies header (i + 1 + length l + length (cookie_request_string c)) (cookies_set c cs))"
proof -
  let ?n = "ck_name c" and ?v = "ck_value c" and ?pre = "pre @ [x]" and ?j = "i + 1"
  let ?e = "i + 1 + length l + length (cookie_request_string c)"
  have wf: "CHR '';'' \<notin> set ?n" "CHR ''='' \<notin> set ?n" "trimmed ?n" "CHR '';'' \<notin> set ?v" "trimmed ?v"
    "c = cookie_make ?n ?v" using c by (simp_all add: wf_pair_def cookie_make_def)
  have j: "?j = length ?pre" using i by simp
  have h2: "header = ?pre @ (l @ ?n) @ CHR ''='' # ?v @ rest" using h by (simp add: cookie_request_string_def)
  have h3: "header = (?pre @ (l @ ?n) @ ''='') @ ?v @ rest" using h2 by simp
  have s: "sv_find CHR ''='' header ?j = Some (length ?pre + length (l @ ?n))"
    unfolding h2 using wf l by (intro sv_find_here[OF _ j]) auto
  have e: "sv_find CHR '';'' header ?j = (if rest = [] then None else Some ?e)"
  proof (cases "rest = []")
    case True
    have "CHR '';'' \<notin> set (l @ ?n @ CHR ''='' # ?v)" using wf l by auto
    from sv_find_none[OF this j] True show ?thesis by (simp add: h2)
  next
    case False
    with rest obtain r where r: "rest = CHR '';'' # r" by blast
    have "CHR '';'' \<notin> set (l @ ?n @ CHR ''='' # ?v)" using wf l by auto
    from sv_find_here[OF this j, of r] False r i show ?thesis by (simp add: h2 cookie_request_string_def)
  qed
  have lt: "npos_less (sv_find CHR ''='' header ?j) (sv_find CHR '';'' header ?j)"
    unfolding s e using i by (simp add: cookie_request_string_def)
  have n: "substring header ?j (sv_find CHR ''='' header ?j) = (Inr (l @ ?n) :: string result)"
    unfolding s unfolding h2 by (rule substring_here[OF j]) simp
  have k: "the (sv_find CHR ''='' header ?j) + 1 = length (?pre @ (l @ ?n) @ ''='')" unfolding s by simp
  have v: "substring header (the (sv_find CHR ''='' header ?j) + 1) (sv_find CHR '';'' header ?j) = (Inr ?v :: string result)"
  proof (cases "rest = []")
    case True
    then show ?thesis unfolding e using substring_rest[OF k, of ?v] by (simp add: h3)
  next
    case False
    have "?e = length (?pre @ (l @ ?n) @ ''='') + length ?v" using i by (simp add: cookie_request_string_def)
    from substring_here[OF k this, of rest] show ?thesis unfolding e using False by (simp only: h3 if_False)
  qed
  have t: "trim_ws (l @ ?n) = ?n" using l trim_trimmed[OF wf(3)] trim_space_trimmed[OF wf(3)] by auto
  have "i < length header" using i h by simp
  then show ?thesis
    by (subst parse_cookies.simps)
      (simp only: if_True Let_def lt n v rbind_simps t trim_trimmed[OF wf(5)] wf(6)[symmetric], simp only: e, simp)
qed

definition wf_collection :: "cookie_collection \<Rightarrow> bool" where
  "wf_collection cs \<longleftrightarrow> sorted_wrt (\<lambda>a b. string_less (fst a) (fst b)) cs
     \<and> (\<forall>e\<in>set cs. fst e = ck_name (snd e) \<and> wf_pair (snd e))"

lemma parse_cookies_texts:
  "wf_collection (as @ (k, c) # bs) \<Longrightarrow> l = [] \<or> l = '' '' \<Longrightarrow> i = length pre \<Longrightarrow>
    header = pre @ x # l @ cookie_request_string c @ concat (map (\<lambda>e. ''; '' @ cookie_request_string (snd e)) bs) \<Longrightarrow>
    parse_cookies header i as = Inr (as @ (k, c) # bs)"
proof (induction bs arbitrary: as k c l pre i x)
  case Nil
  have c: "wf_pair c" "k = ck_name c" "\<forall>e\<in>set as. string_less (fst e) k"
    using Nil.prems(1) by (fastforce simp: wf_collection_def sorted_wrt_append)+
  with parse_cookie_step[OF c(1) Nil.prems(3,2), of "[]" header x as] Nil.prems(4)
    find_none_string_less[OF c(3)] show ?case by (simp add: cookies_set_def)
next
  case (Cons b bs)
  obtain k' c' where b: "b = (k', c')" by fastforce
  have c: "wf_pair c" "k = ck_name c" "\<forall>e\<in>set as. string_less (fst e) k"
    using Cons.prems(1) by (fastforce simp: wf_collection_def sorted_wrt_append)+
  let ?t = "\<lambda>bs. concat (map (\<lambda>e. ''; '' @ cookie_request_string (snd e)) bs)"
  have "header = pre @ x # l @ cookie_request_string c @ ?t (b # bs)" using Cons.prems(4) by simp
  from parse_cookie_step[OF c(1) Cons.prems(3,2) _ this, of as]
  have "parse_cookies header i as
      = parse_cookies header (i + 1 + length l + length (cookie_request_string c)) (as @ [(k, c)])"
    using find_none_string_less[OF c(3)] c(2) by (simp add: cookies_set_def)
  also have "\<dots> = Inr ((as @ [(k, c)]) @ (k', c') # bs)"
    using Cons.prems b
    by (intro Cons.IH[of _ _ _ "'' ''" _ "pre @ x # l @ cookie_request_string c" "CHR '';''"]) simp_all
  finally show ?case using b by simp
qed

text \<open>\<^verbatim>\<open>parse_request_header\<close> drops the first character of the header and reads the rest back: a
  printed collection is only recovered behind one extra character.\<close>

theorem request_header_round_trip:
  assumes "wf_collection cs" "cs \<noteq> []"
  shows "parse_request_header (x # cookies_request_string cs) = Inr cs"
proof -
  from assms(2) obtain k c bs where cs: "cs = (k, c) # bs" by (cases cs) auto
  with parse_cookies_texts[of "[]" k c bs "[]" 0 "[]" _ x] assms(1) show ?thesis
    by (simp add: parse_request_header_def cookies_request_string_def)
qed

theorem request_header_round_trip_witness:
  "parse_request_header (CHR ''x'' # cookies_request_string [(''a'', cookie_make ''a'' ''1''), (''b'', cookie_make ''b'' ''2'')])
    = Inr [(''a'', cookie_make ''a'' ''1''), (''b'', cookie_make ''b'' ''2'')]"
  by (rule request_header_round_trip)
    (simp_all add: wf_collection_def wf_pair_def cookie_make_def trimmed_def default_whitespace_def string_less_def)

text \<open>Without that character, the name of the first cookie is cut.\<close>

lemma request_header_drops_first: "parse_request_header ''ab=1'' = Inr [(''b'', cookie_make ''b'' ''1'')]"
proof -
  have "parse_request_header (CHR ''a'' # cookies_request_string [(''b'', cookie_make ''b'' ''1'')])
      = Inr [(''b'', cookie_make ''b'' ''1'')]"
    using parse_cookies_texts[of "[]" "''b''" "cookie_make ''b'' ''1''" "[]" "[]" 0 "[]" _ "CHR ''a''"]
    by (simp add: parse_request_header_def cookies_request_string_def wf_collection_def wf_pair_def cookie_make_def
      trimmed_def default_whitespace_def)
  then show ?thesis by (simp add: cookies_request_string_def cookie_request_string_def cookie_make_def)
qed

end
