(* ===== verification/Message.thy ===== *)
theory Message
  imports Url Cookie
begin

text \<open>
  http/message/{message,request,response}.{hpp,cpp} and http/exchange.{hpp,cpp}: the messages of
  one HTTP exchange.  \<^verbatim>\<open>request\<close> and \<^verbatim>\<open>response\<close> extend \<^verbatim>\<open>message\<close>, here as record extensions.
\<close>

section \<open>Messages\<close>

record message =
  msg_version :: version
  msg_headers :: "(string, string) omap"
  msg_body :: string

definition CRLF :: string where
  "CRLF = [CHR 0x0D, CHR 0x0A]"

definition CRLF_CRLF :: string where
  "CRLF_CRLF = CRLF @ CRLF"

abbreviation SP :: char where
  "SP \<equiv> CHR '' ''"

definition add_header :: "string \<Rightarrow> string \<Rightarrow> 'm message_scheme \<Rightarrow> 'm message_scheme" where
  "add_header name val m = m\<lparr>msg_headers := multimap_emplace iless name val (msg_headers m)\<rparr>"

definition remove_header :: "string \<Rightarrow> 'm message_scheme \<Rightarrow> 'm message_scheme" where
  "remove_header name m = m\<lparr>msg_headers := omap_erase_found iless name (msg_headers m)\<rparr>"

definition set_header_to_value :: "string \<Rightarrow> string \<Rightarrow> 'm message_scheme \<Rightarrow> 'm message_scheme" where
  "set_header_to_value name val m = add_header name val (remove_header name m)"

definition has_header :: "string \<Rightarrow> 'm message_scheme \<Rightarrow> bool" where
  "has_header name m \<longleftrightarrow> omap_find iless name (msg_headers m) \<noteq> None"

definition header_is_nonempty :: "string \<Rightarrow> 'm message_scheme \<Rightarrow> bool" where
  "header_is_nonempty name m \<longleftrightarrow> list_all (\<lambda>(n, v). v \<noteq> []) (equal_range iless name (msg_headers m))"

definition header_has_value :: "string \<Rightarrow> string \<Rightarrow> bool \<Rightarrow> 'm message_scheme \<Rightarrow> bool" where
  "header_has_value name val case_insensitive m \<longleftrightarrow>
     list_ex (\<lambda>(n, v). if case_insensitive then iequals v val else v = val) (equal_range iless name (msg_headers m))"

definition header_has_token :: "string \<Rightarrow> string \<Rightarrow> bool \<Rightarrow> 'm message_scheme \<Rightarrow> bool" where
  "header_has_token name val case_insensitive m \<longleftrightarrow>
     list_ex (\<lambda>(n, v). list_ex (\<lambda>str. if case_insensitive then iequals str val else str = val) (split_trim_ws v CHR '',''))
       (equal_range iless name (msg_headers m))"

definition get_header :: "string \<Rightarrow> 'm message_scheme \<Rightarrow> string result" where
  "get_header name m = (case omap_find iless name (msg_headers m) of
     None \<Rightarrow> err_with header_not_found (''Header '' @ [CHR 0x22] @ name @ [CHR 0x22] @ '' does not exist'')
   | Some it \<Rightarrow> Inr (snd it))"

definition get_optional_header :: "string \<Rightarrow> 'm message_scheme \<Rightarrow> string option" where
  "get_optional_header name m = map_option snd (omap_find iless name (msg_headers m))"

definition get_all_of_header :: "string \<Rightarrow> 'm message_scheme \<Rightarrow> string list" where
  "get_all_of_header name m = map snd (equal_range iless name (msg_headers m))"

definition content_length :: "'m message_scheme \<Rightarrow> nat" where
  "content_length m = length (msg_body m)"

definition set_content_length :: "'m message_scheme \<Rightarrow> 'm message_scheme" where
  "set_content_length m = add_header ''Content-Length'' (decimal (content_length m)) m"

definition should_close_connection :: "'m message_scheme \<Rightarrow> bool" where
  "should_close_connection m = (case (if has_header ''Connection'' m then get_header ''Connection'' m else Inl Undefined) of
     Inr v \<Rightarrow> if v = ''keep-alive'' then False else if v = ''close'' then True else msg_version m = Http1_0
   | Inl _ \<Rightarrow> msg_version m = Http1_0)"

definition header_line :: "string \<times> string \<Rightarrow> string" where
  "header_line h = fst h @ '': '' @ snd h @ CRLF"

definition body_text :: "'m message_scheme \<Rightarrow> string" where
  "body_text m = (if header_has_token ''Transfer-Encoding'' ''chunked'' False m
     then hexadecimal (length (msg_body m)) @ CRLF @ msg_body m @ CRLF @ ''0'' @ CRLF_CRLF
     else msg_body m)"

definition message_to_string :: "'m message_scheme \<Rightarrow> string" where
  "message_to_string m = concat (map header_line (msg_headers m)) @ CRLF @ body_text m"

section \<open>Requests\<close>

record request = message +
  req_method :: http_method
  req_target :: url

definition update_target :: "url \<Rightarrow> request \<Rightarrow> request" where
  "update_target target r = set_header_to_value ''Host'' (nl_host (url_netloc target)) (r\<lparr>req_target := target\<rparr>)"

definition update_netloc :: "network_location \<Rightarrow> request \<Rightarrow> request" where
  "update_netloc host r = set_header_to_value ''Host'' (nl_host host)
     (r\<lparr>req_target := (req_target r)\<lparr>url_netloc := host\<rparr>\<rparr>)"

definition update_host :: "string \<Rightarrow> request \<Rightarrow> request" where
  "update_host host r = update_netloc ((url_netloc (req_target r))\<lparr>nl_host := host, nl_port := None\<rparr>) r"

definition update_host_port :: "string \<Rightarrow> u16 \<Rightarrow> request \<Rightarrow> request" where
  "update_host_port host port r = update_netloc ((url_netloc (req_target r))\<lparr>nl_host := host, nl_port := Some port\<rparr>) r"

definition update_origin_and_referer :: "string \<Rightarrow> request \<Rightarrow> request" where
  "update_origin_and_referer origin r = set_header_to_value ''Referer'' origin (set_header_to_value ''Origin'' origin r)"

definition update_origin_and_referer_url :: "url \<Rightarrow> request \<Rightarrow> request" where
  "update_origin_and_referer_url origin r =
     set_header_to_value ''Referer'' (absolute_string origin) (set_header_to_value ''Origin'' (origin_string origin) r)"

definition request_has_cookies :: "request \<Rightarrow> bool" where
  "request_has_cookies r = has_header ''Cookie'' r"

definition request_get_cookies :: "request \<Rightarrow> cookie_collection result" where
  "request_get_cookies r = parse_request_header (case get_header ''Cookie'' r of Inr v \<Rightarrow> v | Inl _ \<Rightarrow> [])"

definition request_set_cookies :: "cookie_collection \<Rightarrow> request \<Rightarrow> request" where
  "request_set_cookies cs r = set_header_to_value ''Cookie'' (cookies_request_string cs) r"

definition request_line_string :: "request \<Rightarrow> string" where
  "request_line_string r = method_name (req_method r) @ [SP] @ url_to_string (req_target r) @ [SP] @ version_name (msg_version r)"

definition absolute_request_line_string :: "request \<Rightarrow> string" where
  "absolute_request_line_string r =
     method_name (req_method r) @ [SP] @ absolute_string (req_target r) @ [SP] @ version_name (msg_version r)"

definition request_to_string :: "request \<Rightarrow> string" where
  "request_to_string r = method_name (req_method r) @ [SP] @ url_to_string (req_target r) @ [SP]
     @ version_name (msg_version r) @ CRLF @ message_to_string r"

definition host_name :: "request \<Rightarrow> string" where
  "host_name r = nl_host (url_netloc (req_target r))"

definition host_port :: "request \<Rightarrow> u16" where
  "host_port r = port_or_default 80 (req_target r)"

section \<open>Responses\<close>

record response = message +
  res_status :: status

definition response_new :: response where
  "response_new = \<lparr>msg_version = Http1_1, msg_headers = [], msg_body = [], res_status = status_ok\<rparr>"

definition status_class :: "response \<Rightarrow> nat" where
  "status_class r = unat (scast (res_status r) :: u64) div 100"

definition is_1xx :: "response \<Rightarrow> bool" where
  "is_1xx r \<longleftrightarrow> status_class r = 1"

definition is_2xx :: "response \<Rightarrow> bool" where
  "is_2xx r \<longleftrightarrow> status_class r = 2"

definition is_3xx :: "response \<Rightarrow> bool" where
  "is_3xx r \<longleftrightarrow> status_class r = 3"

definition is_4xx :: "response \<Rightarrow> bool" where
  "is_4xx r \<longleftrightarrow> status_class r = 4"

definition is_5xx :: "response \<Rightarrow> bool" where
  "is_5xx r \<longleftrightarrow> status_class r = 5"

definition response_has_cookies :: "response \<Rightarrow> bool" where
  "response_has_cookies r = has_header ''Set-Cookie'' r"

fun collect_cookies :: "string list \<Rightarrow> cookie_collection \<Rightarrow> cookie_collection result" where
  "collect_cookies [] cs = Inr cs"
| "collect_cookies (header # headers) cs = rbind (parse_set_header header) (\<lambda>parsed.
     collect_cookies headers (case parsed of None \<Rightarrow> cs | Some c \<Rightarrow> cookies_set c cs))"

definition response_get_cookies :: "response \<Rightarrow> cookie_collection result" where
  "response_get_cookies r = collect_cookies (get_all_of_header ''Set-Cookie'' r) []"

definition response_set_cookies :: "cookie_collection \<Rightarrow> response \<Rightarrow> response" where
  "response_set_cookies cs r = foldl (\<lambda>r c. add_header ''Set-Cookie'' (cookie_response_string (snd c)) r)
     (remove_header ''Set-Cookie'' r) cs"

text \<open>An unknown status is printed with the text of the error that \<^verbatim>\<open>status_to_reason\<close> returns.\<close>

definition reason_text :: "status \<Rightarrow> string" where
  "reason_text s = (case status_to_reason s of
     Inr r \<Rightarrow> r
   | Inl (Error e) \<Rightarrow> error_message (\<lambda>_. []) e
   | Inl _ \<Rightarrow> [])"

definition response_to_string :: "response \<Rightarrow> string" where
  "response_to_string r = version_name (msg_version r) @ [SP] @ status_to_string (res_status r) @ [SP]
     @ reason_text (res_status r) @ CRLF @ message_to_string r"

section \<open>Exchanges\<close>

record exchange =
  ex_request :: request
  ex_response :: "response option"
  ex_mask_connect :: bool

text \<open>
  A new exchange.  The method and the target form of a default-constructed request are
  indeterminate, so they are arguments.
\<close>

definition exchange_new :: "http_method \<Rightarrow> target_form \<Rightarrow> exchange" where
  "exchange_new m form = \<lparr>ex_request = \<lparr>msg_version = Http1_1, msg_headers = [], msg_body = [], req_method = m,
       req_target = \<lparr>url_form = form, url_scheme = [], url_netloc = empty_netloc, url_path = [], url_search = []\<rparr>\<rparr>,
     ex_response = None, ex_mask_connect = False\<rparr>"

definition has_response :: "exchange \<Rightarrow> bool" where
  "has_response e \<longleftrightarrow> ex_response e \<noteq> None"

definition make_response :: "exchange \<Rightarrow> exchange" where
  "make_response e = e\<lparr>ex_response := Some response_new\<rparr>"

definition set_response :: "response \<Rightarrow> exchange \<Rightarrow> exchange" where
  "set_response r e = e\<lparr>ex_response := Some r\<rparr>"

definition set_mask_connect :: "bool \<Rightarrow> exchange \<Rightarrow> exchange" where
  "set_mask_connect b e = e\<lparr>ex_mask_connect := b\<rparr>"

text \<open>\<^verbatim>\<open>exchange::response()\<close>: the response and the exchange behind the call, which creates one if there
  is none.\<close>

definition exchange_response :: "exchange \<Rightarrow> response \<times> exchange" where
  "exchange_response e = (case ex_response e of
     Some r \<Rightarrow> (r, e)
   | None \<Rightarrow> (response_new, make_response e))"

section \<open>Facts\<close>

definition headers_sorted :: "'m message_scheme \<Rightarrow> bool" where
  "headers_sorted m \<longleftrightarrow> omap_sorted iless (msg_headers m)"

lemma get_header_first:
  "get_header name m = (case get_all_of_header name m of [] \<Rightarrow>
     err_with header_not_found (''Header '' @ [CHR 0x22] @ name @ [CHR 0x22] @ '' does not exist'') | v # vs \<Rightarrow> Inr v)"
  by (cases "equal_range iless name (msg_headers m)")
    (simp_all add: get_header_def get_all_of_header_def omap_find_equal_range)

lemma has_header_get_all: "has_header name m \<longleftrightarrow> get_all_of_header name m \<noteq> []"
  by (cases "equal_range iless name (msg_headers m)")
    (simp_all add: has_header_def get_all_of_header_def omap_find_equal_range)

lemma header_has_token_get_all: "header_has_token name val False m \<longleftrightarrow>
    (\<exists>v\<in>set (get_all_of_header name m). val \<in> set (split_trim_ws v CHR '',''))"
  by (auto simp: header_has_token_def get_all_of_header_def list_ex_iff split_beta)

lemma add_header_sorted [simp]: "headers_sorted m \<Longrightarrow> headers_sorted (add_header n v m)"
  by (simp add: headers_sorted_def add_header_def iless_order.emplace_sorted)

lemma remove_header_sorted [simp]: "headers_sorted m \<Longrightarrow> headers_sorted (remove_header n m)"
  by (simp add: headers_sorted_def remove_header_def iless_order.erase_sorted)

lemma get_all_add_header:
  "headers_sorted m \<Longrightarrow> get_all_of_header k (add_header n v m) = get_all_of_header k m @ (if iequals k n then [v] else [])"
  by (simp add: headers_sorted_def get_all_of_header_def add_header_def iless_order.equal_range_emplace key_equiv_iless)

lemma get_all_remove_header:
  "get_all_of_header k (remove_header n m) = (if iequals k n then tl (get_all_of_header k m) else get_all_of_header k m)"
proof (cases "iequals k n")
  case True
  then have "equal_range iless k xs = equal_range iless n xs" for xs :: "(string, string) omap"
    by (intro iless_order.equal_range_cong) (simp add: key_equiv_iless)
  with True show ?thesis
    by (simp add: get_all_of_header_def remove_header_def equal_range_erase map_tl)
next
  case False
  then show ?thesis
    by (simp add: get_all_of_header_def remove_header_def iless_order.equal_range_other key_equiv_iless)
qed

section \<open>Properties\<close>

text \<open>The header operations against the list of values of a name, compared without case: adding
  appends, removing drops the first value only, setting drops the first and appends; other names are
  not touched.\<close>

theorem header_operations:
  assumes "headers_sorted m"
  shows "get_all_of_header k (add_header n v m) = get_all_of_header k m @ (if iequals k n then [v] else [])
    \<and> get_all_of_header k (remove_header n m) = (if iequals k n then tl (get_all_of_header k m) else get_all_of_header k m)
    \<and> get_all_of_header k (set_header_to_value n v m)
      = (if iequals k n then tl (get_all_of_header k m) @ [v] else get_all_of_header k m)
    \<and> headers_sorted (set_header_to_value n v m)"
  using assms by (simp add: set_header_to_value_def get_all_add_header get_all_remove_header)

theorem header_operations_witness:
  "get_all_of_header ''host'' (add_header ''Host'' ''b'' response_new)
      = get_all_of_header ''host'' response_new @ (if iequals ''host'' ''Host'' then [''b''] else [])
    \<and> get_all_of_header ''host'' (remove_header ''Host'' response_new)
      = (if iequals ''host'' ''Host'' then tl (get_all_of_header ''host'' response_new) else get_all_of_header ''host'' response_new)
    \<and> get_all_of_header ''host'' (set_header_to_value ''Host'' ''b'' response_new)
      = (if iequals ''host'' ''Host'' then tl (get_all_of_header ''host'' response_new) @ [''b''] else get_all_of_header ''host'' response_new)
    \<and> headers_sorted (set_header_to_value ''Host'' ''b'' response_new)"
  by (rule header_operations) (simp add: headers_sorted_def response_new_def omap_sorted_def)

text \<open>A message with the token \<open>chunked\<close> and no body is printed with its last chunk twice, so that
  five bytes follow the end of the message.\<close>

theorem empty_chunked_body_text:
  assumes "header_has_token ''Transfer-Encoding'' ''chunked'' False m" "msg_body m = []"
  shows "body_text m = (''0'' @ CRLF_CRLF) @ (''0'' @ CRLF_CRLF)"
proof -
  have "hexadecimal 0 = ''0''" by code_simp
  with assms show ?thesis by (simp add: body_text_def CRLF_CRLF_def)
qed

theorem empty_chunked_body_text_witness:
  "body_text (add_header ''Transfer-Encoding'' ''chunked'' response_new) = (''0'' @ CRLF_CRLF) @ (''0'' @ CRLF_CRLF)"
proof (rule empty_chunked_body_text)
  have "headers_sorted response_new" by (simp add: headers_sorted_def response_new_def omap_sorted_def)
  from get_all_add_header[OF this, of "''Transfer-Encoding''" "''Transfer-Encoding''" "''chunked''"]
  have "get_all_of_header ''Transfer-Encoding'' (add_header ''Transfer-Encoding'' ''chunked'' response_new) = [''chunked'']"
    by (simp add: get_all_of_header_def equal_range_def response_new_def)
  moreover have "split_trim_ws ''chunked'' CHR '','' = [''chunked'']"
    by (simp add: split_trim_ws_def split_trim_def split_trim_loop.simps sv_find_def sv_find_first_not_of_def
      sv_find_last_not_of_def default_whitespace_def)
  ultimately show "header_has_token ''Transfer-Encoding'' ''chunked'' False (add_header ''Transfer-Encoding'' ''chunked'' response_new)"
    by (simp add: header_has_token_get_all)
qed (simp add: add_header_def response_new_def)

end
