(* ===== verification/Http_Parser.thy ===== *)
theory Http_Parser
  imports Message Segment
begin

text \<open>
  http/http1/http_parser.{hpp,cpp}: parsing of requests and responses from a connection's input.

  The parser works on the exchange it was built with and on the \<^verbatim>\<open>std::istream\<close> of the call, so
  every method is a function on \<open>hstate\<close>.  \<open>lc\<close> and \<open>lcl\<close> are \<^verbatim>\<open>boost::lexical_cast\<close> to
  \<^verbatim>\<open>std::size_t\<close> and \<^verbatim>\<open>long long\<close>, \<open>limit\<close> is the option \<^verbatim>\<open>body_size_limit\<close>.
  \<open>Inl (Exception Length_error)\<close> is the \<^verbatim>\<open>std::length_error\<close> that leaves the \<^verbatim>\<open>noexcept\<close> function
  \<^verbatim>\<open>streambuf::prepare\<close> and ends the program.
\<close>

section \<open>State\<close>

datatype message_mode = Mode_unknown | Mode_request | Mode_response

datatype body_size_type = Body_none | Body_given | Body_chunked | Body_all

record body_parsing_state =
  bp_mode :: message_mode
  bp_type :: body_size_type
  bp_expected_size :: u64
  bp_read :: u64
  bp_finished :: bool
  bp_next_chunk_size_known :: bool

definition body_parsing_init :: body_parsing_state where
  "body_parsing_init = \<lparr>bp_mode = Mode_unknown, bp_type = Body_none, bp_expected_size = 0, bp_read = 0,
     bp_finished = False, bp_next_chunk_size_known = False\<rparr>"

record http_parser =
  hp_state :: body_parsing_state
  request_method_buf :: "char segment"
  request_target_buf :: "char segment"
  request_version_buf :: "char segment"
  response_version_buf :: "char segment"
  response_code_buf :: "char segment"
  response_msg_buf :: "char segment"
  header_buf :: "char segment"
  chunk_header_buf :: "char segment"
  chunk_suffix_buf :: "char segment"
  body_buf :: "char segment"

definition http_parser_new :: http_parser where
  "http_parser_new = \<lparr>hp_state = body_parsing_init, request_method_buf = seg_new, request_target_buf = seg_new,
     request_version_buf = seg_new, response_version_buf = seg_new, response_code_buf = seg_new,
     response_msg_buf = seg_new, header_buf = seg_new, chunk_header_buf = seg_new, chunk_suffix_buf = seg_new,
     body_buf = seg_new\<rparr>"

record hstate =
  hs_exchange :: exchange
  hs_parser :: http_parser
  hs_input :: "char istream"

type_synonym 'a hop = "(hstate, error_state failure, 'a) sres"

text \<open>A reader applied to one of the parser's segments.\<close>

definition on_segment :: "(http_parser \<Rightarrow> char segment) \<Rightarrow>
    ((char segment \<Rightarrow> char segment) \<Rightarrow> http_parser \<Rightarrow> http_parser) \<Rightarrow>
    (char istream \<Rightarrow> char segment \<Rightarrow> (bool \<times> char istream \<times> char segment) option) \<Rightarrow> bool hop" where
  "on_segment get upd rd st = (case rd (hs_input st) (get (hs_parser st)) of
     None \<Rightarrow> (Inl (Exception Length_error), st)
   | Some (r, i, s) \<Rightarrow> (Inr r, st\<lparr>hs_input := i, hs_parser := upd (\<lambda>_. s) (hs_parser st)\<rparr>))"

definition until_sp :: "char istream \<Rightarrow> char segment \<Rightarrow> (bool \<times> char istream \<times> char segment) option" where
  "until_sp i s = Some (seg_in_until_char SP i s)"

definition until_crlf :: "char istream \<Rightarrow> char segment \<Rightarrow> (bool \<times> char istream \<times> char segment) option" where
  "until_crlf i s = seg_in_until CRLF i s"

definition upd_request :: "(request \<Rightarrow> request) \<Rightarrow> hstate \<Rightarrow> hstate" where
  "upd_request f st = st\<lparr>hs_exchange := (hs_exchange st)\<lparr>ex_request := f (ex_request (hs_exchange st))\<rparr>\<rparr>"

text \<open>\<^verbatim>\<open>exchange_.response().f(...)\<close>, which creates the response if there is none.\<close>

definition upd_response :: "(response \<Rightarrow> response) \<Rightarrow> hstate \<Rightarrow> hstate" where
  "upd_response f st = (let (r, e) = exchange_response (hs_exchange st) in st\<lparr>hs_exchange := set_response (f r) e\<rparr>)"

definition upd_parser :: "(http_parser \<Rightarrow> http_parser) \<Rightarrow> hstate \<Rightarrow> hstate" where
  "upd_parser f st = st\<lparr>hs_parser := f (hs_parser st)\<rparr>"

definition set_hp_state :: "(body_parsing_state \<Rightarrow> body_parsing_state) \<Rightarrow> hstate \<Rightarrow> hstate" where
  "set_hp_state f = upd_parser (hp_state_update f)"

definition of_result :: "'a result \<Rightarrow> 'a hop" where
  "of_result r st = (r, st)"

section \<open>Request and response line\<close>

definition read_request_line :: "(string \<Rightarrow> u64 option) \<Rightarrow> unit hop" where
  "read_request_line lc =
     sbind (on_segment request_method_buf request_method_buf_update until_sp) (\<lambda>a.
     sbind (if a then on_segment request_target_buf request_target_buf_update until_sp else sreturn False) (\<lambda>b.
     sbind (if b then on_segment request_version_buf request_version_buf_update until_crlf else sreturn False) (\<lambda>c.
     if \<not> c then of_result (err_with invalid_request_line ''Could not read request line'')
     else (\<lambda>st.
       sbind (of_result (string_to_method (seg_data (request_method_buf (hs_parser st))))) (\<lambda>verb st.
       sbind (of_result (string_to_version (seg_data (request_version_buf (hs_parser st))))) (\<lambda>vers st.
       sbind (of_result (parse_target lc (seg_data (request_target_buf (hs_parser st))) verb)) (\<lambda>target st.
         (Inr (), upd_parser (request_version_buf_update seg_reset) (upd_parser (request_target_buf_update seg_reset)
           (upd_parser (request_method_buf_update seg_reset) (upd_request (req_target_update (\<lambda>_. target)) st)))))
         (upd_request (msg_version_update (\<lambda>_. vers)) st))
         (upd_request (req_method_update (\<lambda>_. verb)) st)) st))))"

definition read_response_line :: "(string \<Rightarrow> u64 option) \<Rightarrow> unit hop" where
  "read_response_line lc =
     sbind (on_segment response_version_buf response_version_buf_update until_sp) (\<lambda>a.
     sbind (if a then on_segment response_code_buf response_code_buf_update until_sp else sreturn False) (\<lambda>b.
     sbind (if b then on_segment response_msg_buf response_msg_buf_update until_crlf else sreturn False) (\<lambda>c.
     if \<not> c then of_result (err_with invalid_response_line ''Could not read response line'')
     else (\<lambda>st.
       sbind (of_result (string_to_version (seg_data (response_version_buf (hs_parser st))))) (\<lambda>vers st.
         (Inr (), upd_parser (response_msg_buf_update seg_reset) (upd_parser (response_code_buf_update seg_reset)
           (upd_parser (response_version_buf_update seg_reset)
             (upd_response (res_status_update (\<lambda>_. string_to_status lc (seg_data (response_code_buf (hs_parser st)))))
               (upd_response (msg_version_update (\<lambda>_. vers)) st)))))) st))))"

section \<open>Headers\<close>

definition get_data_for_mode :: "message_mode \<Rightarrow> unit hop" where
  "get_data_for_mode mode st = (case mode of
     Mode_unknown \<Rightarrow> (err_with parser_error ''Cannot parse data for unknown mode'', st)
   | Mode_request \<Rightarrow> (Inr (), st)
   | Mode_response \<Rightarrow> (Inr (), upd_response id st))"

definition upd_message :: "message_mode \<Rightarrow> (request \<Rightarrow> request) \<Rightarrow> (response \<Rightarrow> response) \<Rightarrow> hstate \<Rightarrow> hstate" where
  "upd_message mode f g st = (if mode = Mode_request then upd_request f st else upd_response g st)"

definition read_header_line :: "bool hop" where
  "read_header_line = on_segment header_buf header_buf_update until_crlf"

lemma seg_in_until_loop_shrinks:
  "seg_in_until_loop delim i s = (r, i1, s1) \<Longrightarrow>
     length (in_data i1) \<le> length (in_data i) \<and> (r \<longrightarrow> length (in_data i1) < length (in_data i))"
proof (induction delim i s arbitrary: r i1 s1 rule: seg_in_until_loop.induct)
  case (1 delim i s)
  obtain nxt j where g: "in_getline (last delim) i = (nxt, j)" by fastforce
  have le: "length (in_data j) \<le> length (in_data i)"
    using g by (auto simp: in_getline_def split: if_splits option.splits)
  show ?case
  proof (cases "in_fail j \<or> in_eof j")
    case True
    with "1.prems" g le show ?thesis
      by (subst (asm) seg_in_until_loop.simps) (auto simp: Let_def split: if_splits)
  next
    case False
    then have ok: "\<not> in_fail j" "\<not> in_eof j" by auto
    note lt = in_getline_less[OF g ok]
    define s' where "s' = s\<lparr>seg_data := seg_data s @ nxt @ [last delim], seg_last := length nxt + 1, seg_pending := []\<rparr>"
    note step = seg_in_until_loop_step[OF g ok s'_def]
    show ?thesis
    proof (cases "length (seg_data s') < length delim \<or> \<not> ends_with_delim delim (seg_data s')")
      case True
      then have "seg_in_until_loop delim j s' = (r, i1, s1)" using "1.prems" step by simp
      moreover have "seg_in_until_loop delim j s' = (r, i1, s1) \<Longrightarrow>
          length (in_data i1) \<le> length (in_data j) \<and> (r \<longrightarrow> length (in_data i1) < length (in_data j))"
        by (rule "1.IH"[OF refl g[symmetric] refl refl _ _ True]) (use ok in \<open>simp_all add: s'_def\<close>)
      ultimately show ?thesis using lt by auto
    next
      case False
      with "1.prems" step lt show ?thesis by auto
    qed
  qed
qed

lemma until_crlf_shrinks:
  assumes "until_crlf i s = Some (r, i1, s1)"
  shows "length (in_data i1) \<le> length (in_data i)"
    and "r \<Longrightarrow> seg_complete s \<or> length (in_data i1) < length (in_data i)"
  using assms seg_in_until_loop_shrinks[of CRLF i s r i1 s1]
  by (auto simp: until_crlf_def seg_in_until_def split: if_splits)

lemma on_segment_Inr:
  "on_segment get upd rd st = (Inr r, st1) \<longleftrightarrow> (\<exists>i s. rd (hs_input st) (get (hs_parser st)) = Some (r, i, s) \<and>
     st1 = st\<lparr>hs_input := i, hs_parser := upd (\<lambda>_. s) (hs_parser st)\<rparr>)"
  by (auto simp: on_segment_def split: option.splits)

definition headers_left :: "hstate \<Rightarrow> nat" where
  "headers_left st = length (in_data (hs_input st)) + (if seg_complete (header_buf (hs_parser st)) then 1 else 0)"

lemma upd_message_frame [simp]: "hs_input (upd_message mode f g st) = hs_input st"
  "hs_parser (upd_message mode f g st) = hs_parser st"
  by (simp_all add: upd_message_def upd_request_def upd_response_def split_beta Let_def)

lemma upd_parser_frame [simp]: "hs_input (upd_parser f st) = hs_input st" "hs_exchange (upd_parser f st) = hs_exchange st"
  "hs_parser (upd_parser f st) = f (hs_parser st)"
  by (simp_all add: upd_parser_def)

lemma header_line_progress:
  assumes "read_header_line st = (Inr True, st1)"
  shows "headers_left (upd_parser (header_buf_update seg_reset) (upd_message mode f g st1)) < headers_left st"
proof -
  from assms obtain i s where u: "until_crlf (hs_input st) (header_buf (hs_parser st)) = Some (True, i, s)"
    and st1: "st1 = st\<lparr>hs_input := i, hs_parser := header_buf_update (\<lambda>_. s) (hs_parser st)\<rparr>"
    by (auto simp: read_header_line_def on_segment_Inr)
  from until_crlf_shrinks[OF u] show ?thesis
    by (auto simp: headers_left_def st1 seg_reset_def)
qed

function read_headers_loop :: "message_mode \<Rightarrow> unit hop" where
  "read_headers_loop mode st = (case read_header_line st of
     (Inl f, st1) \<Rightarrow> (Inl f, st1)
   | (Inr found, st1) \<Rightarrow>
       if \<not> found then (err_with invalid_header ''Error when reading header'', st1)
       else let next_line = seg_data (header_buf (hs_parser st1)) in
         if next_line = [] then (Inr (), upd_parser (header_buf_update seg_reset) st1)
         else case sv_find CHR '':'' next_line 0 of
           None \<Rightarrow> (err_with invalid_header
             (''No value set for header '' @ [CHR 0x22] @ next_line @ [CHR 0x22]), st1)
         | Some delim \<Rightarrow>
             let name = take delim next_line; val = trim_ws (drop (delim + 1) next_line) in
             read_headers_loop mode (upd_parser (header_buf_update seg_reset)
               (upd_message mode (add_header name val) (add_header name val) st1)))"
  by pat_completeness auto
termination
  by (relation "measure (\<lambda>(mode, st). headers_left st)") (auto intro: header_line_progress[OF sym])

declare read_headers_loop.simps [simp del]

definition read_headers :: "message_mode \<Rightarrow> unit hop" where
  "read_headers mode = sbind (get_data_for_mode mode) (\<lambda>_. read_headers_loop mode)"

section \<open>The body\<close>

definition message_for_mode :: "message_mode \<Rightarrow> hstate \<Rightarrow> unit message_scheme" where
  "message_for_mode mode st = (if mode = Mode_request then message.truncate (ex_request (hs_exchange st))
     else message.truncate (fst (exchange_response (hs_exchange st))))"

definition adjacent_different :: "string list \<Rightarrow> bool" where
  "adjacent_different xs \<longleftrightarrow> list_ex (\<lambda>(a, b). a \<noteq> b) (zip xs (tl xs))"

definition expected_body_size :: "(string \<Rightarrow> int option) \<Rightarrow> message_mode \<Rightarrow> (body_size_type \<times> u64) hop" where
  "expected_body_size lcl mode st =
     (let req = ex_request (hs_exchange st); none = (Inr (Body_none, 0), st) in
      if mode = Mode_request \<and> get_header ''Expect'' req = Inr ''100-continue'' then none
      else if mode \<noteq> Mode_request \<and> has_response (hs_exchange st) \<and>
        (let res = fst (exchange_response (hs_exchange st)) in
         req_method req = M_HEAD \<or> is_1xx res \<or> res_status res = status_no_content
         \<or> res_status res = status_not_modified \<or> (res_status res = status_ok \<and> req_method req = M_CONNECT))
      then none
      else sbind (get_data_for_mode mode) (\<lambda>_ st.
        let msg = message_for_mode mode st; sizes = get_all_of_header ''Content-Length'' msg in
        if header_has_token ''Transfer-Encoding'' ''chunked'' False msg then (Inr (Body_chunked, 0), st)
        else if has_header ''Content-Length'' msg then
          (if adjacent_different sizes then (err_with invalid_body_size ''Conflicting Content-Length headers'', st)
           else case lcl (hd sizes) of
             None \<Rightarrow> (err_with invalid_body_size ''Invalid Content-Length value'', st)
           | Some sz \<Rightarrow> if sz < 0 then (err_with invalid_body_size ''Invalid Content-Length value'', st)
               else (Inr (Body_given, word_of_int sz), st))
        else if mode = Mode_request then (Inr (Body_none, 0), st)
        else (Inr (Body_all, 0), st)) st)"

text \<open>
  One turn of the loop over the chunks: \<open>Inr None\<close> is a \<^verbatim>\<open>break\<close>, \<open>Inr (Some ())\<close> goes round again.
\<close>

definition read_chunk_header :: "u64 \<Rightarrow> bool hop" where
  "read_chunk_header limit st =
     (if bp_next_chunk_size_known (hp_state (hs_parser st)) then (Inr True, st)
      else sbind (on_segment chunk_header_buf chunk_header_buf_update until_crlf) (\<lambda>found st.
        if \<not> found then (Inr False, st)
        else case parse_hexadecimal (seg_data (chunk_header_buf (hs_parser st))) of
          Inl _ \<Rightarrow> (err invalid_chunked_body, st)
        | Inr sz \<Rightarrow>
            let st1 = upd_parser (chunk_header_buf_update seg_reset) (set_hp_state (bp_expected_size_update (\<lambda>_. sz)) st) in
            if limit < bp_read (hp_state (hs_parser st1)) + sz then (err body_size_too_large, st1)
            else (Inr True, set_hp_state (bp_next_chunk_size_known_update (\<lambda>_. True)) st1)) st)"

definition read_body_bytes :: "bool hop" where
  "read_body_bytes st = on_segment body_buf body_buf_update
     (seg_in_bytes (unat (bp_expected_size (hp_state (hs_parser st))))) st"

definition read_one_chunk :: "u64 \<Rightarrow> unit option hop" where
  "read_one_chunk limit =
     sbind (read_chunk_header limit) (\<lambda>known.
     if \<not> known then sreturn None
     else sbind read_body_bytes (\<lambda>complete.
     if \<not> complete then sreturn None
     else sbind (on_segment chunk_suffix_buf chunk_suffix_buf_update until_crlf) (\<lambda>found.
     if \<not> found then sreturn None
     else (\<lambda>st.
       if seg_data (chunk_suffix_buf (hs_parser st)) \<noteq> [] then (err invalid_chunked_body, st)
       else let st1 = upd_parser (chunk_suffix_buf_update seg_reset) st; sz = bp_expected_size (hp_state (hs_parser st1)) in
         if sz = 0 then (Inr None, set_hp_state (bp_finished_update (\<lambda>_. True)) st1)
         else (Inr (Some ()), upd_parser (body_buf_update seg_mark_as_incomplete)
           (set_hp_state (\<lambda>b. b\<lparr>bp_read := bp_read b + sz, bp_next_chunk_size_known := False, bp_expected_size := 0\<rparr>) st1))))))"

definition chunks_left :: "hstate \<Rightarrow> nat" where
  "chunks_left st = length (in_data (hs_input st)) + (if seg_complete (chunk_suffix_buf (hs_parser st)) then 1 else 0)"

lemma in_bytes_shrinks: "seg_in_bytes n i s = Some (r, i1, s1) \<Longrightarrow> length (in_data i1) \<le> length (in_data i)"
  by (auto simp: seg_in_bytes_def in_read_def Let_def split: if_splits)

lemma chunk_header_progress:
  assumes "read_chunk_header limit st = (Inr k, st1)"
  shows "chunks_left st1 \<le> chunks_left st"
proof (cases "bp_next_chunk_size_known (hp_state (hs_parser st))")
  case True
  with assms show ?thesis by (simp add: read_chunk_header_def)
next
  case False
  with assms obtain found st2 where o: "on_segment chunk_header_buf chunk_header_buf_update until_crlf st = (Inr found, st2)"
    by (auto simp: read_chunk_header_def sbind_def split: prod.splits sum.splits)
  then obtain i s where u: "until_crlf (hs_input st) (chunk_header_buf (hs_parser st)) = Some (found, i, s)"
    and st2: "st2 = st\<lparr>hs_input := i, hs_parser := chunk_header_buf_update (\<lambda>_. s) (hs_parser st)\<rparr>"
    by (auto simp: on_segment_Inr)
  have "chunks_left st2 \<le> chunks_left st" using until_crlf_shrinks(1)[OF u] by (simp add: chunks_left_def st2)
  moreover have "chunks_left st1 = chunks_left st2"
    using assms False o by (auto simp: read_chunk_header_def sbind_def Let_def chunks_left_def set_hp_state_def split: if_splits sum.splits)
  ultimately show ?thesis by simp
qed

lemma body_bytes_progress: "read_body_bytes st = (Inr r, st1) \<Longrightarrow> chunks_left st1 \<le> chunks_left st"
  by (auto simp: read_body_bytes_def on_segment_Inr chunks_left_def dest: in_bytes_shrinks)

lemma one_chunk_progress:
  assumes "read_one_chunk limit st = (Inr (Some u), st1)"
  shows "chunks_left st1 < chunks_left st"
proof -
  from assms obtain st2 where h: "read_chunk_header limit st = (Inr True, st2)"
    by (auto simp: read_one_chunk_def sbind_def sreturn_def split: prod.splits sum.splits if_splits)
  with assms obtain st3 where b: "read_body_bytes st2 = (Inr True, st3)"
    by (auto simp: read_one_chunk_def sbind_def sreturn_def split: prod.splits sum.splits if_splits)
  with assms h obtain st4 where c: "on_segment chunk_suffix_buf chunk_suffix_buf_update until_crlf st3 = (Inr True, st4)"
    by (auto simp: read_one_chunk_def sbind_def sreturn_def split: prod.splits sum.splits if_splits)
  then obtain i s where u: "until_crlf (hs_input st3) (chunk_suffix_buf (hs_parser st3)) = Some (True, i, s)"
    and st4: "st4 = st3\<lparr>hs_input := i, hs_parser := chunk_suffix_buf_update (\<lambda>_. s) (hs_parser st3)\<rparr>"
    by (auto simp: on_segment_Inr)
  have "chunks_left st1 = length (in_data i)"
    using assms h b c st4 by (auto simp: read_one_chunk_def sbind_def Let_def chunks_left_def set_hp_state_def seg_reset_def split: if_splits)
  also have "\<dots> < chunks_left st3" using until_crlf_shrinks[OF u] by (auto simp: chunks_left_def)
  also have "\<dots> \<le> chunks_left st" using chunk_header_progress[OF h] body_bytes_progress[OF b] by linarith
  finally show ?thesis .
qed

function read_chunks :: "u64 \<Rightarrow> unit hop" where
  "read_chunks limit st = (case read_one_chunk limit st of
     (Inl f, st1) \<Rightarrow> (Inl f, st1)
   | (Inr None, st1) \<Rightarrow> (Inr (), st1)
   | (Inr (Some u), st1) \<Rightarrow> read_chunks limit st1)"
  by pat_completeness auto
termination
  by (relation "measure (\<lambda>(limit, st). chunks_left st)") (auto intro: one_chunk_progress[OF sym])

declare read_chunks.simps [simp del]

definition read_given :: "unit hop" where
  "read_given = sbind read_body_bytes (\<lambda>complete st.
     (Inr (), if complete then set_hp_state (\<lambda>b. b\<lparr>bp_read := bp_expected_size b, bp_finished := True\<rparr>) st else st))"

text \<open>
  \<^verbatim>\<open>read_all\<close> does not set \<^verbatim>\<open>num_bytes_read_last_\<close>, so \<open>just_read\<close> is what an earlier read left there.
\<close>

definition read_until_end :: "u64 \<Rightarrow> unit hop" where
  "read_until_end limit st =
     (let (i, s) = seg_in_all is_space (hs_input st) (body_buf (hs_parser st));
        st1 = upd_parser (body_buf_update (\<lambda>_. seg_mark_as_incomplete s)) (st\<lparr>hs_input := i\<rparr>);
        just_read = seg_last (body_buf (hs_parser st1));
        st2 = set_hp_state (\<lambda>b. b\<lparr>bp_read := bp_read b + word_of_nat just_read\<rparr>) st1
      in if limit < bp_read (hp_state (hs_parser st2)) then (err body_size_too_large, st2)
         else (Inr (), if just_read = 0 then set_hp_state (bp_finished_update (\<lambda>_. True)) st2 else st2))"

definition finish_body :: "message_mode \<Rightarrow> bool hop" where
  "finish_body mode st =
     (if bp_finished (hp_state (hs_parser st))
      then sbind (get_data_for_mode mode) (\<lambda>_ st.
        let body = seg_data (body_buf (hs_parser st)) in
        (Inr True, set_hp_state (\<lambda>_. body_parsing_init) (upd_parser (body_buf_update seg_reset)
          (upd_message mode (msg_body_update (\<lambda>_. body)) (msg_body_update (\<lambda>_. body)) st)))) st
      else (Inr False, st))"

text \<open>The first call of a body: \<open>Inr True\<close> when there is none.\<close>

definition start_body :: "(string \<Rightarrow> int option) \<Rightarrow> u64 \<Rightarrow> message_mode \<Rightarrow> bool hop" where
  "start_body lcl limit mode st =
     (if bp_mode (hp_state (hs_parser st)) \<noteq> Mode_unknown then (Inr False, st)
      else sbind (expected_body_size lcl mode) (\<lambda>(t, sz) st.
        if t = Body_none then (Inr True, st)
        else if limit < sz then (err body_size_too_large, st)
        else (Inr False, set_hp_state (\<lambda>_. \<lparr>bp_mode = mode, bp_type = t,
          bp_expected_size = (if t = Body_all then limit else sz), bp_read = 0, bp_finished = False,
          bp_next_chunk_size_known = False\<rparr>) st)) st)"

definition read_body :: "(string \<Rightarrow> int option) \<Rightarrow> u64 \<Rightarrow> message_mode \<Rightarrow> bool hop" where
  "read_body lcl limit mode =
     sbind (start_body lcl limit mode) (\<lambda>no_body.
     if no_body then sreturn True
     else (\<lambda>st. sbind (case bp_type (hp_state (hs_parser st)) of
         Body_chunked \<Rightarrow> read_chunks limit
       | Body_given \<Rightarrow> read_given
       | _ \<Rightarrow> read_until_end limit) (\<lambda>_. finish_body mode) st))"

end
