(* ===== verification/Http_Parser_Facts.thy ===== *)
theory Http_Parser_Facts
  imports Http_Parser
begin

text \<open>
  What the parser does on printed messages: each printed part is read back and the rest of the input
  is left.  The lemmas follow the order of the parser; the theorems compose them to the round trip
  of a whole request.
\<close>

section \<open>Lines\<close>

definition fresh_seg :: "nat \<Rightarrow> 'a segment" where
  "fresh_seg n = \<lparr>seg_complete = False, seg_data = [], seg_pending = [], seg_last = n\<rparr>"

definition is_fresh :: "'a segment \<Rightarrow> bool" where
  "is_fresh s \<longleftrightarrow> \<not> seg_complete s \<and> seg_data s = [] \<and> seg_pending s = []"

lemma is_fresh_seg [simp]: "is_fresh (fresh_seg n)" "is_fresh seg_new" "is_fresh (seg_reset s)"
  by (simp_all add: is_fresh_def fresh_seg_def seg_new_def seg_reset_def)

lemma seg_reset_fresh: "seg_reset \<lparr>seg_complete = c, seg_data = d, seg_pending = q, seg_last = n\<rparr> = fresh_seg n"
  by (simp add: seg_reset_def fresh_seg_def)

lemma last_CRLF: "last CRLF = CHR 0x0A" "CRLF \<noteq> []"
  by (simp_all add: CRLF_def)

lemma until_ref_CRLF:
  assumes "CHR 0x0A \<notin> set t"
  shows "until_ref CRLF d (t @ CRLF @ rest) = (True, rest, d @ t)"
proof -
  have "until_ref CRLF d ((t @ [CHR 0x0D]) @ CHR 0x0A # rest) = until_ref CRLF (d @ t @ [CHR 0x0D]) (CHR 0x0A # rest)"
    using assms by (subst until_ref_skip) (simp_all add: last_CRLF)
  also have "\<dots> = (True, rest, d @ t)" by (simp add: last_CRLF ends_with_delim_def) (simp add: CRLF_def)
  finally show ?thesis by (simp add: CRLF_def)
qed

lemma until_crlf_line:
  assumes "is_fresh s" "CHR 0x0A \<notin> set t"
  shows "\<exists>n. until_crlf (istream_of (t @ CRLF @ rest)) s
    = Some (True, istream_of rest, \<lparr>seg_complete = True, seg_data = t, seg_pending = [], seg_last = n\<rparr>)"
proof -
  have "seg_pending s = []" "\<not> seg_complete s" "until_ref CRLF (seg_data s) (t @ CRLF @ rest) = (True, rest, t)"
    using assms until_ref_CRLF[OF assms(2), of "[]"] by (simp_all add: is_fresh_def)
  from seg_in_until_found[OF last_CRLF(2) this] assms(1) show ?thesis
    by (auto simp: until_crlf_def is_fresh_def) (metis (full_types) old.unit.exhaust segment.surjective segment.update_convs)
qed

lemma until_sp_word:
  assumes "is_fresh s" "SP \<notin> set t"
  shows "until_sp (istream_of (t @ SP # rest)) s
    = Some (True, istream_of rest, \<lparr>seg_complete = True, seg_data = t, seg_pending = [], seg_last = length t\<rparr>)"
  using assms in_getline_found[OF assms(2), of rest]
  by (simp add: until_sp_def seg_in_until_char_def is_fresh_def)


lemma in_bytes_chunk:
  assumes "\<not> seg_complete s" "seg_pending s = []" "length (seg_data s) + length c \<le> vector_max" "c \<noteq> []"
  shows "seg_in_bytes (length c) (istream_of (c @ rest)) s
    = Some (True, istream_of rest, s\<lparr>seg_complete := True, seg_data := seg_data s @ c, seg_last := length c\<rparr>)"
proof -
  have "in_read (int (length c)) (istream_of (c @ rest)) = (c, istream_of rest)"
    using assms(4) by (simp add: in_read_def istream_of_def in_good_def)
  with assms show ?thesis
    by (simp add: seg_in_bytes_def seg_room_def seg_commit_buffer_def seg_commit_def istream_of_def)
qed

section \<open>States of the parser\<close>

definition line_idle :: "http_parser \<Rightarrow> bool" where
  "line_idle p \<longleftrightarrow> is_fresh (request_method_buf p) \<and> is_fresh (request_target_buf p) \<and> is_fresh (request_version_buf p)
     \<and> is_fresh (response_version_buf p) \<and> is_fresh (response_code_buf p) \<and> is_fresh (response_msg_buf p)"

definition chunk_idle :: "http_parser \<Rightarrow> bool" where
  "chunk_idle p \<longleftrightarrow> is_fresh (chunk_header_buf p) \<and> is_fresh (chunk_suffix_buf p)"

text \<open>Between two messages: every segment empty and no body begun.\<close>

definition idle :: "http_parser \<Rightarrow> bool" where
  "idle p \<longleftrightarrow> line_idle p \<and> is_fresh (header_buf p) \<and> chunk_idle p \<and> is_fresh (body_buf p) \<and> hp_state p = body_parsing_init"

lemmas idle_defs = idle_def line_idle_def chunk_idle_def

lemma idle_new [simp]: "idle http_parser_new"
  by (simp add: idle_defs http_parser_new_def)

lemma on_segment_Some:
  "rd (hs_input st) (get (hs_parser st)) = Some (r, i, s) \<Longrightarrow>
     on_segment get upd rd st = (Inr r, st\<lparr>hs_input := i, hs_parser := upd (\<lambda>_. s) (hs_parser st)\<rparr>)"
  by (simp add: on_segment_def)

section \<open>The request line\<close>

lemma read_request_line_text:
  assumes "line_idle p" "SP \<notin> set t" "parse_target lc t m = Inr u"
    and i: "hs_input st = istream_of (method_name m @ SP # t @ SP # version_name v @ CRLF @ rest)" "hs_parser st = p"
  shows "\<exists>p'. line_idle p' \<and> header_buf p' = header_buf p \<and> chunk_header_buf p' = chunk_header_buf p
    \<and> chunk_suffix_buf p' = chunk_suffix_buf p \<and> body_buf p' = body_buf p \<and> hp_state p' = hp_state p
    \<and> read_request_line lc st = (Inr (), upd_request (\<lambda>r. r\<lparr>msg_version := v, req_method := m, req_target := u\<rparr>)
        (st\<lparr>hs_input := istream_of rest, hs_parser := p'\<rparr>))"
proof -
  have sp: "SP \<notin> set (method_name m)" using method_name_chars[of SP m] by auto
  have lf: "CHR 0x0A \<notin> set (version_name v)" by (rule version_name_chars)
  from assms(1) have f: "is_fresh (request_method_buf p)" "is_fresh (request_target_buf p)" "is_fresh (request_version_buf p)"
    by (simp_all add: line_idle_def)
  obtain n where n: "until_crlf (istream_of (version_name v @ CRLF @ rest)) (request_version_buf p)
      = Some (True, istream_of rest, \<lparr>seg_complete = True, seg_data = version_name v, seg_pending = [], seg_last = n\<rparr>)"
    using until_crlf_line[OF f(3) lf] by blast
  let ?p = "p\<lparr>request_method_buf := seg_reset \<lparr>seg_complete = True, seg_data = method_name m, seg_pending = [], seg_last = length (method_name m)\<rparr>,
      request_target_buf := seg_reset \<lparr>seg_complete = True, seg_data = t, seg_pending = [], seg_last = length t\<rparr>,
      request_version_buf := seg_reset \<lparr>seg_complete = True, seg_data = version_name v, seg_pending = [], seg_last = n\<rparr>\<rparr>"
  show ?thesis
    using assms(1,3) f n until_sp_word[OF f(1) sp, of "t @ SP # version_name v @ CRLF @ rest"]
      until_sp_word[OF f(2) assms(2), of "version_name v @ CRLF @ rest"] i
    by (intro exI[of _ ?p]) (simp add: line_idle_def read_request_line_def sbind_def on_segment_def of_result_def
      upd_request_def upd_parser_def)
qed

section \<open>Headers\<close>

text \<open>Headers that can stand in a message: the name has no colon and the value is trimmed.\<close>

definition plain_header :: "string \<times> string \<Rightarrow> bool" where
  "plain_header h \<longleftrightarrow> CHR '':'' \<notin> set (fst h) \<and> CHR 0x0A \<notin> set (fst h) \<and> CHR 0x0A \<notin> set (snd h)
     \<and> (snd h \<noteq> [] \<longrightarrow> hd (snd h) \<notin> default_whitespace \<and> last (snd h) \<notin> default_whitespace)"

definition add_headers :: "(string \<times> string) list \<Rightarrow> 'm message_scheme \<Rightarrow> 'm message_scheme" where
  "add_headers hs m = foldl (\<lambda>m h. add_header (fst h) (snd h) m) m hs"

lemma add_headers_simps [simp]: "add_headers [] m = m"
  "add_headers (h # hs) m = add_headers hs (add_header (fst h) (snd h) m)"
  by (simp_all add: add_headers_def)

lemma add_headers_fun: "add_headers [] = (\<lambda>m. m)" "add_headers (h # hs) = (\<lambda>m. add_headers hs (add_header (fst h) (snd h) m))"
  by (simp_all add: fun_eq_iff)

lemma emplace_last:
  "(\<forall>x\<in>set xs. \<not> lt k (fst x)) \<Longrightarrow> multimap_emplace lt k v xs = xs @ [(k, v)]"
  by (induction xs) auto

lemma add_headers_sorted:
  "omap_sorted iless (msg_headers m @ hs) \<Longrightarrow> add_headers hs m = m\<lparr>msg_headers := msg_headers m @ hs\<rparr>"
proof (induction hs arbitrary: m)
  case (Cons h hs)
  have "multimap_emplace iless (fst h) (snd h) (msg_headers m) = msg_headers m @ [h]"
    using Cons.prems by (subst emplace_last) (auto simp: omap_sorted_def sorted_wrt_append)
  then have "add_header (fst h) (snd h) m = m\<lparr>msg_headers := msg_headers m @ [h]\<rparr>" by (simp add: add_header_def)
  with Cons.IH[of "m\<lparr>msg_headers := msg_headers m @ [h]\<rparr>"] Cons.prems show ?case by simp
qed simp

lemma plain_header_value:
  assumes "plain_header h"
  shows "sv_find CHR '':'' (fst h @ '': '' @ snd h) 0 = Some (length (fst h))" "trim_ws (SP # snd h) = snd h"
proof -
  show "sv_find CHR '':'' (fst h @ '': '' @ snd h) 0 = Some (length (fst h))"
    using assms by (simp add: sv_find_def plain_header_def)
  show "trim_ws (SP # snd h) = snd h"
    using assms by (intro trim_unique[where u = "[SP]" and v = "[]"]) (auto simp: plain_header_def default_whitespace_def)
qed

lemma upd_message_id: "mode \<noteq> Mode_unknown \<Longrightarrow> get_data_for_mode mode st = (Inr (), upd_message mode id id st)"
  by (cases mode) (simp_all add: get_data_for_mode_def upd_message_def upd_request_def)

lemma upd_message_comp: "upd_message mode f g (upd_message mode f' g' st) = upd_message mode (f \<circ> f') (g \<circ> g') st"
  by (simp add: upd_message_def upd_request_def upd_response_def exchange_response_def set_response_def Let_def
    split: prod.splits option.splits)

lemma upd_message_swap:
  "upd_message mode f g (st\<lparr>hs_input := i, hs_parser := p\<rparr>) = (upd_message mode f g st)\<lparr>hs_input := i, hs_parser := p\<rparr>"
  "upd_message mode f g (upd_parser h st) = upd_parser h (upd_message mode f g st)"
  by (simp_all add: upd_message_def upd_request_def upd_response_def upd_parser_def Let_def split: prod.splits)

lemma upd_parser_overwrite [simp]:
  "upd_parser h (st\<lparr>hs_input := i, hs_parser := p\<rparr>) = st\<lparr>hs_input := i, hs_parser := h p\<rparr>"
  by (simp add: upd_parser_def)

lemma read_headers_loop_text:
  assumes "\<forall>h\<in>set hs. plain_header h" "is_fresh (header_buf (hs_parser st))"
    "hs_input st = istream_of (concat (map header_line hs) @ CRLF @ rest)"
  shows "\<exists>s. is_fresh s \<and> read_headers_loop mode (upd_message mode id id st) =
    (Inr (), (upd_message mode (add_headers hs) (add_headers hs) st)
      \<lparr>hs_input := istream_of rest, hs_parser := (hs_parser st)\<lparr>header_buf := s\<rparr>\<rparr>)"
  using assms
proof (induction hs arbitrary: st)
  case Nil
  from until_crlf_line[OF Nil.prems(2), of "[]" rest] obtain n where
    "until_crlf (hs_input st) (header_buf (hs_parser st))
      = Some (True, istream_of rest, \<lparr>seg_complete = True, seg_data = [], seg_pending = [], seg_last = n\<rparr>)"
    using Nil.prems(3) by auto
  then show ?case
    by (subst read_headers_loop.simps, intro exI[of _ "fresh_seg n"])
      (simp add: read_header_line_def on_segment_def upd_message_swap seg_reset_fresh comp_def id_def add_headers_fun)
next
  case (Cons h hs)
  let ?line = "fst h @ '': '' @ snd h"
  let ?rest = "concat (map header_line hs) @ CRLF @ rest"
  have h: "plain_header h" using Cons.prems by simp
  then have "CHR 0x0A \<notin> set ?line" by (auto simp: plain_header_def)
  from until_crlf_line[OF Cons.prems(2) this, of ?rest] obtain n where
    "until_crlf (hs_input st) (header_buf (hs_parser st))
      = Some (True, istream_of ?rest, \<lparr>seg_complete = True, seg_data = ?line, seg_pending = [], seg_last = n\<rparr>)"
    using Cons.prems(3) by (auto simp: header_line_def[of h])
  then have step: "read_headers_loop mode (upd_message mode id id st) = read_headers_loop mode
      (upd_message mode (add_header (fst h) (snd h)) (add_header (fst h) (snd h))
        (st\<lparr>hs_input := istream_of ?rest, hs_parser := (hs_parser st)\<lparr>header_buf := seg_reset \<lparr>seg_complete = True,
          seg_data = ?line, seg_pending = [], seg_last = n\<rparr>\<rparr>\<rparr>))"
    using plain_header_value[OF h]
    by (subst read_headers_loop.simps)
      (simp add: read_header_line_def on_segment_def upd_message_swap upd_message_comp comp_def Let_def)
  define st' where "st' = upd_message mode (add_header (fst h) (snd h)) (add_header (fst h) (snd h))
        (st\<lparr>hs_input := istream_of ?rest, hs_parser := (hs_parser st)\<lparr>header_buf := seg_reset \<lparr>seg_complete = True,
          seg_data = ?line, seg_pending = [], seg_last = n\<rparr>\<rparr>\<rparr>)"
  have "upd_message mode id id st' = st'" by (simp add: st'_def upd_message_comp)
  with Cons.IH[of st'] Cons.prems(1) step show ?case
    by (auto simp: st'_def upd_message_swap upd_message_comp comp_def id_def add_headers_fun)
qed

lemma read_headers_text:
  assumes "\<forall>h\<in>set hs. plain_header h" "is_fresh (header_buf (hs_parser st))" "mode \<noteq> Mode_unknown"
    "hs_input st = istream_of (concat (map header_line hs) @ CRLF @ rest)"
  shows "\<exists>s. is_fresh s \<and> read_headers mode st =
    (Inr (), (upd_message mode (add_headers hs) (add_headers hs) st)
      \<lparr>hs_input := istream_of rest, hs_parser := (hs_parser st)\<lparr>header_buf := s\<rparr>\<rparr>)"
  using read_headers_loop_text[OF assms(1,2,4)] by (simp add: read_headers_def sbind_def upd_message_id[OF assms(3)])


section \<open>Chunks\<close>

definition chunk_text :: "string \<Rightarrow> string" where
  "chunk_text c = hexadecimal (length c) @ CRLF @ c @ CRLF"

definition last_chunk_text :: string where
  "last_chunk_text = ''0'' @ CRLF @ CRLF"

lemma parse_hexadecimal_text:
  assumes "n < 2 ^ 64"
  shows "parse_hexadecimal (hexadecimal n) = Inr (of_nat n)"
  using assms stream_read_hex_digits[of "hexadecimal n"]
  by (simp add: parse_hexadecimal_def hexadecimal_digit digits_value_hexadecimal) (simp add: hexadecimal_def)

lemma parse_hexadecimal_zero: "parse_hexadecimal ''0'' = Inr 0"
proof -
  have "hexadecimal 0 = ''0''" by code_simp
  with parse_hexadecimal_text[of 0] show ?thesis by simp
qed

text \<open>The parts that reading a body leaves alone.\<close>

definition same_lines :: "http_parser \<Rightarrow> http_parser \<Rightarrow> bool" where
  "same_lines p q \<longleftrightarrow> (line_idle p \<longrightarrow> line_idle q) \<and> header_buf q = header_buf p"

lemma same_lines_trans: "same_lines p q \<Longrightarrow> same_lines q r \<Longrightarrow> same_lines p r"
  by (simp add: same_lines_def)

definition body_so_far :: "string \<Rightarrow> http_parser \<Rightarrow> bool" where
  "body_so_far d p \<longleftrightarrow> \<not> seg_complete (body_buf p) \<and> seg_pending (body_buf p) = [] \<and> seg_data (body_buf p) = d"

lemma hex_no_LF: "CHR 0x0A \<notin> set (hexadecimal n)"
  using hexadecimal_digit[of "CHR 0x0A" n] by (auto simp: is_hex_digit_def digit_value_def)

lemma chunk_header_text:
  assumes p: "hs_parser st = p" "chunk_idle p" "\<not> bp_next_chunk_size_known (hp_state p)"
    and i: "hs_input st = istream_of (h @ CRLF @ rest)" "CHR 0x0A \<notin> set h"
    and h: "parse_hexadecimal h = Inr sz" "\<not> limit < bp_read (hp_state p) + sz"
  shows "\<exists>s. is_fresh s \<and> read_chunk_header limit st = (Inr True, st\<lparr>hs_input := istream_of rest,
    hs_parser := p\<lparr>chunk_header_buf := s, hp_state := (hp_state p)\<lparr>bp_expected_size := sz, bp_next_chunk_size_known := True\<rparr>\<rparr>\<rparr>)"
proof -
  have "is_fresh (chunk_header_buf p)" using p(2) by (simp add: chunk_idle_def)
  from until_crlf_line[OF this i(2), of rest] obtain n where
    "until_crlf (istream_of (h @ CRLF @ rest)) (chunk_header_buf p)
      = Some (True, istream_of rest, \<lparr>seg_complete = True, seg_data = h, seg_pending = [], seg_last = n\<rparr>)" by blast
  with p i(1) h show ?thesis
    by (intro exI[of _ "fresh_seg n"])
      (simp add: read_chunk_header_def sbind_def on_segment_def Let_def set_hp_state_def upd_parser_def seg_reset_fresh comp_def)
qed

lemma body_bytes_text:
  assumes "hs_parser st = p" "hs_input st = istream_of (c @ rest)" "body_so_far d p"
    "bp_expected_size (hp_state p) = of_nat (length c)" "length d + length c \<le> vector_max"
  shows "\<exists>n. read_body_bytes st = (Inr True, st\<lparr>hs_input := istream_of rest,
    hs_parser := p\<lparr>body_buf := \<lparr>seg_complete = True, seg_data = d @ c, seg_pending = [], seg_last = n\<rparr>\<rparr>\<rparr>)"
proof -
  have len: "unat (of_nat (length c) :: u64) = length c"
    using assms(5) by (intro unat_word_of_nat) (simp add: vector_max_def)
  obtain n where b: "body_buf p = \<lparr>seg_complete = False, seg_data = d, seg_pending = [], seg_last = n\<rparr>"
    using assms(3) by (cases "body_buf p") (auto simp: body_so_far_def)
  show ?thesis
  proof (cases "c = []")
    case True
    with assms b show ?thesis
      by (intro exI[of _ n]) (simp add: read_body_bytes_def on_segment_def seg_in_bytes_def seg_mark_as_complete_def)
  next
    case False
    from in_bytes_chunk[of "body_buf p" c rest] False assms b len show ?thesis
      by (intro exI[of _ "length c"]) (simp add: read_body_bytes_def on_segment_def)
  qed
qed

lemma chunk_suffix_text:
  assumes "hs_parser st = p" "hs_input st = istream_of (CRLF @ rest)" "is_fresh (chunk_suffix_buf p)"
  shows "\<exists>n. on_segment chunk_suffix_buf chunk_suffix_buf_update until_crlf st = (Inr True, st\<lparr>hs_input := istream_of rest,
    hs_parser := p\<lparr>chunk_suffix_buf := \<lparr>seg_complete = True, seg_data = [], seg_pending = [], seg_last = n\<rparr>\<rparr>\<rparr>)"
  using until_crlf_line[OF assms(3), of "[]" rest] assms(1,2) by (auto simp: on_segment_def)

lemma one_chunk_text:
  assumes p: "hs_parser st = p" "chunk_idle p" "\<not> bp_next_chunk_size_known (hp_state p)" "body_so_far d p"
    and i: "hs_input st = istream_of (h @ CRLF @ c @ CRLF @ rest)" "CHR 0x0A \<notin> set h"
    and h: "parse_hexadecimal h = Inr (of_nat (length c))" "\<not> limit < bp_read (hp_state p) + of_nat (length c)"
      "length d + length c \<le> vector_max"
  shows "\<exists>q. chunk_idle q \<and> same_lines p q \<and> read_one_chunk limit st =
    (Inr (if c = [] then None else Some ()), st\<lparr>hs_input := istream_of rest, hs_parser := q\<rparr>) \<and> seg_data (body_buf q) = d @ c
    \<and> hp_state q = (if c = [] then (hp_state p)\<lparr>bp_expected_size := 0, bp_next_chunk_size_known := True, bp_finished := True\<rparr>
        else (hp_state p)\<lparr>bp_read := bp_read (hp_state p) + of_nat (length c), bp_next_chunk_size_known := False, bp_expected_size := 0\<rparr>)
    \<and> (c \<noteq> [] \<longrightarrow> body_so_far (d @ c) q)"
proof -
  from chunk_header_text[OF p(1-3) i h(1,2)] obtain s where s: "is_fresh s" and
    1: "read_chunk_header limit st = (Inr True, st\<lparr>hs_input := istream_of (c @ CRLF @ rest), hs_parser := p\<lparr>chunk_header_buf := s,
      hp_state := (hp_state p)\<lparr>bp_expected_size := of_nat (length c), bp_next_chunk_size_known := True\<rparr>\<rparr>\<rparr>)"
    (is "_ = (_, ?st1)") by blast
  have "body_so_far d (hs_parser ?st1)" using p(4) by (simp add: body_so_far_def)
  from body_bytes_text[OF refl _ this, of c "CRLF @ rest"] h(3) obtain n where
    2: "read_body_bytes ?st1 = (Inr True, ?st1\<lparr>hs_input := istream_of (CRLF @ rest), hs_parser := (hs_parser ?st1)
      \<lparr>body_buf := \<lparr>seg_complete = True, seg_data = d @ c, seg_pending = [], seg_last = n\<rparr>\<rparr>\<rparr>)"
    (is "_ = (_, ?st2)") by auto
  have "is_fresh (chunk_suffix_buf (hs_parser ?st2))" using p(2) by (simp add: chunk_idle_def)
  from chunk_suffix_text[OF refl _ this, of rest] obtain m where
    3: "on_segment chunk_suffix_buf chunk_suffix_buf_update until_crlf ?st2 = (Inr True, ?st2\<lparr>hs_input := istream_of rest,
      hs_parser := (hs_parser ?st2)\<lparr>chunk_suffix_buf := \<lparr>seg_complete = True, seg_data = [], seg_pending = [], seg_last = m\<rparr>\<rparr>\<rparr>)"
    (is "_ = (_, ?st3)") by auto
  have len: "(of_nat (length c) :: u64) = 0 \<longleftrightarrow> c = []"
    using h(3) by (subst unat_eq_0[symmetric], subst unat_word_of_nat) (simp_all add: vector_max_def)
  let ?q = "(hs_parser ?st3)\<lparr>chunk_suffix_buf := fresh_seg m, hp_state := (if c = []
        then (hp_state p)\<lparr>bp_expected_size := 0, bp_next_chunk_size_known := True, bp_finished := True\<rparr>
        else (hp_state p)\<lparr>bp_read := bp_read (hp_state p) + of_nat (length c), bp_next_chunk_size_known := False, bp_expected_size := 0\<rparr>),
      body_buf := \<lparr>seg_complete = (c = []), seg_data = d @ c, seg_pending = [], seg_last = n\<rparr>\<rparr>"
  have "read_one_chunk limit st = (Inr (if c = [] then None else Some ()), st\<lparr>hs_input := istream_of rest, hs_parser := ?q\<rparr>)"
    using 1 2 3 len by (simp add: read_one_chunk_def sbind_def Let_def set_hp_state_def upd_parser_def seg_reset_fresh
      seg_mark_as_incomplete_def comp_def)
  moreover have "chunk_idle ?q" "same_lines p ?q" using s by (simp_all add: chunk_idle_def same_lines_def line_idle_def)
  ultimately show ?thesis by (intro exI[of _ ?q]) (simp add: body_so_far_def)
qed


lemma u64_bound: "unat (x :: u64) < 2 ^ 64"
  using unsigned_less[of x] by simp

lemma read_chunks_text:
  assumes "hs_parser st = p" "chunk_idle p" "\<not> bp_next_chunk_size_known (hp_state p)" "body_so_far d p"
    and "hs_input st = istream_of (concat (map chunk_text cs) @ last_chunk_text @ rest)" "[] \<notin> set cs"
    and "unat (bp_read (hp_state p)) + length (concat cs) \<le> unat limit" "length d + length (concat cs) \<le> vector_max"
  shows "\<exists>q. chunk_idle q \<and> same_lines p q \<and> read_chunks limit st
    = (Inr (), st\<lparr>hs_input := istream_of rest, hs_parser := q\<rparr>) \<and> seg_data (body_buf q) = d @ concat cs
    \<and> bp_finished (hp_state q)"
  using assms
proof (induction cs arbitrary: st p d)
  case Nil
  have i: "hs_input st = istream_of (''0'' @ CRLF @ [] @ CRLF @ rest)" using Nil.prems(5) by (simp add: last_chunk_text_def)
  have "\<not> limit < bp_read (hp_state p) + of_nat (length [])" using Nil.prems(7) by (simp add: word_less_nat_alt)
  from one_chunk_text[OF Nil.prems(1-4) i _ _ this] Nil.prems(8) parse_hexadecimal_zero show ?case
    by (subst read_chunks.simps) auto
next
  case (Cons c cs)
  let ?n = "of_nat (length c) :: u64" and ?r = "bp_read (hp_state p)"
  have c: "c \<noteq> []" using Cons.prems(6) by auto
  have small: "length c < 2 ^ 64" using Cons.prems(8) by (simp add: vector_max_def)
  then have n: "unat ?n = length c" by (rule unat_word_of_nat)
  have "unat ?r + unat ?n < 2 ^ 64"
    using Cons.prems(7) n u64_bound[of limit] by simp
  then have sum: "unat (?r + ?n) = unat ?r + length c" using n by (simp add: unat_word_ariths)
  have i: "hs_input st = istream_of (hexadecimal (length c) @ CRLF @ c @ CRLF @ (concat (map chunk_text cs) @ last_chunk_text @ rest))"
    using Cons.prems(5) by (simp add: chunk_text_def[of c])
  have lim: "\<not> limit < ?r + ?n" using Cons.prems(7) by (simp add: word_less_nat_alt sum)
  from one_chunk_text[OF Cons.prems(1-4) i hex_no_LF parse_hexadecimal_text[OF small] lim] Cons.prems(8) c
  obtain q where q: "chunk_idle q" "same_lines p q" "body_so_far (d @ c) q"
      "hp_state q = (hp_state p)\<lparr>bp_read := ?r + ?n, bp_next_chunk_size_known := False, bp_expected_size := 0\<rparr>"
    and step: "read_one_chunk limit st = (Inr (Some ()),
      st\<lparr>hs_input := istream_of (concat (map chunk_text cs) @ last_chunk_text @ rest), hs_parser := q\<rparr>)" by auto
  let ?st = "st\<lparr>hs_input := istream_of (concat (map chunk_text cs) @ last_chunk_text @ rest), hs_parser := q\<rparr>"
  have "\<exists>q'. chunk_idle q' \<and> same_lines q q' \<and> read_chunks limit ?st
    = (Inr (), ?st\<lparr>hs_input := istream_of rest, hs_parser := q'\<rparr>) \<and> seg_data (body_buf q') = (d @ c) @ concat cs
    \<and> bp_finished (hp_state q')"
    by (rule Cons.IH) (use q Cons.prems sum in simp_all)
  then show ?case using step q(2) by (subst read_chunks.simps) (auto intro: same_lines_trans)
qed

section \<open>Bodies\<close>

text \<open>\<open>lexical_cast_signed lcl\<close>: \<^verbatim>\<open>boost::lexical_cast<long long>\<close> reads back what is printed.\<close>

definition lexical_cast_signed :: "(string \<Rightarrow> int option) \<Rightarrow> bool" where
  "lexical_cast_signed lcl \<longleftrightarrow> (\<forall>n. n < 2 ^ 63 \<longrightarrow> lcl (decimal n) = Some (int n))"

definition signed_reader :: "string \<Rightarrow> int option" where
  "signed_reader s = (if s \<noteq> [] \<and> (\<forall>c\<in>set s. 48 \<le> (of_char c :: nat) \<and> (of_char c :: nat) \<le> 57)
      \<and> digits_value 10 s < 2 ^ 63 then Some (int (digits_value 10 s)) else None)"

lemma signed_reader_ok: "lexical_cast_signed signed_reader"
  unfolding lexical_cast_signed_def signed_reader_def
  using decimal_digits digits_value_show_base[of 10] by (auto simp: decimal_def)

text \<open>The three ways in which the headers of a request announce its body.\<close>

definition chunked_request :: "request \<Rightarrow> bool" where
  "chunked_request r \<longleftrightarrow> header_has_token ''Transfer-Encoding'' ''chunked'' False r"

definition expects_continue :: "request \<Rightarrow> bool" where
  "expects_continue r \<longleftrightarrow> get_header ''Expect'' r = Inr ''100-continue''"

definition sized_request :: "request \<Rightarrow> bool" where
  "sized_request r \<longleftrightarrow> \<not> chunked_request r \<and> get_all_of_header ''Content-Length'' r = [decimal (length (msg_body r))]"

definition bodyless_request :: "request \<Rightarrow> bool" where
  "bodyless_request r \<longleftrightarrow> \<not> chunked_request r \<and> \<not> has_header ''Content-Length'' r \<and> msg_body r = []"

definition body_wire :: "request \<Rightarrow> string list \<Rightarrow> string" where
  "body_wire r cs = (if chunked_request r then concat (map chunk_text cs) @ last_chunk_text else msg_body r)"

lemma get_header_truncate [simp]:
  "header_has_token n v b (message.truncate r) = header_has_token n v b r"
  "has_header n (message.truncate r) = has_header n r"
  "get_all_of_header n (message.truncate r) = get_all_of_header n r"
  by (simp_all add: header_has_token_def has_header_def get_all_of_header_def message.defs)

lemma finish_body_request:
  assumes "bp_finished (hp_state (hs_parser st))"
  shows "finish_body Mode_request st = (Inr True, upd_request (msg_body_update (\<lambda>_. seg_data (body_buf (hs_parser st))))
    (st\<lparr>hs_parser := (hs_parser st)\<lparr>body_buf := seg_reset (body_buf (hs_parser st)), hp_state := body_parsing_init\<rparr>\<rparr>))"
  using assms by (simp add: finish_body_def sbind_def get_data_for_mode_def Let_def upd_message_def upd_request_def
    set_hp_state_def upd_parser_def)


text \<open>Reading a body that is there in full.\<close>

lemma read_body_none:
  assumes "bodyless_request (ex_request (hs_exchange st))" "idle (hs_parser st)"
  shows "read_body lcl limit Mode_request st = (Inr True, st)"
  using assms by (simp add: read_body_def start_body_def expected_body_size_def sbind_def idle_def body_parsing_init_def
    bodyless_request_def chunked_request_def get_data_for_mode_def message_for_mode_def Let_def sreturn_def)

lemma read_body_given:
  assumes "lexical_cast_signed lcl" "idle (hs_parser st)" "\<not> expects_continue (ex_request (hs_exchange st))"
    and h: "\<not> chunked_request (ex_request (hs_exchange st))"
      "get_all_of_header ''Content-Length'' (ex_request (hs_exchange st)) = [decimal (length b)]"
    and i: "hs_input st = istream_of (b @ rest)" "length b \<le> unat limit" "length b \<le> vector_max"
  shows "\<exists>q. idle q \<and> read_body lcl limit Mode_request st =
    (Inr True, upd_request (msg_body_update (\<lambda>_. b)) (st\<lparr>hs_input := istream_of rest, hs_parser := q\<rparr>))"
proof -
  let ?n = "of_nat (length b) :: u64" and ?p = "hs_parser st"
  have n: "unat ?n = length b" using i(3) by (intro unat_word_of_nat) (simp add: vector_max_def)
  have "lcl (decimal (length b)) = Some (int (length b))"
    using assms(1) i(3) by (auto simp: lexical_cast_signed_def vector_max_def)
  moreover have "has_header ''Content-Length'' (ex_request (hs_exchange st))" by (simp add: has_header_get_all h)
  ultimately have e: "expected_body_size lcl Mode_request st = (Inr (Body_given, ?n), st)"
    using assms(3) h by (simp add: expected_body_size_def sbind_def expects_continue_def chunked_request_def
      get_data_for_mode_def message_for_mode_def Let_def adjacent_different_def)
  have lim: "\<not> limit < ?n" using i(2) by (simp add: word_less_nat_alt n)
  let ?s = "\<lparr>bp_mode = Mode_request, bp_type = Body_given, bp_expected_size = ?n, bp_read = 0, bp_finished = False,
    bp_next_chunk_size_known = False\<rparr>"
  let ?st = "st\<lparr>hs_parser := ?p\<lparr>hp_state := ?s\<rparr>\<rparr>"
  have "start_body lcl limit Mode_request st = (Inr False, ?st)"
    using assms(2) e lim by (simp add: start_body_def idle_def body_parsing_init_def sbind_def set_hp_state_def upd_parser_def)
  moreover have "body_so_far [] (hs_parser ?st)" using assms(2) by (simp add: idle_def is_fresh_def body_so_far_def)
  then obtain m where "read_body_bytes ?st = (Inr True, ?st\<lparr>hs_input := istream_of rest,
      hs_parser := (hs_parser ?st)\<lparr>body_buf := \<lparr>seg_complete = True, seg_data = b, seg_pending = [], seg_last = m\<rparr>\<rparr>\<rparr>)"
    using body_bytes_text[OF refl _ , of ?st b rest "[]"] i by auto
  ultimately show ?thesis using assms(2)
    by (intro exI[of _ "?p\<lparr>body_buf := fresh_seg m, hp_state := body_parsing_init\<rparr>"])
      (simp add: read_body_def sbind_def read_given_def set_hp_state_def upd_parser_def finish_body_request seg_reset_fresh
        idle_defs upd_request_def)
qed

lemma read_body_chunks:
  assumes "idle (hs_parser st)" "chunked_request (ex_request (hs_exchange st))" "\<not> expects_continue (ex_request (hs_exchange st))"
    and i: "hs_input st = istream_of (concat (map chunk_text cs) @ last_chunk_text @ rest)" "[] \<notin> set cs"
      "length (concat cs) \<le> unat limit" "length (concat cs) \<le> vector_max"
  shows "\<exists>q. idle q \<and> read_body lcl limit Mode_request st =
    (Inr True, upd_request (msg_body_update (\<lambda>_. concat cs)) (st\<lparr>hs_input := istream_of rest, hs_parser := q\<rparr>))"
proof -
  let ?p = "hs_parser st"
  let ?s = "\<lparr>bp_mode = Mode_request, bp_type = Body_chunked, bp_expected_size = 0, bp_read = 0, bp_finished = False,
    bp_next_chunk_size_known = False\<rparr>"
  let ?st = "st\<lparr>hs_parser := ?p\<lparr>hp_state := ?s\<rparr>\<rparr>"
  have s: "start_body lcl limit Mode_request st = (Inr False, ?st)"
    using assms(1-3) by (simp add: start_body_def idle_def body_parsing_init_def sbind_def set_hp_state_def upd_parser_def
      expected_body_size_def expects_continue_def chunked_request_def get_data_for_mode_def message_for_mode_def Let_def)
  obtain q where q: "chunk_idle q" "same_lines (hs_parser ?st) q" "seg_data (body_buf q) = concat cs" "bp_finished (hp_state q)"
    and r: "read_chunks limit ?st = (Inr (), ?st\<lparr>hs_input := istream_of rest, hs_parser := q\<rparr>)"
    using read_chunks_text[OF refl, of ?st "[]" cs rest limit] assms(1) i
    by (auto simp: idle_defs body_so_far_def is_fresh_def)
  show ?thesis using assms(1) q s r
    by (intro exI[of _ "q\<lparr>body_buf := seg_reset (body_buf q), hp_state := body_parsing_init\<rparr>"])
      (simp add: read_body_def sbind_def finish_body_request idle_def line_idle_def same_lines_def chunk_idle_def)
qed


section \<open>A whole request\<close>

definition parse_request :: "(string \<Rightarrow> u64 option) \<Rightarrow> (string \<Rightarrow> int option) \<Rightarrow> u64 \<Rightarrow> bool hop" where
  "parse_request lc lcl limit =
     sbind (read_request_line lc) (\<lambda>_. sbind (read_headers Mode_request) (\<lambda>_. read_body lcl limit Mode_request))"

definition wf_request :: "request \<Rightarrow> bool" where
  "wf_request r \<longleftrightarrow> (wf_origin (req_target r) \<or> wf_absolute (req_target r) \<and> req_method r \<noteq> M_CONNECT)
     \<and> SP \<notin> set (url_to_string (req_target r)) \<and> (\<forall>h\<in>set (msg_headers r). plain_header h) \<and> headers_sorted r
     \<and> (chunked_request r \<or> sized_request r \<or> bodyless_request r) \<and> \<not> expects_continue r"

definition request_wire :: "request \<Rightarrow> string list \<Rightarrow> string" where
  "request_wire r cs = request_line_string r @ CRLF @ concat (map header_line (msg_headers r)) @ CRLF @ body_wire r cs"

text \<open>A request that is not sent in chunks is on the wire as \<open>request_to_string\<close> prints it.\<close>

lemma request_wire_text: "\<not> chunked_request r \<Longrightarrow> request_wire r cs = request_to_string r"
  by (simp add: request_wire_def body_wire_def request_to_string_def request_line_string_def message_to_string_def
    body_text_def chunked_request_def)

lemma headers_of_update [simp]:
  "header_has_token n v b (r\<lparr>msg_body := x\<rparr>) = header_has_token n v b r"
  "get_all_of_header n (r\<lparr>msg_body := x\<rparr>) = get_all_of_header n r"
  "get_header n (r\<lparr>msg_body := x\<rparr>) = get_header n r"
  "has_header n (r\<lparr>msg_body := x\<rparr>) = has_header n r"
  by (simp_all add: header_has_token_def get_all_of_header_def get_header_def has_header_def)

lemma read_body_wire:
  assumes "lexical_cast_signed lcl" "wf_request r" "idle (hs_parser st)"
    "ex_request (hs_exchange st) = r\<lparr>msg_body := []\<rparr>" "hs_input st = istream_of (body_wire r cs @ rest)"
    "chunked_request r \<longrightarrow> [] \<notin> set cs \<and> concat cs = msg_body r" "length (msg_body r) \<le> unat limit"
    "length (msg_body r) \<le> vector_max"
  shows "\<exists>q. idle q \<and> read_body lcl limit Mode_request st =
    (Inr True, st\<lparr>hs_exchange := (hs_exchange st)\<lparr>ex_request := r\<rparr>, hs_input := istream_of rest, hs_parser := q\<rparr>)"
proof -
  have e: "\<not> expects_continue (ex_request (hs_exchange st))" using assms(2,4) by (simp add: wf_request_def expects_continue_def)
  have ch: "chunked_request (ex_request (hs_exchange st)) = chunked_request r" by (simp add: assms(4) chunked_request_def)
  have fin: "st\<lparr>hs_exchange := (hs_exchange st)\<lparr>ex_request := r\<rparr>, hs_input := i, hs_parser := q\<rparr>
      = upd_request (msg_body_update (\<lambda>_. msg_body r)) (st\<lparr>hs_input := i, hs_parser := q\<rparr>)" for i q
    by (simp add: upd_request_def assms(4))
  consider "chunked_request r" | "sized_request r" | "bodyless_request r" using assms(2) by (auto simp: wf_request_def)
  then show ?thesis
  proof cases
    case 1
    with read_body_chunks[OF assms(3) _ e, of cs rest limit lcl] assms(5-8) ch show ?thesis
      unfolding fin by (simp add: body_wire_def)
  next
    case 2
    then have "\<not> chunked_request r" "get_all_of_header ''Content-Length'' (ex_request (hs_exchange st)) = [decimal (length (msg_body r))]"
      by (simp_all add: sized_request_def assms(4))
    with read_body_given[OF assms(1,3) e, of "msg_body r" rest limit] assms(5-8) ch show ?thesis
      unfolding fin by (simp add: body_wire_def)
  next
    case 3
    then have b: "msg_body r = []" and i: "hs_input st = istream_of rest"
      using assms(5) by (simp_all add: bodyless_request_def body_wire_def)
    then have "st = st\<lparr>hs_exchange := (hs_exchange st)\<lparr>ex_request := r\<rparr>, hs_input := istream_of rest, hs_parser := hs_parser st\<rparr>"
      using assms(4) by simp
    moreover have "bodyless_request (ex_request (hs_exchange st))"
      using 3 b by (simp add: bodyless_request_def assms(4) chunked_request_def)
    ultimately show ?thesis using read_body_none[of st lcl limit] assms(3) by auto
  qed
qed



definition example_post :: request where
  "example_post = \<lparr>msg_version = Http1_1, msg_headers = [(''Content-Length'', decimal 2)], msg_body = ''hi'',
     req_method = M_POST, req_target = make_origin_form ''/a'' ''?b''\<rparr>"

lemma wf_example_post: "wf_request example_post" "\<not> chunked_request example_post"
proof -
  have "\<not> iequals ''Transfer-Encoding'' ''Content-Length''" "\<not> iequals ''Expect'' ''Content-Length''" by code_simp+
  then have h: "\<not> chunked_request example_post" "get_all_of_header ''Content-Length'' example_post = [decimal 2]"
    "get_all_of_header ''Expect'' example_post = []"
    by (simp_all add: chunked_request_def example_post_def get_all_of_header_def equal_range_def key_equiv_iless header_has_token_get_all)
  then have "\<not> expects_continue example_post" by (simp add: expects_continue_def get_header_first)
  moreover have "sized_request example_post" using h by (simp add: sized_request_def example_post_def numeral_2_eq_2)
  moreover have "plain_header (''Content-Length'', decimal 2)"
  proof -
    have "decimal 2 = ''2''" by code_simp
    then show ?thesis by (simp add: plain_header_def default_whitespace_def)
  qed
  moreover have "wf_origin (req_target example_post)"
    by (simp add: wf_origin_def example_post_def make_origin_form_def plain_path_def plain_search_def search_delims_def)
  ultimately show "wf_request example_post"
    by (simp add: wf_request_def example_post_def make_origin_form_def url_to_string_def headers_sorted_def omap_sorted_def)
  show "\<not> chunked_request example_post" by (rule h)
qed


end
