(* ===== verification/Http_Parser_Bounds.thy ===== *)
theory Http_Parser_Bounds
  imports Http_Parser_Facts
begin

text \<open>
  The limit on the body size: an invariant of the parser, kept by every call whatever the input and
  however it is cut, the wrap-around of the size check, and what reading until the end does.
\<close>

section \<open>The invariant\<close>

definition within_limit :: "u64 \<Rightarrow> http_parser \<Rightarrow> bool" where
  "within_limit limit p \<longleftrightarrow>
     (let b = hp_state p; s = body_buf p in
      (bp_type b = Body_chunked \<or> bp_type b = Body_given)
      \<and> (bp_type b = Body_given \<longrightarrow> bp_expected_size b \<le> limit \<and> bp_read b = 0)
      \<and> unat (bp_read b) + (if bp_type b = Body_given \<or> bp_next_chunk_size_known b then unat (bp_expected_size b) else 0) \<le> unat limit
      \<and> (if seg_complete s
         then (bp_type b = Body_given \<or> bp_next_chunk_size_known b) \<and> length (seg_data s) = unat (bp_read b) + unat (bp_expected_size b)
         else length (seg_data s) = unat (bp_read b)))"

lemma within_limit_cong:
  "hp_state q = hp_state p \<Longrightarrow> body_buf q = body_buf p \<Longrightarrow> within_limit limit q = within_limit limit p"
  by (simp add: within_limit_def)

lemma in_bytes_length:
  assumes "seg_in_bytes n i s = Some (r, i1, s1)" "\<not> seg_complete s"
  shows "seg_complete s1 = r" "length (seg_data s1) = length (seg_data s) + (if r then n else 0)"
  using assms by (auto simp: seg_in_bytes_def seg_mark_as_complete_def seg_commit_buffer_def seg_commit_def in_read_def
    Let_def split: if_splits)

lemma in_bytes_complete: "seg_complete s \<Longrightarrow> seg_in_bytes n i s = Some (True, i, s)"
  by (simp add: seg_in_bytes_def)

text \<open>A size that makes the sum wrap around passes the check, but no buffer can hold such a chunk.\<close>

lemma no_wrap:
  fixes r sz limit :: u64
  assumes "\<not> limit < r + sz" "unat r \<le> unat limit" "unat limit < 2 ^ 63" "unat sz < 2 ^ 63"
  shows "unat r + unat sz \<le> unat limit"
proof -
  have "unat r + unat sz < 2 ^ 64" using assms(2-4) by simp
  then have "unat (r + sz) = unat r + unat sz" by (simp add: unat_word_ariths)
  with assms(1) show ?thesis by (simp add: word_less_nat_alt)
qed

lemma in_bytes_huge: "\<not> seg_complete s \<Longrightarrow> 2 ^ 63 \<le> n \<Longrightarrow> seg_in_bytes n i s = None"
  by (simp add: seg_in_bytes_def seg_room_def vector_max_def)

definition chunk_sized :: "u64 \<Rightarrow> http_parser \<Rightarrow> bool" where
  "chunk_sized limit p \<longleftrightarrow> bp_type (hp_state p) = Body_chunked \<and> bp_next_chunk_size_known (hp_state p)
     \<and> (within_limit limit p \<or> \<not> seg_complete (body_buf p) \<and> 2 ^ 63 \<le> unat (bp_expected_size (hp_state p)))"

lemma chunk_header_sized:
  assumes "read_chunk_header limit st = (Inr k, st1)" "within_limit limit (hs_parser st)" "unat limit < 2 ^ 63"
    "bp_type (hp_state (hs_parser st)) = Body_chunked"
  shows "if k then chunk_sized limit (hs_parser st1) else within_limit limit (hs_parser st1) \<and> hp_state (hs_parser st1) = hp_state (hs_parser st)"
proof (cases "bp_next_chunk_size_known (hp_state (hs_parser st))")
  case True
  with assms show ?thesis by (auto simp: read_chunk_header_def chunk_sized_def)
next
  case False
  let ?p = "hs_parser st"
  from assms(2) False assms(4) have w: "\<not> seg_complete (body_buf ?p)" "length (seg_data (body_buf ?p)) = unat (bp_read (hp_state ?p))"
    "unat (bp_read (hp_state ?p)) \<le> unat limit" by (auto simp: within_limit_def Let_def split: if_splits)
  from assms(1) False obtain found st2 where o: "on_segment chunk_header_buf chunk_header_buf_update until_crlf st = (Inr found, st2)"
    by (auto simp: read_chunk_header_def sbind_def split: prod.splits sum.splits)
  then obtain i s where st2: "st2 = st\<lparr>hs_input := i, hs_parser := chunk_header_buf_update (\<lambda>_. s) ?p\<rparr>"
    by (auto simp: on_segment_Inr)
  show ?thesis
  proof (cases k)
    case False
    with assms(1) \<open>\<not> bp_next_chunk_size_known _\<close> o have "st1 = st2"
      by (auto simp: read_chunk_header_def sbind_def Let_def split: if_splits sum.splits)
    with False assms(2) st2 show ?thesis by (simp add: within_limit_def)
  next
    case True
    with assms(1) \<open>\<not> bp_next_chunk_size_known _\<close> o st2 obtain sz where
      st1: "hp_state (hs_parser st1) = (hp_state ?p)\<lparr>bp_expected_size := sz, bp_next_chunk_size_known := True\<rparr>"
        "body_buf (hs_parser st1) = body_buf ?p" and sz: "\<not> limit < bp_read (hp_state ?p) + sz"
      by (auto simp: read_chunk_header_def sbind_def Let_def set_hp_state_def split: if_splits sum.splits)
    with True w assms(4) no_wrap[OF sz w(3) assms(3)] show ?thesis
      by (simp add: chunk_sized_def within_limit_def Let_def) linarith
  qed
qed

lemma body_bytes_within:
  assumes "read_body_bytes st = (Inr c, st1)" "chunk_sized limit (hs_parser st)"
  shows "within_limit limit (hs_parser st1) \<and> hp_state (hs_parser st1) = hp_state (hs_parser st) \<and> seg_complete (body_buf (hs_parser st1)) = c"
proof -
  let ?p = "hs_parser st"
  let ?n = "unat (bp_expected_size (hp_state ?p))"
  from assms(1) obtain i s where b: "seg_in_bytes ?n (hs_input st) (body_buf ?p) = Some (c, i, s)"
    and st1: "st1 = st\<lparr>hs_input := i, hs_parser := body_buf_update (\<lambda>_. s) ?p\<rparr>"
    by (auto simp: read_body_bytes_def on_segment_Inr)
  show ?thesis
  proof (cases "seg_complete (body_buf ?p)")
    case True
    with b have "c" "s = body_buf ?p" by (simp_all add: in_bytes_complete)
    with True assms(2) st1 show ?thesis by (auto simp: chunk_sized_def within_limit_def)
  next
    case False
    then have "within_limit limit ?p" using assms(2) b in_bytes_huge[OF False, of ?n "hs_input st"] by (auto simp: chunk_sized_def)
    with in_bytes_length[OF b False] assms(2) False show ?thesis
      by (auto simp: st1 chunk_sized_def within_limit_def Let_def split: if_splits)
  qed
qed

lemma one_chunk_within:
  assumes "read_one_chunk limit st = (Inr k, st1)" "within_limit limit (hs_parser st)" "unat limit < 2 ^ 63"
    "bp_type (hp_state (hs_parser st)) = Body_chunked"
  shows "within_limit limit (hs_parser st1) \<and> bp_type (hp_state (hs_parser st1)) = Body_chunked"
proof -
  from assms(1) obtain b st2 where h: "read_chunk_header limit st = (Inr b, st2)"
    by (auto simp: read_one_chunk_def sbind_def split: prod.splits sum.splits)
  note hs = chunk_header_sized[OF h assms(2-4)]
  show ?thesis
  proof (cases b)
    case False
    with assms h hs show ?thesis by (simp add: read_one_chunk_def sbind_def sreturn_def)
  next
    case True
    with hs have cs: "chunk_sized limit (hs_parser st2)" by simp
    from assms(1) h True obtain c st3 where bb: "read_body_bytes st2 = (Inr c, st3)"
      by (auto simp: read_one_chunk_def sbind_def split: prod.splits sum.splits)
    note w = body_bytes_within[OF bb cs]
    have t: "bp_type (hp_state (hs_parser st3)) = Body_chunked" "bp_next_chunk_size_known (hp_state (hs_parser st3))"
      using w cs by (simp_all add: chunk_sized_def)
    show ?thesis
    proof (cases c)
      case False
      with assms h bb True w t show ?thesis by (simp add: read_one_chunk_def sbind_def sreturn_def)
    next
      case True
      from assms(1) h \<open>b\<close> bb True obtain d st4 where
        cs: "on_segment chunk_suffix_buf chunk_suffix_buf_update until_crlf st3 = (Inr d, st4)"
        by (auto simp: read_one_chunk_def sbind_def split: prod.splits sum.splits)
      then have p4: "hp_state (hs_parser st4) = hp_state (hs_parser st3)" "body_buf (hs_parser st4) = body_buf (hs_parser st3)"
        by (auto simp: on_segment_Inr)
      let ?b = "hp_state (hs_parser st3)"
      have w3: "within_limit limit (hs_parser st3)" "seg_complete (body_buf (hs_parser st3))" using w True by auto
      have r: "unat (bp_read ?b) + unat (bp_expected_size ?b) \<le> unat limit"
        "length (seg_data (body_buf (hs_parser st3))) = unat (bp_read ?b) + unat (bp_expected_size ?b)"
        using w3 t by (auto simp: within_limit_def Let_def)
      moreover have "unat (bp_read ?b + bp_expected_size ?b) = unat (bp_read ?b) + unat (bp_expected_size ?b)"
        using r(1) u64_bound[of limit] by (simp add: unat_word_ariths)
      ultimately show ?thesis
        using assms(1) h \<open>b\<close> bb True cs p4 t w
        by (auto simp: read_one_chunk_def sbind_def sreturn_def Let_def set_hp_state_def within_limit_def seg_mark_as_incomplete_def
          split: if_splits)
    qed
  qed
qed

lemma chunks_within:
  "read_chunks limit st = (Inr u, st1) \<Longrightarrow> within_limit limit (hs_parser st) \<Longrightarrow> unat limit < 2 ^ 63 \<Longrightarrow>
    bp_type (hp_state (hs_parser st)) = Body_chunked \<Longrightarrow> within_limit limit (hs_parser st1)"
proof (induction limit st rule: read_chunks.induct)
  case (1 limit st)
  obtain r st2 where o: "read_one_chunk limit st = (r, st2)" by fastforce
  show ?case
  proof (cases r)
    case (Inl f)
    with 1 o show ?thesis by (simp add: read_chunks.simps[of limit st])
  next
    case (Inr k)
    note w = one_chunk_within[OF o[unfolded Inr] "1.prems"(2-4)]
    show ?thesis
    proof (cases k)
      case None
      with "1.prems" o Inr w show ?thesis by (simp add: read_chunks.simps[of limit st])
    next
      case (Some u)
      with "1.prems" o Inr w "1.IH"[OF o[symmetric]] show ?thesis by (auto simp: read_chunks.simps[of limit st])
    qed
  qed
qed


lemma given_within:
  assumes "read_given st = (Inr u, st1)" "within_limit limit (hs_parser st)" "bp_type (hp_state (hs_parser st)) = Body_given"
  shows "length (seg_data (body_buf (hs_parser st1))) \<le> unat limit
    \<and> (bp_finished (hp_state (hs_parser st1)) \<or> within_limit limit (hs_parser st1)) \<and> bp_mode (hp_state (hs_parser st1)) = bp_mode (hp_state (hs_parser st))"
proof -
  let ?p = "hs_parser st"
  let ?n = "unat (bp_expected_size (hp_state ?p))"
  from assms(1) obtain c st2 where "read_body_bytes st = (Inr c, st2)"
    by (auto simp: read_given_def sbind_def split: prod.splits sum.splits)
  then obtain i s where b: "seg_in_bytes ?n (hs_input st) (body_buf ?p) = Some (c, i, s)"
    and st1: "st1 = (if c then set_hp_state (\<lambda>b. b\<lparr>bp_read := bp_expected_size b, bp_finished := True\<rparr>) else id)
      (st\<lparr>hs_input := i, hs_parser := body_buf_update (\<lambda>_. s) ?p\<rparr>)"
    using assms(1) by (auto simp: read_given_def sbind_def read_body_bytes_def on_segment_Inr split: prod.splits sum.splits)
  show ?thesis
  proof (cases "seg_complete (body_buf ?p)")
    case True
    with b have "c" "s = body_buf ?p" by (simp_all add: in_bytes_complete)
    with True assms(2,3) st1 show ?thesis by (auto simp: within_limit_def Let_def set_hp_state_def)
  next
    case False
    with in_bytes_length[OF b False] assms(2,3) st1 show ?thesis
      by (auto simp: within_limit_def Let_def set_hp_state_def split: if_splits)
  qed
qed

section \<open>Properties\<close>

text \<open>The body the message gets, when the call finishes it.\<close>

definition message_body :: "message_mode \<Rightarrow> hstate \<Rightarrow> string" where
  "message_body mode st = msg_body (message_for_mode mode st)"

lemma finish_body_cases:
  assumes "mode \<noteq> Mode_unknown"
  shows "finish_body mode st = (if bp_finished (hp_state (hs_parser st))
    then (Inr True, set_hp_state (\<lambda>_. body_parsing_init) (upd_parser (body_buf_update seg_reset)
      (upd_message mode (msg_body_update (\<lambda>_. seg_data (body_buf (hs_parser st)))) (msg_body_update (\<lambda>_. seg_data (body_buf (hs_parser st)))) st)))
    else (Inr False, st))"
  by (simp add: finish_body_def sbind_def upd_message_id[OF assms] upd_message_comp comp_def id_def Let_def)

lemma message_body_upd: "message_body mode (set_hp_state g (upd_parser h (upd_message mode (msg_body_update (\<lambda>_. b)) (msg_body_update (\<lambda>_. b)) st))) = b"
  by (simp add: message_body_def message_for_mode_def set_hp_state_def upd_parser_def upd_message_def upd_request_def upd_response_def
    exchange_response_def set_response_def Let_def message.defs split: prod.splits option.splits)


text \<open>The check of a chunk's size adds two 64-bit numbers: a size that makes the sum wrap around is let
  through, and the program ends with an exception out of a \<^verbatim>\<open>noexcept\<close> function instead of refusing the body.\<close>

theorem chunk_size_wraps:
  assumes "idle p" "bp_expected_size b = 0" "\<not> bp_next_chunk_size_known b" "0 < bp_read b" "bp_read b \<le> limit"
  shows "fst (read_one_chunk limit \<lparr>hs_exchange = e, hs_parser = p\<lparr>hp_state := b\<rparr>, hs_input = istream_of (''ffffffffffffffff'' @ CRLF @ rest)\<rparr>)
    = Inl (Exception Length_error)"
proof -
  let ?st = "\<lparr>hs_exchange = e, hs_parser = p\<lparr>hp_state := b\<rparr>, hs_input = istream_of (''ffffffffffffffff'' @ CRLF @ rest)\<rparr>"
  have d: "digits_value 16 ''ffffffffffffffff'' = 2 ^ 64 - 1"
    by (simp add: digits_value_def digit_value_def)
  have "parse_hexadecimal ''ffffffffffffffff'' = Inr (of_nat (2 ^ 64 - 1))"
    unfolding parse_hexadecimal_def by (subst stream_read_hex_digits) (simp_all add: d is_hex_digit_def digit_value_def)
  then have h: "parse_hexadecimal ''ffffffffffffffff'' = Inr (- 1)" by simp
  have "bp_read b - 1 \<le> limit" using assms(4,5) by (simp add: word_le_nat_alt word_less_nat_alt unat_sub_if' unat_minus_one)
  then have lim: "\<not> limit < bp_read b + - 1" by simp
  from assms(1) have p: "chunk_idle (p\<lparr>hp_state := b\<rparr>)" "is_fresh (body_buf p)" by (simp_all add: idle_defs)
  obtain s where c: "read_chunk_header limit ?st = (Inr True, ?st\<lparr>hs_input := istream_of rest, hs_parser := (p\<lparr>hp_state := b\<rparr>)
      \<lparr>chunk_header_buf := s, hp_state := b\<lparr>bp_expected_size := - 1, bp_next_chunk_size_known := True\<rparr>\<rparr>\<rparr>)" (is "_ = (_, ?st1)")
    using chunk_header_text[OF refl, of ?st "''ffffffffffffffff''" rest "- 1" limit] p(1) assms(3) h lim by auto
  have m: "(2::nat) ^ 63 \<le> unat (- 1 :: u64)" by (simp add: unsigned_minus_1_eq_mask mask_eq_exp_minus_1)
  have "seg_in_bytes (unat (- 1 :: u64)) (istream_of rest) (body_buf p) = None"
    using p(2) m by (intro in_bytes_huge) (simp_all add: is_fresh_def)
  then have "read_body_bytes ?st1 = (Inl (Exception Length_error), ?st1)"
    by (simp add: read_body_bytes_def on_segment_def)
  with c show ?thesis by (simp add: read_one_chunk_def sbind_def)
qed


text \<open>A body without a length is taken to be complete after the first piece of it, whatever follows on
  the connection, and loses its white space.\<close>

theorem unsized_body_cut_short:
  assumes "bp_type (hp_state (hs_parser st)) = Body_all" "bp_mode (hp_state (hs_parser st)) \<noteq> Mode_unknown" "mode \<noteq> Mode_unknown"
    "is_fresh (body_buf (hs_parser st))" "seg_last (body_buf (hs_parser st)) = 0" "bp_read (hp_state (hs_parser st)) = 0"
    "hs_input st = istream_of piece"
  shows "\<exists>st1. read_body lcl limit mode st = (Inr True, st1) \<and> message_body mode st1 = filter (\<lambda>c. \<not> is_space c) piece
    \<and> hp_state (hs_parser st1) = body_parsing_init"
proof -
  let ?i = "\<lparr>in_data = [], in_eof = True, in_fail = True\<rparr> :: char istream"
  let ?s = "\<lparr>seg_complete = False, seg_data = filter (\<lambda>c. \<not> is_space c) piece, seg_pending = [], seg_last = 0\<rparr>"
  obtain st2 where r: "read_until_end limit st = (Inr (), st2)" and st2: "body_buf (hs_parser st2) = ?s" "bp_finished (hp_state (hs_parser st2))"
    using assms(4-7) by (cases "body_buf (hs_parser st)") (simp add: read_until_end_def seg_in_all_def in_iterate_def istream_of_def
      in_good_def is_fresh_def seg_mark_as_incomplete_def set_hp_state_def Let_def)
  then show ?thesis
    using assms(1-3) by (simp add: read_body_def start_body_def sbind_def finish_body_cases[OF assms(3)] message_body_upd)
      (simp add: set_hp_state_def)
qed

theorem unsized_body_cut_short_witness:
  "\<exists>st1. read_body signed_reader 100 Mode_response \<lparr>hs_exchange = exchange_new M_GET Origin_form, hs_parser = http_parser_new
      \<lparr>hp_state := body_parsing_init\<lparr>bp_mode := Mode_response, bp_type := Body_all\<rparr>\<rparr>, hs_input = istream_of ''a b''\<rparr> = (Inr True, st1)
    \<and> message_body Mode_response st1 = filter (\<lambda>c. \<not> is_space c) ''a b'' \<and> hp_state (hs_parser st1) = body_parsing_init"
  by (rule unsized_body_cut_short) (simp_all add: body_parsing_init_def http_parser_new_def seg_new_def is_fresh_def)

definition reading_two :: hstate where
  "reading_two = \<lparr>hs_exchange = exchange_new M_POST Origin_form, hs_parser = http_parser_new\<lparr>hp_state :=
     \<lparr>bp_mode = Mode_request, bp_type = Body_given, bp_expected_size = 2, bp_read = 0, bp_finished = False,
      bp_next_chunk_size_known = False\<rparr>\<rparr>, hs_input = istream_of ''hi!''\<rparr>"


theorem chunk_size_wraps_witness:
  "fst (read_one_chunk 5 \<lparr>hs_exchange = exchange_new M_POST Origin_form, hs_parser = http_parser_new\<lparr>hp_state :=
      body_parsing_init\<lparr>bp_read := 1\<rparr>\<rparr>, hs_input = istream_of (''ffffffffffffffff'' @ CRLF @ ''x'')\<rparr>)
    = Inl (Exception Length_error)"
  by (rule chunk_size_wraps) (simp_all add: body_parsing_init_def)

end
