(* ===== verification/Uuid.thy ===== *)
theory Uuid
  imports Bytes
begin

text \<open>
  util/uuid.{hpp,cpp}: the identifiers of connections (RFC 4122) and the factory that makes them.

  \<^item> the machine is little-endian: \<open>uuid_memory\<close> are the bytes of the struct, and \<^verbatim>\<open>htonl\<close> and \<^verbatim>\<open>htons\<close> swap.
  \<^item> the factory's static members are the record \<open>uuid_factory\<close>; a \<^verbatim>\<open>call_once\<close> whose function has not run is \<open>None\<close> or
    \<open>False\<close>, and stays so when the function throws.  The two files are its members \<open>uf_node_file\<close> and \<open>uf_state_file\<close>.
  \<^item> what the clock, the files, OpenSSL and the random generator answer to one call is \<open>uuid_env\<close>; \<open>ue_clock\<close> are the nanoseconds
    since 1970 (not before it) that the clock shows each time it is read.  An error is the message of the \<^verbatim>\<open>uuid_exception\<close>.
\<close>

section \<open>Identifiers\<close>

datatype node_id = Node_id u8 u8 u8 u8 u8 u8

fun node_bytes :: "node_id \<Rightarrow> u8 list" where
  "node_bytes (Node_id a b c d e f) = [a, b, c, d, e, f]"

definition node_of_bytes :: "u8 list \<Rightarrow> node_id" where
  "node_of_bytes bs = Node_id (bs ! 0) (bs ! 1) (bs ! 2) (bs ! 3) (bs ! 4) (bs ! 5)"

datatype uuid_t = Uuid (uu_time_low: u32) (uu_time_mid: u16) (uu_time_hi_and_version: u16)
  (uu_clock_seq_hi_and_reserved: u8) (uu_clock_seq_low: u8) (uu_node: node_id)

definition node_hi :: "uuid_t \<Rightarrow> u32" where
  "node_hi u = (let n = node_bytes (uu_node u) in
     push_bit 24 (ucast (n ! 0)) OR push_bit 16 (ucast (n ! 1)) OR push_bit 8 (ucast (n ! 2)) OR ucast (n ! 3))"

definition node_lo :: "uuid_t \<Rightarrow> u16" where
  "node_lo u = (let n = node_bytes (uu_node u) in push_bit 8 (ucast (n ! 4)) OR ucast (n ! 5))"

text \<open>The order: the fields one after the other, then the bytes of the node.\<close>

datatype strong_ordering = Ord_less | Ord_equal | Ord_greater

definition three_way :: "nat \<Rightarrow> nat \<Rightarrow> strong_ordering" where
  "three_way a b = (if a < b then Ord_less else if a = b then Ord_equal else Ord_greater)"

fun compare_parts :: "nat list \<Rightarrow> nat list \<Rightarrow> strong_ordering" where
  "compare_parts (a # as) (b # bs) = (if three_way a b \<noteq> Ord_equal then three_way a b else compare_parts as bs)"
| "compare_parts as bs = Ord_equal"

definition time_parts :: "uuid_t \<Rightarrow> nat list" where
  "time_parts u = [unat (uu_time_low u), unat (uu_time_mid u), unat (uu_time_hi_and_version u), unat (uu_clock_seq_hi_and_reserved u),
     unat (uu_clock_seq_low u)]"

definition node_parts :: "uuid_t \<Rightarrow> nat list" where
  "node_parts u = map unat (node_bytes (uu_node u))"

definition uuid_compare :: "uuid_t \<Rightarrow> uuid_t \<Rightarrow> strong_ordering" where
  "uuid_compare a b = (let ret = compare_parts (time_parts a) (time_parts b) in
     if ret \<noteq> Ord_equal then ret else compare_parts (node_parts a) (node_parts b))"

definition set_width :: "nat \<Rightarrow> string \<Rightarrow> string" where
  "set_width w s = replicate (w - length s) CHR ''0'' @ s"

definition hex_field :: "nat \<Rightarrow> nat \<Rightarrow> string" where
  "hex_field w n = set_width w (hexadecimal n)"

definition uuid_to_string :: "uuid_t \<Rightarrow> string" where
  "uuid_to_string u = hex_field 8 (unat (uu_time_low u)) @ ''-'' @ hex_field 4 (unat (uu_time_mid u)) @ ''-''
     @ hex_field 4 (unat (uu_time_hi_and_version u)) @ ''-'' @ hex_field 2 (unat (uu_clock_seq_hi_and_reserved u))
     @ hex_field 2 (unat (uu_clock_seq_low u)) @ ''-'' @ concat (map (\<lambda>b. hex_field 2 (unat b)) (node_bytes (uu_node u)))"

text \<open>\<open>std_hash\<close> is the standard library's hash of an integer.\<close>

fun hash_combine :: "u64 \<Rightarrow> u64 list \<Rightarrow> u64" where
  "hash_combine seed [] = seed"
| "hash_combine seed (h # hs) = hash_combine (seed XOR (h + 0x9e3779b9 + push_bit 6 seed + drop_bit 2 seed)) hs"

definition uuid_hash :: "(nat \<Rightarrow> u64) \<Rightarrow> uuid_t \<Rightarrow> u64" where
  "uuid_hash std_hash u = hash_combine 0 (map std_hash (time_parts u @ [unat (node_hi u), unat (node_lo u)]))"

definition uuid_ns_dns :: uuid_t where
  "uuid_ns_dns = Uuid 0x6ba7b810 0x9dad 0x11d1 0x80 0xb4 (Node_id 0x00 0xc0 0x4f 0xd4 0x30 0xc8)"

definition uuid_ns_url :: uuid_t where
  "uuid_ns_url = Uuid 0x6ba7b811 0x9dad 0x11d1 0x80 0xb4 (Node_id 0x00 0xc0 0x4f 0xd4 0x30 0xc8)"

definition uuid_ns_oid :: uuid_t where
  "uuid_ns_oid = Uuid 0x6ba7b812 0x9dad 0x11d1 0x80 0xb4 (Node_id 0x00 0xc0 0x4f 0xd4 0x30 0xc8)"

definition uuid_ns_x500 :: uuid_t where
  "uuid_ns_x500 = Uuid 0x6ba7b814 0x9dad 0x11d1 0x80 0xb4 (Node_id 0x00 0xc0 0x4f 0xd4 0x30 0xc8)"

section \<open>Memory\<close>

definition little_endian :: "nat \<Rightarrow> u64 \<Rightarrow> u8 list" where
  "little_endian n x = rev (insert_bytes n x)"

definition from_little_endian :: "u8 list \<Rightarrow> u64" where
  "from_little_endian bs = concat_bytes (rev bs)"

definition uuid_memory :: "uuid_t \<Rightarrow> u8 list" where
  "uuid_memory u = little_endian 4 (ucast (uu_time_low u)) @ little_endian 2 (ucast (uu_time_mid u))
     @ little_endian 2 (ucast (uu_time_hi_and_version u)) @ [uu_clock_seq_hi_and_reserved u, uu_clock_seq_low u] @ node_bytes (uu_node u)"

definition uuid_of_memory :: "u8 list \<Rightarrow> uuid_t" where
  "uuid_of_memory bs = Uuid (ucast (from_little_endian (take 4 bs))) (ucast (from_little_endian (take 2 (drop 4 bs))))
     (ucast (from_little_endian (take 2 (drop 6 bs)))) (bs ! 8) (bs ! 9) (node_of_bytes (drop 10 bs))"

definition htonl :: "u32 \<Rightarrow> u32" where
  "htonl x = ucast (from_little_endian (insert_bytes 4 (ucast x)))"

definition htons :: "u16 \<Rightarrow> u16" where
  "htons x = ucast (from_little_endian (insert_bytes 2 (ucast x)))"

text \<open>The same swaps from and to the order of the network.\<close>

definition swap_fields :: "uuid_t \<Rightarrow> uuid_t" where
  "swap_fields u = Uuid (htonl (uu_time_low u)) (htons (uu_time_mid u)) (htons (uu_time_hi_and_version u))
     (uu_clock_seq_hi_and_reserved u) (uu_clock_seq_low u) (uu_node u)"

section \<open>Identifiers from a hash and from random bytes\<close>

definition stamp_version :: "u16 \<Rightarrow> uuid_t \<Rightarrow> uuid_t" where
  "stamp_version version u = Uuid (uu_time_low u) (uu_time_mid u) ((uu_time_hi_and_version u AND 0x0FFF) OR push_bit 12 version)
     ((uu_clock_seq_hi_and_reserved u AND 0x3F) OR 0x80) (uu_clock_seq_low u) (uu_node u)"

definition format_uuid_v3or5 :: "u8 list \<Rightarrow> u16 \<Rightarrow> uuid_t" where
  "format_uuid_v3or5 hash version = stamp_version version (swap_fields (uuid_of_memory hash))"

text \<open>What OpenSSL answers about a digest: its context is the data it was given.\<close>

record digest_api =
  dg_init :: bool
  dg_update :: "u8 list \<Rightarrow> u8 list \<Rightarrow> bool"
  dg_final :: "u8 list \<Rightarrow> u8 list option"

definition digest_name :: "digest_api \<Rightarrow> string \<Rightarrow> nat \<Rightarrow> string \<Rightarrow> uuid_t \<Rightarrow> string \<Rightarrow> (string, u8 list) res" where
  "digest_name api algorithm hash_size bits namespace_id name = (let net_nsid = uuid_memory (swap_fields namespace_id); text = map to_byte name in
     if \<not> dg_init api then Inl (Error (''Failed to initialize '' @ algorithm @ '' digest context''))
     else if \<not> dg_update api [] net_nsid then Inl (Error (''Failed to hash namespace id into '' @ algorithm @ '' digest context''))
     else if \<not> dg_update api net_nsid text then Inl (Error (''Failed to hash name into '' @ algorithm @ '' digest context''))
     else case dg_final api (net_nsid @ text) of
       None \<Rightarrow> Inl (Error (''Failed to finalize '' @ algorithm @ '' digest context''))
     | Some hashed \<Rightarrow> if length hashed \<noteq> hash_size then Inl (Error (algorithm @ '' hash algorithm did not produce expected '' @ bits @ '' bits''))
         else Inr (take 16 hashed))"

definition create_md5_from_name :: "digest_api \<Rightarrow> uuid_t \<Rightarrow> string \<Rightarrow> (string, uuid_t) res" where
  "create_md5_from_name api namespace_id name =
     rbind (digest_name api ''MD5'' 16 ''128'' namespace_id name) (\<lambda>hash. Inr (format_uuid_v3or5 hash 3))"

definition create_sha1_from_name :: "digest_api \<Rightarrow> uuid_t \<Rightarrow> string \<Rightarrow> (string, uuid_t) res" where
  "create_sha1_from_name api namespace_id name =
     rbind (digest_name api ''SHA1'' 20 ''160'' namespace_id name) (\<lambda>hash. Inr (format_uuid_v3or5 hash 5))"

section \<open>The factory\<close>

record uuid_state =
  st_timestamp :: u64
  st_node :: node_id
  st_clock_sequence :: u16

record uuid_factory =
  uf_saved_node :: "node_id option"
  uf_state :: uuid_state
  uf_state_read :: bool
  uf_next_save :: "u64 option"
  uf_time :: "(u64 \<times> u16) option"
  uf_random_ready :: bool
  uf_node_file :: "u8 list option"
  uf_state_file :: "u8 list option"

record uuid_env =
  ue_clock :: "int list"
  ue_node_opens :: bool
  ue_node_writes :: bool
  ue_random_info :: "(string, u8 list) res"
  ue_state_opens :: bool
  ue_state_writes :: bool
  ue_random_init :: bool
  ue_random16 :: "u16 option"
  ue_random128 :: "u8 list option"

type_synonym 'a factory_op = "uuid_env \<Rightarrow> uuid_factory \<Rightarrow> (string, 'a) res \<times> uuid_factory"

definition uuids_per_tick :: u16 where
  "uuids_per_tick = 1024"

definition get_system_time :: "int \<Rightarrow> u64" where
  "get_system_time now = of_int ((now + 0x01B21DD213814000) div 100)"

text \<open>The loop over the readings of the clock, which ends when the time or the count allows another identifier.\<close>

fun current_time_loop :: "u64 list \<Rightarrow> u64 \<Rightarrow> u16 \<Rightarrow> (u64 \<times> u64 \<times> u16) option" where
  "current_time_loop [] time_last ticks = None"
| "current_time_loop (now # readings) time_last ticks =
     (if time_last \<noteq> now then Some (now, now, 0)
      else if ticks < uuids_per_tick then Some (now + ucast (ticks + 1), time_last, ticks + 1)
      else current_time_loop readings time_last ticks)"

definition get_current_time :: "u64 factory_op" where
  "get_current_time env f = (
     let readings = map get_system_time (ue_clock env);
         (time_last, ticks, rest) = (case uf_time f of Some (t, n) \<Rightarrow> (t, n, readings) | None \<Rightarrow> (hd readings, uuids_per_tick, tl readings)) in
     if uf_time f = None \<and> readings = [] then (Inl Diverges, f)
     else case current_time_loop rest time_last ticks of
       None \<Rightarrow> (Inl Diverges, f\<lparr>uf_time := Some (time_last, ticks)\<rparr>)
     | Some (t, time_last1, ticks1) \<Rightarrow> (Inr t, f\<lparr>uf_time := Some (time_last1, ticks1)\<rparr>))"

definition make_node :: "node_id factory_op" where
  "make_node env f = (if \<not> ue_node_opens env then (Inl (Error ''Failed to open node identifier file for writing''), f)
     else case ue_random_info env of
       Inl e \<Rightarrow> (Inl e, f\<lparr>uf_node_file := Some []\<rparr>)
     | Inr seed \<Rightarrow> let n = node_of_bytes (seed[0 := seed ! 0 OR 0x80]) in
         if \<not> ue_node_writes env then (Inl (Error ''Failed to write to node identifier file''), f\<lparr>uf_node_file := Some []\<rparr>)
         else (Inr n, f\<lparr>uf_saved_node := Some n, uf_node_file := Some (node_bytes n)\<rparr>))"

definition get_ieee_node_identifier :: "node_id factory_op" where
  "get_ieee_node_identifier env f = (case uf_saved_node f of
     Some n \<Rightarrow> (Inr n, f)
   | None \<Rightarrow> (case uf_node_file f of
       Some bytes \<Rightarrow> if 6 \<le> length bytes then (Inr (node_of_bytes bytes), f\<lparr>uf_saved_node := Some (node_of_bytes bytes)\<rparr>) else make_node env f
     | None \<Rightarrow> make_node env f))"

definition state_bytes :: "uuid_state \<Rightarrow> u8 list" where
  "state_bytes s = little_endian 8 (st_timestamp s) @ node_bytes (st_node s) @ little_endian 2 (ucast (st_clock_sequence s))"

definition state_of_bytes :: "u8 list \<Rightarrow> uuid_state" where
  "state_of_bytes bs = \<lparr>st_timestamp = from_little_endian (take 8 bs), st_node = node_of_bytes (drop 8 bs),
     st_clock_sequence = ucast (from_little_endian (take 2 (drop 14 bs)))\<rparr>"

text \<open>A file that is too short is read into the first bytes of the state before the exception.\<close>

definition read_state :: "(bool \<times> uuid_state) factory_op" where
  "read_state env f = (if uf_state_read f then (Inr (True, uf_state f), f)
     else case uf_state_file f of
       None \<Rightarrow> (Inr (False, uf_state f), f\<lparr>uf_state_read := True\<rparr>)
     | Some bytes \<Rightarrow> let s = state_of_bytes (bytes @ drop (length bytes) (state_bytes (uf_state f))) in
         if length bytes < 16 then (Inl (Error ''Faield to read UUID factory state from file''), f\<lparr>uf_state := s\<rparr>)
         else (Inr (True, s), f\<lparr>uf_state := s, uf_state_read := True\<rparr>))"

definition write_state :: "uuid_state \<Rightarrow> uuid_env \<Rightarrow> uuid_factory \<Rightarrow> uuid_factory" where
  "write_state s env f = (let next_save = (case uf_next_save f of None \<Rightarrow> st_timestamp s | Some t \<Rightarrow> t) in
     if st_timestamp s \<ge> next_save
     then f\<lparr>uf_state := s, uf_next_save := Some (st_timestamp s + 100000000),
       uf_state_file := (if \<not> ue_state_opens env then uf_state_file f else if ue_state_writes env then Some (state_bytes s) else Some [])\<rparr>
     else f\<lparr>uf_state := s, uf_next_save := Some next_save\<rparr>)"

definition initialize_random_number_generation :: "unit factory_op" where
  "initialize_random_number_generation env f = (if uf_random_ready f then (Inr (), f)
     else if ue_random_init env then (Inr (), f\<lparr>uf_random_ready := True\<rparr>)
     else (Inl (Error ''Failed to instantiate random number algorithm context''), f))"

definition random_number :: "u16 factory_op" where
  "random_number env = sbind (initialize_random_number_generation env) (\<lambda>_ f. case ue_random16 env of
     None \<Rightarrow> (Inl (Error ''Failed to generate random number''), f) | Some x \<Rightarrow> (Inr x, f))"

definition format_uuid_v1 :: "uuid_state \<Rightarrow> uuid_t" where
  "format_uuid_v1 s = Uuid (ucast (st_timestamp s AND 0xFFFFFFFF)) (ucast (drop_bit 32 (st_timestamp s) AND 0xFFFF))
     (ucast (drop_bit 48 (st_timestamp s) AND 0x0FFF) OR push_bit 12 1)
     (ucast (drop_bit 8 (st_clock_sequence s AND 0x3F00)) OR 0x80) (ucast (st_clock_sequence s AND 0xFF)) (st_node s)"

definition next_sequence :: "u64 \<Rightarrow> node_id \<Rightarrow> bool \<times> uuid_state \<Rightarrow> u16 factory_op" where
  "next_sequence timestamp node = (\<lambda>(valid_state, state) env.
     if \<not> valid_state \<or> node \<noteq> st_node state then random_number env
     else sreturn (if timestamp < st_timestamp state then st_clock_sequence state + 1 else st_clock_sequence state))"

definition create_uuid :: "uuid_t factory_op" where
  "create_uuid env = sbind (get_current_time env) (\<lambda>timestamp.
     sbind (get_ieee_node_identifier env) (\<lambda>node.
     sbind (read_state env) (\<lambda>previous.
     sbind (next_sequence timestamp node previous env) (\<lambda>clock_sequence f.
       let f1 = write_state \<lparr>st_timestamp = timestamp, st_node = node, st_clock_sequence = clock_sequence\<rparr> env f in
       (Inr (format_uuid_v1 (uf_state f1)), f1)))))"

definition create_random :: "uuid_t factory_op" where
  "create_random env = sbind (initialize_random_number_generation env) (\<lambda>_ f. case ue_random128 env of
     None \<Rightarrow> (Inl (Error ''Failed to generate random number''), f)
   | Some bytes \<Rightarrow> (Inr (stamp_version 4 (uuid_of_memory bytes)), f))"

end
