(* ===== verification/Connection.thy ===== *)
theory Connection
  imports Message Uuid
begin

text \<open>
  connection/: timeout_service, base_connection, client_connection, server_connection and
  connection_flow.

  The sockets, the timer and OpenSSL are library code: their results (bytes received, error codes,
  resolved endpoints, handshake details) are arguments.  An asynchronous operation is started by one
  function, which returns what was asked of the library (\<open>io_op\<close>, \<open>connect_step\<close>), and ended by the
  callback with the library's result; the callback \<^verbatim>\<open>posts\<close> the caller's handler, which the caller's
  model runs with the same error and byte count.  The two stream buffers are their contents.
\<close>

section \<open>Timeouts\<close>

text \<open>
  \<open>tm_wait\<close>: an \<^verbatim>\<open>async_wait\<close> is outstanding; \<open>tm_fired\<close>: waits that have ended without an error and
  whose callback has not run yet (they can no longer be cancelled).
\<close>

record timer =
  tm_expiry :: "nat option"
  tm_wait :: bool
  tm_fired :: nat

definition timer_new :: timer where
  "timer_new = \<lparr>tm_expiry = None, tm_wait = False, tm_fired = 0\<rparr>"

text \<open>Changing the expiry cancels the outstanding wait.\<close>

definition reset_timer :: "timer \<Rightarrow> timer" where
  "reset_timer t = t\<lparr>tm_expiry := None, tm_wait := False\<rparr>"

definition timer_set_timeout :: "nat \<Rightarrow> timer \<Rightarrow> timer" where
  "timer_set_timeout ms t = t\<lparr>tm_expiry := Some ms, tm_wait := True\<rparr>"

definition cancel_timeout :: "timer \<Rightarrow> timer" where
  "cancel_timeout t = reset_timer (t\<lparr>tm_wait := False\<rparr>)"

text \<open>What the library does when the time has come.\<close>

definition timer_expire :: "timer \<Rightarrow> timer" where
  "timer_expire t = (if tm_wait t \<and> tm_expiry t \<noteq> None then t\<lparr>tm_wait := False, tm_fired := tm_fired t + 1\<rparr> else t)"

text \<open>\<^verbatim>\<open>timeout_service::on_timeout\<close>: the timer behind it and whether the handler is called.\<close>

definition timer_on_timeout :: "boost_error \<Rightarrow> timer \<Rightarrow> timer \<times> bool" where
  "timer_on_timeout e t = (if e \<noteq> Boost_operation_aborted then (reset_timer t, True) else (t, False))"

section \<open>One connection\<close>

datatype io_mode = Io_regular | Io_tunnel | Io_no_timeout

datatype operation_state = Op_free | Op_pending

datatype channel = Plain_socket | Secure_socket

datatype io_op =
  Async_read_some channel nat
| Async_read_until channel string
| Async_write channel

record conn =
  cn_input :: string
  cn_output :: string
  cn_open :: bool
  cn_timer :: timer
  cn_mode :: io_mode
  cn_connected :: bool
  cn_tls_established :: bool
  cn_has_secure_socket :: bool
  cn_alpn :: string
  cn_read_state :: operation_state
  cn_write_state :: operation_state

record timeouts =
  opt_timeout :: nat
  opt_tunnel_timeout :: nat

definition default_buffer_size :: nat where
  "default_buffer_size = 8192"

definition conn_new :: conn where
  "conn_new = \<lparr>cn_input = [], cn_output = [], cn_open = False, cn_timer = timer_new, cn_mode = Io_regular,
     cn_connected = False, cn_tls_established = False, cn_has_secure_socket = False, cn_alpn = [],
     cn_read_state = Op_free, cn_write_state = Op_free\<rparr>"

definition upd_timer :: "(timer \<Rightarrow> timer) \<Rightarrow> 'c conn_scheme \<Rightarrow> 'c conn_scheme" where
  "upd_timer f c = c\<lparr>cn_timer := f (cn_timer c)\<rparr>"

definition set_mode :: "io_mode \<Rightarrow> 'c conn_scheme \<Rightarrow> 'c conn_scheme" where
  "set_mode m c = c\<lparr>cn_mode := m\<rparr>"

definition secured :: "'c conn_scheme \<Rightarrow> bool" where
  "secured c \<longleftrightarrow> cn_tls_established c"

definition set_connected :: "bool \<Rightarrow> 'c conn_scheme \<Rightarrow> 'c conn_scheme" where
  "set_connected b c = c\<lparr>cn_connected := b\<rparr>"

definition can_be_shutdown :: "'c conn_scheme \<Rightarrow> bool" where
  "can_be_shutdown c \<longleftrightarrow> cn_open c \<and> cn_connected c"

definition operations_pending :: "'c conn_scheme \<Rightarrow> bool" where
  "operations_pending c \<longleftrightarrow> cn_read_state c = Op_pending \<or> cn_write_state c = Op_pending"

definition set_reading :: "'c conn_scheme \<Rightarrow> 'c conn_scheme" where
  "set_reading c = c\<lparr>cn_read_state := Op_pending\<rparr>"

definition finish_reading :: "'c conn_scheme \<Rightarrow> 'c conn_scheme" where
  "finish_reading c = c\<lparr>cn_read_state := Op_free\<rparr>"

definition set_writing :: "'c conn_scheme \<Rightarrow> 'c conn_scheme" where
  "set_writing c = c\<lparr>cn_write_state := Op_pending\<rparr>"

definition finish_writing :: "'c conn_scheme \<Rightarrow> 'c conn_scheme" where
  "finish_writing c = c\<lparr>cn_write_state := Op_free\<rparr>"

definition conn_set_timeout :: "timeouts \<Rightarrow> 'c conn_scheme \<Rightarrow> 'c conn_scheme" where
  "conn_set_timeout opts c = (case cn_mode c of
     Io_regular \<Rightarrow> upd_timer (timer_set_timeout (opt_timeout opts)) c
   | Io_tunnel \<Rightarrow> upd_timer (timer_set_timeout (opt_tunnel_timeout opts)) c
   | Io_no_timeout \<Rightarrow> c)"

definition conn_channel :: "'c conn_scheme \<Rightarrow> channel" where
  "conn_channel c = (if cn_tls_established c then Secure_socket else Plain_socket)"

text \<open>A peek at the socket: \<open>peek\<close> is the error it gives.\<close>

definition has_been_closed :: "boost_error \<Rightarrow> bool" where
  "has_been_closed peek \<longleftrightarrow> peek = Boost_eof"

section \<open>Reading and writing\<close>

text \<open>The synchronous operations; \<open>got\<close> and \<open>n\<close> are what the library read and wrote.\<close>

definition conn_read :: "timeouts \<Rightarrow> string \<Rightarrow> 'c conn_scheme \<Rightarrow> nat \<times> 'c conn_scheme" where
  "conn_read opts got c = (length got, finish_reading (upd_timer cancel_timeout
     ((conn_set_timeout opts (set_reading c))\<lparr>cn_input := cn_input c @ got\<rparr>)))"

text \<open>
  \<^verbatim>\<open>read_available\<close> takes the plain socket on an established TLS connection and the secure stream, which
  does not exist, on a plain one.
\<close>

definition read_available_channel :: "'c conn_scheme \<Rightarrow> channel" where
  "read_available_channel c = (if cn_tls_established c then Plain_socket else Secure_socket)"

definition read_available :: "boost_error \<Rightarrow> boost_error \<Rightarrow> string \<Rightarrow> 'c conn_scheme \<Rightarrow>
    (unit, nat \<times> boost_error \<times> 'c conn_scheme) res" where
  "read_available would_block e got c =
     (if read_available_channel c = Secure_socket \<and> \<not> cn_has_secure_socket c then Inl Undefined
      else Inr (length got, if e = would_block then Boost_success else e,
        finish_reading ((set_reading c)\<lparr>cn_input := cn_input c @ got\<rparr>)))"

definition read_async :: "timeouts \<Rightarrow> nat \<Rightarrow> 'c conn_scheme \<Rightarrow> io_op \<times> 'c conn_scheme" where
  "read_async opts buffer_size c = (Async_read_some (conn_channel c) buffer_size, conn_set_timeout opts (set_reading c))"

definition read_until_async :: "timeouts \<Rightarrow> string \<Rightarrow> 'c conn_scheme \<Rightarrow> io_op \<times> 'c conn_scheme" where
  "read_until_async opts delim c = (Async_read_until (conn_channel c) delim, conn_set_timeout opts (set_reading c))"

definition conn_on_read :: "boost_error \<Rightarrow> 'c conn_scheme \<Rightarrow> 'c conn_scheme" where
  "conn_on_read e c = (let c1 = upd_timer cancel_timeout (finish_reading c) in
     if e \<noteq> Boost_success then set_connected False c1 else c1)"

text \<open>\<open>got\<close>: the bytes the library put into the prepared buffer.\<close>

definition on_read_need_to_commit :: "string \<Rightarrow> boost_error \<Rightarrow> 'c conn_scheme \<Rightarrow> 'c conn_scheme" where
  "on_read_need_to_commit got e c = conn_on_read e (c\<lparr>cn_input := cn_input c @ got\<rparr>)"

definition conn_write :: "timeouts \<Rightarrow> nat \<Rightarrow> 'c conn_scheme \<Rightarrow> nat \<times> 'c conn_scheme" where
  "conn_write opts n c = (n, finish_writing (upd_timer cancel_timeout
     ((conn_set_timeout opts (set_writing c))\<lparr>cn_output := drop n (cn_output c)\<rparr>)))"

definition write_async :: "timeouts \<Rightarrow> 'c conn_scheme \<Rightarrow> io_op \<times> 'c conn_scheme" where
  "write_async opts c = (Async_write (conn_channel c), conn_set_timeout opts (set_writing c))"

definition write_untimed_async :: "'c conn_scheme \<Rightarrow> io_op \<times> 'c conn_scheme" where
  "write_untimed_async c = (Async_write (conn_channel c), set_writing c)"

definition conn_on_write :: "bool \<Rightarrow> boost_error \<Rightarrow> 'c conn_scheme \<Rightarrow> 'c conn_scheme" where
  "conn_on_write untimed e c = (let c1 = finish_writing c; c2 = (if untimed then c1 else upd_timer cancel_timeout c1) in
     if e \<noteq> Boost_success then set_connected False c2 else c2)"

text \<open>\<^verbatim>\<open>operator<<\<close> appends to the output buffer.\<close>

definition conn_put :: "string \<Rightarrow> 'c conn_scheme \<Rightarrow> 'c conn_scheme" where
  "conn_put text c = c\<lparr>cn_output := cn_output c @ text\<rparr>"

section \<open>Shutting down\<close>

definition conn_shutdown :: "'c conn_scheme \<Rightarrow> 'c conn_scheme" where
  "conn_shutdown c = set_connected False c"

definition conn_close :: "'c conn_scheme \<Rightarrow> 'c conn_scheme" where
  "conn_close c = c\<lparr>cn_open := False\<rparr>"

definition conn_disconnect :: "'c conn_scheme \<Rightarrow> 'c conn_scheme" where
  "conn_disconnect c = (let c1 = upd_timer cancel_timeout c in
     conn_close (if can_be_shutdown c1 then conn_shutdown c1 else c1))"

definition conn_on_timeout :: "'c conn_scheme \<Rightarrow> 'c conn_scheme" where
  "conn_on_timeout c = (let c1 = upd_timer cancel_timeout c; c2 = (if can_be_shutdown c1 then conn_shutdown c1 else c1)
     in finish_writing (finish_reading c2))"


section \<open>TLS methods\<close>

text \<open>tls/openssl/ssl_method.{hpp,cpp}; the map is keyed without regard to case.\<close>

datatype ssl_method = Ssl_v23 | Ssl_v2 | Ssl_v3 | Tls_v1 | Tls_v11 | Tls_v12 | Tls_v13

definition ssl_methods :: "(ssl_method \<times> string) list" where
  "ssl_methods = [(Ssl_v23, ''SSLv23''), (Ssl_v2, ''SSLv2''), (Ssl_v3, ''SSLv3''), (Tls_v1, ''TLSv1''),
     (Tls_v11, ''TLSv1.1''), (Tls_v12, ''TLSv1.2''), (Tls_v13, ''TLSv1.3'')]"

definition ssl_method_to_string :: "ssl_method \<Rightarrow> string result" where
  "ssl_method_to_string m = (case map_of ssl_methods m of None \<Rightarrow> err invalid_ssl_method | Some str \<Rightarrow> Inr str)"

definition string_to_ssl_method :: "string \<Rightarrow> ssl_method result" where
  "string_to_ssl_method str = (case find (\<lambda>(m, s). iequals s str) ssl_methods of
     None \<Rightarrow> err invalid_ssl_method | Some (m, s) \<Rightarrow> Inr m)"

section \<open>The client's connection\<close>

type_synonym certificate = nat

record client_conn = conn +
  cc_cert :: "certificate option"
  cc_sni :: string
  cc_cipher_name :: string
  cc_ssl_method :: ssl_method

text \<open>The answers of OpenSSL while the server context is set up, in the order in which it is asked.\<close>

record ssl_answers =
  sa_context :: "unit result"
  sa_private_key :: bool
  sa_certificate :: bool
  sa_chain :: "bool list"
  sa_dh :: "bool option"

definition client_establish_tls :: "ssl_answers \<Rightarrow> certificate \<Rightarrow> client_conn \<Rightarrow> unit result \<times> client_conn" where
  "client_establish_tls a cert c = (case sa_context a of
     Inl f \<Rightarrow> (Inl f, c)
   | Inr _ \<Rightarrow>
       if \<not> sa_private_key a then (err_with ssl_context_error ''Failed to set private key'', c)
       else let c1 = c\<lparr>cc_cert := Some cert\<rparr> in
         if \<not> sa_certificate a then (err_with ssl_context_error ''Failed to set client certificate'', c1)
         else if False \<in> set (sa_chain a)
         then (err_with ssl_context_error ''Failed to add certificate to client chain'', c1)
         else if sa_dh a = Some False
         then (err_with ssl_context_error ''Failed to set Diffie-Hellman parameters for client context'', c1)
         else (Inr (), c1\<lparr>cn_has_secure_socket := True\<rparr>))"

text \<open>What the finished handshake says; \<^verbatim>\<open>SSL_get_servername\<close> gives no string when the client sent none.\<close>

record ssl_details =
  sd_servername :: "string option"
  sd_alpn :: "string option"
  sd_cipher :: string
  sd_version :: string

text \<open>
  \<^verbatim>\<open>client_connection::on_handshake\<close>.  Assigning a null pointer to a string is undefined.  \<open>Inr ()\<close>
  posts the caller's handler; after an error it is never called.
\<close>

definition client_on_handshake :: "boost_error \<Rightarrow> ssl_details \<Rightarrow> client_conn \<Rightarrow> unit result \<times> client_conn" where
  "client_on_handshake e d c = (let c1 = c\<lparr>cn_input := []\<rparr> in
     if e \<noteq> Boost_success then (err downstream_handshake_failed, c1)
     else case sd_servername d of
       None \<Rightarrow> (Inl Undefined, c1)
     | Some name \<Rightarrow>
         let c2 = c1\<lparr>cc_sni := name\<rparr>;
             c3 = (case sd_alpn d of None \<Rightarrow> c2 | Some proto \<Rightarrow> c2\<lparr>cn_alpn := proto\<rparr>);
             c4 = c3\<lparr>cc_cipher_name := sd_cipher d\<rparr>
         in case string_to_ssl_method (sd_version d) of
              Inl f \<Rightarrow> (Inl f, c4)
            | Inr m \<Rightarrow> (Inr (), c4\<lparr>cc_ssl_method := m, cn_tls_established := True\<rparr>))"

text \<open>The callback: whether the handler is posted, and the connection.\<close>

definition client_handshake_done :: "boost_error \<Rightarrow> ssl_details \<Rightarrow> client_conn \<Rightarrow> (unit, bool \<times> client_conn) res" where
  "client_handshake_done e d c = (case client_on_handshake e d c of
     (Inr (), c1) \<Rightarrow> Inr (True, c1)
   | (Inl (Error _), c1) \<Rightarrow> Inr (False, set_connected False c1)
   | (Inl Undefined, c1) \<Rightarrow> Inl Undefined
   | (Inl Diverges, c1) \<Rightarrow> Inl Diverges
   | (Inl (Exception x), c1) \<Rightarrow> Inl (Exception x))"

section \<open>The server's connection\<close>

type_synonym endpoint = string

record server_conn = conn +
  sv_endpoint :: "endpoint option"
  sv_host :: string
  sv_port :: u16
  sv_cert :: "certificate option"
  sv_cert_chain :: "certificate list"

datatype connect_step =
  Connect_posted boost_error
| Resolving string string
| Connecting endpoint "endpoint list"

text \<open>\<^verbatim>\<open>boost::system::errc::host_unreachable\<close>\<close>

definition host_unreachable :: boost_error where
  "host_unreachable = Boost_other 113"

definition is_connected_to :: "string \<Rightarrow> u16 \<Rightarrow> server_conn \<Rightarrow> bool" where
  "is_connected_to host port c \<longleftrightarrow> cn_connected c \<and> sv_host c = host \<and> sv_port c = port"

definition connect_async :: "timeouts \<Rightarrow> boost_error \<Rightarrow> string \<Rightarrow> u16 \<Rightarrow> server_conn \<Rightarrow> connect_step \<times> server_conn" where
  "connect_async opts peek host port c =
     (if is_connected_to host port c \<and> \<not> has_been_closed peek then (Connect_posted Boost_success, c)
      else let c1 = (if cn_connected c then conn_disconnect c else c);
               c2 = c1\<lparr>sv_host := host, sv_port := port\<rparr>
           in (Resolving host (decimal (unat port)), conn_set_timeout opts c2))"

text \<open>\<^verbatim>\<open>socket_.async_connect\<close> opens the socket.\<close>

definition on_resolve :: "timeouts \<Rightarrow> boost_error \<Rightarrow> endpoint list \<Rightarrow> server_conn \<Rightarrow> connect_step \<times> server_conn" where
  "on_resolve opts e eps c = (let c1 = upd_timer cancel_timeout c in
     if e \<noteq> Boost_success then (Connect_posted e, c1)
     else case eps of
       [] \<Rightarrow> (Connect_posted host_unreachable, c1)
     | ep # rest \<Rightarrow> (Connecting ep rest, (conn_set_timeout opts c1)\<lparr>sv_endpoint := Some ep, cn_open := True\<rparr>))"

definition on_connect :: "timeouts \<Rightarrow> boost_error \<Rightarrow> endpoint list \<Rightarrow> server_conn \<Rightarrow> connect_step \<times> server_conn" where
  "on_connect opts e eps c = (let c1 = upd_timer cancel_timeout c in
     if e = Boost_success then (Connect_posted e, set_connected True c1)
     else case eps of
       [] \<Rightarrow> (Connect_posted e, c1)
     | ep # rest \<Rightarrow> (Connecting ep rest, (conn_set_timeout opts c1)\<lparr>sv_endpoint := Some ep, cn_open := True\<rparr>))"

definition server_establish_tls :: "unit result \<Rightarrow> bool \<Rightarrow> unit result \<Rightarrow> server_conn \<Rightarrow> unit result \<times> server_conn" where
  "server_establish_tls context set_host_name verification c = (case context of
     Inl f \<Rightarrow> (Inl f, c)
   | Inr _ \<Rightarrow>
       let c1 = c\<lparr>cn_has_secure_socket := True\<rparr> in
       if \<not> set_host_name then (err_with ssl_context_error ''Failed to set SNI extension'', c1)
       else (verification, c1))"

text \<open>The handler is always posted.\<close>

definition server_on_handshake :: "boost_error \<Rightarrow> certificate \<Rightarrow> certificate list \<Rightarrow> string option \<Rightarrow> server_conn \<Rightarrow> server_conn" where
  "server_on_handshake e cert chain proto c =
     (if e = Boost_success
      then let c1 = c\<lparr>sv_cert := Some cert, sv_cert_chain := sv_cert_chain c @ chain\<rparr>;
               c2 = (case proto of None \<Rightarrow> c1 | Some a \<Rightarrow> c1\<lparr>cn_alpn := a\<rparr>)
           in c2\<lparr>cn_tls_established := True\<rparr>
      else c)"

section \<open>The pair of connections\<close>

record flow =
  fl_id :: uuid_t
  fl_target_host :: string
  fl_target_port :: u16
  fl_intercept_tls :: bool
  fl_intercept_websocket :: bool
  fl_client :: client_conn
  fl_server :: server_conn
  fl_error :: error_state

definition flow_new :: "uuid_t \<Rightarrow> client_conn \<Rightarrow> server_conn \<Rightarrow> flow" where
  "flow_new uuid c s = \<lparr>fl_id = uuid, fl_target_host = [], fl_target_port = 0, fl_intercept_tls = False,
     fl_intercept_websocket = False, fl_client = c, fl_server = s, fl_error = error_state_init\<rparr>"

definition client_conn_new :: client_conn where
  "client_conn_new = conn.extend conn_new \<lparr>cc_cert = None, cc_sni = [], cc_cipher_name = [], cc_ssl_method = Ssl_v23\<rparr>"

definition server_conn_new :: server_conn where
  "server_conn_new = conn.extend conn_new \<lparr>sv_endpoint = None, sv_host = [], sv_port = 0, sv_cert = None, sv_cert_chain = []\<rparr>"

definition upd_client :: "(client_conn \<Rightarrow> client_conn) \<Rightarrow> flow \<Rightarrow> flow" where
  "upd_client f w = w\<lparr>fl_client := f (fl_client w)\<rparr>"

definition upd_server :: "(server_conn \<Rightarrow> server_conn) \<Rightarrow> flow \<Rightarrow> flow" where
  "upd_server f w = w\<lparr>fl_server := f (fl_server w)\<rparr>"

definition set_flow_error :: "(error_state \<Rightarrow> error_state) \<Rightarrow> flow \<Rightarrow> flow" where
  "set_flow_error f w = w\<lparr>fl_error := f (fl_error w)\<rparr>"

definition flow_set_server :: "string \<Rightarrow> u16 \<Rightarrow> flow \<Rightarrow> flow" where
  "flow_set_server host port w = (let w1 = (if cn_connected (fl_server w) then upd_server conn_disconnect w else w) in
     w1\<lparr>fl_target_host := host, fl_target_port := port\<rparr>)"

definition flow_connect_server_async :: "timeouts \<Rightarrow> boost_error \<Rightarrow> flow \<Rightarrow> connect_step \<times> flow" where
  "flow_connect_server_async opts peek w =
     (case connect_async opts peek (fl_target_host w) (fl_target_port w) (fl_server w) of
        (step, s) \<Rightarrow> (step, w\<lparr>fl_server := s\<rparr>))"

definition flow_disconnect :: "flow \<Rightarrow> flow" where
  "flow_disconnect w = upd_server conn_disconnect (upd_client conn_disconnect w)"


section \<open>Facts\<close>

lemmas conn_step_defs = upd_timer_def conn_set_timeout_def set_connected_def set_reading_def finish_reading_def
  set_writing_def finish_writing_def conn_on_read_def on_read_need_to_commit_def conn_on_write_def conn_put_def
  read_async_def read_until_async_def write_async_def write_untimed_async_def conn_channel_def

lemmas conn_end_defs = conn_disconnect_def conn_close_def conn_shutdown_def can_be_shutdown_def upd_timer_def set_connected_def

lemma disconnect_facts [simp]:
  "cn_open (conn_disconnect c) = False" "cn_input (conn_disconnect c) = cn_input c" "cn_output (conn_disconnect c) = cn_output c"
  "cn_tls_established (conn_disconnect c) = cn_tls_established c" "cn_mode (conn_disconnect c) = cn_mode c"
  "cn_connected (conn_disconnect c) = (cn_connected c \<and> \<not> cn_open c)"
  by (auto simp: conn_end_defs Let_def)

text \<open>A connection attempt with the library's answer for each endpoint.\<close>

lemma on_connect_cases:
  "on_connect opts e eps c = (if e = Boost_success then (Connect_posted e, set_connected True (upd_timer cancel_timeout c))
     else case eps of
       [] \<Rightarrow> (Connect_posted e, upd_timer cancel_timeout c)
     | ep # rest \<Rightarrow> (Connecting ep rest, (conn_set_timeout opts (upd_timer cancel_timeout c))\<lparr>sv_endpoint := Some ep, cn_open := True\<rparr>))"
  by (simp add: on_connect_def Let_def)

lemma on_connect_Connecting: "on_connect opts e eps c = (Connecting ep rest, c1) \<Longrightarrow> eps = ep # rest"
  by (auto simp: on_connect_cases split: if_splits list.splits)

function run_connect :: "timeouts \<Rightarrow> (endpoint \<Rightarrow> boost_error) \<Rightarrow> endpoint \<Rightarrow> endpoint list \<Rightarrow> server_conn \<Rightarrow> boost_error \<times> server_conn" where
  "run_connect opts answer ep rest c = (case on_connect opts (answer ep) rest c of
     (Connect_posted e, c1) \<Rightarrow> (e, c1)
   | (Resolving host port, c1) \<Rightarrow> (Boost_success, c1)
   | (Connecting ep' rest', c1) \<Rightarrow> run_connect opts answer ep' rest' c1)"
  by pat_completeness auto
termination
  by (relation "measure (\<lambda>(opts, answer, ep, rest, c). length rest)") (auto dest: on_connect_Connecting[OF sym])

declare run_connect.simps [simp del]

lemma run_connect_step:
  "run_connect opts answer ep rest c =
     (if answer ep = Boost_success then (Boost_success, set_connected True (upd_timer cancel_timeout c))
      else case rest of
        [] \<Rightarrow> (answer ep, upd_timer cancel_timeout c)
      | ep' # rest' \<Rightarrow> run_connect opts answer ep' rest'
          ((conn_set_timeout opts (upd_timer cancel_timeout c))\<lparr>sv_endpoint := Some ep', cn_open := True\<rparr>))"
  by (subst run_connect.simps) (auto simp: on_connect_cases split: list.split)

lemma conn_set_timeout_frame [simp]:
  "cn_connected (conn_set_timeout opts c) = cn_connected c" "cn_tls_established (conn_set_timeout opts c) = cn_tls_established c"
  "cn_input (conn_set_timeout opts c) = cn_input c" "cn_output (conn_set_timeout opts c) = cn_output c"
  "cn_open (conn_set_timeout opts c) = cn_open c"
  by (auto simp: conn_set_timeout_def upd_timer_def split: io_mode.split)

lemma server_set_timeout_frame [simp]: "sv_host (conn_set_timeout opts c) = sv_host c"
  "sv_endpoint (conn_set_timeout opts c) = sv_endpoint c" "sv_port (conn_set_timeout opts c) = sv_port c"
  by (auto simp: conn_set_timeout_def upd_timer_def split: io_mode.split)

lemma upd_timer_frame [simp]:
  "cn_connected (upd_timer f c) = cn_connected c" "cn_tls_established (upd_timer f c) = cn_tls_established c"
  "cn_input (upd_timer f c) = cn_input c" "cn_output (upd_timer f c) = cn_output c" "cn_open (upd_timer f c) = cn_open c"
  by (simp_all add: upd_timer_def)

lemma server_upd_timer_frame [simp]: "sv_host (upd_timer f c) = sv_host c" "sv_endpoint (upd_timer f c) = sv_endpoint c"
  "sv_port (upd_timer f c) = sv_port c"
  by (simp_all add: upd_timer_def)

text \<open>\<open>first_reachable\<close>: the first endpoint that answers.\<close>

definition first_reachable :: "(endpoint \<Rightarrow> boost_error) \<Rightarrow> endpoint list \<Rightarrow> endpoint option" where
  "first_reachable answer eps = find (\<lambda>ep. answer ep = Boost_success) eps"

lemma run_connect_result:
  "sv_endpoint c = Some ep \<Longrightarrow> (case run_connect opts answer ep rest c of (e, c1) \<Rightarrow>
     (case first_reachable answer (ep # rest) of
        Some ep' \<Rightarrow> e = Boost_success \<and> cn_connected c1 \<and> sv_endpoint c1 = Some ep'
      | None \<Rightarrow> e = answer (last (ep # rest)) \<and> cn_connected c1 = cn_connected c \<and> sv_endpoint c1 = Some (last (ep # rest))))"
proof (induction rest arbitrary: ep c)
  case Nil
  then show ?case by (simp add: run_connect_step first_reachable_def set_connected_def)
next
  case (Cons ep' rest)
  show ?case
  proof (cases "answer ep = Boost_success")
    case True
    with Cons.prems show ?thesis by (simp add: run_connect_step[of _ _ ep] first_reachable_def set_connected_def)
  next
    case False
    let ?c = "(conn_set_timeout opts (upd_timer cancel_timeout c))\<lparr>sv_endpoint := Some ep', cn_open := True\<rparr>"
    have "sv_endpoint ?c = Some ep'" "cn_connected ?c = cn_connected c" by simp_all
    moreover obtain e c1 where "run_connect opts answer ep' rest ?c = (e, c1)" by fastforce
    ultimately show ?thesis using Cons.IH[of ?c ep'] False
      by (auto simp: run_connect_step[of _ _ ep] first_reachable_def split: option.splits if_splits)
  qed
qed

lemma run_connect_keeps:
  "run_connect opts answer ep rest c = (e, c1) \<Longrightarrow> cn_tls_established c1 = cn_tls_established c \<and> sv_host c1 = sv_host c"
proof (induction rest arbitrary: ep c)
  case Nil
  then show ?case by (auto simp: run_connect_step set_connected_def split: if_splits)
next
  case (Cons ep' rest)
  show ?case
  proof (cases "answer ep = Boost_success")
    case True
    with Cons.prems show ?thesis by (auto simp: run_connect_step[of _ _ ep] set_connected_def)
  next
    case False
    with Cons.prems Cons.IH[of ep'] show ?thesis by (fastforce simp: run_connect_step[of _ _ ep])
  qed
qed

section \<open>Properties\<close>

text \<open>C34: connecting to a host tries its endpoints in the order of the resolver and ends: connected to the first one
  that answers, or with the error of the last one.\<close>

theorem connect_first_reachable:
  assumes "on_resolve opts Boost_success eps c = (Connecting ep rest, c1)"
  shows "eps = ep # rest \<and> (case run_connect opts answer ep rest c1 of (e, c2) \<Rightarrow>
     (case first_reachable answer eps of
        Some ep' \<Rightarrow> e = Boost_success \<and> cn_connected c2 \<and> sv_endpoint c2 = Some ep'
      | None \<Rightarrow> e = answer (last eps) \<and> cn_connected c2 = cn_connected c \<and> sv_endpoint c2 = Some (last eps)))"
proof -
  have eps: "eps = ep # rest" and c1: "sv_endpoint c1 = Some ep" "cn_connected c1 = cn_connected c"
    using assms by (auto simp: on_resolve_def Let_def conn_set_timeout_def upd_timer_def split: list.splits io_mode.splits)
  from run_connect_result[OF c1(1), where opts = opts and rest = rest and answer = answer] show ?thesis
    unfolding eps c1(2) by simp
qed

definition example_answers :: "endpoint \<Rightarrow> boost_error" where
  "example_answers ep = (if ep = ''::1'' then Boost_other 111 else Boost_success)"

theorem connect_first_reachable_witness:
  "[''::1'', ''10.0.0.1''] = ''::1'' # [''10.0.0.1''] \<and> (case run_connect \<lparr>opt_timeout = 5, opt_tunnel_timeout = 9\<rparr> example_answers
      ''::1'' [''10.0.0.1''] (snd (on_resolve \<lparr>opt_timeout = 5, opt_tunnel_timeout = 9\<rparr> Boost_success [''::1'', ''10.0.0.1''] server_conn_new))
    of (e, c2) \<Rightarrow> (case first_reachable example_answers [''::1'', ''10.0.0.1''] of
        Some ep' \<Rightarrow> e = Boost_success \<and> cn_connected c2 \<and> sv_endpoint c2 = Some ep'
      | None \<Rightarrow> e = example_answers (last [''::1'', ''10.0.0.1'']) \<and> cn_connected c2 = cn_connected server_conn_new
          \<and> sv_endpoint c2 = Some (last [''::1'', ''10.0.0.1''])))"
  by (rule connect_first_reachable[where opts = "\<lparr>opt_timeout = 5, opt_tunnel_timeout = 9\<rparr>"])
    (simp add: on_resolve_def Let_def)

text \<open>C38: the TLS state of a server connection outlives it: when the flow is pointed at another host, the new connection is
  written to through the TLS stream of the old one, without a handshake.\<close>

theorem tls_survives_reconnect:
  assumes "cn_tls_established (fl_server w)" "cn_open (fl_server w)" "sv_host (fl_server w) \<noteq> host"
    "flow_connect_server_async opts peek (flow_set_server host port w) = (step, w1)"
    "on_resolve opts Boost_success eps (fl_server w1) = (Connecting ep rest, s)"
    "run_connect opts answer ep rest s = (e, s1)"
  shows "step = Resolving host (decimal (unat port)) \<and> sv_host s1 = host
    \<and> fst (write_async opts s1) = Async_write Secure_socket"
proof -
  have "cn_tls_established s \<and> sv_host s = host \<and> step = Resolving host (decimal (unat port))"
    using assms(1-5) by (auto simp: flow_connect_server_async_def flow_set_server_def connect_async_def is_connected_to_def
      on_resolve_def upd_server_def Let_def split: if_splits list.splits)
  with run_connect_keeps[OF assms(6)] show ?thesis by (simp add: write_async_def conn_channel_def)
qed


definition example_opts :: timeouts where
  "example_opts = \<lparr>opt_timeout = 5, opt_tunnel_timeout = 9\<rparr>"

definition tls_flow :: flow where
  "tls_flow = flow_new uuid_ns_dns client_conn_new
     (server_conn_new\<lparr>cn_open := True, cn_connected := True, cn_tls_established := True, cn_has_secure_socket := True, sv_host := ''a''\<rparr>)"

definition moved_flow :: "connect_step \<times> flow" where
  "moved_flow = flow_connect_server_async example_opts Boost_success (flow_set_server ''b'' 443 tls_flow)"

definition moved_server :: server_conn where
  "moved_server = snd (run_connect example_opts (\<lambda>_. Boost_success) ''10.0.0.1'' []
     (snd (on_resolve example_opts Boost_success [''10.0.0.1''] (fl_server (snd moved_flow)))))"

theorem tls_survives_reconnect_witness:
  "fst moved_flow = Resolving ''b'' (decimal (unat (443 :: u16))) \<and> sv_host moved_server = ''b''
    \<and> fst (write_async example_opts moved_server) = Async_write Secure_socket"
  by (rule tls_survives_reconnect[where w = tls_flow and opts = example_opts and peek = Boost_success and ?w1.0 = "snd moved_flow"
      and eps = "[''10.0.0.1'']" and ep = "''10.0.0.1''" and rest = "[]" and answer = "\<lambda>_. Boost_success"
      and e = "fst (run_connect example_opts (\<lambda>_. Boost_success) ''10.0.0.1'' []
        (snd (on_resolve example_opts Boost_success [''10.0.0.1''] (fl_server (snd moved_flow)))))"])
    (simp_all add: tls_flow_def flow_new_def server_conn_new_def conn.defs moved_flow_def moved_server_def on_resolve_def Let_def)

end
