(* ===== verification/Interceptors.thy ===== *)
theory Interceptors
  imports Ordered_Maps
begin

text \<open>
  intercept/base_interceptor_service.hpp and interceptor_services.hpp: interceptors attached to the
  events of a category.

  An interceptor is a function on the arguments it gets by reference.  The outer
  \<^verbatim>\<open>unordered_map\<close> is a partial function; the inner map and the lookup table are ordered by the
  identifiers, which are 64-bit numbers.
\<close>

section \<open>Events\<close>

datatype server_event = Server_connect | Server_disconnect

datatype http_event = Http_request | Http_connect | Http_any_request | Http_websocket_handshake | Http_response | Http_error

datatype tls_event = Tls_established | Tls_error

datatype tunnel_event = Tunnel_start | Tunnel_stop

datatype websocket_event = Websocket_start | Websocket_stop | Websocket_error

datatype websocket_message_event = Websocket_message_received

datatype ssl_certificate_event = Ssl_certificate_search | Ssl_certificate_create

section \<open>The service\<close>

type_synonym interceptor_id = nat

definition not_attached :: interceptor_id where
  "not_attached = 0"

record ('ev, 'a) interceptor_service =
  is_next_id :: interceptor_id
  is_interceptors :: "'ev \<rightharpoonup> (interceptor_id, 'a \<Rightarrow> 'a) omap"
  is_lookup :: "(interceptor_id, 'ev) omap"

definition interceptor_service_new :: "('ev, 'a) interceptor_service" where
  "interceptor_service_new = \<lparr>is_next_id = not_attached + 1, is_interceptors = Map.empty, is_lookup = []\<rparr>"

definition attach :: "'ev \<Rightarrow> ('a \<Rightarrow> 'a) \<Rightarrow> ('ev, 'a) interceptor_service \<Rightarrow> interceptor_id \<times> ('ev, 'a) interceptor_service" where
  "attach ev func s =
     (let s1 = (case is_interceptors s ev of
          None \<Rightarrow> s\<lparr>is_interceptors := (is_interceptors s)(ev \<mapsto> map_emplace (<) (is_next_id s) func [])\<rparr>
        | Some event_map \<Rightarrow> s\<lparr>is_interceptors := (is_interceptors s)(ev \<mapsto> map_emplace (<) (is_next_id s) func event_map)\<rparr>);
        s2 = s1\<lparr>is_lookup := map_emplace (<) (is_next_id s1) ev (is_lookup s1)\<rparr>
      in (is_next_id s2, s2\<lparr>is_next_id := is_next_id s2 + 1\<rparr>))"

definition detach :: "interceptor_id \<Rightarrow> ('ev, 'a) interceptor_service \<Rightarrow> ('ev, 'a) interceptor_service" where
  "detach iid s = (case omap_find (<) iid (is_lookup s) of
     None \<Rightarrow> s
   | Some (_, ev) \<Rightarrow>
       let s1 = (case is_interceptors s ev of
            None \<Rightarrow> s
          | Some event_map \<Rightarrow> s\<lparr>is_interceptors := (is_interceptors s)(ev \<mapsto> omap_erase_found (<) iid event_map)\<rparr>)
       in s1\<lparr>is_lookup := omap_erase_found (<) iid (is_lookup s1)\<rparr>)"

definition run_interceptors :: "'ev \<Rightarrow> 'a \<Rightarrow> ('ev, 'a) interceptor_service \<Rightarrow> 'a" where
  "run_interceptors ev args s = (case is_interceptors s ev of
     None \<Rightarrow> args
   | Some event_map \<Rightarrow> fold (\<lambda>(iid, func). func) event_map args)"

text \<open>
  \<^verbatim>\<open>attach_hub\<close>: the hub's functions in the order of the events, one identifier for each event.
\<close>

fun attach_hub :: "('ev \<times> ('a \<Rightarrow> 'a)) list \<Rightarrow> ('ev \<rightharpoonup> interceptor_id) \<Rightarrow> ('ev, 'a) interceptor_service \<Rightarrow>
    ('ev \<rightharpoonup> interceptor_id) \<times> ('ev, 'a) interceptor_service" where
  "attach_hub [] ids s = (ids, s)"
| "attach_hub ((ev, func) # hub) ids s = (case attach ev func s of (iid, s1) \<Rightarrow> attach_hub hub (ids(ev \<mapsto> iid)) s1)"

section \<open>Histories\<close>

datatype ('ev, 'a) service_op = Attach 'ev "'a \<Rightarrow> 'a" | Detach interceptor_id

fun service_step :: "('ev, 'a) service_op \<Rightarrow> ('ev, 'a) interceptor_service \<Rightarrow> ('ev, 'a) interceptor_service" where
  "service_step (Attach ev func) s = snd (attach ev func s)"
| "service_step (Detach iid) s = detach iid s"

text \<open>The specification: the list of what is attached, in the order in which it was.\<close>

type_synonym ('ev, 'a) attached = "(interceptor_id \<times> 'ev \<times> ('a \<Rightarrow> 'a)) list"

fun spec_step :: "('ev, 'a) service_op \<Rightarrow> nat \<times> ('ev, 'a) attached \<Rightarrow> nat \<times> ('ev, 'a) attached" where
  "spec_step (Attach ev func) (n, xs) = (n + 1, xs @ [(n, ev, func)])"
| "spec_step (Detach iid) (n, xs) = (n, filter (\<lambda>(i, e, f). i \<noteq> iid) xs)"

definition spec_run :: "'ev \<Rightarrow> 'a \<Rightarrow> ('ev, 'a) attached \<Rightarrow> 'a" where
  "spec_run ev args xs = fold (\<lambda>(i, e, f). f) (filter (\<lambda>(i, e, f). e = ev) xs) args"

definition event_part :: "'ev \<Rightarrow> ('ev, 'a) attached \<Rightarrow> (interceptor_id, 'a \<Rightarrow> 'a) omap" where
  "event_part ev xs = map (\<lambda>(i, e, f). (i, f)) (filter (\<lambda>(i, e, f). e = ev) xs)"

definition the_default :: "'b \<Rightarrow> 'b option \<Rightarrow> 'b" where
  "the_default d x = (case x of None \<Rightarrow> d | Some y \<Rightarrow> y)"

lemma the_default_simps [simp]: "the_default d None = d" "the_default d (Some y) = y"
  by (simp_all add: the_default_def)

text \<open>The simulation relation.\<close>

definition represents :: "('ev, 'a) interceptor_service \<Rightarrow> nat \<times> ('ev, 'a) attached \<Rightarrow> bool" where
  "represents s p = (case p of (n, xs) \<Rightarrow>
     is_next_id s = n \<and> (\<forall>(i, e, f)\<in>set xs. i < n) \<and> distinct (map fst xs)
     \<and> is_lookup s = map (\<lambda>(i, e, f). (i, e)) xs
     \<and> (\<forall>ev. event_part ev xs = the_default [] (is_interceptors s ev)))"

lemma emplace_greatest:
  "\<forall>(i, v)\<in>set xs. i < k \<Longrightarrow> map_emplace (<) (k :: nat) v xs = xs @ [(k, v)]"
proof -
  assume a: "\<forall>(i, v)\<in>set xs. i < k"
  then have "omap_find (<) k xs = None" by (auto simp: omap_find_def find_None_iff key_equiv_def)
  moreover have "multimap_emplace (<) k v xs = xs @ [(k, v)]" using a by (induction xs) auto
  ultimately show ?thesis by (simp add: map_emplace_def)
qed

lemma erase_filter:
  "distinct (map fst xs) \<Longrightarrow> omap_erase_found (<) (k :: nat) xs = filter (\<lambda>(i, v). i \<noteq> k) xs"
proof (induction xs)
  case (Cons x xs)
  obtain i v where x: "x = (i, v)" by fastforce
  show ?case
  proof (cases "i = k")
    case True
    then have "\<forall>p\<in>set xs. fst p \<noteq> k" using Cons.prems x by force
    then have "filter (\<lambda>(i, v). i \<noteq> k) xs = xs" by (intro filter_True) auto
    with True show ?thesis by (simp add: x key_equiv_def)
  next
    case False
    with Cons show ?thesis by (auto simp: x key_equiv_def)
  qed
qed simp

lemma event_part_append [simp]: "event_part ev (xs @ [(n, e, f)]) = event_part ev xs @ (if e = ev then [(n, f)] else [])"
  by (simp add: event_part_def)

lemma event_part_ids: "(i, g) \<in> set (event_part ev xs) \<longleftrightarrow> (i, ev, g) \<in> set xs"
  by (force simp: event_part_def)

lemma attach_represents:
  assumes "represents s (n, xs)"
  shows "represents (snd (attach ev func s)) (Suc n, xs @ [(n, ev, func)])" "fst (attach ev func s) = n"
proof -
  from assms have lt: "\<forall>(i, e, f)\<in>set xs. i < n" and n: "is_next_id s = n" and look: "is_lookup s = map (\<lambda>(i, e, f). (i, e)) xs"
    and d: "distinct (map fst xs)" by (simp_all add: represents_def)
  have l: "map_emplace (<) n ev (is_lookup s) = is_lookup s @ [(n, ev)]"
    using lt by (intro emplace_greatest) (auto simp: look)
  have e: "map_emplace (<) n func (event_part ev xs) = event_part ev xs @ [(n, func)]"
    using lt by (intro emplace_greatest) (auto simp: event_part_ids)
  have e0: "map_emplace (<) n func [] = [(n, func)]" by (simp add: emplace_greatest)
  have m: "event_part v xs = the_default [] (is_interceptors s v)" for v
    using assms by (simp add: represents_def)
  show "fst (attach ev func s) = n" by (simp add: attach_def n Let_def split: option.split)
  have "n \<notin> fst ` set xs" using lt by force
  then show "represents (snd (attach ev func s)) (Suc n, xs @ [(n, ev, func)])"
    using lt d n look l e e0 m
    by (cases "is_interceptors s ev") (auto simp: represents_def attach_def Let_def)
qed

lemma detach_represents:
  assumes "represents s (n, xs)"
  shows "represents (detach iid s) (n, filter (\<lambda>(i, e, f). i \<noteq> iid) xs)"
proof -
  from assms have lt: "\<forall>(i, e, f)\<in>set xs. i < n" and n: "is_next_id s = n" and look: "is_lookup s = map (\<lambda>(i, e, f). (i, e)) xs"
    and d: "distinct (map fst xs)" by (simp_all add: represents_def)
  have m: "event_part v xs = the_default [] (is_interceptors s v)" for v
    using assms by (simp add: represents_def)
  let ?ys = "filter (\<lambda>(i, e, f). i \<noteq> iid) xs"
  show ?thesis
  proof (cases "omap_find (<) iid (is_lookup s)")
    case None
    then have "\<forall>x\<in>set xs. fst x \<noteq> iid" by (force simp: omap_find_def find_None_iff look key_equiv_def)
    then have "?ys = xs" by (intro filter_True) auto
    with None assms show ?thesis by (simp add: detach_def)
  next
    case (Some p)
    then have "p \<in> set (is_lookup s) \<and> fst p = iid"
      by (auto simp: omap_find_def find_Some_iff key_equiv_def split_beta)
    then obtain ev where p: "p = (iid, ev)" and mem: "(iid, ev) \<in> set (is_lookup s)" by (cases p) auto
    have dl: "distinct (map fst (is_lookup s))" using d by (simp add: look comp_def case_prod_unfold)
    have l: "omap_erase_found (<) iid (is_lookup s) = map (\<lambda>(i, e, f). (i, e)) ?ys"
      using erase_filter[OF dl, of iid] by (simp add: look filter_map comp_def case_prod_unfold)
    have de: "distinct (map fst (event_part v xs))" for v
      using d by (simp add: event_part_def comp_def case_prod_unfold distinct_map inj_on_def)
    have ef: "event_part v ?ys = filter (\<lambda>(i, f). i \<noteq> iid) (event_part v xs)" for v
      by (simp add: event_part_def filter_map comp_def case_prod_unfold conj_commute)
    have ee: "omap_erase_found (<) iid (event_part v xs) = event_part v ?ys" for v
      using erase_filter[OF de, of iid v] by (simp add: ef)
    have other: "event_part v ?ys = event_part v xs" if "v \<noteq> ev" for v
    proof -
      have "\<forall>x\<in>set (event_part v xs). fst x \<noteq> iid"
        using mem d that by (auto simp: event_part_ids look dest: eq_key_imp_eq_value)
      then show ?thesis unfolding ef by (intro filter_True) auto
    qed
    have "event_part ev xs \<noteq> []" using mem by (force simp: look event_part_def filter_empty_conv)
    with m[of ev] obtain mm where ev: "is_interceptors s ev = Some mm" "mm = event_part ev xs" by (cases "is_interceptors s ev") auto
    have "distinct (map fst ?ys)" using d by (simp add: distinct_map inj_on_def)
    with Some p n lt l ev(1) ee[of ev, folded ev(2)] other m show ?thesis
      by (auto simp: represents_def detach_def Let_def)
  qed
qed


lemma represents_new: "represents interceptor_service_new (1, [])"
  by (simp add: represents_def interceptor_service_new_def not_attached_def event_part_def)

lemma service_step_represents: "represents s p \<Longrightarrow> represents (service_step op s) (spec_step op p)"
  by (cases op; cases p) (simp_all add: attach_represents detach_represents)

lemma run_represents: "represents s (n, xs) \<Longrightarrow> run_interceptors ev args s = spec_run ev args xs"
proof -
  assume "represents s (n, xs)"
  then have "event_part ev xs = the_default [] (is_interceptors s ev)" by (simp add: represents_def)
  then have "run_interceptors ev args s = fold (\<lambda>(iid, func). func) (event_part ev xs) args"
    by (simp add: run_interceptors_def split: option.split)
  then show ?thesis by (simp add: spec_run_def event_part_def fold_map comp_def case_prod_unfold)
qed

lemma history_represents: "represents (fold service_step ops interceptor_service_new) (fold spec_step ops (1, []))"
proof -
  have "represents s p \<Longrightarrow> represents (fold service_step ops s) (fold spec_step ops p)" for s p
    by (induction ops arbitrary: s p) (simp_all add: service_step_represents)
  with represents_new show ?thesis by blast
qed

section \<open>Properties\<close>

text \<open>C35: after any history of attaching and detaching, an event runs exactly the interceptors that are attached to it, each once,
  in the order in which they were attached, and the next identifier is new.\<close>

theorem interceptors_run_in_order:
  "run_interceptors ev args (fold service_step ops interceptor_service_new) = spec_run ev args (snd (fold spec_step ops (1, [])))
    \<and> fst (attach ev func (fold service_step ops interceptor_service_new)) = fst (fold spec_step ops (1, []))"
proof -
  obtain n xs where p: "fold spec_step ops (1, []) = (n, xs)" by fastforce
  with history_represents[of ops] have "represents (fold service_step ops interceptor_service_new) (n, xs)" by simp
  from run_represents[OF this] attach_represents(2)[OF this] p show ?thesis by simp
qed

end
