(* ===== verification/Services.thy ===== *)
theory Services
  imports Connection Interceptors
begin

text \<open>
  base_service.{hpp,cpp} and connection_handler.{hpp,cpp}: what all services share, and their owner.

  Interceptors are code of the user: \<open>hook\<close> is the effect of \<^verbatim>\<open>interceptors_.server.run\<close> on the flow.
\<close>

section \<open>base_service\<close>

definition forbidden_hosts :: "string list" where
  "forbidden_hosts = [''localhost'', ''127.0.0.1'', ''::1'']"

definition base_set_server :: "(server_event \<Rightarrow> flow \<Rightarrow> flow) \<Rightarrow> u16 \<Rightarrow> string \<Rightarrow> u16 \<Rightarrow> flow \<Rightarrow> unit result \<times> flow" where
  "base_set_server hook own_port host port w =
     (if is_connected_to host port (fl_server w) then (Inr (), w)
      else let w1 = flow_set_server host port w;
               w2 = (if cn_connected (fl_server w1) then hook Server_disconnect w1 else w1);
               is_forbidden = (fl_target_host w2 \<in> set forbidden_hosts \<and> fl_target_port w2 = own_port)
           in (if is_forbidden then err self_connect else Inr (), w2))"

definition base_on_connect_server :: "(server_event \<Rightarrow> flow \<Rightarrow> flow) \<Rightarrow> boost_error \<Rightarrow> flow \<Rightarrow> flow" where
  "base_on_connect_server hook e w = (if e = Boost_success then hook Server_connect w else w)"

section \<open>connection_handler\<close>

datatype service_kind = Kind_http | Kind_tunnel | Kind_tls | Kind_websocket exchange

record connection_handler =
  ch_flow :: flow
  ch_service :: "service_kind option"
  ch_finished :: bool

definition handler_start :: "connection_handler \<Rightarrow> connection_handler" where
  "handler_start h = h\<lparr>ch_finished := False, ch_service := Some Kind_http\<rparr>"

definition switch_service :: "service_kind \<Rightarrow> connection_handler \<Rightarrow> connection_handler" where
  "switch_service k h = h\<lparr>ch_service := Some k\<rparr>"

text \<open>The finished callback has run when \<open>ch_finished\<close> is set.\<close>

definition handler_stop :: "connection_handler \<Rightarrow> connection_handler" where
  "handler_stop h = h\<lparr>ch_flow := flow_disconnect (ch_flow h), ch_finished := True\<rparr>"

section \<open>Facts\<close>

lemma flow_set_server_target [simp]: "fl_target_host (flow_set_server host port w) = host"
  "fl_target_port (flow_set_server host port w) = port"
  by (simp_all add: flow_set_server_def Let_def)

section \<open>Properties\<close>

text \<open>Unless an interceptor of the disconnect event moves the flow, a service never accepts the proxy's own address as a new
  target, and what it accepts is the target.\<close>

theorem set_server_not_self:
  assumes "base_set_server hook own_port host port w = (Inr (), w1)" "\<not> is_connected_to host port (fl_server w)"
    "\<And>v. fl_target_host (hook Server_disconnect v) = fl_target_host v \<and> fl_target_port (hook Server_disconnect v) = fl_target_port v"
  shows "fl_target_host w1 = host \<and> fl_target_port w1 = port \<and> \<not> (host \<in> set forbidden_hosts \<and> port = own_port)"
  using assms by (auto simp: base_set_server_def Let_def split: if_splits)

definition plain_flow :: flow where
  "plain_flow = flow_new uuid_ns_dns client_conn_new server_conn_new"

lemma plain_flow_server [simp]: "fl_server plain_flow = server_conn_new" "cn_connected server_conn_new = False"
  by (simp_all add: plain_flow_def flow_new_def server_conn_new_def conn.defs conn_new_def)

theorem set_server_not_self_witness:
  "fl_target_host (snd (base_set_server (\<lambda>_ v. v) 8080 ''localhost'' 80 plain_flow)) = ''localhost''
    \<and> fl_target_port (snd (base_set_server (\<lambda>_ v. v) 8080 ''localhost'' 80 plain_flow)) = 80
    \<and> \<not> (''localhost'' \<in> set forbidden_hosts \<and> (80 :: u16) = 8080)"
  by (rule set_server_not_self[where w = plain_flow and hook = "\<lambda>_ v. v"]) (simp_all add: base_set_server_def is_connected_to_def Let_def flow_set_server_def)

text \<open>The interceptors of the disconnect event are not run when a service leaves an open server connection: the flow has closed
  it before the service asks whether there is one.\<close>

theorem disconnect_event_lost:
  assumes "cn_open (fl_server w)"
  shows "base_set_server hook own_port host port w = base_set_server (\<lambda>ev v. v) own_port host port w"
proof -
  have "\<not> cn_connected (fl_server (flow_set_server host port w))"
    using assms by (auto simp: flow_set_server_def upd_server_def Let_def)
  then show ?thesis by (simp add: base_set_server_def Let_def)
qed

theorem disconnect_event_lost_witness:
  "base_set_server (\<lambda>ev v. v\<lparr>fl_intercept_tls := True\<rparr>) 8080 ''b'' 443 tls_flow = base_set_server (\<lambda>ev v. v) 8080 ''b'' 443 tls_flow"
  by (rule disconnect_event_lost) (simp add: tls_flow_def flow_new_def)

end
