(* ===== verification/Ws_Handshake.thy ===== *)
theory Ws_Handshake
  imports Message
begin

text \<open>
  websocket/handshake/: extension_data.{hpp,cpp} and handshake.{hpp,cpp}.
\<close>

section \<open>Extensions\<close>

record extension_data =
  ed_name :: string
  ed_params :: "(string, string) omap"

definition extension_data_new :: "string \<Rightarrow> extension_data" where
  "extension_data_new name = \<lparr>ed_name = name, ed_params = []\<rparr>"

definition has_param :: "string \<Rightarrow> extension_data \<Rightarrow> bool" where
  "has_param name ext \<longleftrightarrow> omap_find string_less name (ed_params ext) \<noteq> None"

definition get_param :: "string \<Rightarrow> extension_data \<Rightarrow> string result" where
  "get_param name ext = (case omap_find string_less name (ed_params ext) of
     None \<Rightarrow> err_with extension_param_not_found
       (''Extension parameter '' @ [CHR 0x22] @ name @ [CHR 0x22] @ '' was not found'')
   | Some it \<Rightarrow> Inr (snd it))"

definition set_param :: "string \<Rightarrow> string \<Rightarrow> extension_data \<Rightarrow> extension_data" where
  "set_param name val ext = ext\<lparr>ed_params := map_set string_less name val (ed_params ext)\<rparr>"

definition parse_param :: "string \<Rightarrow> extension_data \<Rightarrow> extension_data" where
  "parse_param cur ext = (case sv_find CHR ''='' cur 0 of
     None \<Rightarrow> set_param cur [] ext
   | Some assign_pos \<Rightarrow> set_param (take assign_pos cur) (drop (assign_pos + 1) cur) ext)"

definition from_header_value :: "string \<Rightarrow> extension_data result" where
  "from_header_value header = (case sv_find CHR '','' header 0 of
     Some _ \<Rightarrow> err_with invalid_extension_string ''Multiple extensions present in single string''
   | None \<Rightarrow> (case split_trim_ws header CHR '';'' of
       [] \<Rightarrow> err_with invalid_extension_string ''No extension name found''
     | name # params \<Rightarrow> Inr (fold parse_param params (extension_data_new name))))"

definition extension_string :: "extension_data \<Rightarrow> string" where
  "extension_string ext = ed_name ext @ concat (map (\<lambda>(param, val). '';'' @ '' '' @ param @ ''='' @ val) (ed_params ext))"

definition extension_list_string :: "extension_data list \<Rightarrow> string" where
  "extension_list_string exts = (case exts of [] \<Rightarrow> []
     | e # es \<Rightarrow> extension_string e @ concat (map (\<lambda>x. '','' @ '' '' @ extension_string x) es))"

section \<open>The handshake\<close>

definition is_handshake_request :: "'m message_scheme \<Rightarrow> bool" where
  "is_handshake_request req \<longleftrightarrow> header_has_token ''Connection'' ''Upgrade'' True req
     \<and> header_has_token ''Upgrade'' ''websocket'' True req
     \<and> header_has_value ''Sec-WebSocket-Version'' ''13'' False req \<and> header_is_nonempty ''Sec-WebSocket-Key'' req"

definition is_handshake_response :: "'m message_scheme \<Rightarrow> bool" where
  "is_handshake_response res \<longleftrightarrow> header_has_token ''Connection'' ''Upgrade'' True res
     \<and> header_has_token ''Upgrade'' ''websocket'' True res \<and> header_is_nonempty ''Sec-WebSocket-Accept'' res"

definition get_client_key :: "'m message_scheme \<Rightarrow> string" where
  "get_client_key m = (case get_header ''Sec-WebSocket-Key'' m of Inr v \<Rightarrow> v | Inl _ \<Rightarrow> [])"

definition get_server_accept :: "'m message_scheme \<Rightarrow> string" where
  "get_server_accept m = (case get_header ''Sec-WebSocket-Accept'' m of Inr v \<Rightarrow> v | Inl _ \<Rightarrow> [])"

definition get_protocol :: "'m message_scheme \<Rightarrow> string option" where
  "get_protocol m = get_optional_header ''Sec-WebSocket-Protocol'' m"

text \<open>Extensions that cannot be read are only logged.\<close>

definition get_extensions :: "'m message_scheme \<Rightarrow> extension_data list" where
  "get_extensions m = concat (map (\<lambda>extension_list.
     List.map_filter (\<lambda>ext_string. case from_header_value ext_string of Inr e \<Rightarrow> Some e | Inl _ \<Rightarrow> None)
       (split_trim_ws extension_list CHR '',''))
     (get_all_of_header ''Sec-WebSocket-Extensions'' m))"

section \<open>Reading back what is printed\<close>

definition param_text :: "string \<times> string \<Rightarrow> string" where
  "param_text p = fst p @ ''='' @ snd p"

definition wf_param :: "string \<times> string \<Rightarrow> bool" where
  "wf_param p \<longleftrightarrow> set (fst p) \<inter> {CHR '','', CHR '';'', CHR ''=''} = {} \<and> set (snd p) \<inter> {CHR '','', CHR '';''} = {}
     \<and> trimmed (fst p) \<and> trimmed (snd p)"

definition wf_extension_data :: "extension_data \<Rightarrow> bool" where
  "wf_extension_data e \<longleftrightarrow> ed_name e \<noteq> [] \<and> trimmed (ed_name e) \<and> set (ed_name e) \<inter> {CHR '','', CHR '';''} = {}
     \<and> list_all wf_param (ed_params e) \<and> sorted_wrt (\<lambda>a b. string_less (fst a) (fst b)) (ed_params e)"

lemma trim_front: "set u \<subseteq> default_whitespace \<Longrightarrow> trimmed s \<Longrightarrow> trim_ws (u @ s) = s"
  by (intro trim_unique[where v = "[]"]) (auto simp: trimmed_def)

lemma trim_space: "trimmed s \<Longrightarrow> trim_ws (SP # s) = s"
  using trim_front[of "[SP]" s] by (simp add: default_whitespace_def)

lemma trimmed_param: "wf_param p \<Longrightarrow> trimmed (param_text p)"
  by (auto simp: wf_param_def param_text_def trimmed_def hd_append default_whitespace_def)

lemma split_params:
  assumes "CHR '';'' \<notin> set n" "list_all wf_param ps"
  shows "split_on CHR '';'' (n @ concat (map (\<lambda>p. '';'' @ '' '' @ param_text p) ps)) = n # map (\<lambda>p. '' '' @ param_text p) ps"
  using assms
proof (induction ps arbitrary: n)
  case Nil
  then show ?case by (simp add: split_on_no_delim)
next
  case (Cons p ps)
  then have "CHR '';'' \<notin> set ('' '' @ param_text p)" by (auto simp: wf_param_def param_text_def)
  from Cons.IH[OF this] Cons.prems show ?case by (simp add: split_on_append)
qed

lemma parse_param_text:
  assumes "wf_param p" "\<forall>q\<in>set (ed_params e). string_less (fst q) (fst p)"
  shows "parse_param (param_text p) e = e\<lparr>ed_params := ed_params e @ [p]\<rparr>"
proof -
  have "sv_find CHR ''='' (param_text p) 0 = Some (length (fst p))"
    using assms(1) by (simp add: sv_find_def param_text_def wf_param_def)
  moreover have "map_set string_less (fst p) (snd p) (ed_params e) = ed_params e @ [(fst p, snd p)]"
    using assms(2) by (rule find_none_string_less)
  ultimately show ?thesis by (simp add: parse_param_def set_param_def param_text_def)
qed


lemma parse_params_text:
  "list_all wf_param ps \<Longrightarrow> sorted_wrt (\<lambda>a b. string_less (fst a) (fst b)) (ed_params e @ ps) \<Longrightarrow>
     fold parse_param (map param_text ps) e = e\<lparr>ed_params := ed_params e @ ps\<rparr>"
proof (induction ps arbitrary: e)
  case (Cons p ps)
  then have "parse_param (param_text p) e = e\<lparr>ed_params := ed_params e @ [p]\<rparr>"
    by (intro parse_param_text) (auto simp: sorted_wrt_append)
  with Cons.IH[of "e\<lparr>ed_params := ed_params e @ [p]\<rparr>"] Cons.prems show ?case by simp
qed simp

section \<open>Properties\<close>

text \<open>A printed extension is read back: name and parameters; a parameter without a value is printed with an
  empty one.\<close>

theorem extension_round_trip:
  assumes "wf_extension_data e"
  shows "from_header_value (extension_string e) = Inr e"
proof -
  let ?s = "ed_name e @ concat (map (\<lambda>p. '';'' @ '' '' @ param_text p) (ed_params e))"
  have s: "extension_string e = ?s" by (simp add: extension_string_def param_text_def case_prod_unfold)
  have wf: "ed_name e \<noteq> []" "trimmed (ed_name e)" "CHR '','' \<notin> set (ed_name e)" "CHR '';'' \<notin> set (ed_name e)"
    "list_all wf_param (ed_params e)" "sorted_wrt (\<lambda>a b. string_less (fst a) (fst b)) (ed_params e)"
    using assms by (auto simp: wf_extension_data_def)
  have "CHR '','' \<notin> set ?s" using wf(3,5) by (auto simp: list_all_iff wf_param_def param_text_def)
  then have "sv_find CHR '','' ?s 0 = None" by (simp add: sv_find_def)
  moreover have "split_trim_ws ?s CHR '';'' = ed_name e # map param_text (ed_params e)"
  proof -
    have t: "map (trim_ws \<circ> (\<lambda>p. SP # param_text p)) (ed_params e) = map param_text (ed_params e)"
      using wf(5) by (simp add: list_all_iff trimmed_param trim_space comp_def)
    have "filter (\<lambda>t. t \<noteq> []) (map (trim_ws \<circ> (\<lambda>p. SP # param_text p)) (ed_params e)) = map param_text (ed_params e)"
      unfolding t by (intro filter_True) (auto simp: param_text_def)
    moreover have "trim_ws (ed_name e) = ed_name e" using trim_front[of "[]"] wf(2) by simp
    moreover have "CHR '';'' \<notin> default_whitespace" by (simp add: default_whitespace_def)
    ultimately show ?thesis
      using split_params[OF wf(4,5)] wf(1) by (simp add: split_trim_ws_def split_trim_nonempty_trimmed nonempty_trimmed_def)
  qed
  moreover have "fold parse_param (map param_text (ed_params e)) (extension_data_new (ed_name e)) = e"
    using wf(5,6) by (subst parse_params_text) (simp_all add: extension_data_new_def)
  ultimately show ?thesis by (simp add: s from_header_value_def)
qed

definition example_extension :: extension_data where
  "example_extension = \<lparr>ed_name = ''permessage-deflate'', ed_params = [(''client_max_window_bits'', ''15'')]\<rparr>"

theorem extension_round_trip_witness:
  "from_header_value (extension_string example_extension) = Inr example_extension"
  by (rule extension_round_trip)
    (simp add: wf_extension_data_def example_extension_def wf_param_def trimmed_def default_whitespace_def)

text \<open>The check of a response's handshake does not need the header \<open>Sec-WebSocket-Accept\<close>: without it, every value it has is
  non-empty.\<close>

theorem handshake_without_accept:
  assumes "header_has_token ''Connection'' ''Upgrade'' True res" "header_has_token ''Upgrade'' ''websocket'' True res"
    "\<not> has_header ''Sec-WebSocket-Accept'' res"
  shows "is_handshake_response res \<and> get_server_accept res = []"
proof -
  have "get_all_of_header ''Sec-WebSocket-Accept'' res = []" using assms(3) by (simp add: has_header_get_all)
  then have "equal_range iless ''Sec-WebSocket-Accept'' (msg_headers res) = []" by (simp add: get_all_of_header_def)
  with assms show ?thesis
    by (simp add: is_handshake_response_def header_is_nonempty_def get_server_accept_def get_header_def omap_find_equal_range)
qed


definition example_upgrade :: response where
  "example_upgrade = response_new\<lparr>msg_headers := [(''Connection'', ''Upgrade''), (''Upgrade'', ''websocket'')]\<rparr>"

theorem handshake_without_accept_witness:
  "is_handshake_response example_upgrade \<and> get_server_accept example_upgrade = []"
proof (rule handshake_without_accept)
  have k: "\<not> iequals ''Connection'' ''Upgrade''" "\<not> iequals ''Upgrade'' ''Connection''"
    "\<not> iequals ''Sec-WebSocket-Accept'' ''Connection''" "\<not> iequals ''Sec-WebSocket-Accept'' ''Upgrade''" by code_simp+
  have t: "split_trim_ws ''Upgrade'' CHR '','' = [''Upgrade'']" "split_trim_ws ''websocket'' CHR '','' = [''websocket'']"
    by (simp_all add: split_trim_ws_def split_trim_nonempty_trimmed nonempty_trimmed_def default_whitespace_def split_on_no_delim
      trim_trimmed[unfolded default_whitespace_def] trimmed_def)
  have h: "msg_headers example_upgrade = [(''Connection'', ''Upgrade''), (''Upgrade'', ''websocket'')]"
    by (simp add: example_upgrade_def)
  show "header_has_token ''Connection'' ''Upgrade'' True example_upgrade" "header_has_token ''Upgrade'' ''websocket'' True example_upgrade"
    "\<not> has_header ''Sec-WebSocket-Accept'' example_upgrade"
    using k t by (simp_all add: header_has_token_def equal_range_def h key_equiv_iless has_header_def omap_find_def)
qed

end
