(* ===== verification/Http_Service.thy ===== *)
theory Http_Service
  imports Http_Parser Services Ws_Handshake
begin

text \<open>
  http/http1/http_service.{hpp,cpp}: the state machine that reads a request, connects to the server,
  forwards request and response and hands the connection on.

  Every method is a function on \<open>http_service\<close>.  A method that starts an asynchronous operation
  leaves \<open>hv_wait\<close> (the callback) and \<open>hv_op\<close> (what the library does); \<open>http_step\<close> runs the callback
  with the library's result, an \<open>io_event\<close>.  \<open>http_env\<close> holds the options and the library and user
  code that is called: interceptors, \<^verbatim>\<open>lexical_cast\<close>, error texts, and the result of the one
  synchronous write.  An exception or undefined behaviour ends the service in \<open>W_crashed\<close>.
\<close>

section \<open>State\<close>

record http_env =
  he_lc :: "string \<Rightarrow> u64 option"
  he_lcl :: "string \<Rightarrow> int option"
  he_body_size_limit :: u64
  he_timeouts :: timeouts
  he_port :: u16
  he_websocket_passthrough :: bool
  he_websocket_passthrough_strict :: bool
  he_ssl_passthrough :: bool
  he_ssl_passthrough_strict :: bool
  he_http_hook :: "http_event \<Rightarrow> flow \<times> exchange \<Rightarrow> flow \<times> exchange"
  he_server_hook :: "server_event \<Rightarrow> flow \<Rightarrow> flow"
  he_error_text :: "boost_error \<Rightarrow> string"
  he_peek :: "flow \<Rightarrow> boost_error"
  he_sync_write :: "string \<Rightarrow> nat \<times> boost_error"

datatype http_wait =
  W_none
| W_request_head
| W_request_body
| W_connect connect_step
| W_forward_request
| W_response_head
| W_response_body
| W_forward_response
| W_connect_response
| W_error_response
| W_stopped
| W_switched service_kind
| W_crashed "error_state failure"

record http_service =
  hv_flow :: flow
  hv_exchange :: exchange
  hv_parser :: http_parser
  hv_wait :: http_wait
  hv_op :: "io_op option"

definition http_service_new :: "http_method \<Rightarrow> target_form \<Rightarrow> flow \<Rightarrow> http_service" where
  "http_service_new m form w = \<lparr>hv_flow = w, hv_exchange = exchange_new m form, hv_parser = http_parser_new,
     hv_wait = W_none, hv_op = None\<rparr>"

definition continue_response :: response where
  "continue_response = \<lparr>msg_version = Http1_1, msg_headers = [], msg_body = [], res_status = status_continue\<rparr>"

definition connect_response :: response where
  "connect_response = \<lparr>msg_version = Http1_1, msg_headers = [], msg_body = [], res_status = status_ok\<rparr>"

definition lowercase_name :: string where
  "lowercase_name = ''aether''"

definition server_name :: string where
  "server_name = ''Aether''"

definition full_server_name :: string where
  "full_server_name = ''Aether 2.0''"

definition upd_flow :: "(flow \<Rightarrow> flow) \<Rightarrow> http_service \<Rightarrow> http_service" where
  "upd_flow f s = s\<lparr>hv_flow := f (hv_flow s)\<rparr>"

definition upd_exchange :: "(exchange \<Rightarrow> exchange) \<Rightarrow> http_service \<Rightarrow> http_service" where
  "upd_exchange f s = s\<lparr>hv_exchange := f (hv_exchange s)\<rparr>"

definition upd_req :: "(request \<Rightarrow> request) \<Rightarrow> http_service \<Rightarrow> http_service" where
  "upd_req f = upd_exchange (\<lambda>e. e\<lparr>ex_request := f (ex_request e)\<rparr>)"

definition run_http :: "http_env \<Rightarrow> http_event \<Rightarrow> http_service \<Rightarrow> http_service" where
  "run_http env ev s = (case he_http_hook env ev (hv_flow s, hv_exchange s) of
     (w, e) \<Rightarrow> s\<lparr>hv_flow := w, hv_exchange := e\<rparr>)"

text \<open>\<^verbatim>\<open>exchange_.response()\<close>\<close>

definition get_response :: "http_service \<Rightarrow> response \<times> http_service" where
  "get_response s = (case exchange_response (hv_exchange s) of (r, e) \<Rightarrow> (r, s\<lparr>hv_exchange := e\<rparr>))"

section \<open>Starting operations\<close>

definition start_client_op :: "http_wait \<Rightarrow> (client_conn \<Rightarrow> io_op \<times> client_conn) \<Rightarrow> http_service \<Rightarrow> http_service" where
  "start_client_op wt f s = (case f (fl_client (hv_flow s)) of (op, c) \<Rightarrow>
     (upd_flow (upd_client (\<lambda>_. c)) s)\<lparr>hv_wait := wt, hv_op := Some op\<rparr>)"

definition start_server_op :: "http_wait \<Rightarrow> (server_conn \<Rightarrow> io_op \<times> server_conn) \<Rightarrow> http_service \<Rightarrow> http_service" where
  "start_server_op wt f s = (case f (fl_server (hv_flow s)) of (op, c) \<Rightarrow>
     (upd_flow (upd_server (\<lambda>_. c)) s)\<lparr>hv_wait := wt, hv_op := Some op\<rparr>)"

definition http_stop :: "http_service \<Rightarrow> http_service" where
  "http_stop s = (upd_flow flow_disconnect s)\<lparr>hv_wait := W_stopped, hv_op := None\<rparr>"

definition http_switch :: "service_kind \<Rightarrow> http_service \<Rightarrow> http_service" where
  "http_switch k s = s\<lparr>hv_wait := W_switched k, hv_op := None\<rparr>"

definition http_crash :: "error_state failure \<Rightarrow> http_service \<Rightarrow> http_service" where
  "http_crash f s = s\<lparr>hv_wait := W_crashed f, hv_op := None\<rparr>"

section \<open>Error responses\<close>

definition error_page :: "status \<Rightarrow> string \<Rightarrow> string" where
  "error_page response_status msg =
     (let reason = (case status_to_reason response_status of Inr r \<Rightarrow> r | Inl _ \<Rightarrow> ''Unknown status code'');
          title = status_to_string response_status @ '' '' @ reason
      in ''<html><head>'' @ ''<title>'' @ title @ ''</title>'' @ ''</head><body>'' @ ''<h1>'' @ title @ ''</h1>''
         @ ''<p>'' @ msg @ ''</p>'' @ ''</body></html>'')"

definition error_response :: "status \<Rightarrow> string \<Rightarrow> response" where
  "error_response response_status msg =
     (let res = response_new\<lparr>res_status := response_status, msg_body := error_page response_status msg\<rparr>
      in set_content_length (add_header ''Content-Type'' ''text/html'' (add_header ''Connection'' ''close''
           (add_header ''Server'' full_server_name res))))"

definition send_error_response :: "http_env \<Rightarrow> status \<Rightarrow> string \<Rightarrow> http_service \<Rightarrow> http_service" where
  "send_error_response env response_status msg s =
     (let res = error_response response_status msg;
          s1 = upd_exchange (set_response res) s;
          s2 = upd_flow (upd_client (conn_put (response_to_string res))) s1
      in start_client_op W_error_response (write_async (he_timeouts env)) s2)"

definition on_write_error_response :: "http_env \<Rightarrow> http_service \<Rightarrow> http_service" where
  "on_write_error_response env s = http_stop (run_http env Http_error s)"

text \<open>What every method does with an error of an inner one.\<close>

definition fail_with :: "http_env \<Rightarrow> status \<Rightarrow> error_state failure \<Rightarrow> http_service \<Rightarrow> http_service" where
  "fail_with env st f s = (case f of
     Error e \<Rightarrow> send_error_response env st (error_message (he_error_text env) e) (upd_flow (set_flow_error (\<lambda>_. e)) s)
   | _ \<Rightarrow> http_crash f s)"

text \<open>The answer to an error of the library: the first status if it is a timeout, else the second.\<close>

definition io_error :: "http_env \<Rightarrow> status \<Rightarrow> status \<Rightarrow> boost_error \<Rightarrow> http_service \<Rightarrow> http_service" where
  "io_error env timeout_status other_status e s =
     (let s1 = upd_flow (set_flow_error (set_boost_error e)) s in
      send_error_response env (if e = Boost_operation_aborted then timeout_status else other_status) (he_error_text env e) s1)"

section \<open>The response\<close>

definition forward_response :: "http_env \<Rightarrow> http_service \<Rightarrow> http_service" where
  "forward_response env s = (case get_response s of (r, s1) \<Rightarrow>
     start_client_op W_forward_response (write_async (he_timeouts env)) (upd_flow (upd_client (conn_put (response_to_string r))) s1))"

definition handle_response :: "http_env \<Rightarrow> http_service \<Rightarrow> http_service" where
  "handle_response env s = (case get_response s of (r, s1) \<Rightarrow>
     let req = ex_request (hv_exchange s1) in
     if should_close_connection req \<or> should_close_connection r then http_stop s1
     else if res_status r = status_switching_protocols then
       (if \<not> he_websocket_passthrough_strict env
          \<and> (\<not> he_websocket_passthrough env \<or> fl_intercept_websocket (hv_flow s1))
          \<and> is_handshake_request req \<and> is_handshake_response r
        then http_switch (Kind_websocket (hv_exchange s1)) s1
        else http_switch Kind_tunnel s1)
     else http_switch Kind_http s1)"

definition on_forward_response :: "http_env \<Rightarrow> boost_error \<Rightarrow> http_service \<Rightarrow> http_service" where
  "on_forward_response env e s = (if e \<noteq> Boost_success
     then http_stop (upd_flow (set_flow_error (set_boost_error e)) s) else handle_response env s)"

definition modify_response :: "http_env \<Rightarrow> http_service \<Rightarrow> http_service" where
  "modify_response env s = (case get_response s of (r, s1) \<Rightarrow>
     let r1 = set_header_to_value (server_name @ ''-Connection-Id'') (uuid_to_string (fl_id (hv_flow s1))) r in
     forward_response env (run_http env Http_response (upd_exchange (set_response r1) s1)))"

definition parse_server :: "'a hop \<Rightarrow> http_service \<Rightarrow> (error_state failure + 'a) \<times> http_service" where
  "parse_server op s = (case op \<lparr>hs_exchange = hv_exchange s, hs_parser = hv_parser s,
       hs_input = istream_of (cn_input (fl_server (hv_flow s)))\<rparr> of
     (r, st) \<Rightarrow> (r, (upd_flow (upd_server (\<lambda>c. c\<lparr>cn_input := in_data (hs_input st)\<rparr>)) s)
       \<lparr>hv_exchange := hs_exchange st, hv_parser := hs_parser st\<rparr>))"

definition parse_client :: "'a hop \<Rightarrow> http_service \<Rightarrow> (error_state failure + 'a) \<times> http_service" where
  "parse_client op s = (case op \<lparr>hs_exchange = hv_exchange s, hs_parser = hv_parser s,
       hs_input = istream_of (cn_input (fl_client (hv_flow s)))\<rparr> of
     (r, st) \<Rightarrow> (r, (upd_flow (upd_client (\<lambda>c. c\<lparr>cn_input := in_data (hs_input st)\<rparr>)) s)
       \<lparr>hv_exchange := hs_exchange st, hv_parser := hs_parser st\<rparr>))"

definition read_response_body :: "http_env \<Rightarrow> bool \<Rightarrow> http_service \<Rightarrow> http_service" where
  "read_response_body env eof s =
     (case parse_server (read_body (he_lcl env) (he_body_size_limit env) Mode_response) s of
        (Inl f, s1) \<Rightarrow> fail_with env status_internal_server_error f s1
      | (Inr fin, s1) \<Rightarrow>
          if fin then modify_response env s1
          else if eof then fail_with env status_internal_server_error
            (Error (set_proxy_error malformed_response_body (set_boost_error Boost_eof error_state_init))) s1
          else start_server_op W_response_body (read_async (he_timeouts env) default_buffer_size) s1)"

definition on_read_response_body :: "http_env \<Rightarrow> boost_error \<Rightarrow> nat \<Rightarrow> http_service \<Rightarrow> http_service" where
  "on_read_response_body env e n s =
     (if e \<noteq> Boost_success
      then (if e = Boost_eof then read_response_body env True s
            else io_error env status_gateway_timeout status_internal_server_error e s)
      else read_response_body env (n = 0) s)"

definition on_read_response_head :: "http_env \<Rightarrow> boost_error \<Rightarrow> http_service \<Rightarrow> http_service" where
  "on_read_response_head env e s =
     (if e \<noteq> Boost_success then io_error env status_gateway_timeout status_internal_server_error e s
      else case parse_server (read_response_line (he_lc env)) (upd_exchange make_response s) of
        (Inl f, s1) \<Rightarrow> fail_with env status_internal_server_error f s1
      | (Inr _, s1) \<Rightarrow>
          (case parse_server (read_headers Mode_response) s1 of
             (Inl f, s2) \<Rightarrow> fail_with env status_internal_server_error f s2
           | (Inr _, s2) \<Rightarrow> read_response_body env False s2))"

definition read_response_head :: "http_env \<Rightarrow> http_service \<Rightarrow> http_service" where
  "read_response_head env = start_server_op W_response_head (read_until_async (he_timeouts env) CRLF_CRLF)"

section \<open>Forwarding the request\<close>

definition on_forward_request :: "http_env \<Rightarrow> boost_error \<Rightarrow> http_service \<Rightarrow> http_service" where
  "on_forward_request env e s =
     (if e \<noteq> Boost_success then io_error env status_gateway_timeout status_internal_server_error e s
      else read_response_head env s)"

definition forward_request :: "http_env \<Rightarrow> http_service \<Rightarrow> http_service" where
  "forward_request env s = start_server_op W_forward_request (write_async (he_timeouts env))
     (upd_flow (upd_server (conn_put (request_to_string (ex_request (hv_exchange s))))) s)"

definition on_connect_server :: "http_env \<Rightarrow> boost_error \<Rightarrow> http_service \<Rightarrow> http_service" where
  "on_connect_server env e s =
     (if e \<noteq> Boost_success then io_error env status_gateway_timeout status_bad_gateway e s else forward_request env s)"

definition connect_server :: "http_env \<Rightarrow> http_service \<Rightarrow> http_service" where
  "connect_server env s = (case flow_connect_server_async (he_timeouts env) (he_peek env (hv_flow s)) (hv_flow s) of
     (step, w) \<Rightarrow> s\<lparr>hv_flow := w, hv_wait := W_connect step, hv_op := None\<rparr>)"

section \<open>The request\<close>

definition http_set_server :: "http_env \<Rightarrow> http_service \<Rightarrow> unit result \<times> http_service" where
  "http_set_server env s = (let req = ex_request (hv_exchange s) in
     case base_set_server (he_server_hook env) (he_port env) (host_name req) (host_port req) (hv_flow s) of
       (r, w) \<Rightarrow> (r, s\<lparr>hv_flow := w\<rparr>))"

definition send_connect_response :: "http_env \<Rightarrow> http_service \<Rightarrow> http_service" where
  "send_connect_response env s = (case get_response s of (r, s1) \<Rightarrow>
     start_client_op W_connect_response (write_async (he_timeouts env)) (upd_flow (upd_client (conn_put (response_to_string r))) s1))"

text \<open>The write's error is not looked at.\<close>

definition on_send_connect_response :: "http_env \<Rightarrow> boost_error \<Rightarrow> http_service \<Rightarrow> http_service" where
  "on_send_connect_response env e s = (case get_response s of (r, s1) \<Rightarrow>
     if is_2xx r then
       (if ex_mask_connect (hv_exchange s1) then http_switch Kind_http s1
        else if he_ssl_passthrough_strict env \<or> he_ssl_passthrough env \<and> \<not> fl_intercept_tls (hv_flow s1)
        then http_switch Kind_tunnel s1
        else http_switch Kind_tls s1)
     else if is_3xx r then http_switch Kind_http s1
     else http_stop s1)"

definition set_url_scheme :: "flow \<Rightarrow> url \<Rightarrow> url" where
  "set_url_scheme w target = (if url_form target \<noteq> Authority_form \<and> url_scheme target = []
     then target\<lparr>url_scheme := (if secured (fl_server w) then ''https'' else ''http'')\<rparr> else target)"

definition set_url_port :: "flow \<Rightarrow> url \<Rightarrow> url" where
  "set_url_port w target = (if has_port (url_netloc target) then target
     else target\<lparr>url_netloc := (url_netloc target)\<lparr>nl_port :=
       Some (if url_scheme target = ''https'' \<or> secured (fl_server w) then 443 else 80)\<rparr>\<rparr>)"

definition validate_target :: "http_env \<Rightarrow> http_service \<Rightarrow> unit result \<times> http_service" where
  "validate_target env s =
     (let req = ex_request (hv_exchange s); target = req_target req;
          finish = (\<lambda>target s. (Inr (), upd_req (req_target_update (\<lambda>_. set_url_port (hv_flow s) (set_url_scheme (hv_flow s) target))) s))
      in if url_form target = Absolute_form then
           finish (target\<lparr>url_form := Origin_form\<rparr>)
             (if has_header ''Host'' req then s
              else upd_req (set_header_to_value ''Host'' (to_host_string (url_netloc target))) s)
         else if url_form target = Origin_form \<and> \<not> has_hostname (url_netloc target) then
           (if \<not> has_header ''Host'' req then (err_with invalid_target_host ''No host given.'', s)
            else case get_header ''Host'' req of
              Inl f \<Rightarrow> (Inl f, s)
            | Inr host_header \<Rightarrow> (case parse_netloc (he_lc env) host_header of
                Inl f \<Rightarrow> (Inl f, s)
              | Inr netloc \<Rightarrow> finish (target\<lparr>url_netloc := netloc\<rparr>) s))
         else finish target s)"

text \<open>The small response that is written at once.\<close>

definition write_continue :: "http_env \<Rightarrow> http_service \<Rightarrow> boost_error \<times> http_service" where
  "write_continue env s =
     (let s1 = upd_flow (upd_client (conn_put (response_to_string continue_response))) s;
          (n, e) = he_sync_write env (cn_output (fl_client (hv_flow s1)))
      in (e, upd_flow (upd_client (\<lambda>c. snd (conn_write (he_timeouts env) n c))) s1))"

text \<open>\<open>handle_request_impl\<close>: the state behind it with its operation started, or the error.\<close>

definition handle_connect :: "http_env \<Rightarrow> http_service \<Rightarrow> unit result \<times> http_service" where
  "handle_connect env s = (case http_set_server env (run_http env Http_connect s) of
     (Inl f, s1) \<Rightarrow> (Inl f, s1)
   | (Inr _, s1) \<Rightarrow>
       (Inr (), send_connect_response env (if has_response (hv_exchange s1) then s1
         else upd_exchange (set_response connect_response) s1)))"

definition handle_plain :: "http_env \<Rightarrow> http_service \<Rightarrow> unit result \<times> http_service" where
  "handle_plain env s = (case http_set_server env (run_http env Http_request s) of
     (Inl f, s1) \<Rightarrow> (Inl f, s1)
   | (Inr _, s1) \<Rightarrow>
       (Inr (), if has_response (hv_exchange s1) then forward_response env s1
         else connect_server env (if is_handshake_request (ex_request (hv_exchange s1))
           then run_http env Http_websocket_handshake s1 else s1)))"

definition handle_request_impl :: "http_env \<Rightarrow> http_service \<Rightarrow> unit result \<times> http_service" where
  "handle_request_impl env s = (case validate_target env s of
     (Inl f, s1) \<Rightarrow> (Inl f, s1)
   | (Inr _, s1) \<Rightarrow>
       let s2 = upd_req (add_header ''Via'' (''1.1 '' @ lowercase_name)) (run_http env Http_any_request s1);
           req = ex_request (hv_exchange s2)
       in if url_form (req_target req) = Authority_form then handle_connect env s2
          else if header_has_value ''Expect'' ''100-continue'' False req then
            (case write_continue env s2 of (e, s3) \<Rightarrow>
               (Inr (), if e \<noteq> Boost_success then http_stop s3 else upd_req (remove_header ''Expect'') s3))
          else handle_plain env s2)"

definition handle_request :: "http_env \<Rightarrow> http_service \<Rightarrow> http_service" where
  "handle_request env s = (case handle_request_impl env s of
     (Inl f, s1) \<Rightarrow> fail_with env status_bad_request f s1
   | (Inr _, s1) \<Rightarrow> s1)"

definition read_request_body :: "http_env \<Rightarrow> http_service \<Rightarrow> http_service" where
  "read_request_body env s =
     (case parse_client (read_body (he_lcl env) (he_body_size_limit env) Mode_request) s of
        (Inl f, s1) \<Rightarrow> fail_with env status_bad_request f s1
      | (Inr fin, s1) \<Rightarrow>
          if fin then handle_request env s1
          else start_client_op W_request_body (read_async (he_timeouts env) default_buffer_size) s1)"

definition on_read_request_body :: "http_env \<Rightarrow> boost_error \<Rightarrow> http_service \<Rightarrow> http_service" where
  "on_read_request_body env e s =
     (if e \<noteq> Boost_success then io_error env status_request_timeout status_bad_request e s else read_request_body env s)"

definition on_read_request_head :: "http_env \<Rightarrow> boost_error \<Rightarrow> nat \<Rightarrow> http_service \<Rightarrow> http_service" where
  "on_read_request_head env e n s =
     (if e \<noteq> Boost_success then
        (if n = 0 then http_stop s else io_error env status_request_timeout status_bad_request e s)
      else case parse_client (read_request_line (he_lc env)) s of
        (Inl f, s1) \<Rightarrow> fail_with env status_bad_request f s1
      | (Inr _, s1) \<Rightarrow>
          (case parse_client (read_headers Mode_request) s1 of
             (Inl f, s2) \<Rightarrow> fail_with env status_bad_request f s2
           | (Inr _, s2) \<Rightarrow> read_request_body env s2))"

definition read_request_head :: "http_env \<Rightarrow> http_service \<Rightarrow> http_service" where
  "read_request_head env = start_client_op W_request_head (read_until_async (he_timeouts env) CRLF_CRLF)"

definition http_start :: "http_env \<Rightarrow> http_service \<Rightarrow> http_service" where
  "http_start env s = (if has_proxy_error (fl_error (hv_flow s))
     then send_error_response env status_bad_gateway (get_message_or_proxy (fl_error (hv_flow s))) s
     else read_request_head env s)"


section \<open>Steps\<close>

text \<open>
  Results of the library: bytes read with the error and the byte count of the callback, the number
  of bytes taken from the output buffer, the endpoints of a name, the end of a connection attempt, and
  a posted handler that is run.
\<close>

datatype io_event =
  Ev_read string boost_error nat
| Ev_write nat boost_error
| Ev_resolved boost_error "endpoint list"
| Ev_connected boost_error
| Ev_posted

definition client_read :: "string \<Rightarrow> boost_error \<Rightarrow> http_service \<Rightarrow> http_service" where
  "client_read got e = upd_flow (upd_client (on_read_need_to_commit got e))"

definition server_read :: "string \<Rightarrow> boost_error \<Rightarrow> http_service \<Rightarrow> http_service" where
  "server_read got e = upd_flow (upd_server (on_read_need_to_commit got e))"

definition client_wrote :: "nat \<Rightarrow> boost_error \<Rightarrow> http_service \<Rightarrow> http_service" where
  "client_wrote n e = upd_flow (upd_client (\<lambda>c. conn_on_write False e (c\<lparr>cn_output := drop n (cn_output c)\<rparr>)))"

definition server_wrote :: "nat \<Rightarrow> boost_error \<Rightarrow> http_service \<Rightarrow> http_service" where
  "server_wrote n e = upd_flow (upd_server (\<lambda>c. conn_on_write False e (c\<lparr>cn_output := drop n (cn_output c)\<rparr>)))"

definition connect_continue :: "(server_conn \<Rightarrow> connect_step \<times> server_conn) \<Rightarrow> http_service \<Rightarrow> http_service" where
  "connect_continue f s = (case f (fl_server (hv_flow s)) of
     (step, c) \<Rightarrow> (upd_flow (upd_server (\<lambda>_. c)) s)\<lparr>hv_wait := W_connect step\<rparr>)"

definition running :: "http_service \<Rightarrow> http_service" where
  "running s = s\<lparr>hv_wait := W_none, hv_op := None\<rparr>"

definition http_step :: "http_env \<Rightarrow> io_event \<Rightarrow> http_service \<Rightarrow> http_service" where
  "http_step env ev s = (case (hv_wait s, ev) of
     (W_request_head, Ev_read got e n) \<Rightarrow> on_read_request_head env e n (client_read got e (running s))
   | (W_request_body, Ev_read got e n) \<Rightarrow> on_read_request_body env e (client_read got e (running s))
   | (W_connect (Resolving host port), Ev_resolved e eps) \<Rightarrow> connect_continue (on_resolve (he_timeouts env) e eps) s
   | (W_connect (Connecting ep rest), Ev_connected e) \<Rightarrow> connect_continue (on_connect (he_timeouts env) e rest) s
   | (W_connect (Connect_posted e), Ev_posted) \<Rightarrow>
       on_connect_server env e (upd_flow (base_on_connect_server (he_server_hook env) e) (running s))
   | (W_forward_request, Ev_write n e) \<Rightarrow> on_forward_request env e (server_wrote n e (running s))
   | (W_response_head, Ev_read got e n) \<Rightarrow> on_read_response_head env e (server_read got e (running s))
   | (W_response_body, Ev_read got e n) \<Rightarrow> on_read_response_body env e n (server_read got e (running s))
   | (W_forward_response, Ev_write n e) \<Rightarrow> on_forward_response env e (client_wrote n e (running s))
   | (W_connect_response, Ev_write n e) \<Rightarrow> on_send_connect_response env e (client_wrote n e (running s))
   | (W_error_response, Ev_write n e) \<Rightarrow> on_write_error_response env (client_wrote n e (running s))
   | _ \<Rightarrow> s)"

text \<open>The states of a service that is started on a flow.\<close>

inductive http_reachable :: "http_env \<Rightarrow> http_service \<Rightarrow> bool" for env where
  started: "http_reachable env (http_start env (http_service_new m form w))"
| stepped: "http_reachable env s \<Longrightarrow> http_reachable env (http_step env ev s)"

end
