(* ===== verification/Http_Service_Facts.thy ===== *)
theory Http_Service_Facts
  imports Http_Service
begin

text \<open>
  The state machine of the HTTP service: what it waits for, that it goes on, and how it ends.
\<close>

section \<open>The invariant\<close>

definition timed :: "'c conn_scheme \<Rightarrow> bool" where
  "timed c \<longleftrightarrow> cn_mode c = Io_no_timeout \<or> tm_wait (cn_timer c)"

definition reading :: "'c conn_scheme \<Rightarrow> bool" where
  "reading c \<longleftrightarrow> cn_read_state c = Op_pending \<and> timed c"

definition writing :: "'c conn_scheme \<Rightarrow> bool" where
  "writing c \<longleftrightarrow> cn_write_state c = Op_pending \<and> timed c"

fun wait_ok :: "http_wait \<Rightarrow> io_op option \<Rightarrow> flow \<Rightarrow> exchange \<Rightarrow> bool" where
  "wait_ok W_request_head op w e = (reading (fl_client w) \<and> (\<exists>ch. op = Some (Async_read_until ch CRLF_CRLF)))"
| "wait_ok W_request_body op w e = (reading (fl_client w) \<and> (\<exists>ch. op = Some (Async_read_some ch default_buffer_size)))"
| "wait_ok (W_connect step) op w e = (op = None \<and> ((\<exists>b. step = Connect_posted b) \<or> timed (fl_server w)))"
| "wait_ok W_forward_request op w e = (writing (fl_server w) \<and> (\<exists>ch. op = Some (Async_write ch)))"
| "wait_ok W_response_head op w e = (reading (fl_server w) \<and> (\<exists>ch. op = Some (Async_read_until ch CRLF_CRLF)))"
| "wait_ok W_response_body op w e =
     (reading (fl_server w) \<and> (\<exists>ch. op = Some (Async_read_some ch default_buffer_size)) \<and> has_response e)"
| "wait_ok W_forward_response op w e = (writing (fl_client w) \<and> (\<exists>ch. op = Some (Async_write ch)) \<and> has_response e)"
| "wait_ok W_connect_response op w e = (writing (fl_client w) \<and> (\<exists>ch. op = Some (Async_write ch)) \<and> has_response e)"
| "wait_ok W_error_response op w e = (writing (fl_client w) \<and> (\<exists>ch. op = Some (Async_write ch)) \<and> has_response e)"
| "wait_ok W_stopped op w e = (op = None \<and> \<not> cn_open (fl_client w) \<and> \<not> cn_open (fl_server w))"
| "wait_ok W_none op w e = (op = None)"
| "wait_ok (W_switched k) op w e = (op = None)"
| "wait_ok (W_crashed f) op w e = (op = None)"

definition service_ok :: "http_service \<Rightarrow> bool" where
  "service_ok s \<longleftrightarrow> wait_ok (hv_wait s) (hv_op s) (hv_flow s) (hv_exchange s)"

lemma timed_set_timeout [simp]: "timed (conn_set_timeout opts c)"
  by (cases "cn_mode c") (simp_all add: timed_def conn_set_timeout_def upd_timer_def timer_set_timeout_def)

lemma state_set_timeout [simp]: "cn_read_state (conn_set_timeout opts c) = cn_read_state c"
  "cn_write_state (conn_set_timeout opts c) = cn_write_state c"
  by (auto simp: conn_set_timeout_def upd_timer_def split: io_mode.split)

lemma started_ops:
  "read_until_async opts d c = (op, c1) \<Longrightarrow> reading c1 \<and> (\<exists>ch. op = Async_read_until ch d)"
  "read_async opts n c = (op, c1) \<Longrightarrow> reading c1 \<and> (\<exists>ch. op = Async_read_some ch n)"
  "write_async opts c = (op, c1) \<Longrightarrow> writing c1 \<and> (\<exists>ch. op = Async_write ch)"
  by (auto simp: read_until_async_def read_async_def write_async_def reading_def writing_def set_reading_def set_writing_def)

lemma has_response_set [simp]: "has_response (set_response r e)"
  by (simp add: has_response_def set_response_def)

lemma get_response_facts:
  "get_response s = (r, s1) \<Longrightarrow> has_response (hv_exchange s1) \<and> hv_flow s1 = hv_flow s \<and> hv_parser s1 = hv_parser s
     \<and> hv_wait s1 = hv_wait s \<and> hv_op s1 = hv_op s \<and> ex_request (hv_exchange s1) = ex_request (hv_exchange s)
     \<and> ex_response (hv_exchange s1) = Some r"
  by (auto simp: get_response_def exchange_response_def has_response_def make_response_def split: option.splits prod.splits)

text \<open>Whatever the state before: how each way out leaves the service.\<close>

lemma stop_ok [simp]: "service_ok (http_stop s)" "hv_wait (http_stop s) = W_stopped"
  by (simp_all add: service_ok_def http_stop_def upd_flow_def flow_disconnect_def upd_server_def upd_client_def)

lemma switch_ok [simp]: "service_ok (http_switch k s)" "hv_wait (http_switch k s) = W_switched k"
  by (simp_all add: service_ok_def http_switch_def)

lemma crash_ok [simp]: "service_ok (http_crash f s)" "hv_wait (http_crash f s) = W_crashed f"
  by (simp_all add: service_ok_def http_crash_def)

lemma start_client_op_frame [simp]: "hv_wait (start_client_op wt f s) = wt" "hv_exchange (start_client_op wt f s) = hv_exchange s"
  by (simp_all add: start_client_op_def upd_flow_def split: prod.split)

lemma start_server_op_frame [simp]: "hv_wait (start_server_op wt f s) = wt" "hv_exchange (start_server_op wt f s) = hv_exchange s"
  by (simp_all add: start_server_op_def upd_flow_def split: prod.split)

lemma start_client_ok:
  "wt \<in> {W_forward_response, W_connect_response, W_error_response} \<Longrightarrow> has_response (hv_exchange s) \<Longrightarrow>
     service_ok (start_client_op wt (write_async opts) s)"
  "service_ok (start_client_op W_request_head (read_until_async opts CRLF_CRLF) s)"
  "service_ok (start_client_op W_request_body (read_async opts default_buffer_size) s)"
  by (auto simp: service_ok_def start_client_op_def upd_flow_def upd_client_def split: prod.split dest: started_ops)

lemma start_server_ok:
  "service_ok (start_server_op W_forward_request (write_async opts) s)"
  "service_ok (start_server_op W_response_head (read_until_async opts CRLF_CRLF) s)"
  "has_response (hv_exchange s) \<Longrightarrow> service_ok (start_server_op W_response_body (read_async opts default_buffer_size) s)"
  by (auto simp: service_ok_def start_server_op_def upd_flow_def upd_server_def split: prod.split dest: started_ops)

lemma upd_flow_frame [simp]: "hv_exchange (upd_flow f s) = hv_exchange s" "hv_wait (upd_flow f s) = hv_wait s"
  "hv_op (upd_flow f s) = hv_op s" "hv_flow (upd_flow f s) = f (hv_flow s)" "hv_parser (upd_flow f s) = hv_parser s"
  by (simp_all add: upd_flow_def)

lemma upd_exchange_frame [simp]: "hv_exchange (upd_exchange f s) = f (hv_exchange s)" "hv_wait (upd_exchange f s) = hv_wait s"
  "hv_op (upd_exchange f s) = hv_op s" "hv_flow (upd_exchange f s) = hv_flow s" "hv_parser (upd_exchange f s) = hv_parser s"
  by (simp_all add: upd_exchange_def)

text \<open>\<open>answered\<close>: the service is in order and has not been left without anything to wait for.\<close>

definition answered :: "http_service \<Rightarrow> bool" where
  "answered s \<longleftrightarrow> service_ok s \<and> hv_wait s \<noteq> W_none"

lemma answered_simps [simp]: "answered (http_stop s)" "answered (http_switch k s)" "answered (http_crash f s)"
  by (simp_all add: answered_def)

lemma send_error_answered [simp]: "answered (send_error_response env st msg s)"
  by (simp add: answered_def send_error_response_def start_client_ok Let_def)

lemma fail_answered [simp]: "answered (fail_with env st f s)"
  by (simp add: fail_with_def split: failure.split)

lemma io_error_answered [simp]: "answered (io_error env a b e s)"
  by (simp add: io_error_def Let_def)

lemma forward_response_answered [simp]: "answered (forward_response env s)"
  by (auto simp: forward_response_def answered_def split: prod.split dest: get_response_facts intro!: start_client_ok)

lemma modify_response_answered [simp]: "answered (modify_response env s)"
  by (simp add: modify_response_def Let_def split: prod.split)

lemma handle_response_answered [simp]: "answered (handle_response env s)"
  by (simp add: handle_response_def Let_def split: prod.split)

lemma send_connect_answered [simp]: "answered (send_connect_response env s)"
  by (auto simp: send_connect_response_def answered_def split: prod.split dest: get_response_facts intro!: start_client_ok)

lemma forward_request_answered [simp]: "answered (forward_request env s)"
  by (simp add: forward_request_def answered_def start_server_ok)

lemma connect_server_answered [simp]: "answered (connect_server env s)"
  by (auto simp: answered_def service_ok_def connect_server_def flow_connect_server_async_def connect_async_def Let_def
    split: prod.split if_splits)

section \<open>The parser keeps the response\<close>

definition keeps_response :: "'a hop \<Rightarrow> bool" where
  "keeps_response op \<longleftrightarrow> (\<forall>st. has_response (hs_exchange st) \<longrightarrow> has_response (hs_exchange (snd (op st))))"

lemma keeps_sbind: "keeps_response m \<Longrightarrow> (\<And>x. keeps_response (f x)) \<Longrightarrow> keeps_response (sbind m f)"
  by (auto simp: keeps_response_def sbind_def split: prod.split sum.split)

lemma keeps_if: "keeps_response a \<Longrightarrow> keeps_response b \<Longrightarrow> keeps_response (if c then a else b)"
  by simp

lemma keeps_sreturn: "keeps_response (sreturn x)"
  by (simp add: keeps_response_def sreturn_def)

lemma keeps_of_result: "keeps_response (of_result r)"
  by (simp add: keeps_response_def of_result_def)

lemma keeps_segment: "keeps_response (on_segment get upd rd)"
  by (auto simp: keeps_response_def on_segment_def split: option.split)

lemma keeps_updates [simp]:
  "has_response (hs_exchange (upd_parser f st)) = has_response (hs_exchange st)"
  "has_response (hs_exchange (set_hp_state g st)) = has_response (hs_exchange st)"
  "has_response (hs_exchange (upd_request h st)) = has_response (hs_exchange st)"
  "has_response (hs_exchange (upd_response k st))"
  "has_response (hs_exchange st) \<Longrightarrow> has_response (hs_exchange (upd_message mode h k st))"
  by (simp_all add: set_hp_state_def upd_request_def upd_response_def upd_message_def has_response_def set_response_def
    Let_def split: prod.split)

lemma keeps_mode: "keeps_response (get_data_for_mode mode)"
  by (auto simp: keeps_response_def get_data_for_mode_def split: message_mode.split)

lemma keeps_line: "keeps_response (read_response_line lc)"
  unfolding read_response_line_def
  by (intro keeps_sbind keeps_segment keeps_if keeps_sreturn keeps_of_result)
    (simp add: keeps_response_def of_result_def sbind_def split: prod.split sum.split)

lemma keeps_headers_loop: "has_response (hs_exchange st) \<Longrightarrow> has_response (hs_exchange (snd (read_headers_loop mode st)))"
proof (induction mode st rule: read_headers_loop.induct)
  case (1 mode st)
  obtain r st1 where l: "read_header_line st = (r, st1)" by fastforce
  then have h: "has_response (hs_exchange st1)"
    using keeps_segment "1.prems" by (metis keeps_response_def read_header_line_def snd_conv)
  show ?case
    using "1.IH"[OF l[symmetric]] h l
    by (subst read_headers_loop.simps) (auto simp: Let_def split: sum.split option.split)
qed

lemma keeps_headers: "keeps_response (read_headers mode)"
  unfolding read_headers_def by (intro keeps_sbind keeps_mode) (simp add: keeps_response_def keeps_headers_loop)

lemma keeps_cond: "keeps_response f \<Longrightarrow> keeps_response (\<lambda>st. if P st then (r st, st) else f st)"
  by (simp add: keeps_response_def)

lemma keeps_same: "(\<And>st. snd (f st) = st) \<Longrightarrow> keeps_response f"
  by (simp add: keeps_response_def)

lemma keeps_expected: "keeps_response (expected_body_size lcl mode)"
  unfolding expected_body_size_def Let_def
  by (rule keeps_cond, rule keeps_cond, rule keeps_sbind, rule keeps_mode, rule keeps_same)
    (simp only: if_distrib[of snd] option.case_eq_if snd_conv if_cancel)

lemma keeps_start_body: "keeps_response (start_body lcl limit mode)"
proof -
  have "keeps_response (expected_body_size lcl mode)" by (rule keeps_expected)
  then show ?thesis
    by (auto simp: keeps_response_def start_body_def sbind_def split: prod.split sum.split)
qed

lemma keeps_one_chunk: "keeps_response (read_one_chunk limit)"
proof -
  have h: "keeps_response (read_chunk_header limit)"
    using keeps_segment[of chunk_header_buf chunk_header_buf_update until_crlf]
    by (auto simp: keeps_response_def read_chunk_header_def sbind_def Let_def split: prod.split sum.split)
  have b: "keeps_response read_body_bytes"
    by (auto simp: keeps_response_def read_body_bytes_def on_segment_def split: option.split)
  show ?thesis
    unfolding read_one_chunk_def
    by (intro keeps_sbind h keeps_if keeps_sreturn b keeps_segment) (simp add: keeps_response_def Let_def)
qed

lemma keeps_chunks: "has_response (hs_exchange st) \<Longrightarrow> has_response (hs_exchange (snd (read_chunks limit st)))"
proof (induction limit st rule: read_chunks.induct)
  case (1 limit st)
  obtain r st1 where l: "read_one_chunk limit st = (r, st1)" by fastforce
  then have "has_response (hs_exchange st1)" using keeps_one_chunk "1.prems" by (metis keeps_response_def snd_conv)
  with "1.IH"[OF l[symmetric]] l show ?case by (subst read_chunks.simps) (auto split: sum.split option.split)
qed

lemma keeps_finish: "keeps_response (finish_body mode)"
proof -
  have "keeps_response (get_data_for_mode mode)" by (rule keeps_mode)
  then show ?thesis
    by (auto simp: keeps_response_def finish_body_def sbind_def Let_def split: prod.split sum.split)
qed

lemma keeps_body: "keeps_response (read_body lcl limit mode)"
proof -
  have "keeps_response (read_until_end limit)"
    by (auto simp: keeps_response_def read_until_end_def Let_def split: prod.split)
  moreover have "keeps_response read_given"
    unfolding read_given_def by (rule keeps_sbind) (auto simp: keeps_response_def read_body_bytes_def on_segment_def split: option.split)
  moreover have "keeps_response (read_chunks limit)" using keeps_chunks by (simp add: keeps_response_def)
  ultimately have k: "keeps_response (sbind (case t of Body_chunked \<Rightarrow> read_chunks limit | Body_given \<Rightarrow> read_given | _ \<Rightarrow> read_until_end limit)
      (\<lambda>_. finish_body mode))" for t
    by (intro keeps_sbind keeps_finish) (simp split: body_size_type.split)
  have "keeps_response (\<lambda>st. sbind (case bp_type (hp_state (hs_parser st)) of Body_chunked \<Rightarrow> read_chunks limit
      | Body_given \<Rightarrow> read_given | _ \<Rightarrow> read_until_end limit) (\<lambda>_. finish_body mode) st)"
    using k by (simp add: keeps_response_def)
  then show ?thesis
    unfolding read_body_def by (intro keeps_sbind keeps_start_body keeps_if keeps_sreturn)
qed

lemma parse_server_keeps:
  "keeps_response op \<Longrightarrow> has_response (hv_exchange s) \<Longrightarrow> parse_server op s = (r, s1) \<Longrightarrow> has_response (hv_exchange s1)"
  by (auto simp: parse_server_def keeps_response_def split: prod.splits)
    (metis hstate.select_convs(1) snd_conv)

section \<open>Every callback answers\<close>

lemma read_response_body_answered [simp]: "has_response (hv_exchange s) \<Longrightarrow> answered (read_response_body env eof s)"
  using parse_server_keeps[OF keeps_body]
  by (fastforce simp: read_response_body_def answered_def[of "start_server_op _ _ _"] start_server_ok split: prod.split sum.split)

lemma on_read_response_head_answered [simp]: "answered (on_read_response_head env e s)"
proof -
  have "has_response (hv_exchange s1)" if "parse_server (read_response_line (he_lc env)) (upd_exchange make_response s) = (r, s1)" for r s1
    using parse_server_keeps[OF keeps_line _ that] by (simp add: make_response_def has_response_def)
  with parse_server_keeps[OF keeps_headers] show ?thesis
    by (fastforce simp: on_read_response_head_def split: prod.split sum.split)
qed


lemma on_read_response_body_answered:
  "has_response (hv_exchange s) \<Longrightarrow> answered (on_read_response_body env e n s)"
  by (simp add: on_read_response_body_def)

lemma on_forward_response_answered [simp]: "answered (on_forward_response env e s)"
  by (simp add: on_forward_response_def)

lemma on_forward_request_answered [simp]: "answered (on_forward_request env e s)"
  by (simp add: on_forward_request_def read_response_head_def answered_def[of "start_server_op _ _ _"] start_server_ok)

lemma on_connect_server_answered [simp]: "answered (on_connect_server env e s)"
  by (simp add: on_connect_server_def)

lemma on_send_connect_answered [simp]: "answered (on_send_connect_response env e s)"
  by (simp add: on_send_connect_response_def split: prod.split)

lemma on_write_error_answered [simp]: "answered (on_write_error_response env s)"
  by (simp add: on_write_error_response_def)

text \<open>Where the service stops without an answer: behind the interim response of a request that expects it.\<close>

definition left_waiting :: "http_env \<Rightarrow> http_service \<Rightarrow> bool" where
  "left_waiting env s \<longleftrightarrow> (\<exists>s2. header_has_value ''Expect'' ''100-continue'' False (ex_request (hv_exchange s2))
     \<and> hv_wait s2 = W_none \<and> hv_op s2 = None
     \<and> fst (write_continue env s2) = Boost_success \<and> s = upd_req (remove_header ''Expect'') (snd (write_continue env s2)))"

definition idle_state :: "http_service \<Rightarrow> bool" where
  "idle_state s \<longleftrightarrow> hv_wait s = W_none \<and> hv_op s = None"

lemma run_http_frame [simp]: "hv_wait (run_http env ev s) = hv_wait s" "hv_op (run_http env ev s) = hv_op s"
  by (simp_all add: run_http_def split: prod.split)

lemma upd_req_frame [simp]: "hv_wait (upd_req f s) = hv_wait s" "hv_op (upd_req f s) = hv_op s" "hv_flow (upd_req f s) = hv_flow s"
  by (simp_all add: upd_req_def)

lemma validate_frame: "validate_target env s = (r, s1) \<Longrightarrow> hv_wait s1 = hv_wait s \<and> hv_op s1 = hv_op s"
  by (auto simp: validate_target_def Let_def split: if_splits sum.splits)

lemma handle_connect_answered: "handle_connect env s = (Inr u, s1) \<Longrightarrow> answered s1"
  by (auto simp: handle_connect_def split: prod.splits sum.splits)

lemma handle_plain_answered: "handle_plain env s = (Inr u, s1) \<Longrightarrow> answered s1"
  by (auto simp: handle_plain_def split: prod.splits sum.splits if_splits)

lemma write_continue_frame: "write_continue env s = (e, s1) \<Longrightarrow> hv_wait s1 = hv_wait s \<and> hv_op s1 = hv_op s"
  by (auto simp: write_continue_def Let_def split: prod.splits)

lemma handle_request_cases:
  assumes "idle_state s"
  shows "answered (handle_request env s) \<or> left_waiting env (handle_request env s)"
proof -
  obtain r s1 where h: "handle_request_impl env s = (r, s1)" by fastforce
  show ?thesis
  proof (cases r)
    case (Inl f)
    with h show ?thesis by (simp add: handle_request_def)
  next
    case (Inr u)
    from h Inr obtain s0 where v: "validate_target env s = (Inr (), s0)"
      by (auto simp: handle_request_impl_def split: prod.splits sum.splits)
    let ?s2 = "upd_req (add_header ''Via'' (''1.1 '' @ lowercase_name)) (run_http env Http_any_request s0)"
    have i: "hv_wait ?s2 = W_none" "hv_op ?s2 = None" using validate_frame[OF v] assms by (simp_all add: idle_state_def)
    have hr: "handle_request env s = s1" by (simp add: handle_request_def h Inr)
    consider "url_form (req_target (ex_request (hv_exchange ?s2))) = Authority_form"
      | "url_form (req_target (ex_request (hv_exchange ?s2))) \<noteq> Authority_form"
        "\<not> header_has_value ''Expect'' ''100-continue'' False (ex_request (hv_exchange ?s2))"
      | "url_form (req_target (ex_request (hv_exchange ?s2))) \<noteq> Authority_form"
        "header_has_value ''Expect'' ''100-continue'' False (ex_request (hv_exchange ?s2))" by blast
    then show ?thesis
    proof cases
      case 1
      with h Inr v have "handle_connect env ?s2 = (Inr u, s1)" by (simp add: handle_request_impl_def Let_def)
      then show ?thesis using hr handle_connect_answered by simp
    next
      case 2
      with h Inr v have "handle_plain env ?s2 = (Inr u, s1)" by (simp add: handle_request_impl_def Let_def)
      then show ?thesis using hr handle_plain_answered by simp
    next
      case 3
      obtain e s3 where w: "write_continue env ?s2 = (e, s3)" by fastforce
      with 3 h Inr v have s1: "s1 = (if e \<noteq> Boost_success then http_stop s3 else upd_req (remove_header ''Expect'') s3)"
        by (simp add: handle_request_impl_def Let_def)
      show ?thesis
      proof (cases "e = Boost_success")
        case True
        with 3 w i s1 hr show ?thesis by (auto simp: left_waiting_def intro!: exI[of _ ?s2])
      next
        case False
        with s1 hr show ?thesis by simp
      qed
    qed
  qed
qed

lemma parse_client_frame: "parse_client op s = (r, s1) \<Longrightarrow> hv_wait s1 = hv_wait s \<and> hv_op s1 = hv_op s"
  by (auto simp: parse_client_def split: prod.splits)

lemma read_request_body_cases:
  assumes "idle_state s"
  shows "answered (read_request_body env s) \<or> left_waiting env (read_request_body env s)"
proof -
  obtain r s1 where p: "parse_client (read_body (he_lcl env) (he_body_size_limit env) Mode_request) s = (r, s1)" by fastforce
  with assms parse_client_frame[OF p] have "idle_state s1" by (simp add: idle_state_def)
  with handle_request_cases[OF this] p show ?thesis
    by (auto simp: read_request_body_def answered_def[of "start_client_op _ _ _"] start_client_ok split: sum.split)
qed

lemma on_read_request_head_cases:
  assumes "idle_state s"
  shows "answered (on_read_request_head env e n s) \<or> left_waiting env (on_read_request_head env e n s)"
proof -
  obtain r1 s1 where p: "parse_client (read_request_line (he_lc env)) s = (r1, s1)" by fastforce
  obtain r2 s2 where q: "parse_client (read_headers Mode_request) s1 = (r2, s2)" by fastforce
  have "idle_state s2" using assms parse_client_frame[OF p] parse_client_frame[OF q] by (simp add: idle_state_def)
  with read_request_body_cases[OF this] p q show ?thesis
    by (auto simp: on_read_request_head_def split: sum.split)
qed

lemma idle_running [simp]: "idle_state (client_read got e (running s))" "idle_state (server_read got e (running s))"
  by (simp_all add: idle_state_def client_read_def server_read_def running_def)

lemma connect_continue_answered:
  assumes "\<And>c step c1. f c = (step, c1) \<Longrightarrow> (\<exists>b. step = Connect_posted b) \<or> timed c1" "hv_op s = None"
  shows "answered (connect_continue f s)"
  using assms by (auto simp: connect_continue_def answered_def service_ok_def upd_flow_def upd_server_def split: prod.split)

lemma on_resolve_timed: "on_resolve opts e eps c = (step, c1) \<Longrightarrow> (\<exists>b. step = Connect_posted b) \<or> timed c1"
  by (auto simp: on_resolve_def Let_def timed_def[of "_\<lparr>sv_endpoint := _, cn_open := _\<rparr>"] split: if_splits list.splits)
    (use timed_set_timeout in \<open>auto simp: timed_def\<close>)

lemma on_connect_timed: "on_connect opts e eps c = (step, c1) \<Longrightarrow> (\<exists>b. step = Connect_posted b) \<or> timed c1"
  by (auto simp: on_connect_def Let_def timed_def[of "_\<lparr>sv_endpoint := _, cn_open := _\<rparr>"] split: if_splits list.splits)
    (use timed_set_timeout in \<open>auto simp: timed_def\<close>)

lemma http_step_cases:
  assumes "service_ok s"
  shows "http_step env ev s = s \<or> answered (http_step env ev s) \<or> left_waiting env (http_step env ev s)"
proof -
  have r: "has_response (hv_exchange (server_read got e (running s)))" if "hv_wait s = W_response_body" for got e
    using assms that by (simp add: service_ok_def server_read_def running_def)
  have c: "hv_op s = None" if "hv_wait s = W_connect step" for step using assms that by (simp add: service_ok_def)
  have h: "answered (on_read_request_body env e (client_read got e (running s)))
      \<or> left_waiting env (on_read_request_body env e (client_read got e (running s)))" for got e
    by (simp add: on_read_request_body_def read_request_body_cases)
  show ?thesis
  proof (cases "hv_wait s")
    case W_request_head
    then show ?thesis using on_read_request_head_cases by (cases ev) (auto simp: http_step_def)
  next
    case W_request_body
    then show ?thesis using h by (cases ev) (auto simp: http_step_def)
  next
    case (W_connect step)
    then show ?thesis
      using c[OF W_connect] connect_continue_answered[OF on_resolve_timed] connect_continue_answered[OF on_connect_timed]
      by (cases step; cases ev) (auto simp: http_step_def)
  next
    case W_response_body
    then show ?thesis using r by (cases ev) (auto simp: http_step_def on_read_response_body_answered)
  qed (cases ev; simp add: http_step_def)+
qed

section \<open>Properties\<close>

lemma left_waiting_ok: "left_waiting env s \<Longrightarrow> service_ok s \<and> hv_wait s = W_none \<and> hv_op s = None"
proof -
  assume "left_waiting env s"
  then obtain s2 where s2: "hv_wait s2 = W_none" "hv_op s2 = None" and s: "s = upd_req (remove_header ''Expect'') (snd (write_continue env s2))"
    unfolding left_waiting_def by blast
  have "hv_wait (snd (write_continue env s2)) = W_none \<and> hv_op (snd (write_continue env s2)) = None"
    using write_continue_frame[of env s2 "fst (write_continue env s2)" "snd (write_continue env s2)"] s2 by simp
  then show ?thesis by (simp add: s service_ok_def)
qed

lemma start_answered: "answered (http_start env s)"
  by (simp add: http_start_def read_request_head_def answered_def[of "start_client_op _ _ _"] start_client_ok)

lemma reachable_ok: "http_reachable env s \<Longrightarrow> service_ok s"
proof (induction rule: http_reachable.induct)
  case (started m form w)
  show ?case using start_answered by (simp add: answered_def)
next
  case (stepped s ev)
  with http_step_cases[OF stepped.IH, of env ev] show ?case by (auto simp: answered_def dest: left_waiting_ok)
qed



lemma left_waiting_stuck:
  assumes "left_waiting env s"
  shows "fold (http_step env) evs s = s \<and> hv_op s = None \<and> (\<forall>k. hv_wait s \<noteq> W_switched k) \<and> hv_wait s \<noteq> W_stopped"
proof -
  have w: "hv_wait s = W_none" "hv_op s = None" using left_waiting_ok[OF assms] by simp_all
  then have "http_step env ev s = s" for ev by (simp add: http_step_def)
  then have "fold (http_step env) evs s = s" by (induction evs) simp_all
  with w show ?thesis by simp
qed


lemma error_header_names:
  "\<not> iequals ''Content-Length'' ''Content-Type''" "\<not> iequals ''Content-Length'' ''Connection''" "\<not> iequals ''Content-Length'' ''Server''"
  "\<not> iequals ''Connection'' ''Content-Length''" "\<not> iequals ''Connection'' ''Content-Type''" "\<not> iequals ''Connection'' ''Server''"
  "\<not> iequals ''Transfer-Encoding'' ''Content-Length''" "\<not> iequals ''Transfer-Encoding'' ''Content-Type''"
  "\<not> iequals ''Transfer-Encoding'' ''Connection''" "\<not> iequals ''Transfer-Encoding'' ''Server''"
  by code_simp+

text \<open>C40: every error page is a message its reader can delimit: one \<open>Content-Length\<close> with the length of the body, no transfer
  coding, and it announces that the connection is closed.\<close>

theorem error_response_delimited:
  "get_all_of_header ''Content-Length'' (error_response st msg) = [decimal (length (error_page st msg))]
    \<and> get_all_of_header ''Transfer-Encoding'' (error_response st msg) = [] \<and> msg_body (error_response st msg) = error_page st msg
    \<and> should_close_connection (error_response st msg) \<and> res_status (error_response st msg) = st"
proof -
  let ?b = "response_new\<lparr>res_status := st, msg_body := error_page st msg\<rparr>"
  let ?m = "add_header ''Content-Type'' ''text/html'' (add_header ''Connection'' ''close'' (add_header ''Server'' full_server_name ?b))"
  have r: "error_response st msg = add_header ''Content-Length'' (decimal (length (error_page st msg))) ?m"
    by (simp add: error_response_def set_content_length_def content_length_def add_header_def Let_def)
  have s: "headers_sorted ?b" by (simp add: headers_sorted_def response_new_def omap_sorted_def)
  have e: "get_all_of_header n ?b = []" for n by (simp add: get_all_of_header_def equal_range_def response_new_def)
  have g: "get_all_of_header ''Content-Length'' (error_response st msg) = [decimal (length (error_page st msg))]"
    "get_all_of_header ''Transfer-Encoding'' (error_response st msg) = []"
    "get_all_of_header ''Connection'' (error_response st msg) = [''close'']"
    unfolding r using s e by (simp_all add: get_all_add_header error_header_names)
  have c: "has_header ''Connection'' (error_response st msg)" "get_header ''Connection'' (error_response st msg) = Inr ''close''"
    using g(3) by (simp_all add: has_header_get_all get_header_first)
  then have "should_close_connection (error_response st msg)" by (simp add: should_close_connection_def)
  moreover have "msg_body (error_response st msg) = error_page st msg" "res_status (error_response st msg) = st"
    by (simp_all add: r add_header_def)
  ultimately show ?thesis using g by simp
qed

section \<open>An environment\<close>

definition example_env :: http_env where
  "example_env = \<lparr>he_lc = decimal_reader, he_lcl = (\<lambda>s. map_option (int \<circ> unat) (decimal_reader s)), he_body_size_limit = 1000,
     he_timeouts = example_opts, he_port = 8080, he_websocket_passthrough = False, he_websocket_passthrough_strict = False,
     he_ssl_passthrough = False, he_ssl_passthrough_strict = False, he_http_hook = (\<lambda>ev x. x), he_server_hook = (\<lambda>ev w. w),
     he_error_text = (\<lambda>e. ''error''), he_peek = (\<lambda>w. Boost_success), he_sync_write = (\<lambda>out. (length out, Boost_success))\<rparr>"

definition example_service :: http_service where
  "example_service = http_start example_env (http_service_new M_GET Origin_form plain_flow)"

lemma example_service_head [simp]: "hv_wait example_service = W_request_head"
  by (simp add: example_service_def http_start_def read_request_head_def plain_flow_def flow_new_def has_proxy_error_def
    error_state_init_def http_service_new_def)



end
