(* ===== verification/Http_Forwarding.thy ===== *)
theory Http_Forwarding
  imports Http_Parser_Facts Http_Service_Facts
begin

text \<open>
  The parser and the service together: what happens to a request that arrives on the client's
  connection.
\<close>

section \<open>Reading the head\<close>

definition fresh_service :: "http_service \<Rightarrow> bool" where
  "fresh_service s \<longleftrightarrow> hv_wait s = W_request_head \<and> idle (hv_parser s) \<and> cn_input (fl_client (hv_flow s)) = []
     \<and> ex_response (hv_exchange s) = None
     \<and> msg_headers (ex_request (hv_exchange s)) = [] \<and> msg_body (ex_request (hv_exchange s)) = []"

definition wf_head :: "request \<Rightarrow> bool" where
  "wf_head r \<longleftrightarrow> (wf_origin (req_target r) \<or> wf_absolute (req_target r) \<and> req_method r \<noteq> M_CONNECT)
     \<and> SP \<notin> set (url_to_string (req_target r)) \<and> (\<forall>h\<in>set (msg_headers r). plain_header h) \<and> headers_sorted r"

lemma wf_request_head: "wf_request r \<Longrightarrow> wf_head r"
  by (simp add: wf_request_def wf_head_def)

text \<open>The service when the body is left to read.\<close>

definition head_read :: "request \<Rightarrow> string \<Rightarrow> http_parser \<Rightarrow> http_service \<Rightarrow> http_service" where
  "head_read r rest p s = (upd_flow (upd_client (\<lambda>c. c\<lparr>cn_input := rest\<rparr>)) s)
     \<lparr>hv_exchange := (hv_exchange s)\<lparr>ex_request := r\<lparr>msg_body := []\<rparr>\<rparr>, hv_parser := p\<rparr>"

lemma upd_flow_same: "upd_flow (upd_client (\<lambda>c. c\<lparr>cn_input := x\<rparr>)) (upd_flow (upd_client (\<lambda>c. c\<lparr>cn_input := y\<rparr>)) s)
    = upd_flow (upd_client (\<lambda>c. c\<lparr>cn_input := x\<rparr>)) s"
  by (simp add: upd_flow_def upd_client_def)

lemma parse_client_result:
  assumes "op \<lparr>hs_exchange = hv_exchange s, hs_parser = hv_parser s, hs_input = istream_of (cn_input (fl_client (hv_flow s)))\<rparr>
    = (r, \<lparr>hs_exchange = e, hs_parser = p, hs_input = istream_of rest\<rparr>)"
  shows "parse_client op s = (r, (upd_flow (upd_client (\<lambda>c. c\<lparr>cn_input := rest\<rparr>)) s)\<lparr>hv_exchange := e, hv_parser := p\<rparr>)"
  using assms by (simp add: parse_client_def)

lemma head_is_read:
  assumes "lexical_cast_decimal (he_lc env)" "wf_head r" "idle (hv_parser s)"
    "msg_headers (ex_request (hv_exchange s)) = []" "msg_body (ex_request (hv_exchange s)) = []"
    "cn_input (fl_client (hv_flow s)) = request_line_string r @ CRLF @ concat (map header_line (msg_headers r)) @ CRLF @ rest"
  shows "\<exists>q. idle q \<and> on_read_request_head env Boost_success n s = read_request_body env (head_read r rest q s)"
proof -
  let ?e = "hv_exchange s" and ?p = "hv_parser s"
  let ?h = "concat (map header_line (msg_headers r)) @ CRLF @ rest"
  let ?st = "\<lparr>hs_exchange = ?e, hs_parser = ?p, hs_input = istream_of (cn_input (fl_client (hv_flow s)))\<rparr>"
  let ?e1 = "?e\<lparr>ex_request := (ex_request ?e)\<lparr>msg_version := msg_version r, req_method := req_method r, req_target := req_target r\<rparr>\<rparr>"
  have t: "parse_target (he_lc env) (url_to_string (req_target r)) (req_method r) = Inr (req_target r)"
    using assms(1,2) parse_target_origin parse_target_absolute by (auto simp: wf_head_def)
  have sp: "SP \<notin> set (url_to_string (req_target r))" using assms(2) by (simp add: wf_head_def)
  have li: "line_idle ?p" using assms(3) by (simp add: idle_def)
  have i: "hs_input ?st = istream_of (method_name (req_method r) @ SP # url_to_string (req_target r) @ SP # version_name (msg_version r) @ CRLF @ ?h)"
    by (simp add: assms(6) request_line_string_def)
  obtain p1 where p1: "line_idle p1" "header_buf p1 = header_buf ?p" "chunk_header_buf p1 = chunk_header_buf ?p"
      "chunk_suffix_buf p1 = chunk_suffix_buf ?p" "body_buf p1 = body_buf ?p" "hp_state p1 = hp_state ?p"
    and l: "read_request_line (he_lc env) ?st = (Inr (), upd_request (\<lambda>x. x\<lparr>msg_version := msg_version r, req_method := req_method r,
      req_target := req_target r\<rparr>) (?st\<lparr>hs_input := istream_of ?h, hs_parser := p1\<rparr>))"
    using read_request_line_text[OF li sp t i] by auto
  then have pc: "parse_client (read_request_line (he_lc env)) s
      = (Inr (), (upd_flow (upd_client (\<lambda>c. c\<lparr>cn_input := ?h\<rparr>)) s)\<lparr>hv_exchange := ?e1, hv_parser := p1\<rparr>)" (is "_ = (_, ?s1)")
    by (intro parse_client_result) (simp add: upd_request_def)
  let ?st1 = "\<lparr>hs_exchange = ?e1, hs_parser = p1, hs_input = istream_of ?h\<rparr>"
  have f: "is_fresh (header_buf (hs_parser ?st1))" "\<forall>x\<in>set (msg_headers r). plain_header x" "Mode_request \<noteq> Mode_unknown"
    using p1(2) assms(2,3) by (simp_all add: idle_def wf_head_def)
  from read_headers_text[OF f(2,1,3), of rest] obtain sg where sg: "is_fresh sg" and h: "read_headers Mode_request ?st1 = (Inr (),
      (upd_message Mode_request (add_headers (msg_headers r)) (add_headers (msg_headers r)) ?st1)
        \<lparr>hs_input := istream_of rest, hs_parser := p1\<lparr>header_buf := sg\<rparr>\<rparr>)" by auto
  let ?q = "p1\<lparr>header_buf := sg\<rparr>"
  have a: "add_headers (msg_headers r) (ex_request ?e1) = r\<lparr>msg_body := []\<rparr>"
    using assms(2,4,5) by (subst add_headers_sorted) (simp_all add: wf_head_def headers_sorted_def)
  then have e2: "upd_message Mode_request (add_headers (msg_headers r)) (add_headers (msg_headers r)) ?st1
      = \<lparr>hs_exchange = ?e\<lparr>ex_request := r\<lparr>msg_body := []\<rparr>\<rparr>, hs_parser = p1, hs_input = istream_of ?h\<rparr>"
    by (simp add: upd_message_def upd_request_def)
  have "cn_input (fl_client (hv_flow ?s1)) = ?h" by (simp add: upd_flow_def upd_client_def)
  then have pc2: "parse_client (read_headers Mode_request) ?s1 = (Inr (), head_read r rest ?q s)"
    using parse_client_result[of "read_headers Mode_request" ?s1 "Inr ()" "?e\<lparr>ex_request := r\<lparr>msg_body := []\<rparr>\<rparr>" ?q rest] h e2
    by (simp add: head_read_def upd_flow_def upd_client_def)
  have "idle ?q" using p1 sg assms(3) by (simp add: idle_defs)
  with pc pc2 show ?thesis by (intro exI[of _ ?q]) (simp add: on_read_request_head_def)
qed

lemma body_is_read:
  assumes "lexical_cast_signed (he_lcl env)" "wf_request r" "idle q"
    "chunked_request r \<longrightarrow> [] \<notin> set cs \<and> concat cs = msg_body r" "length (msg_body r) \<le> unat (he_body_size_limit env)"
    "length (msg_body r) \<le> vector_max"
  shows "\<exists>q'. idle q' \<and> read_request_body env (head_read r (body_wire r cs @ rest) q s) = handle_request env
    ((upd_flow (upd_client (\<lambda>c. c\<lparr>cn_input := rest\<rparr>)) s)\<lparr>hv_exchange := (hv_exchange s)\<lparr>ex_request := r\<rparr>, hv_parser := q'\<rparr>)"
proof -
  let ?s = "head_read r (body_wire r cs @ rest) q s"
  let ?st = "\<lparr>hs_exchange = hv_exchange ?s, hs_parser = q, hs_input = istream_of (body_wire r cs @ rest)\<rparr>"
  have "ex_request (hs_exchange ?st) = r\<lparr>msg_body := []\<rparr>" by (simp add: head_read_def)
  from read_body_wire[OF assms(1,2) _ this _ assms(4-6), of rest] assms(3) obtain q' where q': "idle q'"
    "read_body (he_lcl env) (he_body_size_limit env) Mode_request ?st = (Inr True, ?st\<lparr>hs_exchange := (hv_exchange s)\<lparr>ex_request := r\<rparr>,
      hs_input := istream_of rest, hs_parser := q'\<rparr>)" by (auto simp: head_read_def)
  have "cn_input (fl_client (hv_flow ?s)) = body_wire r cs @ rest" "hv_parser ?s = q"
    by (simp_all add: head_read_def upd_flow_def upd_client_def)
  with q'(2) have "parse_client (read_body (he_lcl env) (he_body_size_limit env) Mode_request) ?s
      = (Inr True, (upd_flow (upd_client (\<lambda>c. c\<lparr>cn_input := rest\<rparr>)) ?s)\<lparr>hv_exchange := (hv_exchange s)\<lparr>ex_request := r\<rparr>, hv_parser := q'\<rparr>)"
    by (intro parse_client_result) simp
  with q'(1) show ?thesis
    by (intro exI[of _ q']) (simp add: read_request_body_def head_read_def upd_flow_def upd_client_def)
qed


section \<open>A request to a proxy\<close>

text \<open>The request as it is forwarded: in origin form, with a port, a host header and the proxy's \<open>Via\<close>.\<close>

definition via_header :: "request \<Rightarrow> request" where
  "via_header = add_header ''Via'' (''1.1 '' @ lowercase_name)"

definition validated :: "flow \<Rightarrow> request \<Rightarrow> request" where
  "validated w r = (let target = req_target r in
     (if has_header ''Host'' r then r else set_header_to_value ''Host'' (to_host_string (url_netloc target)) r)
       \<lparr>req_target := set_url_port w (set_url_scheme w (target\<lparr>url_form := Origin_form\<rparr>))\<rparr>)"

definition prepared :: "flow \<Rightarrow> request \<Rightarrow> request" where
  "prepared w r = via_header (validated w r)"

definition no_interceptors :: "http_env \<Rightarrow> bool" where
  "no_interceptors env \<longleftrightarrow> he_http_hook env = (\<lambda>ev x. x) \<and> he_server_hook env = (\<lambda>ev w. w)"

lemma run_http_none [simp]: "no_interceptors env \<Longrightarrow> run_http env ev s = s"
  by (simp add: no_interceptors_def run_http_def)

lemma validate_absolute:
  assumes "url_form (req_target (ex_request (hv_exchange s))) = Absolute_form"
  shows "validate_target env s = (Inr (), upd_req (\<lambda>_. validated (hv_flow s) (ex_request (hv_exchange s))) s)"
  using assms by (simp add: validate_target_def validated_def upd_req_def upd_exchange_def Let_def)

lemma header_name_facts: "\<not> iequals ''Expect'' ''Via''" "\<not> iequals ''Expect'' ''Host''"
  by code_simp+

lemma headers_of_target [simp]:
  "get_all_of_header n (r\<lparr>req_target := t\<rparr>) = get_all_of_header n r" "headers_sorted (r\<lparr>req_target := t\<rparr>) = headers_sorted r"
  "header_has_value n v b (r\<lparr>req_target := t\<rparr>) = header_has_value n v b r"
  by (simp_all add: get_all_of_header_def headers_sorted_def header_has_value_def)

lemma header_has_value_get_all: "header_has_value n v False m \<longleftrightarrow> v \<in> set (get_all_of_header n m)"
  by (force simp: header_has_value_def get_all_of_header_def list_ex_iff)

lemma expect_prepared:
  assumes "headers_sorted r"
  shows "get_all_of_header ''Expect'' (prepared w r) = get_all_of_header ''Expect'' r"
proof -
  have s: "headers_sorted (set_header_to_value n v r)" for n v using assms by (simp add: set_header_to_value_def)
  have g: "get_all_of_header ''Expect'' (set_header_to_value ''Host'' v r) = get_all_of_header ''Expect'' r" for v
    using assms by (simp add: set_header_to_value_def get_all_add_header get_all_remove_header header_name_facts)
  show ?thesis using assms s g
    by (simp add: prepared_def via_header_def validated_def Let_def get_all_add_header header_name_facts)
qed

lemma prepared_target [simp]:
  "url_form (req_target (prepared w r)) = Origin_form" "req_method (prepared w r) = req_method r"
  "nl_host (url_netloc (req_target (prepared w r))) = nl_host (url_netloc (req_target r))"
  by (simp_all add: prepared_def via_header_def validated_def Let_def add_header_def set_header_to_value_def remove_header_def
    set_url_port_def set_url_scheme_def)

definition with_request :: "request \<Rightarrow> http_service \<Rightarrow> http_service" where
  "with_request r = upd_req (\<lambda>_. r)"

lemma with_request_simps [simp]: "ex_request (hv_exchange (with_request r s)) = r" "hv_flow (with_request r s) = hv_flow s"
  "ex_response (hv_exchange (with_request r s)) = ex_response (hv_exchange s)" "hv_wait (with_request r s) = hv_wait s"
  "hv_op (with_request r s) = hv_op s"
  "with_request r (with_request r' s) = with_request r s"
  "upd_req f (with_request r s) = with_request (f r) s"
  by (simp_all add: with_request_def upd_req_def upd_exchange_def)

lemma handle_absolute:
  assumes "no_interceptors env" "url_form (req_target r) = Absolute_form"
  shows "handle_request_impl env (with_request r s) = (let s2 = with_request (prepared (hv_flow s) r) s in
     if header_has_value ''Expect'' ''100-continue'' False (prepared (hv_flow s) r)
     then (case write_continue env s2 of (e, s3) \<Rightarrow> (Inr (), if e \<noteq> Boost_success then http_stop s3 else upd_req (remove_header ''Expect'') s3))
     else handle_plain env s2)"
proof -
  have v: "validate_target env (with_request r s) = (Inr (), with_request (validated (hv_flow s) r) s)"
    using assms(2) validate_absolute[of "with_request r s" env] by (simp add: with_request_def[symmetric, of "validated (hv_flow s) r"])
  have p: "via_header (validated (hv_flow s) r) = prepared (hv_flow s) r" by (simp add: prepared_def)
  have a: "url_form (req_target (prepared (hv_flow s) r)) \<noteq> Authority_form" by simp
  show ?thesis unfolding handle_request_impl_def v via_header_def[symmetric] using assms(1) a by (simp add: p Let_def)
qed


section \<open>Properties\<close>

definition received :: "request \<Rightarrow> string \<Rightarrow> http_parser \<Rightarrow> http_service \<Rightarrow> http_service" where
  "received r rest q s = (upd_flow (upd_client (\<lambda>c. (on_read_need_to_commit [] Boost_success c)\<lparr>cn_input := rest\<rparr>)) (running s))
     \<lparr>hv_exchange := (hv_exchange s)\<lparr>ex_request := r\<rparr>, hv_parser := q\<rparr>"

lemma request_arrives:
  assumes "lexical_cast_decimal (he_lc env)" "lexical_cast_signed (he_lcl env)" "wf_request r" "fresh_service s"
    "chunked_request r \<longrightarrow> [] \<notin> set cs \<and> concat cs = msg_body r" "length (msg_body r) \<le> unat (he_body_size_limit env)"
    "length (msg_body r) \<le> vector_max"
  shows "\<exists>q. idle q \<and> http_step env (Ev_read (request_wire r cs @ rest) Boost_success n) s = handle_request env (received r rest q s)"
proof -
  let ?in = "request_wire r cs @ rest"
  let ?s = "client_read ?in Boost_success (running s)"
  have f: "hv_wait s = W_request_head" "idle (hv_parser ?s)" "msg_headers (ex_request (hv_exchange ?s)) = []"
    "msg_body (ex_request (hv_exchange ?s)) = []" "cn_input (fl_client (hv_flow ?s)) = ?in"
    using assms(4) by (simp_all add: fresh_service_def client_read_def running_def upd_client_def conn_step_defs Let_def)
  have i: "cn_input (fl_client (hv_flow ?s)) = request_line_string r @ CRLF @ concat (map header_line (msg_headers r)) @ CRLF
      @ (body_wire r cs @ rest)" using f(5) by (simp add: request_wire_def)
  obtain q where q: "idle q" "on_read_request_head env Boost_success n ?s = read_request_body env (head_read r (body_wire r cs @ rest) q ?s)"
    using head_is_read[OF assms(1) wf_request_head[OF assms(3)] f(2,3,4) i, of n] by blast
  obtain q' where q': "idle q'" "read_request_body env (head_read r (body_wire r cs @ rest) q ?s) = handle_request env
    ((upd_flow (upd_client (\<lambda>c. c\<lparr>cn_input := rest\<rparr>)) ?s)\<lparr>hv_exchange := (hv_exchange ?s)\<lparr>ex_request := r\<rparr>, hv_parser := q'\<rparr>)"
    using body_is_read[OF assms(2,3) q(1) assms(5-7)] by blast
  have "(upd_flow (upd_client (\<lambda>c. c\<lparr>cn_input := rest\<rparr>)) ?s)\<lparr>hv_exchange := (hv_exchange ?s)\<lparr>ex_request := r\<rparr>, hv_parser := q'\<rparr>
      = received r rest q' s"
    by (simp add: received_def client_read_def upd_flow_def upd_client_def running_def conn_step_defs Let_def)
  with f(1) q q' show ?thesis by (auto simp: http_step_def)
qed

text \<open>C1: without interceptors, a well-formed request in absolute form that arrives whole makes the proxy connect to the host and
  port of its target, and once connected the server is sent exactly the request in origin form with \<open>Via\<close> added and \<open>Host\<close>
  present; the rest of the input is kept for the next request.\<close>

theorem http_request_forwarded:
  fixes cs rest n
  assumes "lexical_cast_decimal (he_lc env)" "lexical_cast_signed (he_lcl env)" "no_interceptors env"
    and r: "wf_request r" "url_form (req_target r) = Absolute_form" "''100-continue'' \<notin> set (get_all_of_header ''Expect'' r)"
      "chunked_request r \<longrightarrow> [] \<notin> set cs \<and> concat cs = msg_body r" "length (msg_body r) \<le> unat (he_body_size_limit env)"
      "length (msg_body r) \<le> vector_max"
    and s: "fresh_service s" "\<not> cn_connected (fl_server (hv_flow s))"
      "host_name r \<notin> set forbidden_hosts"
  defines "r' \<equiv> prepared (hv_flow s) r"
    and "s1 \<equiv> http_step env (Ev_read (request_wire r cs @ rest) Boost_success n) s"
  shows "hv_wait s1 = W_connect (Resolving (host_name r) (decimal (unat (host_port r'))))
    \<and> ex_request (hv_exchange s1) = r' \<and> cn_input (fl_client (hv_flow s1)) = rest
    \<and> cn_output (fl_server (hv_flow (on_connect_server env Boost_success s1)))
      = cn_output (fl_server (hv_flow s)) @ request_to_string r'"
proof -
  obtain q where q: "idle q" "s1 = handle_request env (received r rest q s)"
    using request_arrives[OF assms(1,2) r(1) s(1) r(4-6), of rest n] by (auto simp: s1_def)
  let ?s = "received r rest q s"
  have w: "?s = with_request r ?s" "fl_server (hv_flow ?s) = fl_server (hv_flow s)" "ex_response (hv_exchange ?s) = None"
    "cn_input (fl_client (hv_flow ?s)) = rest"
    using s(1) by (simp_all add: received_def with_request_def upd_req_def upd_exchange_def upd_flow_def upd_client_def running_def fresh_service_def)
  have p: "prepared (hv_flow ?s) r = r'"
    using w(2) by (simp add: r'_def prepared_def validated_def set_url_port_def set_url_scheme_def Let_def)
  have ne: "\<not> header_has_value ''Expect'' ''100-continue'' False r'"
    using r(1,3) by (simp add: header_has_value_get_all r'_def expect_prepared wf_request_def)
  have hi: "handle_request_impl env ?s = handle_plain env (with_request r' ?s)"
    using handle_absolute[OF assms(3) r(2), of ?s] w(1) ne by (simp add: p)
  let ?s2 = "with_request r' ?s"
  have hn: "host_name r' = host_name r" by (simp add: r'_def host_name_def)
  let ?w = "flow_set_server (host_name r) (host_port r') (hv_flow ?s)"
  have bs: "base_set_server (he_server_hook env) (he_port env) (host_name r') (host_port r') (hv_flow ?s2) = (Inr (), ?w)"
    using s(2,3) w(2) by (simp add: base_set_server_def is_connected_to_def hn Let_def flow_set_server_def)
  have ws: "fl_server ?w = fl_server (hv_flow s)" "cn_input (fl_client ?w) = rest"
    using s(2) w by (simp_all add: flow_set_server_def Let_def)
  let ?s3 = "?s2\<lparr>hv_flow := ?w\<rparr>"
  have "http_set_server env ?s2 = (Inr (), ?s3)" using bs by (simp add: http_set_server_def)
  then have hp: "handle_plain env ?s2 = (Inr (), connect_server env ?s3)"
    using assms(3) w(3) by (simp add: handle_plain_def has_response_def)
  then have s1: "s1 = connect_server env ?s3" by (simp add: q(2) handle_request_def hi)
  have c: "connect_async (he_timeouts env) (he_peek env ?w) (host_name r) (host_port r') (fl_server (hv_flow s))
      = (Resolving (host_name r) (decimal (unat (host_port r'))), conn_set_timeout (he_timeouts env)
          ((fl_server (hv_flow s))\<lparr>sv_host := host_name r, sv_port := host_port r'\<rparr>))"
    using s(2) by (simp add: connect_async_def is_connected_to_def)
  have s1': "s1 = ?s3\<lparr>hv_flow := ?w\<lparr>fl_server := conn_set_timeout (he_timeouts env)
      ((fl_server (hv_flow s))\<lparr>sv_host := host_name r, sv_port := host_port r'\<rparr>)\<rparr>,
      hv_wait := W_connect (Resolving (host_name r) (decimal (unat (host_port r')))), hv_op := None\<rparr>"
    by (simp add: s1 connect_server_def flow_connect_server_async_def ws(1) c)
  have rq: "ex_request (hv_exchange s1) = r'" by (simp add: s1')
  have "cn_output (fl_server (hv_flow (on_connect_server env Boost_success s1))) = cn_output (fl_server (hv_flow s)) @ request_to_string r'"
    using rq by (simp add: on_connect_server_def forward_request_def start_server_op_def write_async_def upd_flow_def upd_server_def
      conn_put_def set_writing_def) (simp add: s1')
  with rq ws(2) show ?thesis by (simp add: s1')
qed


definition example_get :: request where
  "example_get = \<lparr>msg_version = Http1_1, msg_headers = [], msg_body = [], req_method = M_GET, req_target = example_url\<rparr>"

lemma example_get_facts: "wf_request example_get" "\<not> chunked_request example_get" "get_all_of_header n example_get = []"
  by (simp_all add: example_get_def wf_request_def example_url_def wf_absolute_def wf_origin_def plain_netloc_def netloc_text_def plain_path_def
    plain_search_def search_delims_def url_to_string_def netloc_to_string_def nl_empty_def to_host_string_def headers_sorted_def
    omap_sorted_def bodyless_request_def chunked_request_def header_has_token_get_all get_all_of_header_def equal_range_def
    has_header_get_all expects_continue_def get_header_first decimal_no_char)

lemma example_service_fresh: "fresh_service example_service" "\<not> cn_connected (fl_server (hv_flow example_service))"
  by (simp_all add: fresh_service_def) (simp_all add: example_service_def http_start_def read_request_head_def plain_flow_def flow_new_def
    has_proxy_error_def error_state_init_def http_service_new_def start_client_op_def upd_flow_def upd_client_def
    client_conn_new_def server_conn_new_def conn.defs conn_new_def exchange_new_def read_until_async_def set_reading_def)

definition served_get :: http_service where
  "served_get = http_step example_env (Ev_read (request_wire example_get [] @ ''GET'') Boost_success 9) example_service"

theorem http_request_forwarded_witness:
  "hv_wait served_get = W_connect (Resolving ''a.io'' (decimal (unat (host_port (prepared (hv_flow example_service) example_get)))))
    \<and> ex_request (hv_exchange served_get) = prepared (hv_flow example_service) example_get
    \<and> cn_input (fl_client (hv_flow served_get)) = ''GET''
    \<and> cn_output (fl_server (hv_flow (on_connect_server example_env Boost_success served_get)))
      = cn_output (fl_server (hv_flow example_service)) @ request_to_string (prepared (hv_flow example_service) example_get)"
proof -
  have h: "host_name example_get = ''a.io''" by (simp add: host_name_def example_get_def example_url_def)
  have l: "lexical_cast_signed (he_lcl example_env)"
    using decimal_reader_ok by (simp add: lexical_cast_signed_def lexical_cast_decimal_def example_env_def)
  show ?thesis
    unfolding served_get_def h[symmetric]
    by (rule http_request_forwarded)
      (use l example_get_facts example_service_fresh h in \<open>simp_all add: example_env_def decimal_reader_ok no_interceptors_def forbidden_hosts_def\<close>,
       simp_all add: example_get_def example_url_def vector_max_def)
qed



definition example_put :: request where
  "example_put = example_get\<lparr>msg_headers := [(''Expect'', ''100-continue'')], req_method := M_PUT\<rparr>"

definition stuck_put :: http_service where
  "stuck_put = http_step example_env (Ev_read (request_line_string example_put @ CRLF @ concat (map header_line (msg_headers example_put))
     @ CRLF @ ''body'') Boost_success 9) example_service"


end
