(* ===== verification/Ws_Types.thy ===== *)
theory Ws_Types
  imports Bytes
begin

text \<open>
  websocket/message/: opcodes, close codes, endpoints, frames and messages.

  \<^item> \<open>opcode\<close> and \<open>close_code\<close> are C++ enumerations that the code fills by casting bytes of the wire, so
    they hold every number of those bytes and not only the named ones: they are words here.
\<close>

section \<open>Opcodes\<close>

type_synonym opcode = u8

abbreviation (input) op_continuation :: opcode where "op_continuation \<equiv> 0"
abbreviation (input) op_text :: opcode where "op_text \<equiv> 1"
abbreviation (input) op_binary :: opcode where "op_binary \<equiv> 2"
abbreviation (input) op_close :: opcode where "op_close \<equiv> 8"
abbreviation (input) op_ping :: opcode where "op_ping \<equiv> 9"
abbreviation (input) op_pong :: opcode where "op_pong \<equiv> 10"
abbreviation (input) op_max :: opcode where "op_max \<equiv> 15"

definition websocket_opcodes :: "(opcode \<times> string) list" where
  "websocket_opcodes = [(op_continuation, ''continue''), (op_text, ''text''), (op_binary, ''binary''), (op_close, ''close''),
     (op_ping, ''ping''), (op_pong, ''pong''), (op_max, ''max'')]"

definition is_control :: "opcode \<Rightarrow> bool" where
  "is_control type \<longleftrightarrow> type AND 8 \<noteq> 0"

definition opcode_to_string :: "opcode \<Rightarrow> string result" where
  "opcode_to_string o1 = (case map_of websocket_opcodes o1 of
     Some name \<Rightarrow> Inr name
   | None \<Rightarrow> if o1 > op_max then err invalid_opcode else Inr ''reserved'')"

lemma is_control_simps [simp]: "is_control 8" "is_control 9" "is_control 10" "\<not> is_control 0" "\<not> is_control 1" "\<not> is_control 2"
  by (simp_all add: is_control_def)

section \<open>Close codes\<close>

type_synonym close_code = u16

abbreviation (input) code_normal_closure :: close_code where "code_normal_closure \<equiv> 1000"
abbreviation (input) code_protocol_error :: close_code where "code_protocol_error \<equiv> 1002"
abbreviation (input) code_no_status_rcvd :: close_code where "code_no_status_rcvd \<equiv> 1005"
abbreviation (input) code_invalid_frame_payload_data :: close_code where "code_invalid_frame_payload_data \<equiv> 1007"
abbreviation (input) code_internal_error :: close_code where "code_internal_error \<equiv> 1011"

definition websocket_close_codes :: "(close_code \<times> string) list" where
  "websocket_close_codes = [(1000, ''Normal Closure''), (1001, ''Going Away''), (1002, ''Protocol error''),
     (1003, ''Unsupported Data''), (1004, ''Reserved''), (1005, ''No Status Rcvd''), (1006, ''Abnormal Closure''),
     (1007, ''Invalid frame payload data''), (1008, ''Policy Violation''), (1009, ''Message Too Big''), (1010, ''Mandatory Ext.''),
     (1011, ''Internal Error''), (1012, ''Service Restart''), (1013, ''Try Again Later''), (1014, ''Bad Gateway''),
     (1015, ''TLS handshake'')]"

definition close_code_to_reason :: "close_code \<Rightarrow> string" where
  "close_code_to_reason code = (case map_of websocket_close_codes code of Some s \<Rightarrow> s | None \<Rightarrow> ''Unknown Close Code'')"

section \<open>Endpoints\<close>

datatype ws_endpoint = Client | Server

definition flip_endpoint :: "ws_endpoint \<Rightarrow> ws_endpoint" where
  "flip_endpoint ep = (if ep = Client then Server else Client)"

definition endpoint_string :: "ws_endpoint \<Rightarrow> string" where
  "endpoint_string ep = (if ep = Client then ''client'' else ''server'')"

lemma flip_endpoint_simps [simp]: "flip_endpoint Client = Server" "flip_endpoint Server = Client"
  "flip_endpoint (flip_endpoint ep) = ep" "flip_endpoint ep \<noteq> ep"
  by (cases ep; simp add: flip_endpoint_def)+

section \<open>Frames\<close>

record rsv_bits =
  rsv1 :: bool
  rsv2 :: bool
  rsv3 :: bool

record frame_header =
  fh_fin :: bool
  fh_rsv :: rsv_bits
  fh_type :: opcode
  fh_mask_bit :: bool
  fh_payload_length :: u64
  fh_mask_key :: u32

text \<open>A value-initialised header.\<close>

definition frame_header_new :: frame_header where
  "frame_header_new = \<lparr>fh_fin = False, fh_rsv = \<lparr>rsv1 = False, rsv2 = False, rsv3 = False\<rparr>, fh_type = op_continuation,
     fh_mask_bit = False, fh_payload_length = 0, fh_mask_key = 0\<rparr>"

record frame = frame_header +
  fr_content :: string

definition frame_new :: frame where
  "frame_new = frame_header.extend frame_header_new \<lparr>fr_content = []\<rparr>"

record close_frame =
  cl_code :: close_code
  cl_reason :: string

definition close_response :: "close_frame \<Rightarrow> close_frame" where
  "close_response f = \<lparr>cl_code = cl_code f, cl_reason = cl_reason f\<rparr>"

record message_frame =
  mf_type :: opcode
  mf_finished :: bool
  mf_payload :: string

text \<open>Ping and pong frames have their payload as the only member.\<close>

datatype completed_frame = Close_frame close_frame | Ping_frame string | Pong_frame string | Message_frame message_frame

fun ping_response :: "string \<Rightarrow> completed_frame" where
  "ping_response payload = Pong_frame payload"

definition completed_type :: "completed_frame \<Rightarrow> opcode" where
  "completed_type f = (case f of Close_frame _ \<Rightarrow> op_close | Ping_frame _ \<Rightarrow> op_ping | Pong_frame _ \<Rightarrow> op_pong
     | Message_frame m \<Rightarrow> mf_type m)"

section \<open>Messages\<close>

record ws_message =
  wm_type :: opcode
  wm_origin :: ws_endpoint
  wm_content :: string
  wm_blocked :: bool

definition ws_message_new :: "opcode \<Rightarrow> ws_endpoint \<Rightarrow> string \<Rightarrow> ws_message" where
  "ws_message_new type origin content = \<lparr>wm_type = type, wm_origin = origin, wm_content = content, wm_blocked = False\<rparr>"

definition ws_message_block :: "ws_message \<Rightarrow> ws_message" where
  "ws_message_block m = m\<lparr>wm_blocked := True\<rparr>"

end
