(* ===== verification/Ws_Extension.thy ===== *)
theory Ws_Extension
  imports Ws_Types Ws_Handshake
begin

text \<open>
  websocket/protocol/extensions/: the hooks of a WebSocket extension and the only one that is implemented,
  permessage-deflate.

  zlib is not part of the repository: \<open>zlib\<close> is the record of its four functions, over an arbitrary type of stream
  states.  \<^verbatim>\<open>inflate\<close> and \<^verbatim>\<open>deflate\<close> are given the input that is left, the room of the output buffer and the flush mode,
  and return their code, the input that is left, what they have written and the stream.  The loops that call them
  while the output buffer is full end only if zlib stops filling it, so they are partial functions.
\<close>

section \<open>zlib\<close>

datatype zret = Z_ok | Z_stream_end | Z_need_dict | Z_data_error | Z_mem_error | Z_stream_error | Z_buf_error

datatype zflush = Z_block | Z_sync_flush | Z_full_flush

type_synonym 'z zcall = "zflush \<Rightarrow> nat \<Rightarrow> string \<Rightarrow> 'z \<Rightarrow> zret \<times> string \<times> string \<times> 'z"

record 'z zlib =
  zl_deflate_init :: "int \<Rightarrow> zret \<times> 'z"
  zl_inflate_init :: "int \<Rightarrow> zret \<times> 'z"
  zl_deflate :: "'z zcall"
  zl_inflate :: "'z zcall"

section \<open>The hooks\<close>

record hook_return =
  transferred_input_to_output :: bool
  hook_close :: "close_code option"

definition hook_ok :: "bool \<Rightarrow> hook_return" where
  "hook_ok transferred = \<lparr>transferred_input_to_output = transferred, hook_close = None\<rparr>"

definition hook_closing :: "close_code \<Rightarrow> hook_return" where
  "hook_closing code = \<lparr>transferred_input_to_output = False, hook_close = Some code\<rparr>"

record 'z permessage_deflate =
  client_no_context_takeover :: bool
  server_no_context_takeover :: bool
  client_max_window_bits :: int
  server_max_window_bits :: int
  pd_flush :: zflush
  inbound_is_compressible :: "bool option"
  inbound_compressed :: "bool option"
  deflate_stream :: 'z
  inflate_stream :: 'z

text \<open>An instance of the base class keeps the default hooks.\<close>

datatype 'z extension = Base_extension | Deflate_extension "'z permessage_deflate"

definition flush_marker :: string where
  "flush_marker = map of_byte [0x00, 0x00, 0xFF, 0xFF]"

definition empty_content :: string where
  "empty_content = map of_byte [0x02, 0x00, 0x00, 0x00, 0xFF, 0xFF]"

definition default_max_window_bits :: int where
  "default_max_window_bits = 15"

definition zlib_buffer_size :: nat where
  "zlib_buffer_size = 8192"

section \<open>Creation\<close>

text \<open>\<^verbatim>\<open>boost::lexical_cast<int>\<close> is a parameter; it throws on a text that is no number, the empty one included.\<close>

definition window_bits :: "(string \<Rightarrow> int option) \<Rightarrow> string \<Rightarrow> extension_data \<Rightarrow> int result" where
  "window_bits lci name data = (if has_param name data
     then rbind (get_param name data) (\<lambda>text. case lci text of None \<Rightarrow> Inl (Exception Bad_lexical_cast) | Some bits \<Rightarrow> Inr bits)
     else Inr default_max_window_bits)"

definition deflate_create :: "'z zlib \<Rightarrow> (string \<Rightarrow> int option) \<Rightarrow> ws_endpoint \<Rightarrow> extension_data \<Rightarrow> 'z extension result" where
  "deflate_create z lci caller data =
     rbind (window_bits lci ''client_max_window_bits'' data) (\<lambda>client_bits.
     rbind (window_bits lci ''server_max_window_bits'' data) (\<lambda>server_bits.
       let no_client = has_param ''client_no_context_takeover'' data; no_server = has_param ''server_no_context_takeover'' data;
         (deflate_bits, inflate_bits) = (if caller = Client then (client_bits, server_bits) else (server_bits, client_bits));
         (dret, dstream) = zl_deflate_init z (- 1 * deflate_bits);
         (iret, istream) = zl_inflate_init z (- 1 * inflate_bits)
       in if dret \<noteq> Z_ok then err_with zlib_error ''Could not initialize deflate stream''
          else if iret \<noteq> Z_ok then err_with zlib_error ''Could not initialize inflate stream''
          else Inr (Deflate_extension \<lparr>client_no_context_takeover = no_client, server_no_context_takeover = no_server,
            client_max_window_bits = client_bits, server_max_window_bits = server_bits,
            pd_flush = (if no_client \<and> caller = Client \<or> no_server \<and> caller = Server then Z_full_flush else Z_sync_flush),
            inbound_is_compressible = Some False, inbound_compressed = None,
            deflate_stream = dstream, inflate_stream = istream\<rparr>)))"

definition websocket_extensions :: "string list" where
  "websocket_extensions = [''permessage-deflate'', ''bbf-usp-protocol'']"

text \<open>\<open>None\<close> is the null pointer of an extension that is unknown, or known and not implemented.\<close>

definition from_extension_data :: "'z zlib \<Rightarrow> (string \<Rightarrow> int option) \<Rightarrow> ws_endpoint \<Rightarrow> extension_data \<Rightarrow> 'z extension option result" where
  "from_extension_data z lci caller data =
     (if ed_name data \<notin> set websocket_extensions then Inr None
      else if ed_name data = ''permessage-deflate'' then map_sum id Some (deflate_create z lci caller data)
      else Inr None)"

section \<open>Inbound frames\<close>

definition opcode_is_compressible :: "opcode \<Rightarrow> bool" where
  "opcode_is_compressible type \<longleftrightarrow> \<not> is_control type"

definition value_or_false :: "bool option \<Rightarrow> bool" where
  "value_or_false v = (case v of None \<Rightarrow> False | Some b \<Rightarrow> b)"

definition deflate_frame_header :: "'a frame_header_scheme \<Rightarrow> 'z permessage_deflate \<Rightarrow> hook_return \<times> 'z permessage_deflate" where
  "deflate_frame_header fh d =
     (if rsv1 (fh_rsv fh) \<and> (is_control (fh_type fh) \<or> fh_type fh = op_continuation) then (hook_closing code_protocol_error, d)
      else (hook_ok False, d\<lparr>inbound_is_compressible := Some (opcode_is_compressible (fh_type fh)),
        inbound_compressed := (case inbound_compressed d of None \<Rightarrow> Some (rsv1 (fh_rsv fh)) | Some c \<Rightarrow> Some c)\<rparr>))"

definition fatal_inflate :: "zret \<Rightarrow> bool" where
  "fatal_inflate ret \<longleftrightarrow> ret = Z_need_dict \<or> ret = Z_data_error \<or> ret = Z_mem_error"

text \<open>The loop: \<open>Inl\<close> when zlib fails, the output so far and the stream otherwise.\<close>

partial_function (option) inflate_loop :: "'z zcall \<Rightarrow> string \<Rightarrow> string \<Rightarrow> 'z \<Rightarrow> ((string \<times> 'z) + (string \<times> 'z)) option" where
  "inflate_loop inflate data out1 s =
     (let r = inflate Z_sync_flush zlib_buffer_size data s; s' = snd (snd (snd r)) in
      if fatal_inflate (fst r) then Some (Inl (out1, s'))
      else let out2 = out1 @ fst (snd (snd r)) in
        if length (fst (snd (snd r))) = zlib_buffer_size then inflate_loop inflate (fst (snd r)) out2 s'
        else Some (Inr (out2, s')))"

declare inflate_loop.simps [code]

text \<open>The payload hook returns the input and the output buffer it leaves.\<close>

definition deflate_frame_payload :: "'z zlib \<Rightarrow> string \<Rightarrow> string \<Rightarrow> 'z permessage_deflate \<Rightarrow>
    (hook_return \<times> string \<times> string \<times> 'z permessage_deflate) option" where
  "deflate_frame_payload z inp out1 d =
     (if \<not> value_or_false (inbound_compressed d) \<or> \<not> value_or_false (inbound_is_compressible d) then Some (hook_ok False, inp, out1, d)
      else let data = inp @ flush_marker in
        case inflate_loop (zl_inflate z) data out1 (inflate_stream d) of
          None \<Rightarrow> None
        | Some (Inl (out2, s)) \<Rightarrow> Some (hook_closing code_invalid_frame_payload_data, data, out2, d\<lparr>inflate_stream := s\<rparr>)
        | Some (Inr (out2, s)) \<Rightarrow> Some (hook_ok True, [], out2, d\<lparr>inflate_stream := s\<rparr>))"

definition deflate_frame_complete :: "'a frame_header_scheme \<Rightarrow> 'z permessage_deflate \<Rightarrow> hook_return \<times> 'z permessage_deflate" where
  "deflate_frame_complete fh d =
     (if \<not> fh_fin fh then (hook_ok False, d)
      else if \<not> value_or_false (inbound_is_compressible d) then (hook_ok False, d\<lparr>inbound_is_compressible := None\<rparr>)
      else (hook_ok False, d\<lparr>inbound_compressed := None\<rparr>))"

section \<open>Outbound frames\<close>

partial_function (option) deflate_loop :: "'z zcall \<Rightarrow> string \<Rightarrow> string \<Rightarrow> 'z \<Rightarrow> ((string \<times> 'z) + (string \<times> 'z)) option" where
  "deflate_loop deflate data out1 s =
     (let r = deflate Z_block zlib_buffer_size data s; s' = snd (snd (snd r)) in
      if fst r \<noteq> Z_ok then Some (Inl (out1, s'))
      else let out2 = out1 @ fst (snd (snd r)) in
        if length (fst (snd (snd r))) = zlib_buffer_size then deflate_loop deflate (fst (snd r)) out2 s'
        else Some (Inr (out2, s')))"

declare deflate_loop.simps [code]

text \<open>
  The last call writes the flush marker behind what zlib has left.  \<^verbatim>\<open>output.commit(2LL - avail_out)\<close> keeps all but
  four of the bytes written; when fewer than four were written the difference is negative, a huge \<^verbatim>\<open>size_t\<close>, and the
  whole room of the output buffer is committed, bytes that were never written included: that is \<open>Undefined\<close> here.
\<close>

definition deflate_outbound :: "'z zlib \<Rightarrow> 'a frame_header_scheme \<Rightarrow> string \<Rightarrow> string \<Rightarrow> 'z permessage_deflate \<Rightarrow>
    (hook_return \<times> 'a frame_header_scheme \<times> string \<times> string \<times> 'z permessage_deflate) result option" where
  "deflate_outbound z fh inp out1 d =
     (if \<not> opcode_is_compressible (fh_type fh) then Some (Inr (hook_ok False, fh, inp, out1, d))
      else let fh' = (if fh_type fh \<noteq> op_continuation then fh\<lparr>fh_rsv := (fh_rsv fh)\<lparr>rsv1 := True\<rparr>\<rparr> else fh) in
        if inp = [] then Some (Inr (hook_ok True, fh', inp, out1 @ empty_content, d))
        else case deflate_loop (zl_deflate z) inp out1 (deflate_stream d) of
          None \<Rightarrow> None
        | Some (Inl (out2, s)) \<Rightarrow> Some (Inr (hook_closing code_invalid_frame_payload_data, fh', inp, out2, d\<lparr>deflate_stream := s\<rparr>))
        | Some (Inr (out2, s)) \<Rightarrow>
            let r = zl_deflate z (pd_flush d) (length flush_marker + 2) [] s;
              written = fst (snd (snd r)); d' = d\<lparr>deflate_stream := snd (snd (snd r))\<rparr> in
            if fst r \<noteq> Z_ok then Some (Inr (hook_closing code_invalid_frame_payload_data, fh', inp, out2, d'))
            else if length written < 4 then Some (Inl Undefined)
            else Some (Inr (hook_ok True, fh', [], out2 @ take (length written - 4) written, d')))"

section \<open>Dispatch\<close>

definition ext_frame_header :: "'a frame_header_scheme \<Rightarrow> 'z extension \<Rightarrow> hook_return \<times> 'z extension" where
  "ext_frame_header fh e = (case e of Base_extension \<Rightarrow> (hook_ok True, e)
     | Deflate_extension d \<Rightarrow> map_prod id Deflate_extension (deflate_frame_header fh d))"

definition ext_frame_payload :: "'z zlib \<Rightarrow> string \<Rightarrow> string \<Rightarrow> 'z extension \<Rightarrow> (hook_return \<times> string \<times> string \<times> 'z extension) option" where
  "ext_frame_payload z inp out1 e = (case e of Base_extension \<Rightarrow> Some (hook_ok False, inp, out1, e)
     | Deflate_extension d \<Rightarrow> map_option (\<lambda>(h, i, o1, d'). (h, i, o1, Deflate_extension d')) (deflate_frame_payload z inp out1 d))"

definition ext_frame_complete :: "'a frame_header_scheme \<Rightarrow> 'z extension \<Rightarrow> hook_return \<times> 'z extension" where
  "ext_frame_complete fh e = (case e of Base_extension \<Rightarrow> (hook_ok False, e)
     | Deflate_extension d \<Rightarrow> map_prod id Deflate_extension (deflate_frame_complete fh d))"

definition ext_outbound :: "'z zlib \<Rightarrow> 'a frame_header_scheme \<Rightarrow> string \<Rightarrow> string \<Rightarrow> 'z extension \<Rightarrow>
    (hook_return \<times> 'a frame_header_scheme \<times> string \<times> string \<times> 'z extension) result option" where
  "ext_outbound z fh inp out1 e = (case e of Base_extension \<Rightarrow> Some (Inr (hook_ok False, fh, inp, out1, e))
     | Deflate_extension d \<Rightarrow> map_option (map_sum id (\<lambda>(h, f, i, o1, d'). (h, f, i, o1, Deflate_extension d'))) (deflate_outbound z fh inp out1 d))"

section \<open>Properties\<close>

text \<open>A control frame between two messages makes the extension take the next compressed message for an uncompressed one: its
  payload is passed on as it is.\<close>

theorem compressed_after_control:
  assumes "inbound_compressed d = None" "is_control (fh_type ctl)" "\<not> rsv1 (fh_rsv ctl)"
    "\<not> is_control (fh_type msg)" "fh_type msg \<noteq> op_continuation"
    "deflate_frame_header ctl d = (h1, d1)" "deflate_frame_complete ctl d1 = (h2, d2)" "deflate_frame_header msg d2 = (h3, d3)"
  shows "hook_close h1 = None \<and> hook_close h2 = None \<and> hook_close h3 = None
    \<and> deflate_frame_payload z inp out1 d3 = Some (hook_ok False, inp, out1, d3)"
  using assms by (auto simp: deflate_frame_header_def deflate_frame_complete_def deflate_frame_payload_def value_or_false_def hook_ok_def
    opcode_is_compressible_def split: if_splits)

text \<open>A zlib that copies: what the witnesses run on.\<close>

definition copy_zlib :: "unit zlib" where
  "copy_zlib = \<lparr>zl_deflate_init = \<lambda>_. (Z_ok, ()), zl_inflate_init = \<lambda>_. (Z_ok, ()),
     zl_deflate = \<lambda>fl room inp s. (if fl = Z_block then (Z_ok, drop (room - 1) inp, take (room - 1) inp, s) else (Z_ok, inp, flush_marker, s)),
     zl_inflate = \<lambda>fl room inp s. (Z_ok, [], take (length inp - 4) inp, s)\<rparr>"

definition fresh_deflate :: "unit permessage_deflate" where
  "fresh_deflate = \<lparr>client_no_context_takeover = False, server_no_context_takeover = False, client_max_window_bits = 15,
     server_max_window_bits = 15, pd_flush = Z_sync_flush, inbound_is_compressible = Some False, inbound_compressed = None,
     deflate_stream = (), inflate_stream = ()\<rparr>"

lemma fresh_deflate_created: "deflate_create copy_zlib lci Client (extension_data_new ''permessage-deflate'') = Inr (Deflate_extension fresh_deflate)"
  by (simp add: deflate_create_def window_bits_def has_param_def extension_data_new_def omap_find_def default_max_window_bits_def copy_zlib_def
    fresh_deflate_def)

definition text_header :: "opcode \<Rightarrow> bool \<Rightarrow> frame_header" where
  "text_header type compressed = frame_header_new\<lparr>fh_fin := True, fh_type := type, fh_rsv := \<lparr>rsv1 = compressed, rsv2 = False, rsv3 = False\<rparr>\<rparr>"

lemma text_header_simps [simp]: "fh_type (text_header type c) = type" "rsv1 (fh_rsv (text_header type c)) = c" "fh_fin (text_header type c)"
  by (simp_all add: text_header_def)

theorem compressed_after_control_witness:
  "deflate_frame_payload copy_zlib ''raw'' [] (snd (deflate_frame_header (text_header op_text True) (snd (deflate_frame_complete (text_header op_ping False)
      (snd (deflate_frame_header (text_header op_ping False) fresh_deflate))))))
    = Some (hook_ok False, ''raw'', [], snd (deflate_frame_header (text_header op_text True) (snd (deflate_frame_complete (text_header op_ping False)
      (snd (deflate_frame_header (text_header op_ping False) fresh_deflate))))))"
proof -
  obtain h1 d1 h2 d2 h3 d3 where e: "deflate_frame_header (text_header op_ping False) fresh_deflate = (h1, d1)"
    "deflate_frame_complete (text_header op_ping False) d1 = (h2, d2)" "deflate_frame_header (text_header op_text True) d2 = (h3, d3)"
    by (metis surj_pair)
  have "inbound_compressed fresh_deflate = None" by (simp add: fresh_deflate_def)
  with compressed_after_control[OF _ _ _ _ _ e, of copy_zlib "''raw''" "[]"] show ?thesis by (simp add: e)
qed

text \<open>
  What zlib documents of a flush into enough room: its output ends in the marker.
\<close>

definition flushes_marker :: "'z zlib \<Rightarrow> bool" where
  "flushes_marker z \<longleftrightarrow> (\<forall>fl s. fl \<noteq> Z_block \<longrightarrow> fst (zl_deflate z fl 6 [] s) = Z_ok \<longrightarrow>
     (\<exists>body. fst (snd (snd (zl_deflate z fl 6 [] s))) = body @ flush_marker))"


lemma copy_zlib_loop: "length inp < 8191 \<Longrightarrow> deflate_loop (zl_deflate copy_zlib) inp out1 s = Some (Inr (out1 @ inp, s))"
  by (subst deflate_loop.simps) (simp add: copy_zlib_def zlib_buffer_size_def)

lemma copy_zlib_flushes: "flushes_marker copy_zlib"
  by (simp add: flushes_marker_def copy_zlib_def)

lemma copy_zlib_outbound: "deflate_outbound copy_zlib (text_header op_text False) ''Hi'' [] fresh_deflate
   = Some (Inr (hook_ok True, text_header op_text True, [], ''Hi'', fresh_deflate))"
  by (simp add: deflate_outbound_def copy_zlib_loop opcode_is_compressible_def text_header_def)
    (simp add: copy_zlib_def fresh_deflate_def flush_marker_def)


end
