(* ===== verification/Frame_Parser.thy ===== *)
theory Frame_Parser
  imports Ws_Extension Segment
begin

text \<open>
  websocket/protocol/frame_parser.{hpp,cpp}: frames of the wire.

  \<^item> \<open>frame_parser\<close> holds the parser's members; the parser of one direction also serializes in it.  The mask keys of
    \<^verbatim>\<open>std::mt19937\<close> are the parameter \<open>we_mask_key\<close>: \<open>we_mask_key n\<close> is the key of the parser's \<open>n\<close>-th masked frame,
    and \<open>fp_masked\<close> counts them.
  \<^item> the buffer \<^verbatim>\<open>in\<close> and \<^verbatim>\<open>should_close\<close> are part of the state \<open>parse_st\<close> of the operations.
  \<^item> \<open>parse\<close> is one stage of the code after the other; a stage returns whether the next one may run, and is skipped when
    the parser has passed it already.
\<close>

record 'z ws_env =
  we_zlib :: "'z zlib"
  we_int_reader :: "string \<Rightarrow> int option"
  we_shift :: int_shift
  we_mask_key :: "nat \<Rightarrow> u32"

datatype parsing_state = At_header | At_payload_length | At_mask_key | At_payload

record 'z frame_parser =
  fp_destination :: ws_endpoint
  fp_state :: parsing_state
  fp_current :: frame
  fp_opcode_in :: "opcode option"
  fp_opcode_out :: "opcode option"
  fp_extensions :: "'z extension list"
  fp_header_segment :: "char segment"
  fp_length_segment :: "char segment"
  fp_key_segment :: "char segment"
  fp_payload_segment :: "char segment"
  fp_masked :: nat

text \<open>An extension that reports an error is left out; an exception ends the construction.\<close>

fun make_extensions :: "'z ws_env \<Rightarrow> ws_endpoint \<Rightarrow> extension_data list \<Rightarrow> 'z extension list result" where
  "make_extensions env d [] = Inr []"
| "make_extensions env d (e # es) = (case from_extension_data (we_zlib env) (we_int_reader env) d e of
     Inr (Some x) \<Rightarrow> map_sum id (Cons x) (make_extensions env d es)
   | Inr None \<Rightarrow> make_extensions env d es
   | Inl (Error _) \<Rightarrow> make_extensions env d es
   | Inl f \<Rightarrow> Inl f)"

definition frame_parser_new :: "'z ws_env \<Rightarrow> ws_endpoint \<Rightarrow> extension_data list \<Rightarrow> 'z frame_parser result" where
  "frame_parser_new env d data = map_sum id (\<lambda>exts.
     \<lparr>fp_destination = d, fp_state = At_header, fp_current = frame_new, fp_opcode_in = None, fp_opcode_out = None,
      fp_extensions = exts, fp_header_segment = seg_new, fp_length_segment = seg_new, fp_key_segment = seg_new,
      fp_payload_segment = seg_new, fp_masked = 0\<rparr>) (make_extensions env d data)"

section \<open>Masking\<close>

definition mask_key_bytes :: "u32 \<Rightarrow> u8 list" where
  "mask_key_bytes key = [extract_byte 4 key, extract_byte 3 key, extract_byte 2 key, extract_byte 1 key]"

fun xor_text :: "u8 list \<Rightarrow> nat \<Rightarrow> string \<Rightarrow> string" where
  "xor_text ks i [] = []"
| "xor_text ks i (c # cs) = of_byte (to_byte c XOR ks ! (i AND 3)) # xor_text ks (i + 1) cs"

text \<open>The input buffer is emptied into the output buffer.\<close>

definition xor_mask :: "u32 \<Rightarrow> string \<Rightarrow> string \<Rightarrow> string \<times> string" where
  "xor_mask key input output = ([], output @ xor_text (mask_key_bytes key) 0 input)"

section \<open>Parsing\<close>

record 'z parse_st =
  ps_in :: string
  ps_close :: "close_code option"
  ps_parser :: "'z frame_parser"

type_synonym ('z, 'a) pop = "('z parse_st, error_state failure, 'a) sres"

definition upd_fp :: "('z frame_parser \<Rightarrow> 'z frame_parser) \<Rightarrow> 'z parse_st \<Rightarrow> 'z parse_st" where
  "upd_fp f st = st\<lparr>ps_parser := f (ps_parser st)\<rparr>"

definition upd_current :: "(frame \<Rightarrow> frame) \<Rightarrow> 'z parse_st \<Rightarrow> 'z parse_st" where
  "upd_current f = upd_fp (fp_current_update f)"

definition fp_read :: "nat \<Rightarrow> ('z frame_parser \<Rightarrow> char segment) \<Rightarrow>
    ((char segment \<Rightarrow> char segment) \<Rightarrow> 'z frame_parser \<Rightarrow> 'z frame_parser) \<Rightarrow> ('z, bool) pop" where
  "fp_read n get upd st = (case seg_read_bytes n (ps_in st) (get (ps_parser st)) of
     None \<Rightarrow> (Inl (Exception Length_error), st)
   | Some (r, rest, s) \<Rightarrow> (Inr r, upd_fp (upd (\<lambda>_. s)) (st\<lparr>ps_in := rest\<rparr>)))"

text \<open>The first two bytes; an error leaves what was set before it.\<close>

definition decode_header :: "('z, bool) pop" where
  "decode_header st = (let p = ps_parser st; data = seg_data (fp_header_segment p);
       first_byte = to_byte (data ! 0); second_byte = to_byte (data ! 1);
       raw_opcode = first_byte AND 0xF; len = second_byte AND 0x7F;
       rsv = \<lparr>rsv1 = first_byte AND 0x40 \<noteq> 0, rsv2 = first_byte AND 0x20 \<noteq> 0, rsv3 = first_byte AND 0x10 \<noteq> 0\<rparr>;
       fin = (first_byte AND 0x80 \<noteq> 0);
       st1 = upd_current (\<lambda>f. f\<lparr>fh_fin := fin, fh_rsv := rsv\<rparr>) (upd_fp (fp_header_segment_update seg_reset) st);
       st2 = upd_current (fh_type_update (\<lambda>_. raw_opcode)) st1;
       st3 = upd_current (\<lambda>f. f\<lparr>fh_mask_bit := second_byte AND 0x80 \<noteq> 0, fh_payload_length := ucast len\<rparr>) st2
     in if raw_opcode > op_max then (err_with invalid_frame ''Invalid opcode'', st1)
        else if is_control raw_opcode \<and> \<not> fin then (err_with invalid_frame ''Cannot fragment control frames'', st2)
        else if fp_opcode_in p \<noteq> None \<and> raw_opcode \<noteq> op_continuation
          then (err_with invalid_frame ''Expected a fragmented continuation frame'', st2)
        else if is_control raw_opcode \<and> len > 125 then (err_with invalid_frame ''Control frame payload cannot exceed 125'', st3)
        else (Inr True, upd_fp (fp_state_update (\<lambda>_. At_payload_length)) st3))"

definition parse_header :: "('z, bool) pop" where
  "parse_header st = (if fp_state (ps_parser st) \<noteq> At_header then (Inr True, st)
     else sbind (fp_read 2 fp_header_segment fp_header_segment_update) (\<lambda>ok. if ok then decode_header else sreturn False) st)"

text \<open>The extended length of \<open>n\<close> bytes.\<close>

definition read_length :: "'z ws_env \<Rightarrow> nat \<Rightarrow> ('z, bool) pop" where
  "read_length env n st = sbind (fp_read n fp_length_segment fp_length_segment_update) (\<lambda>ok st.
     if \<not> ok then (Inr False, st)
     else let len = parse_network_byte_order (we_shift env) n (map to_byte (seg_data (fp_length_segment (ps_parser st))));
         st1 = upd_fp (fp_length_segment_update seg_reset) (upd_current (fh_payload_length_update (\<lambda>_. len)) st)
       in if len \<le> (if n = 2 then 125 else 65535)
            then (err_with invalid_frame ''Payload length did not encode with minimum bytes'', st1)
          else if n = 8 \<and> drop_bit 63 len \<noteq> 0
            then (err_with invalid_frame ''MSB must be 0 when using eight-byte payload length'', st1)
          else (Inr True, st1)) st"

definition parse_extended_length :: "'z ws_env \<Rightarrow> ('z, bool) pop" where
  "parse_extended_length env st = (let len = fh_payload_length (fp_current (ps_parser st)) in
     if len = 126 then read_length env 2 st else if len = 127 then read_length env 8 st else (Inr True, st))"

fun header_hooks :: "frame \<Rightarrow> 'z extension list \<Rightarrow> close_code option \<times> 'z extension list" where
  "header_hooks f [] = (None, [])"
| "header_hooks f (e # es) = (case ext_frame_header f e of (h, e') \<Rightarrow>
     case hook_close h of Some code \<Rightarrow> (Some code, e' # es) | None \<Rightarrow> map_prod id (Cons e') (header_hooks f es))"

text \<open>Extensions and the check of the mask bit; \<open>should_close\<close> stops the parser.\<close>

definition check_header :: "('z, bool) pop" where
  "check_header st = (let p = ps_parser st; cur = fp_current p; (code, exts) = header_hooks cur (fp_extensions p);
       st1 = upd_fp (fp_extensions_update (\<lambda>_. exts)) st in
     if code \<noteq> None then (Inr False, st1\<lparr>ps_close := code\<rparr>)
     else if fh_mask_bit cur \<and> fp_destination p = Client
       then (err_with invalid_frame ''Client received unexpected masked frame'', st1)
     else if \<not> fh_mask_bit cur \<and> fp_destination p = Server
       then (err_with invalid_frame ''Server received unexpected unmasked frame'', st1)
     else (Inr True, upd_fp (fp_state_update (\<lambda>_. At_mask_key)) st1))"

definition parse_payload_length :: "'z ws_env \<Rightarrow> ('z, bool) pop" where
  "parse_payload_length env st = (if fp_state (ps_parser st) \<noteq> At_payload_length then (Inr True, st)
     else sbind (parse_extended_length env) (\<lambda>ok. if ok then check_header else sreturn False) st)"

definition set_mask_key :: "'z ws_env \<Rightarrow> 'z parse_st \<Rightarrow> 'z parse_st" where
  "set_mask_key env st = (let key = ucast (parse_network_byte_order (we_shift env) 8
       (map to_byte (seg_data (fp_key_segment (ps_parser st))))) in
     upd_fp (fp_key_segment_update seg_reset) (upd_current (fh_mask_key_update (\<lambda>_. key)) st))"

definition parse_mask_key :: "'z ws_env \<Rightarrow> ('z, bool) pop" where
  "parse_mask_key env st = (if fp_state (ps_parser st) \<noteq> At_mask_key then (Inr True, st)
     else sbind (\<lambda>st. if \<not> fh_mask_bit (fp_current (ps_parser st)) then (Inr True, st)
       else sbind (fp_read 4 fp_key_segment fp_key_segment_update)
         (\<lambda>ok st. if ok then (Inr True, set_mask_key env st) else (Inr False, st)) st)
       (\<lambda>ok st. if ok then (Inr True, upd_fp (fp_state_update (\<lambda>_. At_payload)) st) else (Inr False, st)) st)"

text \<open>The payload goes from one buffer to the other with every step that rewrites it.\<close>

definition unmask :: "frame \<Rightarrow> string double_buffer \<Rightarrow> string double_buffer" where
  "unmask f b = (if fh_mask_bit f
     then (case xor_mask (fh_mask_key f) (db_input b) (db_output b) of (i, out1) \<Rightarrow> db_swap (db_set i out1 b)) else b)"

fun payload_hooks :: "'z ws_env \<Rightarrow> string double_buffer \<Rightarrow> 'z extension list \<Rightarrow>
    (close_code option \<times> string double_buffer \<times> 'z extension list) result" where
  "payload_hooks env b [] = Inr (None, b, [])"
| "payload_hooks env b (e # es) = (case ext_frame_payload (we_zlib env) (db_input b) (db_output b) e of
     None \<Rightarrow> Inl Diverges
   | Some (h, i, out1, e') \<Rightarrow> let b1 = db_set i out1 b in
       case hook_close h of Some code \<Rightarrow> Inr (Some code, b1, e' # es)
       | None \<Rightarrow> map_sum id (map_prod id (map_prod id (Cons e')))
           (payload_hooks env (if transferred_input_to_output h then db_swap b1 else b1) es))"

fun complete_hooks :: "frame \<Rightarrow> 'z extension list \<Rightarrow> close_code option \<times> 'z extension list" where
  "complete_hooks f [] = (None, [])"
| "complete_hooks f (e # es) = (case ext_frame_complete f e of (h, e') \<Rightarrow>
     case hook_close h of Some code \<Rightarrow> (Some code, e' # es) | None \<Rightarrow> map_prod id (Cons e') (complete_hooks f es))"

definition payload_buffers :: "'z frame_parser \<Rightarrow> string double_buffer" where
  "payload_buffers p = double_buffer_make (seg_data (fp_payload_segment p)) (fr_content (fp_current p))"

definition set_payload_buffers :: "string double_buffer \<Rightarrow> 'z frame_parser \<Rightarrow> 'z frame_parser" where
  "set_payload_buffers b p = p\<lparr>fp_payload_segment := (fp_payload_segment p)\<lparr>seg_data := db_first b\<rparr>,
     fp_current := (fp_current p)\<lparr>fr_content := db_second b\<rparr>\<rparr>"

definition move_to_second :: "string double_buffer \<Rightarrow> string double_buffer" where
  "move_to_second b = (if db_is_swapped b then b else db_swap (db_set [] (db_output b @ db_input b) b))"

text \<open>What the next frames may be, and the type the frame is given out with.\<close>

definition effective_opcode :: "'z frame_parser \<Rightarrow> 'z frame_parser" where
  "effective_opcode p = (let cur = fp_current p in
     if is_control (fh_type cur) then p
     else if fh_fin cur then p\<lparr>fp_opcode_in := None\<rparr>
     else case fp_opcode_in p of Some t \<Rightarrow> p\<lparr>fp_current := cur\<lparr>fh_type := t\<rparr>\<rparr>
       | None \<Rightarrow> p\<lparr>fp_opcode_in := Some (fh_type cur)\<rparr>)"

definition give_out :: "'z parse_st \<Rightarrow> frame \<times> 'z parse_st" where
  "give_out st = (let p = effective_opcode (ps_parser st); out1 = fp_current p in
     (out1, st\<lparr>ps_parser := p\<lparr>fp_current := out1\<lparr>fr_content := []\<rparr>, fp_payload_segment := seg_reset (fp_payload_segment p),
       fp_state := At_header\<rparr>\<rparr>))"

definition process_payload :: "'z ws_env \<Rightarrow> ('z, frame option) pop" where
  "process_payload env st = (let p = ps_parser st; cur = fp_current p; b = unmask cur (payload_buffers p) in
     case payload_hooks env b (fp_extensions p) of
       Inl f \<Rightarrow> (Inl f, st)
     | Inr (Some code, b1, exts) \<Rightarrow> (Inr None, (upd_fp (\<lambda>p. set_payload_buffers b1 (p\<lparr>fp_extensions := exts\<rparr>)) st)\<lparr>ps_close := Some code\<rparr>)
     | Inr (None, b1, exts) \<Rightarrow> (case complete_hooks cur exts of
         (Some code, exts') \<Rightarrow> (Inr None, (upd_fp (\<lambda>p. set_payload_buffers b1 (p\<lparr>fp_extensions := exts'\<rparr>)) st)\<lparr>ps_close := Some code\<rparr>)
       | (None, exts') \<Rightarrow> (case give_out (upd_fp (\<lambda>p. set_payload_buffers (move_to_second b1) (p\<lparr>fp_extensions := exts'\<rparr>)) st) of
           (f, st1) \<Rightarrow> (Inr (Some f), st1))))"

definition parse_payload :: "'z ws_env \<Rightarrow> ('z, frame option) pop" where
  "parse_payload env st =
     sbind (fp_read (unat (fh_payload_length (fp_current (ps_parser st)))) fp_payload_segment fp_payload_segment_update)
       (\<lambda>ok. if ok then process_payload env else sreturn None) st"

definition parse_frame :: "'z ws_env \<Rightarrow> ('z, frame option) pop" where
  "parse_frame env = sbind parse_header (\<lambda>a. if \<not> a then sreturn None
     else sbind (parse_payload_length env) (\<lambda>b. if \<not> b then sreturn None
     else sbind (parse_mask_key env) (\<lambda>c. if \<not> c then sreturn None else parse_payload env)))"

section \<open>Serialization\<close>

record 'z ser_st =
  ss_out :: string
  ss_parser :: "'z frame_parser"

type_synonym ('z, 'a) wop = "('z ser_st, error_state failure, 'a) sres"

fun outbound_hooks :: "'z ws_env \<Rightarrow> frame_header \<Rightarrow> string double_buffer \<Rightarrow> 'z extension list \<Rightarrow>
    (frame_header \<times> string double_buffer) result \<times> 'z extension list" where
  "outbound_hooks env fh b [] = (Inr (fh, b), [])"
| "outbound_hooks env fh b (e # es) = (case ext_outbound (we_zlib env) fh (db_input b) (db_output b) e of
     None \<Rightarrow> (Inl Diverges, e # es)
   | Some (Inl f) \<Rightarrow> (Inl f, e # es)
   | Some (Inr (h, fh', i, out1, e')) \<Rightarrow> let b1 = db_set i out1 b in
       if hook_close h \<noteq> None then (err serialization_error, e' # es)
       else map_prod id (Cons e') (outbound_hooks env fh' (if transferred_input_to_output h then db_swap b1 else b1) es))"

definition first_byte_of :: "frame_header \<Rightarrow> u8" where
  "first_byte_of fh = (if fh_fin fh then 0x80 else 0) OR (if rsv1 (fh_rsv fh) then 0x40 else 0)
     OR (if rsv2 (fh_rsv fh) then 0x20 else 0) OR (if rsv3 (fh_rsv fh) then 0x10 else 0) OR (fh_type fh AND 0xF)"

text \<open>The second byte and the extended length.\<close>

definition length_bytes :: "frame_header \<Rightarrow> u8 list result" where
  "length_bytes fh = (let mask = (if fh_mask_bit fh then 0x80 else 0); len = fh_payload_length fh in
     if len \<le> 125 then Inr [mask OR ucast len]
     else if is_control (fh_type fh) then err_with invalid_frame ''Control frame payload cannot exceed 125 bytes''
     else if len \<le> 65535 then Inr ((mask OR 126) # insert_bytes 2 len)
     else Inr ((mask OR 127) # insert_bytes 8 len))"

definition serialize_frame :: "'z ws_env \<Rightarrow> opcode \<Rightarrow> string \<Rightarrow> bool \<Rightarrow> ('z, unit) wop" where
  "serialize_frame env type payload finished st = (let p = ss_parser st;
       header = frame_header_new\<lparr>fh_fin := finished, fh_type := type, fh_mask_bit := fp_destination p = Server\<rparr>;
       (r, exts) = outbound_hooks env header (double_buffer_make payload []) (fp_extensions p);
       st1 = st\<lparr>ss_parser := p\<lparr>fp_extensions := exts\<rparr>\<rparr>
     in case r of Inl f \<Rightarrow> (Inl f, st1)
      | Inr (fh, b) \<Rightarrow> let fh1 = fh\<lparr>fh_payload_length := of_nat (length (db_input b))\<rparr> in
          case length_bytes fh1 of Inl f \<Rightarrow> (Inl f, st1)
          | Inr lens \<Rightarrow> let bytes = first_byte_of fh1 # lens; key = we_mask_key env (fp_masked p) in
              if fp_destination p = Server
              then (Inr (), st1\<lparr>ss_out := ss_out st @ map of_byte (bytes @ insert_bytes 4 (ucast key))
                  @ snd (xor_mask key (db_input b) []), ss_parser := (ss_parser st1)\<lparr>fp_masked := fp_masked p + 1\<rparr>\<rparr>)
              else (Inr (), st1\<lparr>ss_out := ss_out st @ map of_byte bytes @ db_input b\<rparr>))"

definition serialize_close :: "'z ws_env \<Rightarrow> close_frame \<Rightarrow> ('z, unit) wop" where
  "serialize_close env f = serialize_frame env op_close (map of_byte (insert_bytes 2 (ucast (cl_code f))) @ cl_reason f) True"

definition serialize_ping :: "'z ws_env \<Rightarrow> string \<Rightarrow> ('z, unit) wop" where
  "serialize_ping env payload = serialize_frame env op_ping payload True"

definition serialize_pong :: "'z ws_env \<Rightarrow> string \<Rightarrow> ('z, unit) wop" where
  "serialize_pong env payload = serialize_frame env op_pong payload True"

text \<open>The number of an opcode is streamed as a byte, that is as a character.\<close>

definition unexpected_out :: "opcode \<Rightarrow> opcode \<Rightarrow> unit result" where
  "unexpected_out expected type = (case opcode_to_string expected of
     Inl _ \<Rightarrow> Inl (Exception Bad_result_access)
   | Inr name \<Rightarrow> err_with unexpected_opcode
       (''Unexpected opcode when serializing frame (expected '' @ name @ ''; rececived '' @ [of_byte type] @ '')''))"

definition serialize_message :: "'z ws_env \<Rightarrow> message_frame \<Rightarrow> ('z, unit) wop" where
  "serialize_message env m st = (let p = ss_parser st; out1 = fp_opcode_out p in
     if out1 \<noteq> None \<and> the out1 \<noteq> mf_type m then (unexpected_out (the out1) (mf_type m), st)
     else serialize_frame env (if out1 = None then mf_type m else op_continuation) (mf_payload m) (mf_finished m)
       (st\<lparr>ss_parser := p\<lparr>fp_opcode_out := (if mf_finished m then None else if out1 = None then Some (mf_type m) else out1)\<rparr>\<rparr>))"

end
