(* ===== verification/Ws_Manager.thy ===== *)
theory Ws_Manager
  imports Frame_Parser
begin

text \<open>
  websocket/protocol/websocket_manager.{hpp,cpp}: completed frames out of a buffer and into one.
\<close>

section \<open>Termination of the parser's loop\<close>

text \<open>
  A frame takes at least its two header bytes from the buffer, unless the parser was already behind the header or
  held the header's bytes in its segment; neither is the case any more behind a frame.
\<close>

definition fresh_segment :: "'a segment \<Rightarrow> bool" where
  "fresh_segment s \<longleftrightarrow> \<not> seg_complete s \<and> seg_pending s = []"

definition parse_measure :: "'z parse_st \<Rightarrow> nat" where
  "parse_measure st = length (ps_in st) + (if fp_state (ps_parser st) = At_header then 0 else 1)
     + (if fresh_segment (fp_header_segment (ps_parser st)) then 0 else 1)"

lemma upd_fp_simps [simp]: "ps_in (upd_fp f st) = ps_in st" "ps_close (upd_fp f st) = ps_close st"
  "ps_parser (upd_fp f st) = f (ps_parser st)"
  by (simp_all add: upd_fp_def)

lemma upd_current_simps [simp]: "ps_in (upd_current f st) = ps_in st" "ps_close (upd_current f st) = ps_close st"
  "fp_current (ps_parser (upd_current f st)) = f (fp_current (ps_parser st))"
  "fp_state (ps_parser (upd_current f st)) = fp_state (ps_parser st)"
  "fp_opcode_in (ps_parser (upd_current f st)) = fp_opcode_in (ps_parser st)"
  "fp_opcode_out (ps_parser (upd_current f st)) = fp_opcode_out (ps_parser st)"
  "fp_destination (ps_parser (upd_current f st)) = fp_destination (ps_parser st)"
  "fp_extensions (ps_parser (upd_current f st)) = fp_extensions (ps_parser st)"
  "fp_header_segment (ps_parser (upd_current f st)) = fp_header_segment (ps_parser st)"
  "fp_length_segment (ps_parser (upd_current f st)) = fp_length_segment (ps_parser st)"
  "fp_key_segment (ps_parser (upd_current f st)) = fp_key_segment (ps_parser st)"
  "fp_payload_segment (ps_parser (upd_current f st)) = fp_payload_segment (ps_parser st)"
  "fp_masked (ps_parser (upd_current f st)) = fp_masked (ps_parser st)"
  by (simp_all add: upd_current_def)

lemma sbind_cases: "sbind m f s = (r, s') \<longleftrightarrow> (\<exists>e. m s = (Inl e, s') \<and> r = Inl e) \<or> (\<exists>x s1. m s = (Inr x, s1) \<and> f x s1 = (r, s'))"
  by (auto simp: sbind_def split: prod.splits sum.splits)

lemma seg_read_shrinks: "seg_read_bytes n xs s = Some (r, rest, s') \<Longrightarrow> length rest \<le> length xs
    \<and> (fresh_segment s \<longrightarrow> r \<longrightarrow> n \<noteq> 0 \<longrightarrow> length rest < length xs)"
  by (auto simp: seg_read_bytes_def fresh_segment_def Let_def split: if_splits)

lemma fp_read_frame: "fp_read n get upd st = (r, st1) \<Longrightarrow>
    length (ps_in st1) \<le> length (ps_in st) \<and> ps_close st1 = ps_close st
    \<and> (fresh_segment (get (ps_parser st)) \<longrightarrow> r = Inr True \<longrightarrow> n \<noteq> 0 \<longrightarrow> length (ps_in st1) < length (ps_in st))"
  by (auto simp: fp_read_def dest: seg_read_shrinks split: option.splits)

lemma fp_read_parser: "fp_read n get upd st = (r, st1) \<Longrightarrow> ps_parser st1 = ps_parser st \<or> (\<exists>s. ps_parser st1 = upd (\<lambda>_. s) (ps_parser st))"
  by (auto simp: fp_read_def split: option.splits)

text \<open>What the stages behind the header leave alone.\<close>

definition same_header :: "'z parse_st \<Rightarrow> 'z parse_st \<Rightarrow> bool" where
  "same_header st st1 \<longleftrightarrow> length (ps_in st1) \<le> length (ps_in st) \<and> fp_header_segment (ps_parser st1) = fp_header_segment (ps_parser st)"

lemma same_header_trans: "same_header a b \<Longrightarrow> same_header b c \<Longrightarrow> same_header a c"
  by (simp add: same_header_def)

lemma same_header_upd [simp]: "same_header st st" "same_header st (upd_current f st)"
  "same_header st (ps_close_update g st) "
  by (simp_all add: same_header_def)

lemma fp_read_same:
  assumes "fp_read n get upd st = (r, st1)" "\<And>g p. fp_header_segment (upd g p) = fp_header_segment p"
  shows "same_header st st1"
  using fp_read_frame[OF assms(1)] fp_read_parser[OF assms(1)] assms(2) by (auto simp: same_header_def)

lemma fp_read_sames:
  "fp_read n fp_length_segment fp_length_segment_update st = (r, st1) \<Longrightarrow> same_header st st1"
  "fp_read n fp_key_segment fp_key_segment_update st = (r, st1) \<Longrightarrow> same_header st st1"
  "fp_read n fp_payload_segment fp_payload_segment_update st = (r, st1) \<Longrightarrow> same_header st st1"
  by (erule fp_read_same, simp)+

lemma check_header_same: "check_header st = (r, st1) \<Longrightarrow> same_header st st1"
  by (auto simp: check_header_def same_header_def Let_def split: prod.splits if_splits)

lemma read_length_same: "read_length env n st = (r, st1) \<Longrightarrow> same_header st st1"
  by (auto simp: read_length_def sbind_cases Let_def split: if_splits dest!: fp_read_sames(1)) (simp_all add: same_header_def)

lemma parse_payload_length_same: "parse_payload_length env st = (r, st1) \<Longrightarrow> same_header st st1"
  by (auto simp: parse_payload_length_def parse_extended_length_def sbind_cases sreturn_def Let_def split: if_splits
    dest!: check_header_same read_length_same intro: same_header_trans)

lemma parse_mask_key_same: "parse_mask_key env st = (r, st1) \<Longrightarrow> same_header st st1"
  by (auto simp: parse_mask_key_def sbind_cases set_mask_key_def Let_def split: if_splits dest!: fp_read_sames(2))
    (simp_all add: same_header_def)

lemma give_out_frame: "give_out st = (f, st1) \<Longrightarrow> same_header st st1 \<and> fp_state (ps_parser st1) = At_header \<and> ps_close st1 = ps_close st"
  by (auto simp: give_out_def effective_opcode_def same_header_def Let_def split: option.splits)

lemma process_payload_same: "process_payload env st = (r, st1) \<Longrightarrow>
    same_header st st1 \<and> (\<forall>f. r = Inr (Some f) \<longrightarrow> fp_state (ps_parser st1) = At_header)"
  by (auto simp: process_payload_def Let_def set_payload_buffers_def same_header_def split: sum.splits prod.splits option.splits
    dest!: give_out_frame)

lemma parse_payload_same: "parse_payload env st = (r, st1) \<Longrightarrow>
    same_header st st1 \<and> (\<forall>f. r = Inr (Some f) \<longrightarrow> fp_state (ps_parser st1) = At_header)"
  by (auto simp: parse_payload_def sbind_cases sreturn_def split: if_splits dest!: fp_read_sames(3) process_payload_same
    intro: same_header_trans)

lemma fresh_reset [simp]: "fresh_segment (seg_reset s)"
  by (simp add: fresh_segment_def seg_reset_def)

lemma parse_header_less:
  assumes "parse_header st = (Inr True, st1)"
  shows "length (ps_in st1) + (if fresh_segment (fp_header_segment (ps_parser st1)) then 0 else 1) < parse_measure st"
proof (cases "fp_state (ps_parser st) = At_header")
  case True
  with assms obtain st2 where r: "fp_read 2 fp_header_segment fp_header_segment_update st = (Inr True, st2)" "decode_header st2 = (Inr True, st1)"
    by (auto simp: parse_header_def sbind_cases sreturn_def split: if_splits)
  from r(2) have "ps_in st1 = ps_in st2" "fp_header_segment (ps_parser st1) = seg_reset (fp_header_segment (ps_parser st2))"
    by (auto simp: decode_header_def Let_def split: if_splits)
  with fp_read_frame[OF r(1)] True show ?thesis by (auto simp: parse_measure_def)
qed (use assms in \<open>simp add: parse_header_def parse_measure_def\<close>)

lemma parse_frame_less:
  assumes "parse_frame env st = (Inr (Some f), st1)"
  shows "parse_measure st1 < parse_measure st"
proof -
  from assms obtain a b c where s: "parse_header st = (Inr True, a)" "parse_payload_length env a = (Inr True, b)"
      "parse_mask_key env b = (Inr True, c)" "parse_payload env c = (Inr (Some f), st1)"
    by (auto simp: parse_frame_def sbind_cases sreturn_def split: if_splits)
  have "same_header a st1" "fp_state (ps_parser st1) = At_header"
    using parse_payload_length_same[OF s(2)] parse_mask_key_same[OF s(3)] parse_payload_same[OF s(4)]
    by (auto intro: same_header_trans)
  with parse_header_less[OF s(1)] show ?thesis by (simp add: parse_measure_def same_header_def)
qed

section \<open>The manager\<close>

definition process_close_frame :: "int_shift \<Rightarrow> string \<Rightarrow> close_frame result" where
  "process_close_frame ub content = (case seg_read_bytes 2 content seg_new of
     None \<Rightarrow> Inl (Exception Length_error)
   | Some (False, rest, reader) \<Rightarrow> if seg_last reader = 1
       then err_with invalid_frame ''Close frame cannot have 1 byte payload''
       else Inr \<lparr>cl_code = code_no_status_rcvd, cl_reason = []\<rparr>
   | Some (True, rest, reader) \<Rightarrow>
       Inr \<lparr>cl_code = ucast (parse_network_byte_order ub 2 (map to_byte (seg_data reader))), cl_reason = rest\<rparr>)"

text \<open>The switch over the type of a frame; a type it does not name is dropped.\<close>

definition complete_frame :: "int_shift \<Rightarrow> frame \<Rightarrow> completed_frame list result" where
  "complete_frame ub f = (
     if fh_type f = op_ping then Inr [Ping_frame (fr_content f)]
     else if fh_type f = op_pong then Inr [Pong_frame (fr_content f)]
     else if fh_type f = op_close then map_sum id (\<lambda>c. [Close_frame c]) (process_close_frame ub (fr_content f))
     else if fh_type f = op_text \<or> fh_type f = op_binary
       then Inr [Message_frame \<lparr>mf_type = fh_type f, mf_finished = fh_fin f, mf_payload = fr_content f\<rparr>]
     else Inr [])"

function ws_parse :: "'z ws_env \<Rightarrow> completed_frame list \<Rightarrow> ('z, completed_frame list) pop" where
  "ws_parse env acc st = (case parse_frame env st of
     (Inl f, st1) \<Rightarrow> (Inl f, st1)
   | (Inr None, st1) \<Rightarrow> (Inr acc, st1)
   | (Inr (Some fr), st1) \<Rightarrow> if ps_close st1 \<noteq> None then (Inr acc, st1)
       else (case complete_frame (we_shift env) fr of
           Inl f \<Rightarrow> (Inl f, st1)
         | Inr new \<Rightarrow> ws_parse env (acc @ new) st1))"
  by pat_completeness auto
termination
  by (relation "measure (\<lambda>(env, acc, st). parse_measure st)") (auto dest: parse_frame_less[OF sym])

declare ws_parse.simps [simp del]

definition ws_serialize :: "'z ws_env \<Rightarrow> completed_frame \<Rightarrow> ('z, unit) wop" where
  "ws_serialize env f st = (
     if completed_type f = op_ping then (case f of Ping_frame p \<Rightarrow> serialize_ping env p st | _ \<Rightarrow> (Inl (Exception Bad_variant_access), st))
     else if completed_type f = op_pong then (case f of Pong_frame p \<Rightarrow> serialize_pong env p st | _ \<Rightarrow> (Inl (Exception Bad_variant_access), st))
     else if completed_type f = op_close then (case f of Close_frame c \<Rightarrow> serialize_close env c st | _ \<Rightarrow> (Inl (Exception Bad_variant_access), st))
     else if completed_type f = op_binary \<or> completed_type f = op_text
       then (case f of Message_frame m \<Rightarrow> serialize_message env m st | _ \<Rightarrow> (Inl (Exception Bad_variant_access), st))
     else (err_with invalid_opcode ''Invalid opcode to serialize'', st))"

end
