(* ===== verification/Pipeline.thy ===== *)
theory Pipeline
  imports Ws_Types Ws_Handshake
begin

text \<open>
  websocket/pipeline.{hpp,cpp}: what the two directions of a connection share: how it was closed, and the queues of
  messages and frames that interceptors inject.  The mutexes around every access are left out: an operation is one step.
\<close>

record pipeline =
  pl_should_intercept :: bool
  pl_closed :: bool
  pl_closed_by :: ws_endpoint
  pl_closed_frame :: close_frame
  pl_client_key :: string
  pl_client_protocol :: "string option"
  pl_server_accept :: string
  pl_server_protocol :: "string option"
  pl_extensions :: "extension_data list"
  pl_messages :: "ws_endpoint \<Rightarrow> ws_message list"
  pl_frames :: "ws_endpoint \<Rightarrow> completed_frame list"

definition pipeline_new :: "exchange \<Rightarrow> bool \<Rightarrow> pipeline" where
  "pipeline_new handshake should_intercept = (let req = ex_request handshake; res = fst (exchange_response handshake) in
     \<lparr>pl_should_intercept = should_intercept, pl_closed = False, pl_closed_by = Client,
      pl_closed_frame = \<lparr>cl_code = 0, cl_reason = []\<rparr>, pl_client_key = get_client_key req,
      pl_client_protocol = get_protocol req, pl_server_accept = get_server_accept res,
      pl_server_protocol = get_protocol res, pl_extensions = get_extensions res, pl_messages = (\<lambda>_. []), pl_frames = (\<lambda>_. [])\<rparr>)"

definition set_close_state :: "ws_endpoint \<Rightarrow> close_frame \<Rightarrow> pipeline \<Rightarrow> pipeline" where
  "set_close_state closer f p = p\<lparr>pl_closed := True, pl_closed_by := closer, pl_closed_frame := f\<rparr>"

definition set_interception :: "bool \<Rightarrow> pipeline \<Rightarrow> pipeline" where
  "set_interception flag p = p\<lparr>pl_should_intercept := flag\<rparr>"

definition pipeline_has_message :: "ws_endpoint \<Rightarrow> pipeline \<Rightarrow> bool" where
  "pipeline_has_message ep p \<longleftrightarrow> pl_messages p ep \<noteq> []"

definition next_message :: "ws_endpoint \<Rightarrow> pipeline \<Rightarrow> ws_message" where
  "next_message ep p = hd (pl_messages p ep)"

definition pop_message :: "ws_endpoint \<Rightarrow> pipeline \<Rightarrow> pipeline" where
  "pop_message ep p = p\<lparr>pl_messages := (pl_messages p)(ep := tl (pl_messages p ep))\<rparr>"

definition inject_message :: "ws_endpoint \<Rightarrow> ws_message \<Rightarrow> pipeline \<Rightarrow> pipeline" where
  "inject_message ep m p = p\<lparr>pl_messages := (pl_messages p)(ep := pl_messages p ep @ [m])\<rparr>"

definition has_frame :: "ws_endpoint \<Rightarrow> pipeline \<Rightarrow> bool" where
  "has_frame ep p \<longleftrightarrow> pl_frames p ep \<noteq> []"

definition next_frame :: "ws_endpoint \<Rightarrow> pipeline \<Rightarrow> completed_frame" where
  "next_frame ep p = hd (pl_frames p ep)"

definition pop_frame :: "ws_endpoint \<Rightarrow> pipeline \<Rightarrow> pipeline" where
  "pop_frame ep p = p\<lparr>pl_frames := (pl_frames p)(ep := tl (pl_frames p ep))\<rparr>"

text \<open>A close frame is not queued; a frame that only has the type of one is no close frame.\<close>

definition inject_frame :: "ws_endpoint \<Rightarrow> completed_frame \<Rightarrow> pipeline \<Rightarrow> pipeline result" where
  "inject_frame ep f p = (if completed_type f = op_close
     then (case f of Close_frame c \<Rightarrow> Inr (set_close_state (flip_endpoint ep) c p) | _ \<Rightarrow> Inl (Exception Bad_variant_access))
     else Inr (p\<lparr>pl_frames := (pl_frames p)(ep := pl_frames p ep @ [f])\<rparr>))"

end
