(* ===== verification/Ws_Service.thy ===== *)
theory Ws_Service
  imports Ws_Manager Pipeline Services
begin

text \<open>
  websocket/websocket_service.{hpp,cpp}: the two loops that carry frames from one end to the other.

  \<^item> a \<open>ws_connection\<close> is a \<^verbatim>\<open>websocket_connection\<close>: it reads from its source and writes to its destination, which is the
    other end. It is named by its destination; \<open>wc_wait\<close> is the callback it waits for, with the request made of Asio.
  \<^item> \<open>ws_step\<close> runs a callback with the library's result, \<open>ws_event\<close>. Callbacks of the two connections may come in
    every order; each one is one step (the shared pipeline is locked by the code only per access).
  \<^item> interceptors are functions on the flow and the pipeline. An exception, undefined behaviour and a zlib that does not
    return end the service in \<open>Ws_crashed\<close>.
\<close>

record 'z wsv_env =
  ve_ws :: "'z ws_env"
  ve_timeouts :: timeouts
  ve_hook :: "websocket_event \<Rightarrow> flow \<times> pipeline \<Rightarrow> flow \<times> pipeline"
  ve_message_hook :: "flow \<times> pipeline \<times> ws_message \<Rightarrow> flow \<times> pipeline \<times> ws_message"
  ve_error_text :: "boost_error \<Rightarrow> string"
  ve_intercept_by_default :: bool

datatype ws_wait = Ws_idle | Ws_destination_write io_op | Ws_source_read io_op | Ws_close_write io_op

record 'z ws_connection =
  wc_destination :: ws_endpoint
  wc_manager :: "'z frame_parser"
  wc_finished :: bool
  wc_ready :: bool
  wc_content :: string
  wc_wait :: ws_wait

datatype ws_end = Ws_running | Ws_stopped | Ws_crashed "error_state failure"

record 'z ws_service =
  wv_flow :: flow
  wv_pipeline :: pipeline
  wv_client :: "'z ws_connection"
  wv_server :: "'z ws_connection"
  wv_end :: ws_end

definition wc_source :: "'z ws_connection \<Rightarrow> ws_endpoint" where
  "wc_source c = flip_endpoint (wc_destination c)"

definition ws_connection_new :: "ws_endpoint \<Rightarrow> 'z frame_parser \<Rightarrow> 'z ws_connection" where
  "ws_connection_new d manager = \<lparr>wc_destination = d, wc_manager = manager, wc_finished = False, wc_ready = True,
     wc_content = [], wc_wait = Ws_idle\<rparr>"

definition ws_service_new :: "'z wsv_env \<Rightarrow> flow \<Rightarrow> exchange \<Rightarrow> 'z ws_service result" where
  "ws_service_new env w handshake = (let p = pipeline_new handshake (ve_intercept_by_default env) in
     rbind (frame_parser_new (ve_ws env) Client (pl_extensions p)) (\<lambda>client.
     rbind (frame_parser_new (ve_ws env) Server (pl_extensions p)) (\<lambda>server.
       Inr \<lparr>wv_flow = w, wv_pipeline = p, wv_client = ws_connection_new Client client, wv_server = ws_connection_new Server server,
         wv_end = Ws_running\<rparr>)))"

type_synonym ('z, 'a) vop = "('z ws_service, error_state failure, 'a) sres"

definition conn_of :: "ws_endpoint \<Rightarrow> 'z ws_service \<Rightarrow> 'z ws_connection" where
  "conn_of ep s = (if ep = Client then wv_client s else wv_server s)"

definition upd_conn :: "ws_endpoint \<Rightarrow> ('z ws_connection \<Rightarrow> 'z ws_connection) \<Rightarrow> 'z ws_service \<Rightarrow> 'z ws_service" where
  "upd_conn ep f s = (if ep = Client then s\<lparr>wv_client := f (wv_client s)\<rparr> else s\<lparr>wv_server := f (wv_server s)\<rparr>)"

definition upd_pipeline :: "(pipeline \<Rightarrow> pipeline) \<Rightarrow> 'z ws_service \<Rightarrow> 'z ws_service" where
  "upd_pipeline f s = s\<lparr>wv_pipeline := f (wv_pipeline s)\<rparr>"

definition upd_ws_flow :: "(flow \<Rightarrow> flow) \<Rightarrow> 'z ws_service \<Rightarrow> 'z ws_service" where
  "upd_ws_flow f s = s\<lparr>wv_flow := f (wv_flow s)\<rparr>"

text \<open>The connection of an end; an operation of \<^verbatim>\<open>base_connection\<close> is given at both types.\<close>

definition upd_end :: "ws_endpoint \<Rightarrow> (client_conn \<Rightarrow> client_conn) \<Rightarrow> (server_conn \<Rightarrow> server_conn) \<Rightarrow> flow \<Rightarrow> flow" where
  "upd_end ep f g w = (if ep = Client then upd_client f w else upd_server g w)"

definition start_end :: "ws_endpoint \<Rightarrow> (client_conn \<Rightarrow> io_op \<times> client_conn) \<Rightarrow> (server_conn \<Rightarrow> io_op \<times> server_conn) \<Rightarrow> flow \<Rightarrow> io_op \<times> flow" where
  "start_end ep f g w = (if ep = Client then (case f (fl_client w) of (op, c) \<Rightarrow> (op, w\<lparr>fl_client := c\<rparr>))
     else (case g (fl_server w) of (op, c) \<Rightarrow> (op, w\<lparr>fl_server := c\<rparr>)))"

definition end_input :: "ws_endpoint \<Rightarrow> flow \<Rightarrow> string" where
  "end_input ep w = (if ep = Client then cn_input (fl_client w) else cn_input (fl_server w))"

definition end_output :: "ws_endpoint \<Rightarrow> flow \<Rightarrow> string" where
  "end_output ep w = (if ep = Client then cn_output (fl_client w) else cn_output (fl_server w))"

definition run_ws :: "'z wsv_env \<Rightarrow> websocket_event \<Rightarrow> 'z ws_service \<Rightarrow> 'z ws_service" where
  "run_ws env ev s = (case ve_hook env ev (wv_flow s, wv_pipeline s) of (w, p) \<Rightarrow> s\<lparr>wv_flow := w, wv_pipeline := p\<rparr>)"

definition ws_stop :: "'z ws_service \<Rightarrow> 'z ws_service" where
  "ws_stop s = (upd_ws_flow flow_disconnect s)\<lparr>wv_end := Ws_stopped\<rparr>"

definition ws_crash :: "error_state failure \<Rightarrow> 'z ws_service \<Rightarrow> 'z ws_service" where
  "ws_crash f s = s\<lparr>wv_end := Ws_crashed f\<rparr>"

section \<open>The manager on the connection's buffers\<close>

definition ws_receive :: "'z wsv_env \<Rightarrow> ws_endpoint \<Rightarrow> ('z, completed_frame list \<times> close_code option) vop" where
  "ws_receive env ep s = (let c = conn_of ep s in
     case ws_parse (ve_ws env) [] \<lparr>ps_in = end_input (wc_source c) (wv_flow s), ps_close = None, ps_parser = wc_manager c\<rparr> of
       (r, st) \<Rightarrow> (map_sum id (\<lambda>frames. (frames, ps_close st)) r,
         upd_conn ep (wc_manager_update (\<lambda>_. ps_parser st))
           (upd_ws_flow (upd_end (wc_source c) (cn_input_update (\<lambda>_. ps_in st)) (cn_input_update (\<lambda>_. ps_in st))) s)))"

definition ws_send :: "'z wsv_env \<Rightarrow> ws_endpoint \<Rightarrow> completed_frame \<Rightarrow> ('z, unit) vop" where
  "ws_send env ep f s = (let c = conn_of ep s in
     case ws_serialize (ve_ws env) f \<lparr>ss_out = end_output (wc_destination c) (wv_flow s), ss_parser = wc_manager c\<rparr> of
       (r, st) \<Rightarrow> (r, upd_conn ep (wc_manager_update (\<lambda>_. ss_parser st))
         (upd_ws_flow (upd_end (wc_destination c) (cn_output_update (\<lambda>_. ss_out st)) (cn_output_update (\<lambda>_. ss_out st))) s)))"

section \<open>Closing\<close>

definition on_finish :: "'z wsv_env \<Rightarrow> 'z ws_service \<Rightarrow> 'z ws_service" where
  "on_finish env s = (if wc_finished (wv_client s) \<and> wc_finished (wv_server s) then ws_stop (run_ws env Websocket_stop s) else s)"

definition shutdown_if_possible :: "'c conn_scheme \<Rightarrow> 'c conn_scheme" where
  "shutdown_if_possible c = (if can_be_shutdown c then conn_shutdown c else c)"

definition finish_connection :: "'z wsv_env \<Rightarrow> ws_endpoint \<Rightarrow> 'z ws_service \<Rightarrow> 'z ws_service" where
  "finish_connection env ep s = on_finish env (upd_conn ep (wc_finished_update (\<lambda>_. True))
     (upd_ws_flow (upd_end (wc_destination (conn_of ep s)) shutdown_if_possible shutdown_if_possible) s))"

definition start_destination_write :: "(io_op \<Rightarrow> ws_wait) \<Rightarrow> ws_endpoint \<Rightarrow> 'z ws_service \<Rightarrow> 'z ws_service" where
  "start_destination_write wt ep s = (case start_end (wc_destination (conn_of ep s)) write_untimed_async write_untimed_async (wv_flow s) of
     (op, w) \<Rightarrow> upd_conn ep (wc_wait_update (\<lambda>_. wt op)) (s\<lparr>wv_flow := w\<rparr>))"

definition close_connection :: "'z wsv_env \<Rightarrow> ws_endpoint \<Rightarrow> 'z ws_service \<Rightarrow> 'z ws_service" where
  "close_connection env ep s = (if wc_finished (conn_of ep s) then on_finish env s
     else case ws_send env ep (Close_frame (pl_closed_frame (wv_pipeline s))) s of
       (Inr _, s1) \<Rightarrow> start_destination_write Ws_close_write ep s1
     | (Inl (Error e), s1) \<Rightarrow> finish_connection env ep (run_ws env Websocket_error (upd_ws_flow (set_flow_error (\<lambda>_. e)) s1))
     | (Inl f, s1) \<Rightarrow> ws_crash f s1)"

definition ws_on_close :: "'z wsv_env \<Rightarrow> ws_endpoint \<Rightarrow> boost_error \<Rightarrow> 'z ws_service \<Rightarrow> 'z ws_service" where
  "ws_on_close env ep e s = finish_connection env ep (if e \<noteq> Boost_success
     then run_ws env Websocket_error (upd_ws_flow (set_flow_error (set_boost_error e)) s) else s)"

definition ws_on_error :: "'z wsv_env \<Rightarrow> ws_endpoint \<Rightarrow> boost_error \<Rightarrow> 'z ws_service \<Rightarrow> 'z ws_service" where
  "ws_on_error env ep e s = (let
       s1 = (if pl_closed (wv_pipeline s) then s else upd_pipeline (set_close_state (wc_source (conn_of ep s))
              \<lparr>cl_code = code_internal_error, cl_reason = ve_error_text env e\<rparr>) s);
       s2 = run_ws env Websocket_error (upd_ws_flow (set_flow_error (set_boost_error e)) s1)
     in if e = Boost_eof then finish_connection env ep s2 else close_connection env ep s2)"

section \<open>Messages\<close>

definition client_chunk_size :: nat where
  "client_chunk_size = 4092 - 4"

definition server_chunk_size :: nat where
  "server_chunk_size = 4092"

definition chunk_size :: "ws_endpoint \<Rightarrow> nat" where
  "chunk_size source = (if source = Client then client_chunk_size else server_chunk_size)"

lemma chunk_size_pos [simp]: "0 < chunk_size ep"
  by (simp add: chunk_size_def client_chunk_size_def server_chunk_size_def)

text \<open>The frames of a message from position \<open>i\<close> on.\<close>

function message_chunks :: "ws_endpoint \<Rightarrow> opcode \<Rightarrow> string \<Rightarrow> nat \<Rightarrow> message_frame list" where
  "message_chunks source type content i = (let chunk = chunk_size source; finished = i + chunk \<ge> length content in
     \<lparr>mf_type = type, mf_finished = finished, mf_payload = take chunk (drop i content)\<rparr>
       # (if finished then [] else message_chunks source type content (i + chunk)))"
  by pat_completeness auto
termination
proof (relation "measure (\<lambda>(source, type, content, i). length content - i)")
  fix source type content i chunk finished
  assume "chunk = chunk_size source" "finished = (length content \<le> i + chunk)" "\<not> finished"
  then show "((source, type, content, i + chunk), source, type, content, i) \<in> measure (\<lambda>(source, type, content, i). length content - i)"
    by (auto intro!: diff_less_mono2)
qed simp

declare message_chunks.simps [simp del]

fun send_frames :: "'z wsv_env \<Rightarrow> ws_endpoint \<Rightarrow> completed_frame list \<Rightarrow> ('z, unit) vop" where
  "send_frames env ep [] = sreturn ()"
| "send_frames env ep (f # fs) = sbind (ws_send env ep f) (\<lambda>_. send_frames env ep fs)"

definition send_message :: "'z wsv_env \<Rightarrow> ws_endpoint \<Rightarrow> ws_message \<Rightarrow> ('z, unit) vop" where
  "send_message env ep m s = (if wm_blocked m then (Inr (), s)
     else send_frames env ep (map Message_frame (message_chunks (wc_source (conn_of ep s)) (wm_type m) (wm_content m) 0)) s)"

section \<open>Frames\<close>

definition on_ping_frame :: "'z wsv_env \<Rightarrow> ws_endpoint \<Rightarrow> string \<Rightarrow> ('z, unit) vop" where
  "on_ping_frame env ep payload s = (case inject_frame (wc_source (conn_of ep s)) (ping_response payload) (wv_pipeline s) of
     Inl f \<Rightarrow> (Inl f, s)
   | Inr p \<Rightarrow> ws_send env ep (Ping_frame payload) (s\<lparr>wv_pipeline := p\<rparr>))"

definition on_close_frame :: "ws_endpoint \<Rightarrow> close_frame \<Rightarrow> ('z, unit) vop" where
  "on_close_frame ep f s = (Inr (), upd_pipeline (set_close_state (wc_source (conn_of ep s)) f) s)"

definition on_message_frame :: "'z wsv_env \<Rightarrow> ws_endpoint \<Rightarrow> message_frame \<Rightarrow> ('z, unit) vop" where
  "on_message_frame env ep m s = (let c = conn_of ep s in
     if pl_should_intercept (wv_pipeline s)
     then if \<not> wc_ready c
       then (Inr (), if mf_finished m then upd_conn ep (wc_ready_update (\<lambda>_. True)) s else s)
       else if \<not> mf_finished m then (Inr (), upd_conn ep (wc_content_update (\<lambda>t. t @ mf_payload m)) s)
       else let msg = ws_message_new (mf_type m) (wc_source c) (wc_content c @ mf_payload m);
           s1 = upd_conn ep (wc_content_update (\<lambda>_. [])) s
         in case ve_message_hook env (wv_flow s1, wv_pipeline s1, msg) of
              (w, p, msg') \<Rightarrow> send_message env ep msg' (s1\<lparr>wv_flow := w, wv_pipeline := p\<rparr>)
     else ws_send env ep (Message_frame m) (upd_conn ep (wc_ready_update (\<lambda>_. False)) s))"

text \<open>\<^verbatim>\<open>std::get\<close> throws when the type of a message frame is that of another frame.\<close>

definition handle_frame :: "'z wsv_env \<Rightarrow> ws_endpoint \<Rightarrow> completed_frame \<Rightarrow> ('z, unit) vop" where
  "handle_frame env ep f s = (
     if completed_type f = op_ping then (case f of Ping_frame p \<Rightarrow> on_ping_frame env ep p s | _ \<Rightarrow> (Inl (Exception Bad_variant_access), s))
     else if completed_type f = op_pong then (case f of Pong_frame p \<Rightarrow> (Inr (), s) | _ \<Rightarrow> (Inl (Exception Bad_variant_access), s))
     else if completed_type f = op_close then (case f of Close_frame c \<Rightarrow> on_close_frame ep c s | _ \<Rightarrow> (Inl (Exception Bad_variant_access), s))
     else if completed_type f = op_binary \<or> completed_type f = op_text
       then (case f of Message_frame m \<Rightarrow> on_message_frame env ep m s | _ \<Rightarrow> (Inl (Exception Bad_variant_access), s))
     else (Inr (), s))"

fun handle_frames :: "'z wsv_env \<Rightarrow> ws_endpoint \<Rightarrow> completed_frame list \<Rightarrow> ('z, unit) vop" where
  "handle_frames env ep [] = sreturn ()"
| "handle_frames env ep (f # fs) = sbind (handle_frame env ep f) (\<lambda>_. handle_frames env ep fs)"

section \<open>The loop\<close>

lemma ws_send_pipeline: "ws_send env ep f s = (r, s1) \<Longrightarrow> wv_pipeline s1 = wv_pipeline s"
  by (auto simp: ws_send_def upd_conn_def upd_ws_flow_def Let_def split: prod.splits)

lemma send_frames_pipeline: "send_frames env ep fs s = (r, s1) \<Longrightarrow> wv_pipeline s1 = wv_pipeline s"
  by (induction env ep fs arbitrary: s rule: send_frames.induct) (auto simp: sbind_cases sreturn_def dest: ws_send_pipeline)

lemma send_message_pipeline: "send_message env ep m s = (r, s1) \<Longrightarrow> wv_pipeline s1 = wv_pipeline s"
  by (auto simp: send_message_def dest: send_frames_pipeline split: if_splits)

text \<open>A frame or message whose sending fails stays in its queue; the pipeline is closed then.\<close>

function inject_frames :: "'z wsv_env \<Rightarrow> ws_endpoint \<Rightarrow> ('z, unit) vop" where
  "inject_frames env ep s = (if \<not> has_frame ep (wv_pipeline s) then (Inr (), s)
     else case ws_send env ep (next_frame ep (wv_pipeline s)) s of
       (Inl f, s1) \<Rightarrow> (Inl f, s1)
     | (Inr _, s1) \<Rightarrow> inject_frames env ep (upd_pipeline (pop_frame ep) s1))"
  by pat_completeness auto
termination
  by (relation "measure (\<lambda>(env, ep, s). length (pl_frames (wv_pipeline s) ep))")
    (auto simp: has_frame_def upd_pipeline_def pop_frame_def dest!: ws_send_pipeline[OF sym])

function inject_messages :: "'z wsv_env \<Rightarrow> ws_endpoint \<Rightarrow> ('z, unit) vop" where
  "inject_messages env ep s = (if \<not> pipeline_has_message ep (wv_pipeline s) then (Inr (), s)
     else case send_message env ep (next_message ep (wv_pipeline s)) s of
       (Inl f, s1) \<Rightarrow> (Inl f, s1)
     | (Inr _, s1) \<Rightarrow> inject_messages env ep (upd_pipeline (pop_message ep) s1))"
  by pat_completeness auto
termination
  by (relation "measure (\<lambda>(env, ep, s). length (pl_messages (wv_pipeline s) ep))")
    (auto simp: pipeline_has_message_def upd_pipeline_def pop_message_def dest!: send_message_pipeline[OF sym])

declare inject_frames.simps [simp del] inject_messages.simps [simp del]

definition websocket_loop_impl :: "'z wsv_env \<Rightarrow> ws_endpoint \<Rightarrow> ('z, unit) vop" where
  "websocket_loop_impl env ep s = (if pl_closed (wv_pipeline s) then (Inr (), close_connection env ep s)
     else sbind (ws_receive env ep) (\<lambda>(frames, close) s1. case close of
       Some code \<Rightarrow> (Inr (), close_connection env ep (upd_pipeline (set_close_state (wc_source (conn_of ep s1))
         \<lparr>cl_code = code, cl_reason = []\<rparr>) s1))
     | None \<Rightarrow> sbind (handle_frames env ep frames) (\<lambda>_ s2.
         if pl_closed (wv_pipeline s2) then (Inr (), close_connection env ep s2)
         else sbind (inject_frames env ep) (\<lambda>_. sbind (inject_messages env ep) (\<lambda>_ s3.
           (Inr (), start_destination_write Ws_destination_write ep s3))) s2) s1) s)"

definition websocket_loop :: "'z wsv_env \<Rightarrow> ws_endpoint \<Rightarrow> 'z ws_service \<Rightarrow> 'z ws_service" where
  "websocket_loop env ep s = (case websocket_loop_impl env ep s of
     (Inr _, s1) \<Rightarrow> s1
   | (Inl (Error e), s1) \<Rightarrow> (let s2 = upd_ws_flow (set_flow_error (\<lambda>_. e)) s1;
         s3 = upd_pipeline (set_close_state (wc_source (conn_of ep s2))
           \<lparr>cl_code = code_protocol_error, cl_reason = error_message (ve_error_text env) (fl_error (wv_flow s2))\<rparr>) s2
       in close_connection env ep (run_ws env Websocket_error s3))
   | (Inl f, s1) \<Rightarrow> ws_crash f s1)"

definition ws_start :: "'z wsv_env \<Rightarrow> 'z ws_service \<Rightarrow> 'z ws_service" where
  "ws_start env s = (let s1 = websocket_loop env Client (run_ws env Websocket_start s) in
     case wv_end s1 of Ws_crashed _ \<Rightarrow> s1 | _ \<Rightarrow> websocket_loop env Server s1)"

definition on_destination_write :: "'z wsv_env \<Rightarrow> ws_endpoint \<Rightarrow> boost_error \<Rightarrow> 'z ws_service \<Rightarrow> 'z ws_service" where
  "on_destination_write env ep e s = (if e \<noteq> Boost_success then ws_on_error env ep e s
     else case start_end (wc_source (conn_of ep s)) (read_async (ve_timeouts env) default_buffer_size)
         (read_async (ve_timeouts env) default_buffer_size) (wv_flow s) of
       (op, w) \<Rightarrow> upd_conn ep (wc_wait_update (\<lambda>_. Ws_source_read op)) (s\<lparr>wv_flow := w\<rparr>))"

definition on_source_read :: "'z wsv_env \<Rightarrow> ws_endpoint \<Rightarrow> boost_error \<Rightarrow> 'z ws_service \<Rightarrow> 'z ws_service" where
  "on_source_read env ep e s = (if e \<noteq> Boost_success
     then if e = Boost_operation_aborted \<and> pl_closed (wv_pipeline s) then close_connection env ep s else ws_on_error env ep e s
     else websocket_loop env ep s)"

section \<open>Events\<close>

datatype ws_event = Ws_written nat boost_error | Ws_read string boost_error

definition wrote_end :: "nat \<Rightarrow> boost_error \<Rightarrow> 'c conn_scheme \<Rightarrow> 'c conn_scheme" where
  "wrote_end n e c = conn_on_write True e (c\<lparr>cn_output := drop n (cn_output c)\<rparr>)"

text \<open>The library's result reaches the connection it was asked for, and then the callback that waits for it.\<close>

definition ws_step :: "'z wsv_env \<Rightarrow> ws_endpoint \<Rightarrow> ws_event \<Rightarrow> 'z ws_service \<Rightarrow> 'z ws_service" where
  "ws_step env ep ev s = (if wv_end s \<noteq> Ws_running then s
     else let idle = upd_conn ep (wc_wait_update (\<lambda>_. Ws_idle)); c = conn_of ep s;
         wrote = (\<lambda>n e. idle (upd_ws_flow (upd_end (wc_destination c) (wrote_end n e) (wrote_end n e)) s))
       in case (wc_wait c, ev) of
         (Ws_destination_write op, Ws_written n e) \<Rightarrow> on_destination_write env ep e (wrote n e)
       | (Ws_close_write op, Ws_written n e) \<Rightarrow> ws_on_close env ep e (wrote n e)
       | (Ws_source_read op, Ws_read got e) \<Rightarrow> on_source_read env ep e (idle (upd_ws_flow
           (upd_end (wc_source c) (on_read_need_to_commit got e) (on_read_need_to_commit got e)) s))
       | _ \<Rightarrow> s)"

inductive ws_reachable :: "'z wsv_env \<Rightarrow> 'z ws_service \<Rightarrow> bool" for env where
  started: "ws_service_new env w handshake = Inr s \<Longrightarrow> ws_reachable env (ws_start env s)"
| stepped: "ws_reachable env s \<Longrightarrow> ws_reachable env (ws_step env ep ev s)"

end
