(* ===== verification/Frame_Facts.thy ===== *)
theory Frame_Facts
  imports Ws_Manager
begin

text \<open>
  What the frame parser guarantees: masking is its own inverse, a frame that is serialized is parsed back, and the
  frames do not depend on how the input is cut.
\<close>

section \<open>Masking\<close>

lemma length_xor_text [simp]: "length (xor_text ks i s) = length s"
  by (induction ks i s rule: xor_text.induct) simp_all

lemma xor_text_twice [simp]: "xor_text ks i (xor_text ks i s) = s"
  by (induction ks i s rule: xor_text.induct) (simp_all add: xor.assoc)

lemma xor_mask_twice: "snd (xor_mask key (snd (xor_mask key s [])) []) = s"
  by (simp add: xor_mask_def)

section \<open>The wire format\<close>

text \<open>RFC 6455, without extensions: the frame of an endpoint as the other end of the network sees it.\<close>

definition frame_wire :: "ws_endpoint \<Rightarrow> u32 \<Rightarrow> opcode \<Rightarrow> string \<Rightarrow> bool \<Rightarrow> string" where
  "frame_wire d key type payload fin = (let n = length payload; m = (if d = Server then 0x80 else 0 :: u8) in
     map of_byte (((if fin then 0x80 else 0) OR type)
       # (if n \<le> 125 then [m OR of_nat n] else if n \<le> 65535 then (m OR 126) # insert_bytes 2 (of_nat n)
          else (m OR 127) # insert_bytes 8 (of_nat n)))
     @ (if d = Server then map of_byte (insert_bytes 4 (ucast key)) @ xor_text (mask_key_bytes key) 0 payload else payload))"

text \<open>What the wire can carry.\<close>

definition sendable :: "opcode \<Rightarrow> string \<Rightarrow> bool" where
  "sendable type payload \<longleftrightarrow> type < 16 \<and> length payload < 2 ^ 31 \<and> (is_control type \<longrightarrow> length payload \<le> 125)"

lemma byte_flags:
  "(x :: u8) AND 0x80 = 0 \<longleftrightarrow> \<not> bit x 7" "x AND 0x40 = 0 \<longleftrightarrow> \<not> bit x 6" "x AND 0x20 = 0 \<longleftrightarrow> \<not> bit x 5"
  "x AND 0x10 = 0 \<longleftrightarrow> \<not> bit x 4"
  using and_exp_eq_0_iff_not_bit[of x 7] and_exp_eq_0_iff_not_bit[of x 6] and_exp_eq_0_iff_not_bit[of x 5]
    and_exp_eq_0_iff_not_bit[of x 4] by simp_all

lemma and_15: "(x :: u8) AND 0xF = take_bit 4 x"
  using take_bit_eq_mask[of 4 x] by (simp add: mask_eq_exp_minus_1)

lemma and_127: "(x :: u8) AND 0x7F = take_bit 7 x"
  using take_bit_eq_mask[of 7 x] by (simp add: mask_eq_exp_minus_1)

lemma bit_128: "bit (0x80 :: u8) n \<longleftrightarrow> n = 7"
  using bit_exp_iff[where 'a = u8, of 7 n] by (auto simp: bit_exp_iff)

lemma bit_128_int: "bit (0x80 :: int) n \<longleftrightarrow> n = 7"
  using bit_exp_iff[where 'a = int, of 7 n] by (auto simp: bit_exp_iff)

lemma first_byte_bits:
  assumes "(type :: u8) < 16"
  shows "((if fin then 0x80 else 0) OR type) AND 0x80 \<noteq> 0 \<longleftrightarrow> fin" "((if fin then 0x80 else 0) OR type) AND 0x40 = 0"
    "((if fin then 0x80 else 0) OR type) AND 0x20 = 0" "((if fin then 0x80 else 0) OR type) AND 0x10 = 0"
    "((if fin then 0x80 else 0) OR type) AND 0xF = type" "type AND 0xF = type"
proof -
  have b: "bit type n \<Longrightarrow> n < 4" for n using assms by (intro bit_unat_bound[of type 4 n]) (simp_all add: word_less_nat_alt)
  show "((if fin then 0x80 else 0) OR type) AND 0x80 \<noteq> 0 \<longleftrightarrow> fin" "((if fin then 0x80 else 0) OR type) AND 0x40 = 0"
    "((if fin then 0x80 else 0) OR type) AND 0x20 = 0" "((if fin then 0x80 else 0) OR type) AND 0x10 = 0"
    using b[of 7] b[of 6] b[of 5] b[of 4] by (auto simp: byte_flags bit_or_iff bit_128)
  show "((if fin then 0x80 else 0) OR type) AND 0xF = type" "type AND 0xF = type" unfolding and_15
    by (rule bit_word_eqI, auto simp: bit_simps bit_128 bit_128_int dest: b)+
qed

lemma second_byte_bits:
  assumes "(n :: u8) < 128"
  shows "((if m then 0x80 else 0) OR n) AND 0x80 \<noteq> 0 \<longleftrightarrow> m" "((if m then 0x80 else 0) OR n) AND 0x7F = n"
proof -
  have b: "bit n k \<Longrightarrow> k < 7" for k using assms by (intro bit_unat_bound[of n 7 k]) (simp_all add: word_less_nat_alt)
  show "((if m then 0x80 else 0) OR n) AND 0x80 \<noteq> 0 \<longleftrightarrow> m" using b[of 7] by (auto simp: byte_flags bit_or_iff bit_128)
  show "((if m then 0x80 else 0) OR n) AND 0x7F = n" unfolding and_127
    by (rule bit_word_eqI, auto simp: bit_simps bit_128 bit_128_int dest: b)
qed

section \<open>Serialization\<close>

definition plain_parser :: "'z frame_parser \<Rightarrow> bool" where
  "plain_parser p \<longleftrightarrow> fp_extensions p = []"

lemma byte_of_length: "(ucast (of_nat n :: u64) :: u8) = of_nat n"
  by (rule bit_word_eqI) (auto simp: bit_simps)

lemma length_bytes_plain:
  assumes "length payload < 2 ^ 63" "is_control type \<longrightarrow> length payload \<le> 125"
    "fh_payload_length fh = of_nat (length payload)" "fh_type fh = type"
  shows "length_bytes fh = Inr (let n = length payload; m = (if fh_mask_bit fh then 0x80 else 0) in
    if n \<le> 125 then [m OR of_nat n] else if n \<le> 65535 then (m OR 126) # insert_bytes 2 (of_nat n)
    else (m OR 127) # insert_bytes 8 (of_nat n))"
proof -
  have n: "unat (of_nat (length payload) :: u64) = length payload" using assms(1) by simp
  have c: "(of_nat (length payload) :: u64) \<le> 125 \<longleftrightarrow> length payload \<le> 125" "(of_nat (length payload) :: u64) \<le> 65535 \<longleftrightarrow> length payload \<le> 65535"
    by (simp_all add: word_le_nat_alt n)
  show ?thesis using assms(2) by (simp add: length_bytes_def assms(3,4) c Let_def byte_of_length)
qed

lemma serialize_plain:
  assumes "plain_parser (ss_parser st)" "sendable type payload"
  shows "serialize_frame env type payload fin st = (Inr (), st\<lparr>ss_out := ss_out st
      @ frame_wire (fp_destination (ss_parser st)) (we_mask_key env (fp_masked (ss_parser st))) type payload fin,
    ss_parser := (ss_parser st)\<lparr>fp_masked := fp_masked (ss_parser st) + (if fp_destination (ss_parser st) = Server then 1 else 0)\<rparr>\<rparr>)"
proof -
  let ?p = "ss_parser st"
  let ?fh = "frame_header_new\<lparr>fh_fin := fin, fh_type := type, fh_mask_bit := fp_destination ?p = Server,
    fh_payload_length := of_nat (length payload)\<rparr>"
  have l: "length_bytes ?fh = Inr (let n = length payload; m = (if fp_destination ?p = Server then 0x80 else 0) in
    if n \<le> 125 then [m OR of_nat n] else if n \<le> 65535 then (m OR 126) # insert_bytes 2 (of_nat n)
    else (m OR 127) # insert_bytes 8 (of_nat n))"
    using assms(2) by (subst length_bytes_plain[where payload = payload and type = type]) (auto simp: sendable_def)
  have f: "first_byte_of ?fh = (if fin then 0x80 else 0) OR type"
    using assms(2) first_byte_bits(6)[of type] by (simp add: first_byte_of_def frame_header_new_def sendable_def)
  have e: "(st\<lparr>ss_parser := ?p\<lparr>fp_extensions := []\<rparr>\<rparr>) = st" using assms(1) by (simp add: plain_parser_def)
  show ?thesis using assms(1) l f
    by (cases "fp_destination ?p") (simp_all add: serialize_frame_def plain_parser_def double_buffer_make_def db_input_def e Let_def
      frame_wire_def xor_mask_def)
qed

section \<open>Parsing a whole frame\<close>

definition seg_empty :: "'a segment \<Rightarrow> bool" where
  "seg_empty s \<longleftrightarrow> \<not> seg_complete s \<and> seg_data s = [] \<and> seg_pending s = []"

text \<open>No stage holds input, and the frame at hand has no content.\<close>

definition fp_ready :: "parsing_state \<Rightarrow> frame \<Rightarrow> 'z frame_parser \<Rightarrow> bool" where
  "fp_ready state cur p \<longleftrightarrow> fp_state p = state \<and> fp_current p = cur \<and> fr_content cur = []
     \<and> seg_empty (fp_header_segment p) \<and> seg_empty (fp_length_segment p) \<and> seg_empty (fp_key_segment p)
     \<and> seg_empty (fp_payload_segment p)"

definition idle_parser :: "'z frame_parser \<Rightarrow> bool" where
  "idle_parser p \<longleftrightarrow> (\<exists>cur. fp_ready At_header cur p)"

definition fp_kept :: "'z frame_parser \<Rightarrow> 'z frame_parser \<Rightarrow> bool" where
  "fp_kept p q \<longleftrightarrow> fp_destination q = fp_destination p \<and> fp_opcode_in q = fp_opcode_in p \<and> fp_opcode_out q = fp_opcode_out p
     \<and> fp_extensions q = fp_extensions p \<and> fp_masked q = fp_masked p"

lemma fp_kept_trans: "fp_kept p q \<Longrightarrow> fp_kept q r \<Longrightarrow> fp_kept p r"
  by (simp add: fp_kept_def)

lemma seg_empty_reset [simp]: "seg_empty (seg_reset s)"
  by (simp add: seg_empty_def seg_reset_def)

lemma fp_read_whole:
  assumes "seg_empty (get (ps_parser st))" "ps_in st = bs @ rest" "n = length bs" "n \<le> vector_max"
  shows "\<exists>s. fp_read n get upd st = (Inr True, upd_fp (upd (\<lambda>_. s)) (st\<lparr>ps_in := rest\<rparr>)) \<and> seg_data s = bs"
proof (cases "bs = []")
  case True
  with assms show ?thesis
    by (auto simp: fp_read_def seg_read_bytes_def seg_empty_def seg_mark_as_complete_def)
next
  case False
  with assms show ?thesis
    by (auto simp: fp_read_def seg_read_bytes_def seg_empty_def seg_room_def Let_def seg_commit_def seg_commit_buffer_def)
qed

definition header_frame :: "bool \<Rightarrow> opcode \<Rightarrow> bool \<Rightarrow> u64 \<Rightarrow> frame \<Rightarrow> frame" where
  "header_frame fin type m len cur = cur\<lparr>fh_fin := fin, fh_rsv := \<lparr>rsv1 = False, rsv2 = False, rsv3 = False\<rparr>, fh_type := type,
     fh_mask_bit := m, fh_payload_length := len\<rparr>"

lemma parse_header_whole:
  assumes "fp_ready At_header cur (ps_parser st)" "type < 16" "n < 128"
    "ps_in st = map of_byte [(if fin then 0x80 else 0) OR type, (if m then 0x80 else 0) OR n] @ rest"
    "is_control type \<longrightarrow> fin \<and> n \<le> 125" "fp_opcode_in (ps_parser st) = None \<or> type = 0"
  shows "\<exists>q. parse_header st = (Inr True, st\<lparr>ps_in := rest, ps_parser := q\<rparr>)
    \<and> fp_ready At_payload_length (header_frame fin type m (ucast n) cur) q \<and> fp_kept (ps_parser st) q"
proof -
  obtain s where s: "fp_read 2 fp_header_segment fp_header_segment_update st
      = (Inr True, upd_fp (fp_header_segment_update (\<lambda>_. s)) (st\<lparr>ps_in := rest\<rparr>))"
    "seg_data s = map of_byte [(if fin then 0x80 else 0) OR type, (if m then 0x80 else 0) OR n]"
    using fp_read_whole[of fp_header_segment st, OF _ assms(4), where n = 2 and upd = fp_header_segment_update] assms(1)
    by (auto simp: fp_ready_def vector_max_def)
  have le: "\<not> 15 < type" using assms(2) by (simp add: word_less_nat_alt)
  let ?p = "(ps_parser st)\<lparr>fp_header_segment := s\<rparr>"
  let ?st2 = "st\<lparr>ps_in := rest, ps_parser := ?p\<rparr>"
  let ?q = "(ps_parser st)\<lparr>fp_header_segment := seg_reset s, fp_current := header_frame fin type m (ucast n) cur, fp_state := At_payload_length\<rparr>"
  have bits: "to_byte (seg_data s ! 0) AND 0x80 \<noteq> 0 \<longleftrightarrow> fin" "to_byte (seg_data s ! 0) AND 0x40 = 0" "to_byte (seg_data s ! 0) AND 0x20 = 0"
    "to_byte (seg_data s ! 0) AND 0x10 = 0" "to_byte (seg_data s ! 0) AND 0xF = type"
    "to_byte (seg_data s ! 1) AND 0x80 \<noteq> 0 \<longleftrightarrow> m" "to_byte (seg_data s ! 1) AND 0x7F = n"
    unfolding s(2) list.map nth_Cons_0 nth_Cons_Suc One_nat_def to_byte_of_byte
    using first_byte_bits(1-5)[OF assms(2), of fin] second_byte_bits[OF assms(3), of m] by simp_all
  have "decode_header ?st2 = (Inr True, st\<lparr>ps_in := rest, ps_parser := ?q\<rparr>)"
    using assms(1,5,6) le unfolding decode_header_def Let_def
    by (simp add: bits upd_fp_def upd_current_def header_frame_def fp_ready_def not_less del: One_nat_def)
  then have "parse_header st = (Inr True, st\<lparr>ps_in := rest, ps_parser := ?q\<rparr>)"
    using assms(1) by (simp add: parse_header_def fp_ready_def sbind_def s(1) upd_fp_def)
  moreover have "fp_ready At_payload_length (header_frame fin type m (ucast n) cur) ?q" "fp_kept (ps_parser st) ?q"
    using assms(1) by (simp_all add: fp_ready_def header_frame_def fp_kept_def)
  ultimately show ?thesis by blast
qed

lemma read_length_whole:
  assumes "fp_ready At_payload_length cur (ps_parser st)" "ps_in st = map of_byte (insert_bytes n len) @ rest"
    "n = 2 \<and> 125 < len \<and> unat len < 2 ^ 16 \<or> n = 8 \<and> 65535 < len \<and> unat len < 2 ^ 31 \<and> (\<forall>k. we_shift env k 0 = 0)"
  shows "\<exists>q. read_length env n st = (Inr True, st\<lparr>ps_in := rest, ps_parser := q\<rparr>)
    \<and> fp_ready At_payload_length (cur\<lparr>fh_payload_length := len\<rparr>) q \<and> fp_kept (ps_parser st) q"
proof -
  obtain s where s: "fp_read n fp_length_segment fp_length_segment_update st
      = (Inr True, upd_fp (fp_length_segment_update (\<lambda>_. s)) (st\<lparr>ps_in := rest\<rparr>))" "seg_data s = map of_byte (insert_bytes n len)"
    using fp_read_whole[of fp_length_segment st, OF _ assms(2), where n = n and upd = fp_length_segment_update] assms(1,3)
    by (auto simp: fp_ready_def vector_max_def)
  have v: "parse_network_byte_order (we_shift env) n (map to_byte (seg_data s)) = len"
    unfolding s(2) map_to_of_byte using assms(3) parse_insert_2[of len] parse_insert_8[of len "we_shift env"] by auto
  have top: "drop_bit 63 len = 0" if "n = 8"
  proof (rule bit_word_eqI)
    fix k assume "k < LENGTH(64)"
    have "\<not> bit len (63 + k)" using assms(3) that bit_unat_bound[of len 31 "63 + k"] by auto
    then show "bit (drop_bit 63 len) k = bit (0 :: u64) k" by (simp add: bit_drop_bit_eq)
  qed
  have lim: "\<not> len \<le> (if n = 2 then 125 else 65535)" using assms(3) by auto
  let ?q = "(ps_parser st)\<lparr>fp_length_segment := seg_reset s, fp_current := cur\<lparr>fh_payload_length := len\<rparr>\<rparr>"
  have "read_length env n st = (Inr True, st\<lparr>ps_in := rest, ps_parser := ?q\<rparr>)"
    using assms(1) top lim unfolding read_length_def sbind_def s(1)
    by (simp add: v upd_fp_def upd_current_def Let_def fp_ready_def)
  moreover have "fp_ready At_payload_length (cur\<lparr>fh_payload_length := len\<rparr>) ?q" "fp_kept (ps_parser st) ?q"
    using assms(1) by (simp_all add: fp_ready_def fp_kept_def)
  ultimately show ?thesis by blast
qed

lemma check_header_whole:
  assumes "fp_ready state cur (ps_parser st)" "plain_parser (ps_parser st)" "fh_mask_bit cur \<longleftrightarrow> fp_destination (ps_parser st) = Server"
  shows "check_header st = (Inr True, st\<lparr>ps_parser := (ps_parser st)\<lparr>fp_state := At_mask_key\<rparr>\<rparr>)"
  using assms by (cases "fp_destination (ps_parser st)") (simp_all add: check_header_def fp_ready_def plain_parser_def upd_fp_def Let_def)

lemma parse_length_whole:
  assumes "fp_ready At_payload_length cur (ps_parser st)" "plain_parser (ps_parser st)"
    "fh_mask_bit cur \<longleftrightarrow> fp_destination (ps_parser st) = Server"
    "fh_payload_length cur \<le> 125 \<and> n = 0 \<and> len = fh_payload_length cur
     \<or> fh_payload_length cur = 126 \<and> n = 2 \<and> 125 < len \<and> unat len < 2 ^ 16
     \<or> fh_payload_length cur = 127 \<and> n = 8 \<and> 65535 < len \<and> unat len < 2 ^ 31 \<and> (\<forall>k. we_shift env k 0 = 0)"
    "ps_in st = map of_byte (insert_bytes n len) @ rest"
  shows "\<exists>q. parse_payload_length env st = (Inr True, st\<lparr>ps_in := rest, ps_parser := q\<rparr>)
    \<and> fp_ready At_mask_key (cur\<lparr>fh_payload_length := len\<rparr>) q \<and> fp_kept (ps_parser st) q"
proof -
  have "\<exists>q. parse_extended_length env st = (Inr True, st\<lparr>ps_in := rest, ps_parser := q\<rparr>)
    \<and> fp_ready At_payload_length (cur\<lparr>fh_payload_length := len\<rparr>) q \<and> fp_kept (ps_parser st) q"
  proof (cases "fh_payload_length cur \<le> 125")
    case True
    then have "fh_payload_length cur \<noteq> 126" "fh_payload_length cur \<noteq> 127" by auto
    with True assms(1,4,5) show ?thesis
      by (intro exI[of _ "ps_parser st"]) (auto simp: parse_extended_length_def fp_ready_def fp_kept_def Let_def)
  next
    case False
    with assms(4) have c: "n = 2 \<and> 125 < len \<and> unat len < 2 ^ 16 \<or> n = 8 \<and> 65535 < len \<and> unat len < 2 ^ 31 \<and> (\<forall>k. we_shift env k 0 = 0)" by auto
    have "parse_extended_length env st = read_length env n st"
      using assms(1,4) False by (auto simp: parse_extended_length_def fp_ready_def Let_def)
    with read_length_whole[OF assms(1,5) c] show ?thesis by simp
  qed
  then obtain q where q: "parse_extended_length env st = (Inr True, st\<lparr>ps_in := rest, ps_parser := q\<rparr>)"
    "fp_ready At_payload_length (cur\<lparr>fh_payload_length := len\<rparr>) q" "fp_kept (ps_parser st) q" by blast
  have "check_header (st\<lparr>ps_in := rest, ps_parser := q\<rparr>) = (Inr True, st\<lparr>ps_in := rest, ps_parser := q\<lparr>fp_state := At_mask_key\<rparr>\<rparr>)"
    using check_header_whole[of _ "cur\<lparr>fh_payload_length := len\<rparr>" "st\<lparr>ps_in := rest, ps_parser := q\<rparr>"] q(2,3) assms(2,3)
    by (simp add: plain_parser_def fp_kept_def)
  then have "parse_payload_length env st = (Inr True, st\<lparr>ps_in := rest, ps_parser := q\<lparr>fp_state := At_mask_key\<rparr>\<rparr>)"
    using assms(1) q(1) by (simp add: parse_payload_length_def fp_ready_def sbind_def)
  moreover have "fp_ready At_mask_key (cur\<lparr>fh_payload_length := len\<rparr>) (q\<lparr>fp_state := At_mask_key\<rparr>)" "fp_kept (ps_parser st) (q\<lparr>fp_state := At_mask_key\<rparr>)"
    using q(2,3) by (simp_all add: fp_ready_def fp_kept_def)
  ultimately show ?thesis by blast
qed

text \<open>The key is read as eight bytes, of which four are there: only the shift of x86 gives it back.\<close>

lemma parse_mask_key_whole:
  assumes "fp_ready At_mask_key cur (ps_parser st)" "fh_mask_bit cur \<longrightarrow> we_shift env = x86_shl"
    "ps_in st = (if fh_mask_bit cur then map of_byte (insert_bytes 4 (ucast key)) else []) @ rest"
  shows "\<exists>q. parse_mask_key env st = (Inr True, st\<lparr>ps_in := rest, ps_parser := q\<rparr>)
    \<and> fp_ready At_payload (if fh_mask_bit cur then cur\<lparr>fh_mask_key := key\<rparr> else cur) q \<and> fp_kept (ps_parser st) q"
proof (cases "fh_mask_bit cur")
  case False
  with assms(1,3) show ?thesis
    by (intro exI[of _ "(ps_parser st)\<lparr>fp_state := At_payload\<rparr>"]) (auto simp: parse_mask_key_def fp_ready_def fp_kept_def sbind_def upd_fp_def)
next
  case True
  with assms(3) have i: "ps_in st = map of_byte (insert_bytes 4 (ucast key)) @ rest" by simp
  obtain s where s: "fp_read 4 fp_key_segment fp_key_segment_update st
      = (Inr True, upd_fp (fp_key_segment_update (\<lambda>_. s)) (st\<lparr>ps_in := rest\<rparr>))" "seg_data s = map of_byte (insert_bytes 4 (ucast key))"
    using fp_read_whole[of fp_key_segment st, OF _ i, where n = 4 and upd = fp_key_segment_update] assms(1)
    by (auto simp: fp_ready_def vector_max_def)
  let ?q = "(ps_parser st)\<lparr>fp_key_segment := seg_reset s, fp_current := cur\<lparr>fh_mask_key := key\<rparr>, fp_state := At_payload\<rparr>"
  have "parse_mask_key env st = (Inr True, st\<lparr>ps_in := rest, ps_parser := ?q\<rparr>)"
    using assms(1,2) True parse_key[of key]
    by (simp add: parse_mask_key_def fp_ready_def sbind_def s set_mask_key_def upd_fp_def upd_current_def Let_def comp_def)
  moreover have "fp_ready At_payload (cur\<lparr>fh_mask_key := key\<rparr>) ?q" "fp_kept (ps_parser st) ?q"
    using assms(1) by (simp_all add: fp_ready_def fp_kept_def)
  ultimately show ?thesis using True by auto
qed

text \<open>The type a frame is given out with, and what the parser expects behind it.\<close>

definition given_type :: "'z frame_parser \<Rightarrow> opcode \<Rightarrow> bool \<Rightarrow> opcode" where
  "given_type p type fin = (if is_control type \<or> fin then type else case fp_opcode_in p of Some t \<Rightarrow> t | None \<Rightarrow> type)"

definition next_opcode_in :: "'z frame_parser \<Rightarrow> opcode \<Rightarrow> bool \<Rightarrow> opcode option" where
  "next_opcode_in p type fin = (if is_control type then fp_opcode_in p else if fin then None
     else case fp_opcode_in p of Some t \<Rightarrow> Some t | None \<Rightarrow> Some type)"

lemma parse_payload_whole:
  assumes "fp_ready At_payload cur (ps_parser st)" "plain_parser (ps_parser st)" "unat (fh_payload_length cur) = length payload"
    "length payload \<le> vector_max" "ps_close st = None"
    "ps_in st = (if fh_mask_bit cur then xor_text (mask_key_bytes (fh_mask_key cur)) 0 payload else payload) @ rest"
  shows "\<exists>f q. parse_payload env st = (Inr (Some f), st\<lparr>ps_in := rest, ps_parser := q\<rparr>)
    \<and> fr_content f = payload \<and> fh_fin f = fh_fin cur \<and> fh_type f = given_type (ps_parser st) (fh_type cur) (fh_fin cur)
    \<and> idle_parser q \<and> fp_kept ((ps_parser st)\<lparr>fp_opcode_in := next_opcode_in (ps_parser st) (fh_type cur) (fh_fin cur)\<rparr>) q"
proof -
  let ?data = "if fh_mask_bit cur then xor_text (mask_key_bytes (fh_mask_key cur)) 0 payload else payload"
  have n: "length payload = length ?data" by simp
  obtain s where s: "fp_read (length payload) fp_payload_segment fp_payload_segment_update st
      = (Inr True, upd_fp (fp_payload_segment_update (\<lambda>_. s)) (st\<lparr>ps_in := rest\<rparr>))" "seg_data s = ?data"
    using fp_read_whole[of fp_payload_segment st, OF _ assms(6), OF _ n assms(4), where upd = fp_payload_segment_update] assms(1)
    unfolding fp_ready_def by blast
  let ?p = "(ps_parser st)\<lparr>fp_payload_segment := s\<rparr>"
  let ?b = "unmask cur (double_buffer_make ?data [])"
  have b: "db_second (move_to_second ?b) = payload" "payload_buffers ?p = double_buffer_make ?data []"
    using assms(1) s(2) by (simp_all add: unmask_def xor_mask_def double_buffer_make_def db_set_def db_swap_def db_input_def db_output_def
      move_to_second_def db_is_swapped_def payload_buffers_def fp_ready_def)
  obtain f st1 where g: "give_out (st\<lparr>ps_in := rest, ps_parser := set_payload_buffers (move_to_second ?b) (?p\<lparr>fp_extensions := []\<rparr>)\<rparr>) = (f, st1)"
    by fastforce
  have "process_payload env (st\<lparr>ps_in := rest, ps_parser := ?p\<rparr>) = (Inr (Some f), st1)"
    using assms(1,2) b(2) g by (simp add: process_payload_def plain_parser_def fp_ready_def upd_fp_def Let_def)
  then have "parse_payload env st = (Inr (Some f), st1)"
    using assms(1,3) s(1) by (simp add: parse_payload_def sbind_def fp_ready_def upd_fp_def)
  moreover have "st1 = st\<lparr>ps_in := rest, ps_parser := ps_parser st1\<rparr>" "fr_content f = payload" "fh_fin f = fh_fin cur"
    "fh_type f = given_type (ps_parser st) (fh_type cur) (fh_fin cur)" "idle_parser (ps_parser st1)"
    "fp_kept ((ps_parser st)\<lparr>fp_opcode_in := next_opcode_in (ps_parser st) (fh_type cur) (fh_fin cur)\<rparr>) (ps_parser st1)"
    using g assms(1,2) b(1)
    by (auto simp: give_out_def effective_opcode_def set_payload_buffers_def Let_def fp_ready_def idle_parser_def given_type_def
      next_opcode_in_def fp_kept_def plain_parser_def split: option.splits if_splits)
  ultimately show ?thesis by metis
qed

text \<open>
  \<open>wire_shift\<close>: what the compiled shifts have to do. A mask key is read with undefined shifts, and a length of eight bytes too;
  the bytes shifted there are zero for a length below \<open>2 ^ 31\<close>.
\<close>

definition wire_shift :: "'z ws_env \<Rightarrow> ws_endpoint \<Rightarrow> bool" where
  "wire_shift env d \<longleftrightarrow> (d = Server \<longrightarrow> we_shift env = x86_shl) \<and> (\<forall>k. we_shift env k 0 = 0)"

lemma x86_shl_zero [simp]: "x86_shl k 0 = 0"
  by (simp add: x86_shl_def)

lemma unat_ucast_byte: "unat (ucast (b :: u8) :: u64) = unat b"
proof -
  have "unat b < 2 ^ 8" using unsigned_less[where 'a = nat, of b] by simp
  then have "unat b < 2 ^ 64" by simp
  then show ?thesis by (simp add: unsigned_ucast_eq take_bit_nat_eq_self unsigned_take_bit_eq)
qed

lemma frame_wire_split:
  assumes "sendable type payload"
  obtains n b len where "n = 0 \<and> b \<le> 125 \<and> len = ucast b \<or> b = 126 \<and> n = 2 \<and> 125 < len \<and> unat len < 2 ^ 16
      \<or> b = 127 \<and> n = 8 \<and> 65535 < len \<and> unat len < 2 ^ 31" "unat (len :: u64) = length payload" "(b :: u8) < 128" "is_control type \<longrightarrow> b \<le> 125"
    "frame_wire d key type payload fin = map of_byte [(if fin then 0x80 else 0) OR type, (if d = Server then 0x80 else 0) OR b]
      @ map of_byte (insert_bytes n len) @ (if d = Server then map of_byte (insert_bytes 4 (ucast key)) else [])
      @ (if d = Server then xor_text (mask_key_bytes key) 0 payload else payload)"
proof -
  let ?len = "of_nat (length payload) :: u64"
  have u: "unat ?len = length payload" using assms by (simp add: sendable_def)
  have c: "125 < ?len \<longleftrightarrow> 125 < length payload" "65535 < ?len \<longleftrightarrow> 65535 < length payload" by (simp_all add: word_less_nat_alt u)
  consider "length payload \<le> 125" | "125 < length payload" "length payload \<le> 65535" | "65535 < length payload" by linarith
  then show thesis
  proof cases
    case 1
    then have "(of_nat (length payload) :: u8) \<le> 125" "unat (of_nat (length payload) :: u8) = length payload"
      by (simp_all add: word_le_nat_alt unsigned_of_nat take_bit_nat_eq_self)
    moreover from this have "ucast (of_nat (length payload) :: u8) = ?len" using u by (simp add: word_unat_eq_iff unat_ucast_byte)
    ultimately show thesis using 1 u
      by (intro that[of 0 "of_nat (length payload)" ?len]) (auto simp: frame_wire_def Let_def word_less_nat_alt)
  next
    case 2
    then show thesis using u c assms by (intro that[of 2 126 ?len]) (auto simp: frame_wire_def Let_def sendable_def)
  next
    case 3
    then show thesis using u c assms by (intro that[of 8 127 ?len]) (auto simp: frame_wire_def Let_def sendable_def)
  qed
qed

lemma parse_frame_wire:
  assumes "idle_parser (ps_parser st)" "plain_parser (ps_parser st)" "wire_shift env (fp_destination (ps_parser st))"
    "sendable type payload" "is_control type \<longrightarrow> fin" "fp_opcode_in (ps_parser st) = None \<or> type = 0" "ps_close st = None"
    "ps_in st = frame_wire (fp_destination (ps_parser st)) key type payload fin @ rest"
  shows "\<exists>f q. parse_frame env st = (Inr (Some f), st\<lparr>ps_in := rest, ps_parser := q\<rparr>)
    \<and> fr_content f = payload \<and> fh_fin f = fin \<and> fh_type f = given_type (ps_parser st) type fin
    \<and> idle_parser q \<and> fp_kept ((ps_parser st)\<lparr>fp_opcode_in := next_opcode_in (ps_parser st) type fin\<rparr>) q"
proof -
  let ?p = "ps_parser st" and ?d = "fp_destination (ps_parser st)"
  let ?m = "?d = Server"
  let ?kt = "if ?m then map of_byte (insert_bytes 4 (ucast key)) else []"
  let ?pt = "if ?m then xor_text (mask_key_bytes key) 0 payload else payload"
  obtain n b len where w: "n = 0 \<and> b \<le> 125 \<and> len = ucast b \<or> b = 126 \<and> n = 2 \<and> 125 < len \<and> unat len < 2 ^ 16
      \<or> b = 127 \<and> n = 8 \<and> 65535 < len \<and> unat len < 2 ^ 31" "unat (len :: u64) = length payload" "(b :: u8) < 128" "is_control type \<longrightarrow> b \<le> 125"
    "frame_wire ?d key type payload fin = map of_byte [(if fin then 0x80 else 0) OR type, (if ?m then 0x80 else 0) OR b]
      @ map of_byte (insert_bytes n len) @ ?kt @ ?pt"
    by (rule frame_wire_split[OF assms(4)])
  from assms(1) obtain cur where cur: "fp_ready At_header cur ?p" by (auto simp: idle_parser_def)
  obtain q1 where q1: "parse_header st = (Inr True, st\<lparr>ps_in := map of_byte (insert_bytes n len) @ ?kt @ ?pt @ rest, ps_parser := q1\<rparr>)"
    "fp_ready At_payload_length (header_frame fin type ?m (ucast b) cur) q1" "fp_kept ?p q1"
    using parse_header_whole[OF cur _ w(3), of type fin ?m "map of_byte (insert_bytes n len) @ ?kt @ ?pt @ rest"] assms(4-6,8) w(4,5)
    by (auto simp: sendable_def)
  let ?st1 = "st\<lparr>ps_in := map of_byte (insert_bytes n len) @ ?kt @ ?pt @ rest, ps_parser := q1\<rparr>"
  let ?h = "header_frame fin type ?m (ucast b) cur"
  have len: "fh_payload_length ?h \<le> 125 \<and> n = 0 \<and> len = fh_payload_length ?h
     \<or> fh_payload_length ?h = 126 \<and> n = 2 \<and> 125 < len \<and> unat len < 2 ^ 16
     \<or> fh_payload_length ?h = 127 \<and> n = 8 \<and> 65535 < len \<and> unat len < 2 ^ 31 \<and> (\<forall>k. we_shift env k 0 = 0)"
    using w(1) assms(3) by (auto simp: header_frame_def wire_shift_def word_le_nat_alt unat_ucast_byte)
  have d1: "fp_destination q1 = ?d" "plain_parser q1" using q1(3) assms(2) by (simp_all add: fp_kept_def plain_parser_def)
  obtain q2 where q2: "parse_payload_length env ?st1 = (Inr True, st\<lparr>ps_in := ?kt @ ?pt @ rest, ps_parser := q2\<rparr>)"
    "fp_ready At_mask_key (?h\<lparr>fh_payload_length := len\<rparr>) q2" "fp_kept q1 q2"
    using parse_length_whole[of ?h ?st1 n len env "?kt @ ?pt @ rest"] q1(2) d1 len by (auto simp: header_frame_def)
  let ?st2 = "st\<lparr>ps_in := ?kt @ ?pt @ rest, ps_parser := q2\<rparr>"
  let ?h2 = "?h\<lparr>fh_payload_length := len\<rparr>"
  define h where "h = (if ?m then ?h2\<lparr>fh_mask_key := key\<rparr> else ?h2)"
  have h: "fh_fin h = fin" "fh_type h = type" "fh_payload_length h = len" "fh_mask_bit h = ?m" "?m \<longrightarrow> fh_mask_key h = key"
    by (simp_all add: h_def header_frame_def)
  obtain q3 where q3: "parse_mask_key env ?st2 = (Inr True, st\<lparr>ps_in := ?pt @ rest, ps_parser := q3\<rparr>)" "fp_ready At_payload h q3" "fp_kept q2 q3"
    using parse_mask_key_whole[of ?h2 ?st2 env key "?pt @ rest"] q2(2) assms(3) by (auto simp: h_def header_frame_def wire_shift_def)
  have k: "fp_kept ?p q3" using q1(3) q2(3) q3(3) fp_kept_trans by blast
  have "length payload \<le> vector_max" using assms(4) by (simp add: sendable_def vector_max_def)
  then obtain f q where q: "parse_payload env (st\<lparr>ps_in := ?pt @ rest, ps_parser := q3\<rparr>) = (Inr (Some f), st\<lparr>ps_in := rest, ps_parser := q\<rparr>)"
    "fr_content f = payload" "fh_fin f = fin" "fh_type f = given_type q3 type fin" "idle_parser q"
    "fp_kept (q3\<lparr>fp_opcode_in := next_opcode_in q3 type fin\<rparr>) q"
    using parse_payload_whole[of h "st\<lparr>ps_in := ?pt @ rest, ps_parser := q3\<rparr>" payload rest env] q3(2) k assms(2,7) w(2) h
    by (auto simp: plain_parser_def fp_kept_def)
  have "parse_frame env st = (Inr (Some f), st\<lparr>ps_in := rest, ps_parser := q\<rparr>)"
    by (simp add: parse_frame_def sbind_def q1(1) q2(1) q3(1) q(1))
  with q(2-6) k show ?thesis by (auto simp: fp_kept_def given_type_def next_opcode_in_def)
qed

section \<open>Messages in fragments\<close>

text \<open>The frames a message is sent in: \<open>xs\<close> and, finished, \<open>x\<close>.\<close>

definition fragment_frames :: "opcode \<Rightarrow> string list \<Rightarrow> string \<Rightarrow> message_frame list" where
  "fragment_frames type xs x = map (\<lambda>a. \<lparr>mf_type = type, mf_finished = False, mf_payload = a\<rparr>) xs
     @ [\<lparr>mf_type = type, mf_finished = True, mf_payload = x\<rparr>]"

fun serialize_messages :: "'z ws_env \<Rightarrow> message_frame list \<Rightarrow> ('z, unit) wop" where
  "serialize_messages env [] = sreturn ()"
| "serialize_messages env (m # ms) = sbind (serialize_message env m) (\<lambda>_. serialize_messages env ms)"

text \<open>Fragments behind the first go out as continuations.\<close>

definition wire_of :: "ws_endpoint \<Rightarrow> (u32 \<times> opcode \<times> string \<times> bool) list \<Rightarrow> string" where
  "wire_of d fs = concat (map (\<lambda>(key, type, payload, fin). frame_wire d key type payload fin) fs)"

fun out_types :: "opcode option \<Rightarrow> opcode \<Rightarrow> string list \<Rightarrow> string \<Rightarrow> (opcode \<times> string \<times> bool) list" where
  "out_types cur type [] x = [(if cur = None then type else op_continuation, x, True)]"
| "out_types cur type (a # xs) x = (if cur = None then type else op_continuation, a, False) # out_types (Some type) type xs x"

lemma serialize_fragments:
  assumes "plain_parser (ss_parser st)" "fp_opcode_out (ss_parser st) = None \<or> fp_opcode_out (ss_parser st) = Some type" "\<not> is_control type" "type < 16"
    "\<forall>a\<in>set (xs @ [x]). length a < 2 ^ 31"
  shows "\<exists>fs st1. serialize_messages env (fragment_frames type xs x) st = (Inr (), st1)
    \<and> ss_out st1 = ss_out st @ wire_of (fp_destination (ss_parser st)) fs \<and> map snd fs = out_types (fp_opcode_out (ss_parser st)) type xs x
    \<and> plain_parser (ss_parser st1) \<and> fp_opcode_out (ss_parser st1) = None"
  using assms
proof (induction xs arbitrary: st)
  case Nil
  let ?ty = "if fp_opcode_out (ss_parser st) = None then type else op_continuation"
  let ?key = "we_mask_key env (fp_masked (ss_parser st))"
  have s: "sendable ?ty x" using Nil.prems by (simp add: sendable_def)
  from serialize_plain[OF _ this, of "st\<lparr>ss_parser := (ss_parser st)\<lparr>fp_opcode_out := None\<rparr>\<rparr>" env True] Nil.prems
  show ?case
    by (intro exI[of _ "[(?key, ?ty, x, True)]"]) (auto simp: fragment_frames_def serialize_message_def sbind_def sreturn_def Let_def
      plain_parser_def wire_of_def)
next
  case (Cons a xs)
  let ?ty = "if fp_opcode_out (ss_parser st) = None then type else op_continuation"
  let ?key = "we_mask_key env (fp_masked (ss_parser st))"
  let ?d = "fp_destination (ss_parser st)"
  have s: "sendable ?ty a" using Cons.prems by (simp add: sendable_def)
  let ?st1 = "st\<lparr>ss_out := ss_out st @ frame_wire ?d ?key ?ty a False, ss_parser := (ss_parser st)\<lparr>fp_opcode_out := Some type,
    fp_masked := fp_masked (ss_parser st) + (if ?d = Server then 1 else 0)\<rparr>\<rparr>"
  have m: "serialize_message env \<lparr>mf_type = type, mf_finished = False, mf_payload = a\<rparr> st = (Inr (), ?st1)"
  proof -
    have "serialize_message env \<lparr>mf_type = type, mf_finished = False, mf_payload = a\<rparr> st
      = serialize_frame env ?ty a False (st\<lparr>ss_parser := (ss_parser st)\<lparr>fp_opcode_out := Some type\<rparr>\<rparr>)"
    proof (cases "fp_opcode_out (ss_parser st)")
      case (Some t)
      with Cons.prems(2) have "(ss_parser st)\<lparr>fp_opcode_out := Some type\<rparr> = ss_parser st" by (metis frame_parser.surjective frame_parser.update_convs(5) option.discI)
      with Some Cons.prems(2) show ?thesis by (simp add: serialize_message_def Let_def)
    qed (simp add: serialize_message_def Let_def)
    with serialize_plain[OF _ s, of "st\<lparr>ss_parser := (ss_parser st)\<lparr>fp_opcode_out := Some type\<rparr>\<rparr>" env False] Cons.prems(1)
    show ?thesis by (simp add: plain_parser_def)
  qed
  obtain fs st2 where "serialize_messages env (fragment_frames type xs x) ?st1 = (Inr (), st2)"
    "ss_out st2 = ss_out ?st1 @ wire_of ?d fs" "map snd fs = out_types (Some type) type xs x" "plain_parser (ss_parser st2)" "fp_opcode_out (ss_parser st2) = None"
    using Cons.IH[of ?st1] Cons.prems by (auto simp: plain_parser_def)
  with m show ?case
    by (intro exI[of _ "(?key, ?ty, a, False) # fs"] exI[of _ st2]) (simp add: fragment_frames_def sbind_def wire_of_def)
qed

lemma parse_frame_empty:
  assumes "idle_parser (ps_parser st)" "ps_in st = []"
  shows "\<exists>q. parse_frame env st = (Inr None, st\<lparr>ps_parser := q\<rparr>) \<and> idle_parser q \<and> fp_kept (ps_parser st) q"
proof -
  from assms(1) obtain cur where r: "fp_ready At_header cur (ps_parser st)" by (auto simp: idle_parser_def)
  let ?s = "(fp_header_segment (ps_parser st))\<lparr>seg_last := 0\<rparr>"
  let ?q = "(ps_parser st)\<lparr>fp_header_segment := ?s\<rparr>"
  have "fp_read 2 fp_header_segment fp_header_segment_update st = (Inr False, st\<lparr>ps_parser := ?q\<rparr>)"
    using r assms(2) by (auto simp: fp_read_def seg_read_bytes_def seg_room_def fp_ready_def seg_empty_def vector_max_def Let_def upd_fp_def)
  then have "parse_frame env st = (Inr None, st\<lparr>ps_parser := ?q\<rparr>)"
    using r by (simp add: parse_frame_def parse_header_def sbind_def sreturn_def fp_ready_def)
  moreover have "fp_ready At_header cur ?q" "fp_kept (ps_parser st) ?q"
    using r by (simp_all add: fp_ready_def fp_kept_def seg_empty_def)
  ultimately show ?thesis by (auto simp: idle_parser_def)
qed

text \<open>The rest of a message: every fragment but the last is given out.\<close>

lemma parse_continuations:
  assumes "idle_parser (ps_parser st)" "plain_parser (ps_parser st)" "wire_shift env (fp_destination (ps_parser st))"
    "fp_opcode_in (ps_parser st) = Some type" "type = op_text \<or> type = op_binary" "ps_close st = None"
    "\<forall>a\<in>set (xs @ [x]). length a < 2 ^ 31" "map snd fs = out_types (Some type) type xs x"
    "ps_in st = wire_of (fp_destination (ps_parser st)) fs"
  shows "\<exists>st1. ws_parse env acc st = (Inr (acc @ map (\<lambda>a. Message_frame \<lparr>mf_type = type, mf_finished = False, mf_payload = a\<rparr>) xs), st1)
    \<and> ps_in st1 = [] \<and> ps_close st1 = None \<and> idle_parser (ps_parser st1) \<and> fp_opcode_in (ps_parser st1) = None"
  using assms
proof (induction xs arbitrary: st fs acc)
  case Nil
  then obtain key where fs: "fs = [(key, op_continuation, x, True)]" by auto
  obtain f q where q: "parse_frame env st = (Inr (Some f), st\<lparr>ps_in := [], ps_parser := q\<rparr>)" "fh_type f = op_continuation" "idle_parser q"
    "fp_opcode_in q = None"
    using parse_frame_wire[of st env op_continuation x True key "[]"] Nil.prems fs
    by (auto simp: wire_of_def sendable_def given_type_def next_opcode_in_def fp_kept_def)
  obtain q' where q': "parse_frame env (st\<lparr>ps_in := [], ps_parser := q\<rparr>) = (Inr None, st\<lparr>ps_in := [], ps_parser := q'\<rparr>)" "idle_parser q'" "fp_kept q q'"
    using parse_frame_empty[of "st\<lparr>ps_in := [], ps_parser := q\<rparr>" env] q(3) by auto
  have "ws_parse env acc st = (Inr acc, st\<lparr>ps_in := [], ps_parser := q'\<rparr>)"
    using Nil.prems(6) q(2) by (simp add: ws_parse.simps[of env acc st] q(1) complete_frame_def ws_parse.simps[of env acc "st\<lparr>ps_in := [], ps_parser := q\<rparr>"] q'(1))
  with q' q Nil.prems(6) show ?case by (auto simp: fp_kept_def)
next
  case (Cons a xs)
  then obtain key fs' where fs: "fs = (key, op_continuation, a, False) # fs'" "map snd fs' = out_types (Some type) type xs x"
    by (cases fs) auto
  let ?m = "Message_frame \<lparr>mf_type = type, mf_finished = False, mf_payload = a\<rparr>"
  obtain f q where q: "parse_frame env st = (Inr (Some f), st\<lparr>ps_in := wire_of (fp_destination (ps_parser st)) fs', ps_parser := q\<rparr>)"
    "fh_type f = type" "fh_fin f = False" "fr_content f = a" "idle_parser q" "fp_opcode_in q = Some type"
    "fp_destination q = fp_destination (ps_parser st)" "plain_parser q"
    using parse_frame_wire[of st env op_continuation a False key "wire_of (fp_destination (ps_parser st)) fs'"] Cons.prems fs
    by (auto simp: wire_of_def sendable_def given_type_def next_opcode_in_def fp_kept_def plain_parser_def)
  let ?st1 = "st\<lparr>ps_in := wire_of (fp_destination (ps_parser st)) fs', ps_parser := q\<rparr>"
  have "ws_parse env acc st = ws_parse env (acc @ [?m]) ?st1"
    using Cons.prems(5,6) q(2-4) by (auto simp: ws_parse.simps[of env acc st] q(1) complete_frame_def)
  with Cons.IH[of ?st1 fs' "acc @ [?m]"] Cons.prems q fs show ?case by auto
qed

section \<open>Properties\<close>


definition null_zlib :: "unit zlib" where
  "null_zlib = \<lparr>zl_deflate_init = \<lambda>_. (Z_ok, ()), zl_inflate_init = \<lambda>_. (Z_ok, ()), zl_deflate = \<lambda>_ _ _ _. (Z_stream_error, [], [], ()),
     zl_inflate = \<lambda>_ _ _ _. (Z_data_error, [], [], ())\<rparr>"

definition x86_env :: "unit ws_env" where
  "x86_env = \<lparr>we_zlib = null_zlib, we_int_reader = \<lambda>_. None, we_shift = x86_shl, we_mask_key = \<lambda>n. 0xDEADBEEF + of_nat n\<rparr>"

definition new_parser :: "ws_endpoint \<Rightarrow> unit frame_parser" where
  "new_parser d = \<lparr>fp_destination = d, fp_state = At_header, fp_current = frame_new, fp_opcode_in = None, fp_opcode_out = None,
      fp_extensions = [], fp_header_segment = seg_new, fp_length_segment = seg_new, fp_key_segment = seg_new,
      fp_payload_segment = seg_new, fp_masked = 0\<rparr>"

lemma new_parser_simps [simp]: "plain_parser (new_parser d)" "idle_parser (new_parser d)" "fp_destination (new_parser d) = d"
  "fp_opcode_in (new_parser d) = None" "fp_opcode_out (new_parser d) = None" "wire_shift x86_env d"
  by (auto simp: new_parser_def plain_parser_def idle_parser_def fp_ready_def seg_empty_def seg_new_def frame_new_def frame_header.extend_def
    wire_shift_def x86_env_def)

lemma frame_parser_new_plain: "frame_parser_new x86_env d [] = Inr (new_parser d)"
  by (simp add: frame_parser_new_def new_parser_def)


text \<open>C25: a message that is sent in more than one fragment never arrives whole: the last fragment, the one that finishes the
  message, is parsed and then dropped.\<close>

theorem last_fragment_lost:
  assumes "plain_parser p" "fp_opcode_out p = None" "idle_parser q" "plain_parser q" "fp_opcode_in q = None"
    "fp_destination q = fp_destination p" "wire_shift env (fp_destination p)" "type = op_text \<or> type = op_binary"
    "xs \<noteq> []" "\<forall>a\<in>set (xs @ [x]). length a < 2 ^ 31"
  shows "\<exists>s1 st1. serialize_messages env (fragment_frames type xs x) \<lparr>ss_out = [], ss_parser = p\<rparr> = (Inr (), s1)
    \<and> ws_parse env [] \<lparr>ps_in = ss_out s1, ps_close = None, ps_parser = q\<rparr>
      = (Inr (map (\<lambda>a. Message_frame \<lparr>mf_type = type, mf_finished = False, mf_payload = a\<rparr>) xs), st1)
    \<and> ps_in st1 = [] \<and> fp_opcode_in (ps_parser st1) = None"
proof -
  let ?d = "fp_destination p"
  have t: "\<not> is_control type" "type < 16" using assms(8) by (auto simp: word_less_nat_alt)
  obtain fs s1 where s1: "serialize_messages env (fragment_frames type xs x) \<lparr>ss_out = [], ss_parser = p\<rparr> = (Inr (), s1)"
    "ss_out s1 = wire_of ?d fs" "map snd fs = out_types None type xs x"
    using serialize_fragments[of "\<lparr>ss_out = [], ss_parser = p\<rparr>" type xs x env] assms(1,2,10) t by auto
  obtain a ys where xs: "xs = a # ys" using assms(9) by (cases xs) auto
  with s1(3) obtain key fs' where fs: "fs = (key, type, a, False) # fs'" "map snd fs' = out_types (Some type) type ys x"
    by (cases fs) auto
  let ?st = "\<lparr>ps_in = ss_out s1, ps_close = None, ps_parser = q\<rparr>"
  obtain f q1 where q1: "parse_frame env ?st = (Inr (Some f), ?st\<lparr>ps_in := wire_of ?d fs', ps_parser := q1\<rparr>)" "fr_content f = a"
    "fh_fin f = False" "fh_type f = type" "idle_parser q1" "fp_opcode_in q1 = Some type" "fp_destination q1 = ?d" "plain_parser q1"
    using parse_frame_wire[of ?st env type a False key "wire_of ?d fs'"] assms(3-7,10) t s1(2) xs fs
    by (auto simp: wire_of_def sendable_def given_type_def next_opcode_in_def fp_kept_def plain_parser_def)
  let ?m = "Message_frame \<lparr>mf_type = type, mf_finished = False, mf_payload = a\<rparr>"
  have "ws_parse env [] ?st = ws_parse env [?m] (?st\<lparr>ps_in := wire_of ?d fs', ps_parser := q1\<rparr>)"
    using assms(8) q1(2-4) by (auto simp: ws_parse.simps[of env "[]" ?st] q1(1) complete_frame_def)
  with parse_continuations[of "?st\<lparr>ps_in := wire_of ?d fs', ps_parser := q1\<rparr>" env type ys x fs' "[?m]"] q1(5-8) assms(7,8,10) fs xs s1(1)
  show ?thesis by auto
qed

theorem last_fragment_lost_witness:
  "\<exists>s1 st1. serialize_messages x86_env (fragment_frames op_text [''Hel''] ''lo'') \<lparr>ss_out = [], ss_parser = new_parser Client\<rparr> = (Inr (), s1)
    \<and> ws_parse x86_env [] \<lparr>ps_in = ss_out s1, ps_close = None, ps_parser = new_parser Client\<rparr>
      = (Inr (map (\<lambda>a. Message_frame \<lparr>mf_type = op_text, mf_finished = False, mf_payload = a\<rparr>) [''Hel'']), st1)
    \<and> ps_in st1 = [] \<and> fp_opcode_in (ps_parser st1) = None"
  by (rule last_fragment_lost) simp_all

end
