(* ===== verification/Ws_Service_Facts.thy ===== *)
theory Ws_Service_Facts
  imports Ws_Service Frame_Facts
begin

text \<open>
  Facts about the WebSocket service: the invariant of its state machine, what it sends for what it receives, and where
  messages are lost.
\<close>

section \<open>Control state\<close>

text \<open>What the two loops are at, apart from data.\<close>

definition ctl :: "'z ws_service \<Rightarrow> ws_endpoint \<Rightarrow> ws_endpoint \<times> bool \<times> ws_wait" where
  "ctl s ep = (wc_destination (conn_of ep s), wc_finished (conn_of ep s), wc_wait (conn_of ep s))"

definition same_ctl :: "'z ws_service \<Rightarrow> 'z ws_service \<Rightarrow> bool" where
  "same_ctl s s1 \<longleftrightarrow> ctl s1 = ctl s \<and> wv_end s1 = wv_end s"

lemma same_ctl_refl [simp]: "same_ctl s s"
  by (simp add: same_ctl_def)

lemma same_ctl_trans [trans]: "same_ctl s s1 \<Longrightarrow> same_ctl s1 s2 \<Longrightarrow> same_ctl s s2"
  by (simp add: same_ctl_def)

lemma conn_of_upd [simp]: "conn_of ep (upd_conn ep' f s) = (if ep = ep' then f (conn_of ep s) else conn_of ep s)"
  by (cases ep; cases ep') (simp_all add: conn_of_def upd_conn_def)

lemma conn_of_frame [simp]: "conn_of ep (upd_pipeline g s) = conn_of ep s" "conn_of ep (upd_ws_flow h s) = conn_of ep s"
  "conn_of ep (s\<lparr>wv_flow := w\<rparr>) = conn_of ep s" "conn_of ep (s\<lparr>wv_pipeline := p\<rparr>) = conn_of ep s"
  "conn_of ep (s\<lparr>wv_flow := w, wv_pipeline := p\<rparr>) = conn_of ep s" "conn_of ep (s\<lparr>wv_end := e\<rparr>) = conn_of ep s"
  by (simp_all add: conn_of_def upd_pipeline_def upd_ws_flow_def)

lemma end_frame [simp]: "wv_end (upd_pipeline g s) = wv_end s" "wv_end (upd_ws_flow h s) = wv_end s" "wv_end (upd_conn ep f s) = wv_end s"
  "wv_pipeline (upd_ws_flow h s) = wv_pipeline s" "wv_pipeline (upd_conn ep f s) = wv_pipeline s"
  "wv_flow (upd_conn ep f s) = wv_flow s" "wv_flow (upd_pipeline g s) = wv_flow s" "wv_flow (upd_ws_flow h s) = h (wv_flow s)"
  "wv_pipeline (upd_pipeline g s) = g (wv_pipeline s)"
  by (simp_all add: upd_pipeline_def upd_ws_flow_def upd_conn_def)

lemma same_ctl_upd [simp]: "same_ctl s (upd_pipeline g s1) = same_ctl s s1" "same_ctl s (upd_ws_flow h s1) = same_ctl s s1"
  "same_ctl s (s1\<lparr>wv_flow := w\<rparr>) = same_ctl s s1"
  "same_ctl s (s1\<lparr>wv_pipeline := p\<rparr>) = same_ctl s s1" "same_ctl s (s1\<lparr>wv_flow := w, wv_pipeline := p\<rparr>) = same_ctl s s1"
  "same_ctl s (upd_conn ep (wc_manager_update f1) s1) = same_ctl s s1" "same_ctl s (upd_conn ep (wc_ready_update f2) s1) = same_ctl s s1"
  "same_ctl s (upd_conn ep (wc_content_update f3) s1) = same_ctl s s1"
  by (auto simp: same_ctl_def ctl_def fun_eq_iff)

lemma same_ctl_left [simp]: "same_ctl (upd_pipeline g s) s1 = same_ctl s s1" "same_ctl (upd_ws_flow h s) s1 = same_ctl s s1"
  "same_ctl (s\<lparr>wv_flow := w\<rparr>) s1 = same_ctl s s1"
  "same_ctl (s\<lparr>wv_pipeline := p\<rparr>) s1 = same_ctl s s1" "same_ctl (s\<lparr>wv_flow := w, wv_pipeline := p\<rparr>) s1 = same_ctl s s1"
  "same_ctl (upd_conn ep (wc_ready_update f2) s) s1 = same_ctl s s1" "same_ctl (upd_conn ep (wc_content_update f3) s) s1 = same_ctl s s1"
  by (auto simp: same_ctl_def ctl_def fun_eq_iff)

lemma same_ctl_run [simp]: "same_ctl s (run_ws env ev s1) = same_ctl s s1"
  by (auto simp: run_ws_def split: prod.splits)

lemma same_ctl_conn: "same_ctl s s1 \<Longrightarrow> wc_destination (conn_of ep s1) = wc_destination (conn_of ep s)
    \<and> wc_finished (conn_of ep s1) = wc_finished (conn_of ep s) \<and> wc_wait (conn_of ep s1) = wc_wait (conn_of ep s) \<and> wv_end s1 = wv_end s"
  by (auto simp: same_ctl_def ctl_def fun_eq_iff)

lemma ws_send_ctl: "ws_send env ep f s = (r, s1) \<Longrightarrow> same_ctl s s1"
  by (auto simp: ws_send_def Let_def split: prod.splits intro: same_ctl_trans)

lemma ws_receive_ctl: "ws_receive env ep s = (r, s1) \<Longrightarrow> same_ctl s s1"
  by (auto simp: ws_receive_def Let_def split: prod.splits intro: same_ctl_trans)

lemma send_frames_ctl: "send_frames env ep fs s = (r, s1) \<Longrightarrow> same_ctl s s1"
  by (induction env ep fs arbitrary: s rule: send_frames.induct)
    (auto simp: sbind_cases sreturn_def intro: same_ctl_trans dest!: ws_send_ctl)

lemma send_message_ctl: "send_message env ep m s = (r, s1) \<Longrightarrow> same_ctl s s1"
  by (auto simp: send_message_def dest: send_frames_ctl split: if_splits)

lemma on_message_ctl: "on_message_frame env ep m s = (r, s1) \<Longrightarrow> same_ctl s s1"
  by (auto simp: on_message_frame_def Let_def split: if_splits prod.splits dest!: send_message_ctl ws_send_ctl intro: same_ctl_trans)

lemma on_ping_ctl: "on_ping_frame env ep p s = (r, s1) \<Longrightarrow> same_ctl s s1"
  by (auto simp: on_ping_frame_def split: sum.splits dest!: ws_send_ctl intro: same_ctl_trans)

lemma handle_frame_ctl: "handle_frame env ep f s = (r, s1) \<Longrightarrow> same_ctl s s1"
  by (auto simp: handle_frame_def on_close_frame_def split: if_splits completed_frame.splits dest: on_message_ctl on_ping_ctl)

lemma handle_frames_ctl: "handle_frames env ep fs s = (r, s1) \<Longrightarrow> same_ctl s s1"
  by (induction env ep fs arbitrary: s rule: handle_frames.induct)
    (auto simp: sbind_cases sreturn_def intro: same_ctl_trans dest!: handle_frame_ctl)

lemma inject_frames_ctl: "inject_frames env ep s = (r, s1) \<Longrightarrow> same_ctl s s1"
proof (induction env ep s arbitrary: r s1 rule: inject_frames.induct)
  case (1 env ep s)
  show ?case
  proof (cases "has_frame ep (wv_pipeline s)")
    case True
    obtain t s2 where t: "ws_send env ep (next_frame ep (wv_pipeline s)) s = (t, s2)" by fastforce
    show ?thesis
    proof (cases t)
      case (Inr u)
      with True t 1(2) have "inject_frames env ep (upd_pipeline (pop_frame ep) s2) = (r, s1)" by (simp add: inject_frames.simps[of env ep s])
      with 1(1)[of t s2 u] True t Inr have "same_ctl s2 s1" by simp
      with ws_send_ctl[OF t] show ?thesis by (rule same_ctl_trans)
    qed (use True t 1(2) ws_send_ctl[OF t] in \<open>simp add: inject_frames.simps[of env ep s]\<close>)
  qed (use 1(2) in \<open>simp add: inject_frames.simps[of env ep s]\<close>)
qed

lemma inject_messages_ctl: "inject_messages env ep s = (r, s1) \<Longrightarrow> same_ctl s s1"
proof (induction env ep s arbitrary: r s1 rule: inject_messages.induct)
  case (1 env ep s)
  show ?case
  proof (cases "pipeline_has_message ep (wv_pipeline s)")
    case True
    obtain t s2 where t: "send_message env ep (next_message ep (wv_pipeline s)) s = (t, s2)" by fastforce
    show ?thesis
    proof (cases t)
      case (Inr u)
      with True t 1(2) have "inject_messages env ep (upd_pipeline (pop_message ep) s2) = (r, s1)" by (simp add: inject_messages.simps[of env ep s])
      with 1(1)[of t s2 u] True t Inr have "same_ctl s2 s1" by simp
      with send_message_ctl[OF t] show ?thesis by (rule same_ctl_trans)
    qed (use True t 1(2) send_message_ctl[OF t] in \<open>simp add: inject_messages.simps[of env ep s]\<close>)
  qed (use 1(2) in \<open>simp add: inject_messages.simps[of env ep s]\<close>)
qed

section \<open>The invariant\<close>

definition sockets_closed :: "flow \<Rightarrow> bool" where
  "sockets_closed w \<longleftrightarrow> \<not> cn_open (fl_client w) \<and> \<not> cn_open (fl_server w)"

text \<open>A connection is finished, or it waits for one operation.\<close>

definition settled :: "ws_endpoint \<Rightarrow> 'z ws_service \<Rightarrow> bool" where
  "settled ep s \<longleftrightarrow> (wc_finished (conn_of ep s) \<longleftrightarrow> wc_wait (conn_of ep s) = Ws_idle)"

definition ended_ok :: "'z ws_service \<Rightarrow> bool" where
  "ended_ok s \<longleftrightarrow> (case wv_end s of
     Ws_running \<Rightarrow> \<not> (wc_finished (conn_of Client s) \<and> wc_finished (conn_of Server s))
   | Ws_stopped \<Rightarrow> wc_finished (conn_of Client s) \<and> wc_finished (conn_of Server s) \<and> sockets_closed (wv_flow s)
   | Ws_crashed _ \<Rightarrow> True)"

definition active :: "ws_endpoint \<Rightarrow> 'z ws_service \<Rightarrow> bool" where
  "active ep s \<longleftrightarrow> wv_end s = Ws_running \<and> \<not> wc_finished (conn_of ep s) \<and> wc_wait (conn_of ep s) = Ws_idle
     \<and> wc_destination (conn_of ep s) = ep"

text \<open>What an active connection's step leaves.\<close>

definition act_ok :: "ws_endpoint \<Rightarrow> 'z ws_service \<Rightarrow> 'z ws_service \<Rightarrow> bool" where
  "act_ok ep s s1 \<longleftrightarrow> (\<exists>f. wv_end s1 = Ws_crashed f) \<or> settled ep s1 \<and> ended_ok s1 \<and> wc_destination (conn_of ep s1) = ep
     \<and> ctl s1 (flip_endpoint ep) = ctl s (flip_endpoint ep)"

lemma same_ctl_active: "same_ctl s s1 \<Longrightarrow> active ep s1 = active ep s"
  using same_ctl_conn by (fastforce simp: active_def)

lemma same_ctl_act: "same_ctl s s1 \<Longrightarrow> act_ok ep s1 s2 = act_ok ep s s2"
  by (simp add: act_ok_def same_ctl_def)

lemma both_endpoints: "(\<forall>ep. P ep) \<longleftrightarrow> P Client \<and> P Server"
  by (metis ws_endpoint.exhaust)

lemma ws_crash_ok [simp]: "act_ok ep s (ws_crash f s1)"
  by (simp add: act_ok_def ws_crash_def)

lemma finish_ok: "active ep s \<Longrightarrow> act_ok ep s (finish_connection env ep s)"
proof -
  assume a: "active ep s"
  let ?s1 = "upd_conn ep (wc_finished_update (\<lambda>_. True))
     (upd_ws_flow (upd_end (wc_destination (conn_of ep s)) shutdown_if_possible shutdown_if_possible) s)"
  have o1: "ctl ?s1 (flip_endpoint ep) = ctl s (flip_endpoint ep)" by (simp add: ctl_def)
  show ?thesis
  proof (cases "wc_finished (conn_of (flip_endpoint ep) s)")
    case False
    then have "on_finish env ?s1 = ?s1" by (cases ep) (simp_all add: on_finish_def conn_of_def upd_conn_def upd_ws_flow_def)
    with a False show ?thesis
      by (cases ep) (simp_all add: act_ok_def finish_connection_def settled_def ended_ok_def active_def ctl_def)
  next
    case True
    let ?s2 = "run_ws env Websocket_stop ?s1"
    have c: "same_ctl ?s1 ?s2" by simp
    have "on_finish env ?s1 = ws_stop ?s2"
      using True by (cases ep) (simp_all add: on_finish_def conn_of_def upd_conn_def upd_ws_flow_def)
    moreover have "sockets_closed (flow_disconnect w)" for w by (simp add: sockets_closed_def flow_disconnect_def upd_client_def upd_server_def)
    moreover have "conn_of e (ws_stop ?s2) = conn_of e ?s2" for e by (simp add: ws_stop_def)
    ultimately show ?thesis using a True same_ctl_conn[OF c, of Client] same_ctl_conn[OF c, of Server]
      by (cases ep) (simp_all add: act_ok_def finish_connection_def settled_def ended_ok_def active_def ctl_def ws_stop_def)
  qed
qed

lemma start_write_ok: "active ep s \<Longrightarrow> wt op \<noteq> Ws_idle \<Longrightarrow> (\<And>op. wt op \<noteq> Ws_idle) \<Longrightarrow> act_ok ep s (start_destination_write wt ep s)"
  by (cases ep) (auto simp: start_destination_write_def act_ok_def settled_def ended_ok_def active_def ctl_def split: prod.splits)

lemma close_ok: "active ep s \<Longrightarrow> act_ok ep s (close_connection env ep s)"
proof -
  assume a: "active ep s"
  obtain r s1 where r: "ws_send env ep (Close_frame (pl_closed_frame (wv_pipeline s))) s = (r, s1)" by fastforce
  from ws_send_ctl[OF r] have c: "same_ctl s s1" .
  with a have a1: "active ep s1" by (simp add: same_ctl_active)
  have f: "\<not> wc_finished (conn_of ep s)" using a by (simp add: active_def)
  show ?thesis
  proof (cases r)
    case (Inr u)
    with f r have "close_connection env ep s = start_destination_write Ws_close_write ep s1" by (simp add: close_connection_def)
    with start_write_ok[OF a1, of Ws_close_write] c show ?thesis by (simp add: same_ctl_act)
  next
    case (Inl x)
    show ?thesis
    proof (cases x)
      case (Error e)
      let ?s2 = "run_ws env Websocket_error (upd_ws_flow (set_flow_error (\<lambda>_. e)) s1)"
      have c2: "same_ctl s ?s2" using c by simp
      then have "active ep ?s2" using a by (simp add: same_ctl_active)
      from finish_ok[OF this] c2 have "act_ok ep s (finish_connection env ep ?s2)" by (simp add: same_ctl_act)
      with Error Inl f r show ?thesis by (simp add: close_connection_def)
    qed (use Inl f r in \<open>simp_all add: close_connection_def\<close>)
  qed
qed

lemma on_error_ok: "active ep s \<Longrightarrow> act_ok ep s (ws_on_error env ep e s)"
proof -
  assume a: "active ep s"
  define s2 where "s2 = run_ws env Websocket_error (upd_ws_flow (set_flow_error (set_boost_error e))
    (if pl_closed (wv_pipeline s) then s else upd_pipeline (set_close_state (wc_source (conn_of ep s))
              \<lparr>cl_code = code_internal_error, cl_reason = ve_error_text env e\<rparr>) s))"
  have c: "same_ctl s s2" by (simp add: s2_def)
  with a have "active ep s2" by (simp add: same_ctl_active)
  then have "act_ok ep s2 (finish_connection env ep s2)" "act_ok ep s2 (close_connection env ep s2)" by (simp_all add: finish_ok close_ok)
  moreover have "ws_on_error env ep e s = (if e = Boost_eof then finish_connection env ep s2 else close_connection env ep s2)"
    by (simp only: ws_on_error_def Let_def s2_def)
  ultimately show ?thesis using c by (simp add: same_ctl_act)
qed

lemma on_close_ok: "active ep s \<Longrightarrow> act_ok ep s (ws_on_close env ep e s)"
proof -
  assume a: "active ep s"
  let ?s1 = "if e \<noteq> Boost_success then run_ws env Websocket_error (upd_ws_flow (set_flow_error (set_boost_error e)) s) else s"
  have c: "same_ctl s ?s1" by simp
  with a have "active ep ?s1" by (simp only: same_ctl_active)
  from finish_ok[OF this] c show ?thesis by (simp only: ws_on_close_def same_ctl_act)
qed

lemma loop_impl_cases:
  assumes "active ep s" "websocket_loop_impl env ep s = (r, s1)"
  shows "r = Inr () \<and> act_ok ep s s1 \<or> (\<exists>f. r = Inl f) \<and> same_ctl s s1"
proof (cases "pl_closed (wv_pipeline s)")
  case True
  with assms close_ok[OF assms(1)] show ?thesis by (auto simp: websocket_loop_impl_def)
next
  case False
  have trans: "act_ok ep s s4" if "same_ctl s s3" "act_ok ep s3 s4" for s3 s4
    using that by (simp add: same_ctl_act)
  have act: "active ep s3" if "same_ctl s s3" for s3 using that assms(1) by (simp add: same_ctl_active)
  from assms(2) False have l: "sbind (ws_receive env ep) (\<lambda>(frames, close) s1. case close of
       Some code \<Rightarrow> (Inr (), close_connection env ep (upd_pipeline (set_close_state (wc_source (conn_of ep s1))
         \<lparr>cl_code = code, cl_reason = []\<rparr>) s1))
     | None \<Rightarrow> sbind (handle_frames env ep frames) (\<lambda>_ s2.
         if pl_closed (wv_pipeline s2) then (Inr (), close_connection env ep s2)
         else sbind (inject_frames env ep) (\<lambda>_. sbind (inject_messages env ep) (\<lambda>_ s3.
           (Inr (), start_destination_write Ws_destination_write ep s3))) s2) s1) s = (r, s1)"
    by (simp add: websocket_loop_impl_def)
  show ?thesis using l
    by (auto simp: sbind_cases split: option.splits if_splits
      intro!: trans[OF _ close_ok] trans[OF _ start_write_ok] act
      dest!: ws_receive_ctl handle_frames_ctl inject_frames_ctl inject_messages_ctl intro: same_ctl_trans)
qed

lemma loop_ok: "active ep s \<Longrightarrow> act_ok ep s (websocket_loop env ep s)"
proof -
  assume a: "active ep s"
  obtain r s1 where r: "websocket_loop_impl env ep s = (r, s1)" by fastforce
  from loop_impl_cases[OF a this] show ?thesis
  proof
    assume "r = Inr () \<and> act_ok ep s s1"
    with r show ?thesis by (simp add: websocket_loop_def)
  next
    assume "(\<exists>f. r = Inl f) \<and> same_ctl s s1"
    then obtain f where f: "r = Inl f" and c: "same_ctl s s1" by blast
    show ?thesis
    proof (cases f)
      case (Error e)
      define s3 where "s3 = run_ws env Websocket_error (upd_pipeline (set_close_state (wc_source (conn_of ep s1))
           \<lparr>cl_code = code_protocol_error, cl_reason = error_message (ve_error_text env) e\<rparr>) (upd_ws_flow (set_flow_error (\<lambda>_. e)) s1))"
      have c3: "same_ctl s s3" using c by (simp add: s3_def)
      with a have "active ep s3" by (simp add: same_ctl_active)
      from close_ok[OF this, of env] c3 have "act_ok ep s (close_connection env ep s3)" by (simp add: same_ctl_act)
      moreover have "websocket_loop env ep s = close_connection env ep s3"
        using r f Error by (simp add: websocket_loop_def Let_def s3_def set_flow_error_def)
      ultimately show ?thesis by simp
    qed (use r f in \<open>simp_all add: websocket_loop_def\<close>)
  qed
qed

definition reach_ok :: "'z ws_service \<Rightarrow> bool" where
  "reach_ok s \<longleftrightarrow> (\<exists>f. wv_end s = Ws_crashed f)
     \<or> (\<forall>ep. settled ep s \<and> wc_destination (conn_of ep s) = ep) \<and> ended_ok s"

lemma settled_ctl: "ctl s1 ep = ctl s ep \<Longrightarrow> settled ep s1 = settled ep s \<and> wc_destination (conn_of ep s1) = wc_destination (conn_of ep s)
    \<and> wc_finished (conn_of ep s1) = wc_finished (conn_of ep s)"
  by (simp add: settled_def ctl_def)

lemma act_reach:
  assumes "act_ok ep s s1" "settled (flip_endpoint ep) s" "wc_destination (conn_of (flip_endpoint ep) s) = flip_endpoint ep"
  shows "reach_ok s1"
proof (cases "\<exists>f. wv_end s1 = Ws_crashed f")
  case False
  with assms(1) have a: "settled ep s1" "ended_ok s1" "wc_destination (conn_of ep s1) = ep" "ctl s1 (flip_endpoint ep) = ctl s (flip_endpoint ep)"
    by (auto simp: act_ok_def)
  then have "settled e s1 \<and> wc_destination (conn_of e s1) = e" for e
    using settled_ctl[OF a(4)] assms(2,3) by (cases "e = ep") (auto simp: flip_endpoint_def split: if_splits, (cases e; cases ep; auto)+)
  with a(2) show ?thesis by (simp add: reach_ok_def)
qed (simp add: reach_ok_def)

lemma start_reach:
  assumes "ws_service_new env w handshake = Inr s"
  shows "reach_ok (ws_start env s)"
proof -
  let ?s0 = "run_ws env Websocket_start s"
  have n: "wv_end s = Ws_running" "conn_of ep s = ws_connection_new ep (wc_manager (conn_of ep s))" for ep
    using assms by (cases ep; auto simp: ws_service_new_def Let_def rbind_eq_Inr conn_of_def ws_connection_new_def)+
  have d: "wc_destination (conn_of ep s) = ep" "\<not> wc_finished (conn_of ep s)" "wc_wait (conn_of ep s) = Ws_idle" for ep
    using n(2)[of ep] by (metis ws_connection_new_def ws_connection.select_convs(1,3,6))+
  have c: "same_ctl s ?s0" by simp
  have a: "active ep ?s0" for ep using n(1) d same_ctl_conn[OF c, of ep] by (simp add: active_def)
  let ?s1 = "websocket_loop env Client ?s0"
  have ok: "act_ok Client ?s0 ?s1" using loop_ok[OF a] .
  show ?thesis
  proof (cases "\<exists>f. wv_end ?s1 = Ws_crashed f")
    case True
    then show ?thesis by (auto simp: ws_start_def Let_def reach_ok_def)
  next
    case False
    with ok have k: "settled Client ?s1" "ended_ok ?s1" "wc_destination (conn_of Client ?s1) = Client" "ctl ?s1 Server = ctl ?s0 Server"
      by (auto simp: act_ok_def)
    from k(4) a[of Server] have b: "wc_destination (conn_of Server ?s1) = Server" "\<not> wc_finished (conn_of Server ?s1)" "wc_wait (conn_of Server ?s1) = Ws_idle"
      by (simp_all add: ctl_def active_def)
    with k(2) False have "wv_end ?s1 = Ws_running" by (auto simp: ended_ok_def split: ws_end.splits)
    with b have act: "active Server ?s1" by (simp add: active_def)
    have "reach_ok (websocket_loop env Server ?s1)"
      using act_reach[OF loop_ok[OF act]] k(1,3) by simp
    moreover have "ws_start env s = websocket_loop env Server ?s1"
      using \<open>wv_end ?s1 = Ws_running\<close> by (simp add: ws_start_def Let_def)
    ultimately show ?thesis by simp
  qed
qed

lemma step_reach:
  assumes "reach_ok s"
  shows "reach_ok (ws_step env ep ev s)"
proof (cases "wv_end s = Ws_running")
  case False
  with assms show ?thesis by (simp add: ws_step_def)
next
  case True
  with assms have r: "\<And>e. settled e s \<and> wc_destination (conn_of e s) = e" "ended_ok s" by (auto simp: reach_ok_def)
  let ?idle = "\<lambda>h. upd_conn ep (wc_wait_update (\<lambda>_. Ws_idle)) (upd_ws_flow h s)"
  have done1: "reach_ok t" if "act_ok ep (?idle h) t" for h t
    using act_reach[OF that] r(1)[of "flip_endpoint ep"] by (simp add: settled_def)
  have act: "active ep (?idle h)" if "wc_wait (conn_of ep s) \<noteq> Ws_idle" for h
    using r(1)[of ep] True that by (simp add: active_def settled_def)
  have read: "act_ok ep t (case start_end d f g w of (op, w1) \<Rightarrow> upd_conn ep (wc_wait_update (\<lambda>_. Ws_source_read op)) (t\<lparr>wv_flow := w1\<rparr>))"
    if "active ep t" for t d f g w using that
    by (cases ep) (auto simp: act_ok_def settled_def ended_ok_def active_def ctl_def split: prod.splits)
  have wrote: "act_ok ep t (on_destination_write env ep e t)" if "active ep t" for e t
    using on_error_ok[OF that] read[OF that] by (simp add: on_destination_write_def)
  have src: "act_ok ep t (on_source_read env ep e t)" if "active ep t" for e t
    using on_error_ok[OF that] close_ok[OF that] loop_ok[OF that] by (simp add: on_source_read_def)
  show ?thesis
    using True done1[OF wrote[OF act]] done1[OF on_close_ok[OF act]] done1[OF src[OF act]] assms
    by (cases "wc_wait (conn_of ep s)"; cases ev) (simp_all add: ws_step_def Let_def)
qed

lemma ws_reachable_ok: "ws_reachable env s \<Longrightarrow> reach_ok s"
  by (induction rule: ws_reachable.induct) (auto intro: start_reach step_reach)

section \<open>What goes through\<close>

text \<open>The chunks of a message are its fragments.\<close>

lemma message_chunks_fragments:
  "i \<le> length content \<Longrightarrow> \<exists>xs x. message_chunks source type content i = fragment_frames type xs x
     \<and> concat xs @ x = drop i content \<and> (\<forall>a\<in>set (xs @ [x]). length a \<le> chunk_size source)"
proof (induction source type content i rule: message_chunks.induct)
  case (1 source type content i)
  let ?n = "chunk_size source"
  show ?case
  proof (cases "i + ?n \<ge> length content")
    case True
    then show ?thesis
      by (intro exI[of _ "[]"] exI[of _ "drop i content"]) (simp add: message_chunks.simps[of source type content i] fragment_frames_def Let_def)
  next
    case False
    obtain xs x where ih: "message_chunks source type content (i + ?n) = fragment_frames type xs x" "concat xs @ x = drop (i + ?n) content"
      "\<forall>a\<in>set (xs @ [x]). length a \<le> ?n"
      using 1(1)[OF refl refl] False by auto
    have "take ?n (drop i content) @ drop (i + ?n) content = drop i content"
      by (metis append_take_drop_id drop_drop add.commute)
    with False ih show ?thesis
      by (intro exI[of _ "take ?n (drop i content) # xs"] exI[of _ x])
        (simp add: message_chunks.simps[of source type content i] fragment_frames_def Let_def)
  qed
qed

text \<open>The serializer's state inside the service.\<close>

definition ser_of :: "ws_endpoint \<Rightarrow> 'z ws_service \<Rightarrow> 'z ser_st" where
  "ser_of ep s = \<lparr>ss_out = end_output ep (wv_flow s), ss_parser = wc_manager (conn_of ep s)\<rparr>"

definition put_ser :: "ws_endpoint \<Rightarrow> 'z ser_st \<Rightarrow> 'z ws_service \<Rightarrow> 'z ws_service" where
  "put_ser ep st s = upd_conn ep (wc_manager_update (\<lambda>_. ss_parser st))
     (upd_ws_flow (upd_end ep (cn_output_update (\<lambda>_. ss_out st)) (cn_output_update (\<lambda>_. ss_out st))) s)"

lemma ser_of_put [simp]: "ser_of ep (put_ser ep st s) = st" "put_ser ep st (put_ser ep st' s) = put_ser ep st s"
  by (cases ep; simp add: ser_of_def put_ser_def conn_of_def upd_conn_def upd_ws_flow_def upd_end_def end_output_def upd_client_def upd_server_def)+

lemma put_ser_of [simp]: "put_ser ep (ser_of ep s) s = s"
  by (cases ep) (simp_all add: ser_of_def put_ser_def conn_of_def upd_conn_def upd_ws_flow_def upd_end_def end_output_def upd_client_def upd_server_def)

lemma put_ser_conn [simp]: "wc_destination (conn_of ep (put_ser ep st s)) = wc_destination (conn_of ep s)"
  "wv_pipeline (put_ser ep st s) = wv_pipeline s" "wc_ready (conn_of ep (put_ser ep st s)) = wc_ready (conn_of ep s)"
  "end_output ep (wv_flow (put_ser ep st s)) = ss_out st"
  by (simp_all add: put_ser_def upd_end_def end_output_def upd_client_def upd_server_def)

lemma ws_send_ser: "wc_destination (conn_of ep s) = ep \<Longrightarrow>
    ws_send env ep f s = (case ws_serialize (ve_ws env) f (ser_of ep s) of (r, st) \<Rightarrow> (r, put_ser ep st s))"
  by (simp add: ws_send_def ser_of_def put_ser_def Let_def)

lemma send_message_frames:
  assumes "\<forall>m\<in>set ms. mf_type m = op_text \<or> mf_type m = op_binary" "wc_destination (conn_of ep s) = ep"
  shows "send_frames env ep (map Message_frame ms) s = (case serialize_messages (ve_ws env) ms (ser_of ep s) of (r, st) \<Rightarrow> (r, put_ser ep st s))"
  using assms
proof (induction ms arbitrary: s)
  case (Cons m ms)
  obtain r st where r: "serialize_message (ve_ws env) m (ser_of ep s) = (r, st)" by fastforce
  then have w: "ws_send env ep (Message_frame m) s = (r, put_ser ep st s)"
    using Cons.prems by (auto simp: ws_send_ser ws_serialize_def completed_type_def)
  show ?case
  proof (cases r)
    case (Inr u)
    with w r Cons.IH[of "put_ser ep st s"] Cons.prems show ?thesis by (simp add: sbind_def)
  qed (use w r in \<open>simp add: sbind_def\<close>)
qed (simp add: sreturn_def)

lemma send_message_sent:
  assumes "wc_destination (conn_of ep s) = ep" "plain_parser (wc_manager (conn_of ep s))" "fp_opcode_out (wc_manager (conn_of ep s)) = None"
    "fp_destination (wc_manager (conn_of ep s)) = ep" "wm_type m = op_text \<or> wm_type m = op_binary" "\<not> wm_blocked m"
  shows "\<exists>xs x fs st. send_message env ep m s = (Inr (), put_ser ep st s) \<and> concat xs @ x = wm_content m
    \<and> ss_out st = end_output ep (wv_flow s) @ wire_of ep fs \<and> map snd fs = out_types None (wm_type m) xs x
    \<and> (\<forall>a\<in>set (xs @ [x]). length a \<le> chunk_size (flip_endpoint ep))"
proof -
  have t: "\<not> is_control (wm_type m)" "wm_type m < 16" using assms(5) by (auto simp: word_less_nat_alt)
  obtain xs x where x: "message_chunks (flip_endpoint ep) (wm_type m) (wm_content m) 0 = fragment_frames (wm_type m) xs x"
    "concat xs @ x = wm_content m" "\<forall>a\<in>set (xs @ [x]). length a \<le> chunk_size (flip_endpoint ep)"
    using message_chunks_fragments[of 0 "wm_content m" "flip_endpoint ep" "wm_type m"] by auto
  have l: "\<forall>a\<in>set (xs @ [x]). length a < 2 ^ 31"
    using x(3) by (fastforce simp: chunk_size_def client_chunk_size_def server_chunk_size_def split: if_splits)
  obtain fs st where st: "serialize_messages (ve_ws env) (fragment_frames (wm_type m) xs x) (ser_of ep s) = (Inr (), st)"
    "ss_out st = end_output ep (wv_flow s) @ wire_of ep fs" "map snd fs = out_types None (wm_type m) xs x"
    using serialize_fragments[of "ser_of ep s" "wm_type m" xs x "ve_ws env"] assms(2-4) t l by (auto simp: ser_of_def)
  have "\<forall>f\<in>set (fragment_frames (wm_type m) xs x). mf_type f = op_text \<or> mf_type f = op_binary"
    using assms(5) by (auto simp: fragment_frames_def)
  from send_message_frames[OF this assms(1), of env] st x assms(1,6) show ?thesis
    by (intro exI[of _ xs] exI[of _ x] exI[of _ fs] exI[of _ st]) (simp add: send_message_def wc_source_def)
qed

text \<open>A connection between two messages, with nothing injected for its destination.\<close>

definition relay_ready :: "'z wsv_env \<Rightarrow> ws_endpoint \<Rightarrow> 'z ws_service \<Rightarrow> bool" where
  "relay_ready env ep s \<longleftrightarrow> (let c = conn_of ep s; p = wc_manager c in
     wc_destination c = ep \<and> plain_parser p \<and> idle_parser p \<and> fp_destination p = ep \<and> fp_opcode_in p = None \<and> fp_opcode_out p = None
     \<and> wire_shift (ve_ws env) ep \<and> \<not> pl_closed (wv_pipeline s)
     \<and> pl_frames (wv_pipeline s) ep = [] \<and> pl_messages (wv_pipeline s) ep = [])"

text \<open>What the parser of a connection makes of one whole frame.\<close>

lemma receive_one:
  assumes "relay_ready env ep s" "sendable type payload" "is_control type \<longrightarrow> fin" "type \<noteq> op_continuation"
    "end_input (flip_endpoint ep) (wv_flow s) = frame_wire ep key type payload fin"
  shows "\<exists>f q. complete_frame (we_shift (ve_ws env)) f = complete_frame (we_shift (ve_ws env)) (frame_new\<lparr>fh_type := type, fh_fin := fin, fr_content := payload\<rparr>)
    \<and> ws_receive env ep s = (map_sum id (\<lambda>fs. (fs, None)) (complete_frame (we_shift (ve_ws env)) f),
        upd_conn ep (wc_manager_update (\<lambda>_. q)) (upd_ws_flow (upd_end (flip_endpoint ep) (cn_input_update (\<lambda>_. [])) (cn_input_update (\<lambda>_. []))) s))
    \<and> plain_parser q \<and> fp_destination q = ep \<and> fp_opcode_out q = None \<and> fp_masked q = fp_masked (wc_manager (conn_of ep s))
    \<and> idle_parser q"
proof -
  let ?p = "wc_manager (conn_of ep s)"
  let ?st = "\<lparr>ps_in = end_input (flip_endpoint ep) (wv_flow s), ps_close = None, ps_parser = ?p\<rparr>"
  from assms(1) have r: "wc_destination (conn_of ep s) = ep" "plain_parser ?p" "idle_parser ?p" "fp_destination ?p = ep" "fp_opcode_in ?p = None"
    "fp_opcode_out ?p = None" "wire_shift (ve_ws env) ep" by (simp_all add: relay_ready_def Let_def)
  obtain f q where f: "parse_frame (ve_ws env) ?st = (Inr (Some f), ?st\<lparr>ps_in := [], ps_parser := q\<rparr>)" "fr_content f = payload" "fh_fin f = fin"
    "fh_type f = type" "idle_parser q" "fp_destination q = ep" "plain_parser q" "fp_opcode_out q = None" "fp_masked q = fp_masked ?p"
    using parse_frame_wire[of ?st "ve_ws env" type payload fin key "[]"] assms(2,3,5) r
    by (auto simp: given_type_def fp_kept_def plain_parser_def)
  have k: "complete_frame (we_shift (ve_ws env)) f = complete_frame (we_shift (ve_ws env)) (frame_new\<lparr>fh_type := type, fh_fin := fin, fr_content := payload\<rparr>)"
    by (simp add: complete_frame_def f)
  obtain q' where q': "parse_frame (ve_ws env) (?st\<lparr>ps_in := [], ps_parser := q\<rparr>) = (Inr None, ?st\<lparr>ps_in := [], ps_parser := q'\<rparr>)" "idle_parser q'" "fp_kept q q'"
    using parse_frame_empty[of "?st\<lparr>ps_in := [], ps_parser := q\<rparr>" "ve_ws env"] f(5) by auto
  show ?thesis
  proof (cases "complete_frame (we_shift (ve_ws env)) f")
    case (Inl e)
    then have "ws_parse (ve_ws env) [] ?st = (Inl e, ?st\<lparr>ps_in := [], ps_parser := q\<rparr>)"
      by (simp add: ws_parse.simps[of "ve_ws env" "[]" ?st] f(1))
    with k Inl f r show ?thesis by (intro exI[of _ f] exI[of _ q]) (simp add: ws_receive_def wc_source_def Let_def)
  next
    case (Inr new)
    have "ws_parse (ve_ws env) new (?st\<lparr>ps_in := [], ps_parser := q\<rparr>) = (Inr new, ?st\<lparr>ps_in := [], ps_parser := q'\<rparr>)"
      by (subst ws_parse.simps) (simp only: q'(1) prod.case sum.case option.case)
    with Inr have "ws_parse (ve_ws env) [] ?st = (Inr new, ?st\<lparr>ps_in := [], ps_parser := q'\<rparr>)"
      by (simp add: ws_parse.simps[of "ve_ws env" "[]" ?st] f(1))
    with k Inr f r q' show ?thesis
      by (intro exI[of _ f] exI[of _ q']) (simp add: ws_receive_def wc_source_def Let_def fp_kept_def plain_parser_def)
  qed
qed

text \<open>The loop behind a round that neither failed nor closed the pipeline.\<close>

lemma loop_writes:
  assumes "\<not> pl_closed (wv_pipeline s)" "ws_receive env ep s = (Inr (frames, None), s1)" "handle_frames env ep frames s1 = (Inr (), s2)"
    "\<not> pl_closed (wv_pipeline s2)" "pl_frames (wv_pipeline s2) ep = []" "pl_messages (wv_pipeline s2) ep = []"
  shows "websocket_loop env ep s = start_destination_write Ws_destination_write ep s2"
  using assms by (simp add: websocket_loop_def websocket_loop_impl_def sbind_def inject_frames.simps inject_messages.simps has_frame_def pipeline_has_message_def)

lemma start_write_facts:
  assumes "wc_destination (conn_of ep s) = ep"
  shows "end_output e (wv_flow (start_destination_write wt ep s)) = end_output e (wv_flow s)"
    "end_input e (wv_flow (start_destination_write wt ep s)) = end_input e (wv_flow s)"
    "\<exists>op. wc_wait (conn_of ep (start_destination_write wt ep s)) = wt op"
    "wv_pipeline (start_destination_write wt ep s) = wv_pipeline s"
  using assms by (cases ep; cases e; auto simp: start_destination_write_def start_end_def write_untimed_async_def set_writing_def end_output_def
    end_input_def split: prod.splits)+

lemma end_upd [simp]: "end_output e (upd_end ep (cn_input_update f) (cn_input_update g) w) = end_output e w"
  "end_input e (upd_end ep (cn_output_update f) (cn_output_update g) w) = end_input e w"
  "end_input ep (upd_end ep (cn_input_update f) (cn_input_update f) w) = f (end_input ep w)"
  by (cases e; cases ep; simp add: upd_end_def end_output_def end_input_def upd_client_def upd_server_def)+

lemma put_ser_input [simp]: "end_input e (wv_flow (put_ser ep st s)) = end_input e (wv_flow s)"
  by (simp add: put_ser_def)

text \<open>Interceptors of a received message that only edit it.\<close>

definition edits :: "'z wsv_env \<Rightarrow> (string \<Rightarrow> string) \<Rightarrow> bool" where
  "edits env edit \<longleftrightarrow> (\<forall>w p m. ve_message_hook env (w, p, m) = (w, p, m\<lparr>wm_content := edit (wm_content m)\<rparr>))"


definition example_wsv_env :: "unit wsv_env" where
  "example_wsv_env = \<lparr>ve_ws = x86_env, ve_timeouts = \<lparr>opt_timeout = 5, opt_tunnel_timeout = 9\<rparr>, ve_hook = \<lambda>_ x. x, ve_message_hook = \<lambda>x. x,
     ve_error_text = \<lambda>_. ''error'', ve_intercept_by_default = True\<rparr>"

text \<open>The service of a handshake without extensions, with \<open>text\<close> received from the server.\<close>

definition example_ws :: "string \<Rightarrow> bool \<Rightarrow> unit ws_service" where
  "example_ws text intercept = \<lparr>wv_flow = flow_new uuid_ns_dns client_conn_new (server_conn_new\<lparr>cn_input := text\<rparr>),
     wv_pipeline = pipeline_new (exchange_new M_GET Origin_form) intercept, wv_client = ws_connection_new Client (new_parser Client),
     wv_server = ws_connection_new Server (new_parser Server), wv_end = Ws_running\<rparr>"

lemma example_ws_ready: "relay_ready example_wsv_env Client (example_ws text intercept)"
  by (simp add: relay_ready_def example_ws_def conn_of_def ws_connection_new_def example_wsv_env_def pipeline_new_def Let_def)

lemma example_ws_simps [simp]: "end_input Server (wv_flow (example_ws text i)) = text" "pl_should_intercept (wv_pipeline (example_ws text i)) = i"
  "wc_ready (conn_of Client (example_ws text i))" "wc_content (conn_of Client (example_ws text i)) = []" "edits example_wsv_env (\<lambda>t. t)"
  "\<not> wc_finished (conn_of Client (example_ws text i))"
  by (simp_all add: example_ws_def end_input_def flow_new_def conn_of_def ws_connection_new_def edits_def example_wsv_env_def pipeline_new_def Let_def)


section \<open>Closing\<close>

lemma insert_parsed_two: "insert_bytes 2 (ucast (ucast (parse_network_byte_order ub 2 [a, b]) :: u16)) = [a, b]"
proof -
  have "(ucast (drop_bit 8 (ucast (ucast (push_bit 8 (ucast a) OR ucast b :: u64) :: u16) :: u64)) :: u8) = a"
    by (rule bit_word_eqI) (auto simp: bit_simps dest: bit_imp_le_length)
  moreover have "(ucast (ucast (ucast (push_bit 8 (ucast a) OR ucast b :: u64) :: u16) :: u64) :: u8) = b"
    by (rule bit_word_eqI) (auto simp: bit_simps dest: bit_imp_le_length)
  ultimately show ?thesis by (simp add: parse_two_bytes insert_bytes_2)
qed

text \<open>The payload a close frame is sent on with.\<close>

definition close_payload :: "close_frame \<Rightarrow> string" where
  "close_payload c = map of_byte (insert_bytes 2 (ucast (cl_code c))) @ cl_reason c"

lemma process_close_payload:
  assumes "length payload \<noteq> 1"
  shows "\<exists>c. process_close_frame ub payload = Inr c
    \<and> (if payload = [] then c = \<lparr>cl_code = code_no_status_rcvd, cl_reason = []\<rparr> else close_payload c = payload)"
proof (cases "payload = []")
  case True
  then show ?thesis
    by (simp add: process_close_frame_def seg_read_bytes_def seg_new_def seg_room_def vector_max_def Let_def)
next
  case False
  with assms obtain a b rest where p: "payload = a # b # rest" by (metis One_nat_def length_0_conv length_Suc_conv neq_Nil_conv)
  have "close_payload \<lparr>cl_code = ucast (parse_network_byte_order ub 2 [to_byte a, to_byte b]), cl_reason = rest\<rparr> = payload"
    by (simp add: close_payload_def insert_parsed_two p)
  then show ?thesis
    by (simp add: p process_close_frame_def seg_read_bytes_def seg_new_def seg_room_def vector_max_def seg_commit_def seg_commit_buffer_def Let_def)
qed

text \<open>C30: a close frame of one end closes the pipeline and is sent on to the other end with its code and reason; one without a
  payload is sent on with the code 1005, which is not allowed on the wire.\<close>

theorem close_relayed:
  assumes "relay_ready env ep s" "\<not> wc_finished (conn_of ep s)" "length payload \<le> 125" "length payload \<noteq> 1"
    "end_input (flip_endpoint ep) (wv_flow s) = frame_wire ep key op_close payload True"
  defines "s1 \<equiv> websocket_loop env ep s"
  shows "\<exists>op. pl_closed (wv_pipeline s1) \<and> pl_closed_by (wv_pipeline s1) = flip_endpoint ep \<and> wc_wait (conn_of ep s1) = Ws_close_write op
    \<and> end_output ep (wv_flow s1) = end_output ep (wv_flow s) @ frame_wire ep (we_mask_key (ve_ws env) (fp_masked (wc_manager (conn_of ep s)))) op_close
        (if payload = [] then map of_byte (insert_bytes 2 1005) else payload) True"
proof -
  have send: "sendable op_close payload" using assms(3) by (simp add: sendable_def)
  obtain c where c: "process_close_frame (we_shift (ve_ws env)) payload = Inr c"
    "if payload = [] then c = \<lparr>cl_code = code_no_status_rcvd, cl_reason = []\<rparr> else close_payload c = payload"
    using process_close_payload[OF assms(4)] by blast
  obtain f q where f: "complete_frame (we_shift (ve_ws env)) f = Inr [Close_frame c]"
    "ws_receive env ep s = (map_sum id (\<lambda>fs. (fs, None)) (complete_frame (we_shift (ve_ws env)) f),
        upd_conn ep (wc_manager_update (\<lambda>_. q)) (upd_ws_flow (upd_end (flip_endpoint ep) (cn_input_update (\<lambda>_. [])) (cn_input_update (\<lambda>_. []))) s))"
      (is "_ = (_, ?s1)")
    "plain_parser q" "fp_destination q = ep" "fp_masked q = fp_masked (wc_manager (conn_of ep s))"
    using receive_one[OF assms(1) send _ _ assms(5)] c(1) by (auto simp: complete_frame_def)
  have d: "wc_destination (conn_of ep s) = ep" "\<not> pl_closed (wv_pipeline s)" using assms(1) by (simp_all add: relay_ready_def Let_def)
  let ?s2 = "upd_pipeline (set_close_state (flip_endpoint ep) c) ?s1"
  let ?key = "we_mask_key (ve_ws env) (fp_masked (wc_manager (conn_of ep s)))"
  let ?pay = "if payload = [] then map of_byte (insert_bytes 2 1005) else payload"
  have h: "handle_frames env ep [Close_frame c] ?s1 = (Inr (), ?s2)"
    using d by (simp add: handle_frame_def completed_type_def on_close_frame_def sbind_def sreturn_def wc_source_def)
  have pay: "close_payload c = ?pay" using c(2) by (auto simp: close_payload_def)
  have sp: "sendable op_close ?pay" using assms(3) by (simp add: sendable_def)
  obtain st where st: "serialize_frame (ve_ws env) op_close ?pay True (ser_of ep ?s2) = (Inr (), st)" "ss_out st = end_output ep (wv_flow s) @ frame_wire ep ?key op_close ?pay True"
    using serialize_plain[OF _ sp, of "ser_of ep ?s2" "ve_ws env" True] f(3-5) d by (auto simp: ser_of_def)
  have w: "ws_send env ep (Close_frame c) ?s2 = (Inr (), put_ser ep st ?s2)"
    using st(1) d pay by (simp add: ws_send_ser ws_serialize_def completed_type_def serialize_close_def close_payload_def)
  have cl: "pl_closed (set_close_state x c p)" "pl_closed_frame (set_close_state x c p) = c" "pl_closed_by (set_close_state x c p) = x" for x p
    by (simp_all add: set_close_state_def)
  have "s1 = start_destination_write Ws_close_write ep (put_ser ep st ?s2)"
    unfolding s1_def using d f(1,2) h w assms(2) by (simp add: websocket_loop_def websocket_loop_impl_def sbind_def cl close_connection_def del: handle_frames.simps)
  with start_write_facts[of ep "put_ser ep st ?s2"] st(2) d show ?thesis by (auto simp: cl)
qed

theorem close_relayed_witness:
  "\<exists>op. pl_closed (wv_pipeline (websocket_loop example_wsv_env Client (example_ws (frame_wire Client 0 op_close [] True) True)))
    \<and> pl_closed_by (wv_pipeline (websocket_loop example_wsv_env Client (example_ws (frame_wire Client 0 op_close [] True) True))) = flip_endpoint Client
    \<and> wc_wait (conn_of Client (websocket_loop example_wsv_env Client (example_ws (frame_wire Client 0 op_close [] True) True))) = Ws_close_write op
    \<and> end_output Client (wv_flow (websocket_loop example_wsv_env Client (example_ws (frame_wire Client 0 op_close [] True) True)))
      = end_output Client (wv_flow (example_ws (frame_wire Client 0 op_close [] True) True))
        @ frame_wire Client (we_mask_key (ve_ws example_wsv_env) (fp_masked (wc_manager (conn_of Client (example_ws (frame_wire Client 0 op_close [] True) True))))) op_close
          (if ([] :: string) = [] then map of_byte (insert_bytes 2 1005) else []) True"
  by (rule close_relayed[OF example_ws_ready]) simp_all

section \<open>Interception\<close>

text \<open>When interception is switched on behind a message that was passed through, the next whole message is lost: nothing of it is
  sent and no interceptor sees it.\<close>

theorem interception_drops_message:
  assumes "on_message_frame env ep m1 s = (Inr (), s1)" "\<not> pl_should_intercept (wv_pipeline s)" "mf_finished m1" "mf_finished m2"
  defines "s2 \<equiv> upd_pipeline (set_interception True) s1"
  shows "on_message_frame env ep m2 s2 = (Inr (), upd_conn ep (wc_ready_update (\<lambda>_. True)) s2)
    \<and> end_output ep (wv_flow (snd (on_message_frame env ep m2 s2))) = end_output ep (wv_flow s2)"
proof -
  have "\<not> wc_ready (conn_of ep s1)"
    using assms(1,2) by (auto simp: on_message_frame_def ws_send_def Let_def split: prod.splits)
  then show ?thesis using assms(4) by (simp add: s2_def on_message_frame_def set_interception_def)
qed

lemma example_message_passes: "\<exists>s1. on_message_frame example_wsv_env Client \<lparr>mf_type = op_text, mf_finished = True, mf_payload = ''Hi''\<rparr> (example_ws [] False) = (Inr (), s1)"
proof -
  let ?m = "\<lparr>mf_type = op_text, mf_finished = True, mf_payload = ''Hi''\<rparr>"
  let ?s = "upd_conn Client (wc_ready_update (\<lambda>_. False)) (example_ws [] False)"
  have d: "wc_destination (conn_of Client ?s) = Client" "wc_manager (conn_of Client ?s) = new_parser Client"
    by (simp_all add: example_ws_def conn_of_def upd_conn_def ws_connection_new_def)
  have e: "(new_parser Client)\<lparr>fp_opcode_out := None\<rparr> = new_parser Client" by (simp add: new_parser_def)
  have "\<exists>st. ws_serialize (ve_ws example_wsv_env) (Message_frame ?m) (ser_of Client ?s) = (Inr (), st)"
    using serialize_plain[of "ser_of Client ?s" op_text "''Hi''" "ve_ws example_wsv_env" True] d(2)
    by (simp add: ws_serialize_def completed_type_def serialize_message_def ser_of_def sendable_def Let_def e)
  with d show ?thesis by (auto simp: on_message_frame_def ws_send_ser Let_def)
qed

theorem interception_drops_message_witness:
  "\<exists>s1. on_message_frame example_wsv_env Client \<lparr>mf_type = op_text, mf_finished = True, mf_payload = ''Hi''\<rparr> (example_ws [] False) = (Inr (), s1)
    \<and> on_message_frame example_wsv_env Client \<lparr>mf_type = op_text, mf_finished = True, mf_payload = ''lost''\<rparr> (upd_pipeline (set_interception True) s1)
      = (Inr (), upd_conn Client (wc_ready_update (\<lambda>_. True)) (upd_pipeline (set_interception True) s1))"
proof -
  obtain s1 where s1: "on_message_frame example_wsv_env Client \<lparr>mf_type = op_text, mf_finished = True, mf_payload = ''Hi''\<rparr> (example_ws [] False) = (Inr (), s1)"
    using example_message_passes by blast
  with interception_drops_message[OF s1, of "\<lparr>mf_type = op_text, mf_finished = True, mf_payload = ''lost''\<rparr>"] show ?thesis by simp
qed

text \<open>C13: in every state the service can reach, whatever arrives, fails or is injected, and in every order of the two ends' callbacks:
  while it runs, each connection is finished or waits for exactly one operation, and one of them is not finished; when it has stopped,
  both are finished and both sockets are closed.\<close>

theorem ws_service_invariant:
  assumes "ws_reachable env s"
  shows "(wv_end s = Ws_running \<longrightarrow> (\<forall>ep. wc_finished (conn_of ep s) \<longleftrightarrow> wc_wait (conn_of ep s) = Ws_idle) \<and> (\<exists>ep. wc_wait (conn_of ep s) \<noteq> Ws_idle))
    \<and> (wv_end s = Ws_stopped \<longrightarrow> (\<forall>ep. wc_finished (conn_of ep s)) \<and> sockets_closed (wv_flow s))"
  using ws_reachable_ok[OF assms] by (auto simp: reach_ok_def settled_def ended_ok_def both_endpoints split: ws_end.splits)

lemma example_service_new: "ws_service_new example_wsv_env (flow_new uuid_ns_dns client_conn_new (server_conn_new\<lparr>cn_input := text\<rparr>)) (exchange_new M_GET Origin_form)
   = Inr (example_ws text True)"
proof -
  have "pl_extensions (pipeline_new (exchange_new M_GET Origin_form) True) = []"
    by (simp add: pipeline_new_def exchange_new_def exchange_response_def Let_def get_extensions_def get_all_of_header_def equal_range_def response_new_def)
  then show ?thesis using frame_parser_new_plain by (simp add: ws_service_new_def example_ws_def example_wsv_env_def Let_def)
qed

theorem ws_service_invariant_witness:
  "ws_reachable example_wsv_env (ws_start example_wsv_env (example_ws ''x'' True))
    \<and> (if wv_end (ws_start example_wsv_env (example_ws ''x'' True)) = Ws_running
         then \<exists>ep. wc_wait (conn_of ep (ws_start example_wsv_env (example_ws ''x'' True))) \<noteq> Ws_idle else True)
    \<and> (if wv_end (ws_start example_wsv_env (example_ws ''x'' True)) = Ws_stopped
         then sockets_closed (wv_flow (ws_start example_wsv_env (example_ws ''x'' True))) else True)"
  using ws_service_invariant[OF ws_reachable.started[OF example_service_new, of "''x''"]]
    ws_reachable.started[OF example_service_new, of "''x''"] by simp

end
