(* ===== verification/Client_Hello.thy ===== *)
theory Client_Hello
  imports Handshake_Types Segment
begin

text \<open>
  tls/handshake/client_hello.{hpp,cpp} and handshake_reader.{hpp,cpp}: the record of the ClientHello and its parser.

  \<^item> a \<^verbatim>\<open>const_buffer\<close> is a string of \<^verbatim>\<open>char\<close>s, and positions in it are numbers below \<open>2 ^ 64\<close> whose sum wraps
    (\<open>size_plus\<close>).  Every operation takes the position and returns the next one.
  \<^item> a length of one byte is read with \<^verbatim>\<open>raw_data[index++]\<close>, that is as a signed \<^verbatim>\<open>char\<close> that is converted to
    \<^verbatim>\<open>std::size_t\<close> (\<open>char_to_size\<close>): from 128 on it is a huge number, whose sum with the position wraps and
    passes the bounds check.  The copy from the position to one before it is undefined behaviour, as an index outside of the
    data is.
\<close>

section \<open>Reading bytes\<close>

definition size_plus :: "nat \<Rightarrow> nat \<Rightarrow> nat" where
  "size_plus a b = unat (word_of_nat a + word_of_nat b :: u64)"

definition char_to_size :: "char \<Rightarrow> nat" where
  "char_to_size c = unat (scast (to_byte c) :: u64)"

definition raw_at :: "string \<Rightarrow> nat \<Rightarrow> (char \<times> nat) result" where
  "raw_at raw index = (if index < length raw then Inr (raw ! index, index + 1) else Inl Undefined)"

definition copy_bytes :: "string \<Rightarrow> nat \<Rightarrow> nat \<Rightarrow> (string \<times> nat) result" where
  "copy_bytes raw offset num_bytes = (let end1 = size_plus offset num_bytes in
     if end1 > length raw then err read_access_violation
     else if end1 < offset then Inl Undefined
     else Inr (take num_bytes (drop offset raw), end1))"

definition read_byte_string :: "string \<Rightarrow> nat \<Rightarrow> nat \<Rightarrow> (nat \<times> nat) result" where
  "read_byte_string raw offset num_bytes =
     map_sum id (map_prod (\<lambda>bs. unat (concat_bytes (map to_byte bs))) id) (copy_bytes raw offset num_bytes)"

lemma size_plus_small: "a + b < 2 ^ 64 \<Longrightarrow> size_plus a b = a + b"
  unfolding size_plus_def of_nat_add[symmetric] by (intro unat_word_of_nat) simp

lemma size_plus_less: "size_plus a b < 2 ^ 64"
  using unsigned_less[of "word_of_nat a + word_of_nat b :: u64"] by (simp add: size_plus_def)

lemma copy_bytes_Inr: "copy_bytes raw i n = Inr (bs, j) \<Longrightarrow> i \<le> j \<and> j \<le> length raw \<and> (j = i \<longrightarrow> (2 ^ 64) dvd n)"
proof -
  assume a: "copy_bytes raw i n = Inr (bs, j)"
  then have j: "i \<le> j" "j \<le> length raw" "j = size_plus i n" by (auto simp: copy_bytes_def Let_def split: if_splits)
  moreover have "2 ^ 64 dvd n" if "j = i"
  proof -
    have "i < 2 ^ 64" using that j(3) size_plus_less[of i n] by simp
    then have "unat (word_of_nat i :: u64) = i" by simp
    then have "word_of_nat i + word_of_nat n = (word_of_nat i :: u64)"
      using that j(3) unfolding size_plus_def by (metis word_unat_eq_iff)
    then have "word_of_nat n = (0 :: u64)" by simp
    then show ?thesis by (simp add: word_of_nat_eq_0_iff)
  qed
  ultimately show ?thesis by blast
qed

lemma read_two_Inr: "read_byte_string raw i 2 = Inr (v, j) \<Longrightarrow> i < j \<and> j \<le> length raw"
  by (auto simp: read_byte_string_def map_sum_def split: sum.splits prod.splits dest!: copy_bytes_Inr)

lemma raw_at_Inr: "raw_at raw i = Inr (c, j) \<Longrightarrow> j = i + 1 \<and> i < length raw"
  by (auto simp: raw_at_def split: if_splits)

section \<open>The message\<close>

record server_name_entry =
  sn_type :: u8
  sn_host_name :: string

record client_hello =
  ch_record_header :: "u8 list"
  ch_handshake_header :: "u8 list"
  ch_version :: "u8 list"
  ch_random :: "u8 list"
  ch_session_id :: "u8 list"
  ch_cipher_suites :: "cipher_suite list"
  ch_compression_methods :: "u8 list"
  ch_extensions :: "extension_type \<rightharpoonup> u8 list"
  ch_server_names :: "server_name_entry list"
  ch_alpn :: "string list"

definition client_hello_new :: client_hello where
  "client_hello_new = \<lparr>ch_record_header = [], ch_handshake_header = [], ch_version = [], ch_random = [], ch_session_id = [],
     ch_cipher_suites = [], ch_compression_methods = [], ch_extensions = Map.empty, ch_server_names = [], ch_alpn = []\<rparr>"

definition has_server_names_extension :: "client_hello \<Rightarrow> bool" where
  "has_server_names_extension h \<longleftrightarrow> ch_server_names h \<noteq> []"

definition has_alpn_extension :: "client_hello \<Rightarrow> bool" where
  "has_alpn_extension h \<longleftrightarrow> ch_alpn h \<noteq> []"

section \<open>The lists of the message\<close>

text \<open>Every loop reads entries while the position is below its end.\<close>

function read_cipher_suites :: "string \<Rightarrow> nat \<Rightarrow> nat \<Rightarrow> (cipher_suite list \<times> nat) result" where
  "read_cipher_suites raw end1 index = (if index < end1
     then (case read_byte_string raw index 2 of
         Inl f \<Rightarrow> Inl f
       | Inr (suite, i1) \<Rightarrow> map_sum id (map_prod (Cons (of_nat suite)) id) (read_cipher_suites raw end1 i1))
     else Inr ([], index))"
  by pat_completeness auto
termination
  by (relation "measure (\<lambda>(raw, end1, index). length raw - index)") (auto dest!: read_two_Inr)

definition read_server_name :: "string \<Rightarrow> nat \<Rightarrow> (server_name_entry \<times> nat) result" where
  "read_server_name raw index =
     rbind (read_byte_string raw index 2) (\<lambda>(_, i1).
     rbind (raw_at raw i1) (\<lambda>(type, i2).
     rbind (read_byte_string raw i2 2) (\<lambda>(name_length, i3).
     rbind (copy_bytes raw i3 name_length) (\<lambda>(name, i4).
       Inr (\<lparr>sn_type = to_byte type, sn_host_name = name\<rparr>, i4)))))"

lemma read_server_name_Inr: "read_server_name raw i = Inr (e, j) \<Longrightarrow> i < j \<and> j \<le> length raw"
  by (auto simp: read_server_name_def rbind_eq_Inr dest!: read_two_Inr raw_at_Inr copy_bytes_Inr)

function read_server_names :: "string \<Rightarrow> nat \<Rightarrow> nat \<Rightarrow> (server_name_entry list \<times> nat) result" where
  "read_server_names raw end1 index = (if index < end1
     then (case read_server_name raw index of
         Inl f \<Rightarrow> Inl f
       | Inr (entry, i1) \<Rightarrow> map_sum id (map_prod (Cons entry) id) (read_server_names raw end1 i1))
     else Inr ([], index))"
  by pat_completeness auto
termination
  by (relation "measure (\<lambda>(raw, end1, index). length raw - index)") (auto dest!: read_server_name_Inr)

definition read_alpn_entry :: "string \<Rightarrow> nat \<Rightarrow> (string \<times> nat) result" where
  "read_alpn_entry raw index = rbind (raw_at raw index) (\<lambda>(entry_length, i1). copy_bytes raw i1 (char_to_size entry_length))"

lemma read_alpn_entry_Inr: "read_alpn_entry raw i = Inr (e, j) \<Longrightarrow> i < j \<and> j \<le> length raw"
  by (auto simp: read_alpn_entry_def rbind_eq_Inr dest!: raw_at_Inr copy_bytes_Inr)

function read_alpn :: "string \<Rightarrow> nat \<Rightarrow> nat \<Rightarrow> (string list \<times> nat) result" where
  "read_alpn raw end1 index = (if index < end1
     then (case read_alpn_entry raw index of
         Inl f \<Rightarrow> Inl f
       | Inr (entry, i1) \<Rightarrow> map_sum id (map_prod (Cons entry) id) (read_alpn raw end1 i1))
     else Inr ([], index))"
  by pat_completeness auto
termination
  by (relation "measure (\<lambda>(raw, end1, index). length raw - index)") (auto dest!: read_alpn_entry_Inr)

declare read_cipher_suites.simps [simp del] read_server_names.simps [simp del] read_alpn.simps [simp del]

section \<open>Extensions\<close>

definition read_names_extension :: "string \<Rightarrow> nat \<Rightarrow> nat \<Rightarrow> client_hello \<Rightarrow> (client_hello \<times> nat) result" where
  "read_names_extension raw len index h = rbind (read_server_names raw (size_plus index len) index) (\<lambda>(names, i1).
     if i1 \<noteq> size_plus index len then err_with invalid_client_hello ''Error in parsing server name extension''
     else Inr (h\<lparr>ch_server_names := ch_server_names h @ names\<rparr>, i1))"

definition read_alpn_extension :: "string \<Rightarrow> nat \<Rightarrow> client_hello \<Rightarrow> (client_hello \<times> nat) result" where
  "read_alpn_extension raw index h =
     rbind (read_byte_string raw index 2) (\<lambda>(alpn_length, i1).
     rbind (read_alpn raw (size_plus i1 alpn_length) i1) (\<lambda>(protos, i2).
       if i2 \<noteq> size_plus i1 alpn_length then err_with invalid_client_hello ''Error in parsing ALPN extension''
       else Inr (h\<lparr>ch_alpn := ch_alpn h @ protos\<rparr>, i2)))"

definition read_other_extension :: "string \<Rightarrow> extension_type \<Rightarrow> nat \<Rightarrow> nat \<Rightarrow> client_hello \<Rightarrow> (client_hello \<times> nat) result" where
  "read_other_extension raw type len index h =
     (if ch_extensions h type \<noteq> None then err_with invalid_client_hello ''Duplicate extension found''
      else rbind (copy_bytes raw index len) (\<lambda>(data, i1).
        Inr (h\<lparr>ch_extensions := (ch_extensions h)(type \<mapsto> map to_byte data)\<rparr>, i1)))"

definition read_extension :: "string \<Rightarrow> nat \<Rightarrow> client_hello \<Rightarrow> (client_hello \<times> nat) result" where
  "read_extension raw index h =
     rbind (read_byte_string raw index 2) (\<lambda>(type, i1).
     rbind (read_byte_string raw i1 2) (\<lambda>(len, i2).
       if type = unat ext_server_name then read_names_extension raw len i2 h
       else if type = unat ext_alpn then read_alpn_extension raw i2 h
       else read_other_extension raw (of_nat type) len i2 h))"

lemma read_names_Inr: "read_server_names raw e i = Inr (xs, j) \<Longrightarrow> i \<le> j"
proof (induction raw e i arbitrary: xs j rule: read_server_names.induct)
  case (1 raw e i)
  show ?case
  proof (cases "i < e")
    case True
    with 1(2) obtain x k ys where k: "read_server_name raw i = Inr (x, k)" "read_server_names raw e k = Inr (ys, j)"
      by (auto simp: read_server_names.simps[of raw e i] map_sum_def split: sum.splits prod.splits)
    with 1(1)[OF True k(1) refl k(2)] read_server_name_Inr[OF k(1)] show ?thesis by simp
  qed (use 1(2) in \<open>simp add: read_server_names.simps[of raw e i]\<close>)
qed

lemma read_alpn_Inr: "read_alpn raw e i = Inr (xs, j) \<Longrightarrow> i \<le> j"
proof (induction raw e i arbitrary: xs j rule: read_alpn.induct)
  case (1 raw e i)
  show ?case
  proof (cases "i < e")
    case True
    with 1(2) obtain x k ys where k: "read_alpn_entry raw i = Inr (x, k)" "read_alpn raw e k = Inr (ys, j)"
      by (auto simp: read_alpn.simps[of raw e i] map_sum_def split: sum.splits prod.splits)
    with 1(1)[OF True k(1) refl k(2)] read_alpn_entry_Inr[OF k(1)] show ?thesis by simp
  qed (use 1(2) in \<open>simp add: read_alpn.simps[of raw e i]\<close>)
qed

lemma read_extension_parts_Inr:
  "read_names_extension raw len i h = Inr (h1, j) \<Longrightarrow> i \<le> j"
  "read_alpn_extension raw i h = Inr (h1, j) \<Longrightarrow> i \<le> j"
  "read_other_extension raw type len i h = Inr (h1, j) \<Longrightarrow> i \<le> j"
  by (auto simp: read_names_extension_def read_alpn_extension_def read_other_extension_def rbind_eq_Inr split: if_splits
    dest!: read_two_Inr read_names_Inr read_alpn_Inr copy_bytes_Inr)

lemma read_extension_Inr: "read_extension raw i h = Inr (h1, j) \<Longrightarrow> i < j"
  by (auto simp: read_extension_def rbind_eq_Inr split: if_splits dest!: read_two_Inr read_extension_parts_Inr)

function read_extensions :: "string \<Rightarrow> nat \<Rightarrow> client_hello \<Rightarrow> (client_hello \<times> nat) result" where
  "read_extensions raw index h = (if index < length raw
     then (case read_extension raw index h of Inl f \<Rightarrow> Inl f | Inr (h1, i1) \<Rightarrow> read_extensions raw i1 h1)
     else Inr (h, index))"
  by pat_completeness auto
termination
  by (relation "measure (\<lambda>(raw, index, h). length raw - index)") (auto dest!: read_extension_Inr)

declare read_extensions.simps [simp del]

section \<open>The parser\<close>

definition from_raw_data_impl :: "string \<Rightarrow> client_hello result" where
  "from_raw_data_impl raw = (if length raw < 9 then err invalid_client_hello else
     rbind (copy_bytes raw 0 5) (\<lambda>(record_header, i1).
     rbind (copy_bytes raw i1 4) (\<lambda>(handshake_header, i2).
       let hh = map to_byte handshake_header in
       if hh ! 0 \<noteq> 0x01 then err invalid_client_hello
       else if unat (concat_bytes [hh ! 1, hh ! 2, hh ! 3]) \<noteq> length raw - 9 then err invalid_client_hello
       else
     rbind (copy_bytes raw i2 2) (\<lambda>(version, i3).
     rbind (copy_bytes raw i3 32) (\<lambda>(random, i4).
     rbind (raw_at raw i4) (\<lambda>(session_id_length, i5).
     rbind (copy_bytes raw i5 (char_to_size session_id_length)) (\<lambda>(session_id, i6).
     rbind (read_byte_string raw i6 2) (\<lambda>(ciphers_length, i7).
     rbind (read_cipher_suites raw (size_plus i7 ciphers_length) i7) (\<lambda>(suites, i8).
       if i8 \<noteq> size_plus i7 ciphers_length then err_with invalid_client_hello ''Invalid cipher suites length'' else
     rbind (raw_at raw i8) (\<lambda>(compression_length, i9).
     rbind (copy_bytes raw i9 (char_to_size compression_length)) (\<lambda>(compression, i10).
     rbind (read_byte_string raw i10 2) (\<lambda>(extensions_length, i11).
       let h = client_hello_new\<lparr>ch_record_header := map to_byte record_header, ch_handshake_header := hh,
           ch_version := map to_byte version, ch_random := map to_byte random, ch_session_id := map to_byte session_id,
           ch_cipher_suites := suites, ch_compression_methods := map to_byte compression\<rparr> in
     rbind (if extensions_length \<noteq> 0 then read_extensions raw i11 h else Inr (h, i11)) (\<lambda>(h1, i12).
       if i12 \<noteq> length raw then err_with invalid_client_hello ''Invalid Client Hello length'' else Inr h1)))))))))))))"

definition from_raw_data :: "string \<Rightarrow> client_hello result" where
  "from_raw_data raw = (case from_raw_data_impl raw of
     Inl (Error e) \<Rightarrow> if es_proxy e = read_access_violation
       then err_with invalid_client_hello ''Invalid Client Hello length'' else Inl (Error e)
   | r \<Rightarrow> r)"

section \<open>The reader of the record\<close>

record handshake_reader =
  hr_segment :: base_segment
  hr_length :: u16
  hr_known_length :: bool

definition record_header_length :: nat where
  "record_header_length = 5"

definition handshake_reader_new :: handshake_reader where
  "handshake_reader_new = \<lparr>hr_segment = bs_new, hr_length = 0, hr_known_length = False\<rparr>"

definition get_bytes :: "handshake_reader \<Rightarrow> string" where
  "get_bytes r = map of_byte (sb_data (bs_buffer (hr_segment r)))"

definition handshake_reset :: "handshake_reader \<Rightarrow> handshake_reader" where
  "handshake_reset r = \<lparr>hr_segment = bs_reset (hr_segment r), hr_length = 0, hr_known_length = False\<rparr>"

text \<open>\<open>\<^verbatim>\<open>bytes[2] >= 0x00 && bytes[2] <= 0x03\<close>\<close> compares a signed \<^verbatim>\<open>char\<close>.\<close>

definition is_tls_record :: "u8 list \<Rightarrow> bool" where
  "is_tls_record bytes \<longleftrightarrow> bytes ! 0 = 0x16 \<and> bytes ! 1 = 0x03 \<and> 0 \<le>s bytes ! 2 \<and> bytes ! 2 \<le>s 0x03"

text \<open>The rest of the record; the result is the number of bytes that are missing.\<close>

definition read_record :: "string \<Rightarrow> nat \<Rightarrow> handshake_reader \<Rightarrow> (unit, nat result \<times> handshake_reader) res" where
  "read_record buf available r =
     rbind (cs_read_up_to_bytes (map to_byte buf) (unat (hr_length r)) available (hr_segment r)) (\<lambda>(ok, s).
       Inr (Inr (if ok then 0 else size_minus (unat (hr_length r)) (bs_in_buffer s)), r\<lparr>hr_segment := s\<rparr>))"

definition handshake_read :: "string \<Rightarrow> nat \<Rightarrow> handshake_reader \<Rightarrow> (unit, nat result \<times> handshake_reader) res" where
  "handshake_read buf available r = (if hr_known_length r then read_record buf available r
     else rbind (cs_read_up_to_bytes (map to_byte buf) record_header_length available (hr_segment r)) (\<lambda>(ok, s).
       if \<not> ok then Inr (Inr (size_minus record_header_length (bs_in_buffer s)), r\<lparr>hr_segment := s\<rparr>)
       else let s1 = s\<lparr>bs_complete := False\<rparr>; bytes = sb_data (bs_buffer s1) in
         if \<not> is_tls_record bytes then Inr (err invalid_client_hello, r\<lparr>hr_segment := s1\<rparr>)
         else read_record buf available
           (r\<lparr>hr_segment := s1, hr_length := ucast (concat_bytes [bytes ! 3, bytes ! 4]), hr_known_length := True\<rparr>)))"

end
