(* ===== verification/Client_Hello_Facts.thy ===== *)
theory Client_Hello_Facts
  imports Client_Hello
begin

text \<open>
  Facts about the ClientHello: a well-formed record is read and parsed to the message it was made of, and a length byte from
  128 on leads out of the data.
\<close>

section \<open>Text at a position\<close>

definition text_at :: "string \<Rightarrow> nat \<Rightarrow> string \<Rightarrow> bool" where
  "text_at raw i bs \<longleftrightarrow> i + length bs \<le> length raw \<and> take (length bs) (drop i raw) = bs \<and> length raw < 2 ^ 63"

lemma text_at_append [simp]: "text_at raw i (xs @ ys) \<longleftrightarrow> text_at raw i xs \<and> text_at raw (i + length xs) ys"
  by (auto simp: text_at_def take_add append_eq_append_conv add.commute)

lemma text_at_Cons: "NO_MATCH [] cs \<Longrightarrow> text_at raw i (c # cs) \<longleftrightarrow> text_at raw i [c] \<and> text_at raw (Suc i) cs"
  using text_at_append[of raw i "[c]" cs] by simp

lemma text_at_whole: "length (pre @ bs @ post) < 2 ^ 63 \<Longrightarrow> text_at (pre @ bs @ post) (length pre) bs"
  by (simp add: text_at_def)

lemma copy_at: "text_at raw i bs \<Longrightarrow> n = length bs \<Longrightarrow> copy_bytes raw i n = Inr (bs, i + length bs)"
  by (simp add: copy_bytes_def text_at_def size_plus_small)

lemma raw_at_at: "text_at raw i [c] \<Longrightarrow> raw_at raw i = Inr (c, i + 1)"
  by (auto simp: raw_at_def text_at_def take_Suc_conv_app_nth hd_drop_conv_nth take_Suc)

definition be2 :: "nat \<Rightarrow> string" where
  "be2 n = map of_byte (insert_bytes 2 (of_nat n))"

lemma length_be2 [simp]: "length (be2 n) = 2"
  by (simp add: be2_def)

lemma read_two_at:
  assumes "text_at raw i (be2 n)" "n < 2 ^ 16"
  shows "read_byte_string raw i 2 = Inr (n, i + 2)"
proof -
  have "concat_bytes (map to_byte (be2 n)) = take_bit 16 (of_nat n)"
    using concat_insert_bytes[of 2 "of_nat n"] by (simp add: be2_def del: map_map)
  then have "unat (concat_bytes (map to_byte (be2 n))) = n"
    using assms(2) by (simp add: unsigned_take_bit_eq unsigned_of_nat take_bit_nat_eq_self)
  with copy_at[OF assms(1), of 2] show ?thesis by (simp add: read_byte_string_def)
qed

text \<open>A length of one byte.\<close>

definition len1 :: "nat \<Rightarrow> char" where
  "len1 n = of_byte (of_nat n)"

lemma sint_byte: "n < 256 \<Longrightarrow> sint (of_nat n :: u8) = (if n < 128 then int n else int n - 256)"
proof -
  assume n: "n < 256"
  have "sint (of_nat n :: u8) = (int n + 128) mod 256 - 128"
    by (simp add: signed_of_nat signed_take_bit_eq_take_bit_shift take_bit_eq_mod)
  moreover have "(int n + 128) mod 256 = (if n < 128 then int n + 128 else int n - 128)"
    using n mod_add_self2[of "int n - 128" 256] by (auto simp: mod_pos_pos_trivial algebra_simps)
  ultimately show ?thesis by simp
qed

lemma char_to_size_len1: "n < 256 \<Longrightarrow> char_to_size (len1 n) = (if n < 128 then n else 2 ^ 64 - 256 + n)"
proof -
  assume n: "n < 256"
  have "unat (scast (of_nat n :: u8) :: u64) = nat (take_bit 64 (sint (of_nat n :: u8)))"
    by (simp add: scast_eq unsigned_of_int del: of_int_sint)
  also have "\<dots> = (if n < 128 then n else 2 ^ 64 - 256 + n)"
  proof (cases "n < 128")
    case True
    then show ?thesis using n by (simp add: sint_byte take_bit_int_eq_self)
  next
    case False
    have "(int n - 256) mod 2 ^ 64 = (int n - 256 + 2 ^ 64) mod 2 ^ 64" by (simp only: mod_add_self2)
    also have "\<dots> = int n - 256 + 2 ^ 64" using n False by (intro mod_pos_pos_trivial) simp_all
    finally show ?thesis using n False by (simp add: sint_byte take_bit_eq_mod)
  qed
  finally show ?thesis by (simp add: char_to_size_def len1_def)
qed

section \<open>A message\<close>

definition bytes_text :: "u8 list \<Rightarrow> string" where
  "bytes_text bs = map of_byte bs"

lemma bytes_text_simps [simp]: "length (bytes_text bs) = length bs" "map to_byte (bytes_text bs) = bs"
  by (simp_all add: bytes_text_def del: map_map)

definition suites_text :: "cipher_suite list \<Rightarrow> string" where
  "suites_text cs = concat (map (\<lambda>c. be2 (unat c)) cs)"

definition alpn_text :: "string list \<Rightarrow> string" where
  "alpn_text ps = concat (map (\<lambda>p. len1 (length p) # p) ps)"

text \<open>Extensions as a client sends them; the server name extension names one host.\<close>

datatype hello_extension = Server_name u8 string | Alpn "string list" | Other_extension extension_type "u8 list"

fun extension_text :: "hello_extension \<Rightarrow> string" where
  "extension_text (Server_name type host) = be2 0 @ be2 (length host + 5) @ be2 (length host + 3) @ [of_byte type] @ be2 (length host) @ host"
| "extension_text (Alpn ps) = be2 16 @ be2 (length (alpn_text ps) + 2) @ be2 (length (alpn_text ps)) @ alpn_text ps"
| "extension_text (Other_extension t d) = be2 (unat t) @ be2 (length d) @ bytes_text d"

fun apply_extension :: "hello_extension \<Rightarrow> client_hello \<Rightarrow> client_hello" where
  "apply_extension (Server_name type host) h = h\<lparr>ch_server_names := ch_server_names h @ [\<lparr>sn_type = type, sn_host_name = host\<rparr>]\<rparr>"
| "apply_extension (Alpn ps) h = h\<lparr>ch_alpn := ch_alpn h @ ps\<rparr>"
| "apply_extension (Other_extension t d) h = h\<lparr>ch_extensions := (ch_extensions h)(t \<mapsto> d)\<rparr>"

fun wf_extension :: "hello_extension \<Rightarrow> bool" where
  "wf_extension (Server_name type host) \<longleftrightarrow> length host < 2 ^ 16 - 5"
| "wf_extension (Alpn ps) \<longleftrightarrow> list_all (\<lambda>p. length p < 128) ps \<and> length (alpn_text ps) < 2 ^ 16 - 2"
| "wf_extension (Other_extension t d) \<longleftrightarrow> t \<noteq> ext_server_name \<and> t \<noteq> ext_alpn \<and> length d < 2 ^ 16"

fun other_types :: "hello_extension list \<Rightarrow> extension_type list" where
  "other_types [] = []"
| "other_types (Other_extension t d # es) = t # other_types es"
| "other_types (e # es) = other_types es"

lemma text_at_bounds: "text_at raw i bs \<Longrightarrow> i + length bs \<le> length raw \<and> length raw < 2 ^ 63"
  by (simp add: text_at_def)

lemma sum_at: "text_at raw i bs \<Longrightarrow> n = length bs \<Longrightarrow> size_plus i n = i + length bs"
  by (auto simp: text_at_def intro!: size_plus_small)

lemma read_suites_at:
  "text_at raw i (suites_text cs) \<Longrightarrow> list_all (\<lambda>c. unat c < 2 ^ 16) cs \<Longrightarrow> e = i + length (suites_text cs) \<Longrightarrow>
    read_cipher_suites raw e i = Inr (cs, e)"
proof (induction cs arbitrary: i)
  case (Cons c cs)
  have r: "read_byte_string raw i 2 = Inr (unat c, i + 2)" using Cons.prems by (intro read_two_at) (simp_all add: suites_text_def)
  have "read_cipher_suites raw e (i + 2) = Inr (cs, e)" using Cons.prems by (intro Cons.IH) (simp_all add: suites_text_def)
  moreover have "i < e" using Cons.prems by (simp add: suites_text_def)
  ultimately show ?case by (subst read_cipher_suites.simps) (simp only: r, simp)
qed (simp add: read_cipher_suites.simps suites_text_def)

lemma read_alpn_at:
  "text_at raw i (alpn_text ps) \<Longrightarrow> list_all (\<lambda>p. length p < 128) ps \<Longrightarrow> e = i + length (alpn_text ps) \<Longrightarrow>
    read_alpn raw e i = Inr (ps, e)"
proof (induction ps arbitrary: i)
  case (Cons p ps)
  have t: "text_at raw i [len1 (length p)]" "text_at raw (i + 1) p" "text_at raw (i + 1 + length p) (alpn_text ps)"
    using Cons.prems(1) text_at_append[of raw i "[len1 (length p)]" "p @ alpn_text ps"] by (simp_all add: alpn_text_def)
  have "char_to_size (len1 (length p)) = length p" using Cons.prems(2) by (simp add: char_to_size_len1)
  then have r: "read_alpn_entry raw i = Inr (p, i + 1 + length p)"
    using raw_at_at[OF t(1)] copy_at[OF t(2) refl] by (simp add: read_alpn_entry_def)
  have "read_alpn raw e (i + 1 + length p) = Inr (ps, e)"
    using Cons.prems t(3) by (intro Cons.IH) (simp_all add: alpn_text_def)
  moreover have "i < e" using Cons.prems by (simp add: alpn_text_def)
  ultimately show ?case by (subst read_alpn.simps) (simp only: r, simp)
qed (simp add: read_alpn.simps alpn_text_def)

lemma read_extension_at:
  assumes "text_at raw i (extension_text x)" "wf_extension x"
    "\<And>t d. x = Other_extension t d \<Longrightarrow> ch_extensions h t = None"
  shows "read_extension raw i h = Inr (apply_extension x h, i + length (extension_text x))"
proof (cases x)
  case (Server_name type host)
  have t: "text_at raw i (be2 0)" "text_at raw (i + 2) (be2 (length host + 5))" "text_at raw (i + 4) (be2 (length host + 3))"
    "text_at raw (i + 6) [of_byte type]" "text_at raw (i + 7) (be2 (length host))" "text_at raw (i + 9) host"
    using assms(1) by (simp_all add: Server_name eval_nat_numeral text_at_Cons)
  have l: "length host < 2 ^ 16 - 5" using assms(2) by (simp add: Server_name)
  have e: "size_plus (i + 4) (length host + 5) = i + 9 + length host"
    using text_at_bounds[OF t(6)] by (subst size_plus_small) simp_all
  have "read_server_name raw (i + 4) = Inr (\<lparr>sn_type = type, sn_host_name = host\<rparr>, i + 9 + length host)"
    using read_two_at[OF t(3)] raw_at_at[OF t(4)] read_two_at[OF t(5)] copy_at[OF t(6) refl] l
    by (simp add: read_server_name_def add.commute)
  then have n: "read_server_names raw (i + 9 + length host) (i + 4) = Inr ([\<lparr>sn_type = type, sn_host_name = host\<rparr>], i + 9 + length host)"
    by (subst read_server_names.simps) (simp add: read_server_names.simps[of raw "i + 9 + length host" "i + 9 + length host"])
  show ?thesis
    using read_two_at[OF t(1)] read_two_at[OF t(2)] l n e
    by (simp add: Server_name read_extension_def ext_server_name_def read_names_extension_def add.commute[of 4 i] add.assoc del: add_2_eq_Suc add_2_eq_Suc')
next
  case (Alpn ps)
  have t: "text_at raw i (be2 16)" "text_at raw (i + 2) (be2 (length (alpn_text ps) + 2))"
    "text_at raw (i + 4) (be2 (length (alpn_text ps)))" "text_at raw (i + 6) (alpn_text ps)"
    using assms(1) by (simp_all add: Alpn eval_nat_numeral)
  have l: "length (alpn_text ps) < 2 ^ 16 - 2" "list_all (\<lambda>p. length p < 128) ps" using assms(2) by (simp_all add: Alpn)
  have r: "read_alpn raw (i + 6 + length (alpn_text ps)) (i + 6) = Inr (ps, i + 6 + length (alpn_text ps))"
    using t(4) l(2) by (rule read_alpn_at) simp
  have "read_alpn_extension raw (i + 4) h = Inr (apply_extension x h, i + 6 + length (alpn_text ps))"
    using read_two_at[OF t(3)] l r sum_at[OF t(4) refl] by (simp add: read_alpn_extension_def Alpn add.commute[of 6 i])
  then show ?thesis
    using read_two_at[OF t(1)] read_two_at[OF t(2)] l
    by (simp add: Alpn read_extension_def ext_server_name_def ext_alpn_def add.commute[of 4 i] add.assoc del: add_2_eq_Suc add_2_eq_Suc')
next
  case (Other_extension ty d)
  have t: "text_at raw i (be2 (unat ty))" "text_at raw (i + 2) (be2 (length d))" "text_at raw (i + 4) (bytes_text d)"
    using assms(1) by (simp_all add: Other_extension eval_nat_numeral)
  have l: "length d < 2 ^ 16" "unat ty \<noteq> unat ext_server_name" "unat ty \<noteq> unat ext_alpn" "unat ty < 2 ^ 16"
    using assms(2) unsigned_less[of ty] by (simp_all add: Other_extension word_unat_eq_iff)
  show ?thesis
    using read_two_at[OF t(1) l(4)] read_two_at[OF t(2) l(1)] copy_at[OF t(3), of "length d"] l(2,3) assms(3)[OF Other_extension]
    by (simp add: Other_extension read_extension_def read_other_extension_def add.commute[of 4 i] add.assoc del: add_2_eq_Suc add_2_eq_Suc')
qed

fun fresh_types :: "hello_extension list \<Rightarrow> client_hello \<Rightarrow> bool" where
  "fresh_types [] h \<longleftrightarrow> True"
| "fresh_types (e # es) h \<longleftrightarrow> (case e of Other_extension t d \<Rightarrow> ch_extensions h t = None | _ \<Rightarrow> True) \<and> fresh_types es (apply_extension e h)"

lemma fresh_distinct:
  "distinct (other_types es) \<Longrightarrow> (\<forall>t\<in>set (other_types es). ch_extensions h t = None) \<Longrightarrow> fresh_types es h"
proof (induction es arbitrary: h rule: other_types.induct)
  case (2 t d es)
  have "fresh_types es (h\<lparr>ch_extensions := (ch_extensions h)(t \<mapsto> d)\<rparr>)" using "2.prems" by (intro "2.IH") auto
  with "2.prems" show ?case by simp
qed auto

definition extensions_text :: "hello_extension list \<Rightarrow> string" where
  "extensions_text es = concat (map extension_text es)"

lemma extension_text_pos: "0 < length (extension_text x)"
  by (cases x) simp_all

lemma read_extensions_at:
  "text_at raw i (extensions_text es) \<Longrightarrow> length raw = i + length (extensions_text es) \<Longrightarrow> list_all wf_extension es \<Longrightarrow> fresh_types es h \<Longrightarrow>
    read_extensions raw i h = Inr (fold apply_extension es h, length raw)"
proof (induction es arbitrary: i h)
  case (Cons x es)
  have t: "text_at raw i (extension_text x)" "text_at raw (i + length (extension_text x)) (extensions_text es)"
    using Cons.prems(1) by (simp_all add: extensions_text_def)
  have r: "read_extension raw i h = Inr (apply_extension x h, i + length (extension_text x))"
    using t(1) Cons.prems(3,4) by (intro read_extension_at) auto
  have "read_extensions raw (i + length (extension_text x)) (apply_extension x h) = Inr (fold apply_extension es (apply_extension x h), length raw)"
    using t(2) Cons.prems by (intro Cons.IH) (simp_all add: extensions_text_def)
  moreover have "i < length raw" using Cons.prems(2) extension_text_pos[of x] by (simp add: extensions_text_def)
  ultimately show ?case by (subst read_extensions.simps) (simp only: r, simp)
qed (simp add: read_extensions.simps extensions_text_def)

record hello_parts =
  hp_record :: "u8 list"
  hp_version :: "u8 list"
  hp_random :: "u8 list"
  hp_session_id :: "u8 list"
  hp_suites :: "cipher_suite list"
  hp_compression :: "u8 list"
  hp_extensions :: "hello_extension list"

definition hello_body :: "hello_parts \<Rightarrow> string" where
  "hello_body p = bytes_text (hp_version p) @ bytes_text (hp_random p) @ [len1 (length (hp_session_id p))] @ bytes_text (hp_session_id p)
     @ be2 (length (suites_text (hp_suites p))) @ suites_text (hp_suites p)
     @ [len1 (length (hp_compression p))] @ bytes_text (hp_compression p)
     @ be2 (length (extensions_text (hp_extensions p))) @ extensions_text (hp_extensions p)"

definition handshake_header :: "hello_parts \<Rightarrow> u8 list" where
  "handshake_header p = 1 # insert_bytes 3 (of_nat (length (hello_body p)))"

definition hello_text :: "hello_parts \<Rightarrow> string" where
  "hello_text p = bytes_text (hp_record p) @ bytes_text (handshake_header p) @ hello_body p"

definition wf_hello :: "hello_parts \<Rightarrow> bool" where
  "wf_hello p \<longleftrightarrow> length (hp_record p) = 5 \<and> length (hp_version p) = 2 \<and> length (hp_random p) = 32
     \<and> length (hp_session_id p) < 128 \<and> length (hp_compression p) < 128
     \<and> list_all (\<lambda>c. unat c < 2 ^ 16) (hp_suites p) \<and> length (suites_text (hp_suites p)) < 2 ^ 16
     \<and> list_all wf_extension (hp_extensions p) \<and> distinct (other_types (hp_extensions p))
     \<and> length (extensions_text (hp_extensions p)) < 2 ^ 16 \<and> length (hello_body p) < 2 ^ 24"

definition parsed_hello :: "hello_parts \<Rightarrow> client_hello" where
  "parsed_hello p = fold apply_extension (hp_extensions p) \<lparr>ch_record_header = hp_record p, ch_handshake_header = handshake_header p,
     ch_version = hp_version p, ch_random = hp_random p, ch_session_id = hp_session_id p, ch_cipher_suites = hp_suites p,
     ch_compression_methods = hp_compression p, ch_extensions = Map.empty, ch_server_names = [], ch_alpn = []\<rparr>"

lemma client_hello_parsed:
  assumes "wf_hello p"
  shows "from_raw_data (hello_text p) = Inr (parsed_hello p)"
proof -
  define raw where "raw = hello_text p"
  define ns where "ns = length (hp_session_id p)"
  define nc where "nc = length (suites_text (hp_suites p))"
  define nm where "nm = length (hp_compression p)"
  define ne where "ne = length (extensions_text (hp_extensions p))"
  have wf: "length (hp_record p) = 5" "length (hp_version p) = 2" "length (hp_random p) = 32" "ns < 128" "nm < 128"
    "list_all (\<lambda>c. unat c < 2 ^ 16) (hp_suites p)" "nc < 2 ^ 16" "list_all wf_extension (hp_extensions p)"
    "distinct (other_types (hp_extensions p))" "ne < 2 ^ 16" "length (hello_body p) < 2 ^ 24"
    using assms by (simp_all add: wf_hello_def ns_def nc_def nm_def ne_def)
  have hh: "length (handshake_header p) = 4" by (simp add: handshake_header_def)
  have lb: "length (hello_body p) = 40 + ns + nc + nm + ne"
    using wf(1-3) by (simp add: hello_body_def ns_def nc_def nm_def ne_def)
  have lr: "length raw = 49 + ns + nc + nm + ne" using wf(1) hh lb by (simp add: raw_def hello_text_def)
  have whole: "text_at raw 0 (hello_text p)" using lr lb wf(11) by (simp add: raw_def text_at_def)
  have t: "text_at raw 0 (bytes_text (hp_record p))" "text_at raw 5 (bytes_text (handshake_header p))" "text_at raw 9 (bytes_text (hp_version p))"
    "text_at raw 11 (bytes_text (hp_random p))" "text_at raw 43 [len1 ns]" "text_at raw 44 (bytes_text (hp_session_id p))"
    "text_at raw (44 + ns) (be2 nc)" "text_at raw (46 + ns) (suites_text (hp_suites p))" "text_at raw (46 + ns + nc) [len1 nm]"
    "text_at raw (47 + ns + nc) (bytes_text (hp_compression p))" "text_at raw (47 + ns + nc + nm) (be2 ne)"
    "text_at raw (49 + ns + nc + nm) (extensions_text (hp_extensions p))"
    using whole wf(1-3) hh
    by (simp_all add: hello_text_def hello_body_def text_at_Cons add.assoc flip: ns_def nc_def nm_def ne_def)
  have copies: "copy_bytes raw 0 5 = Inr (bytes_text (hp_record p), 5)" "copy_bytes raw 5 4 = Inr (bytes_text (handshake_header p), 9)"
    "copy_bytes raw 9 2 = Inr (bytes_text (hp_version p), 11)" "copy_bytes raw 11 32 = Inr (bytes_text (hp_random p), 43)"
    "copy_bytes raw 44 ns = Inr (bytes_text (hp_session_id p), 44 + ns)"
    "copy_bytes raw (47 + ns + nc) nm = Inr (bytes_text (hp_compression p), 47 + ns + nc + nm)"
    using copy_at[OF t(1), of 5] copy_at[OF t(2), of 4] copy_at[OF t(3), of 2] copy_at[OF t(4), of 32]
      copy_at[OF t(6), of ns] copy_at[OF t(10), of nm] wf(1-3) hh by (simp_all add: ns_def nm_def)
  have reads: "raw_at raw 43 = Inr (len1 ns, 44)" "raw_at raw (46 + ns + nc) = Inr (len1 nm, 47 + ns + nc)"
    "read_byte_string raw (44 + ns) 2 = Inr (nc, 46 + ns)" "read_byte_string raw (47 + ns + nc + nm) 2 = Inr (ne, 49 + ns + nc + nm)"
    "size_plus (46 + ns) nc = 46 + ns + nc"
    using raw_at_at[OF t(5)] raw_at_at[OF t(9)] read_two_at[OF t(7) wf(7)] read_two_at[OF t(11) wf(10)] sum_at[OF t(8), of nc] by (simp_all add: nc_def)
  have suites: "read_cipher_suites raw (46 + ns + nc) (46 + ns) = Inr (hp_suites p, 46 + ns + nc)"
    using t(8) wf(6) by (rule read_suites_at) (simp add: nc_def)
  have len: "unat (concat_bytes (insert_bytes 3 (of_nat (length (hello_body p)) :: u64))) = length (hello_body p)"
    using wf(11) by (simp add: concat_insert_bytes unsigned_take_bit_eq unsigned_of_nat take_bit_nat_eq_self)
  define h where "h = client_hello_new\<lparr>ch_record_header := hp_record p, ch_handshake_header := handshake_header p, ch_version := hp_version p,
     ch_random := hp_random p, ch_session_id := hp_session_id p, ch_cipher_suites := hp_suites p, ch_compression_methods := hp_compression p\<rparr>"
  have ph: "parsed_hello p = fold apply_extension (hp_extensions p) h" by (simp add: parsed_hello_def h_def client_hello_new_def)
  have exts: "(if ne \<noteq> 0 then read_extensions raw (49 + ns + nc + nm) h else Inr (h, 49 + ns + nc + nm)) = Inr (parsed_hello p, length raw)"
  proof (cases "ne = 0")
    case True
    then have "hp_extensions p = []" using extension_text_pos[of "hd (hp_extensions p)"] by (cases "hp_extensions p") (auto simp: ne_def extensions_text_def)
    with True lr show ?thesis by (simp add: ph)
  next
    case False
    have "fresh_types (hp_extensions p) h" using wf(9) by (intro fresh_distinct) (simp_all add: h_def client_hello_new_def)
    with read_extensions_at[OF t(12) _ wf(8)] lr False show ?thesis by (simp add: ph ne_def)
  qed
  have three: "[xs ! 0, xs ! 1, xs ! 2] = xs" if "length xs = 3" for xs :: "u8 list"
    using that by (auto simp: numeral_3_eq_3 length_Suc_conv)
  have head: "handshake_header p ! 0 = 1" "[handshake_header p ! 1, handshake_header p ! 2, handshake_header p ! 3] = insert_bytes 3 (of_nat (length (hello_body p)))"
    using three[of "insert_bytes 3 (of_nat (length (hello_body p)))"] by (simp_all add: handshake_header_def)
  have lens: "char_to_size (len1 ns) = ns" "char_to_size (len1 nm) = nm" using wf(4,5) by (simp_all add: char_to_size_len1)
  have "from_raw_data_impl raw = Inr (parsed_hello p)"
    using exts len head lr lb
    by (simp add: from_raw_data_impl_def copies reads suites lens flip: h_def del: One_nat_def)
  then show ?thesis by (simp add: from_raw_data_def raw_def)
qed

section \<open>Reading the record\<close>

text \<open>The record header that announces the message.\<close>

definition wf_record :: "hello_parts \<Rightarrow> bool" where
  "wf_record p \<longleftrightarrow> (\<exists>v. v \<le> 3 \<and> hp_record p = [0x16, 0x03, v] @ insert_bytes 2 (of_nat (length (hello_text p) - 5)))
     \<and> length (hello_text p) < 2 ^ 16"

lemma tls_version_byte: "v \<le> 3 \<Longrightarrow> 0 \<le>s v \<and> v \<le>s (3 :: u8)"
proof -
  assume v: "v \<le> 3"
  then have u: "unat v \<le> 3" by (simp add: word_le_nat_alt)
  then have "v = 0 \<or> v = 1 \<or> v = 2 \<or> v = 3" by (cases "unat v" rule: nat.exhaust) (auto simp: word_unat_eq_iff)
  then show ?thesis by (auto simp: word_sle_eq)
qed

lemma record_read_whole:
  assumes "wf_hello p" "wf_record p" "length rest \<le> 2 ^ 30"
  shows "\<exists>r. handshake_read (hello_text p @ rest) (length (hello_text p @ rest)) handshake_reader_new = Inr (Inr 0, r)
    \<and> get_bytes r = hello_text p"
proof -
  define buf where "buf = map to_byte (hello_text p @ rest)"
  define n where "n = length (hello_text p) - 5"
  obtain v where v: "v \<le> 3" "hp_record p = [0x16, 0x03, v] @ insert_bytes 2 (of_nat n)" and l: "length (hello_text p) < 2 ^ 16"
    using assms(2) by (auto simp: wf_record_def n_def)
  have "length (hp_record p) = 5" using v(2) by simp
  then have lb: "length (hello_text p) = n + 5" "0 < n" by (simp_all add: n_def hello_text_def handshake_header_def)
  have small: "length buf \<le> int_max" using l assms(3) by (simp add: buf_def int_max_def)
  have t5: "take 5 buf = hp_record p" using v(2) by (simp add: buf_def hello_text_def)
  have tn: "take n (drop 5 buf) = map to_byte (drop 5 (hello_text p))" using lb(1) by (simp add: buf_def drop_map)
  have new: "bs_ok bs_new" "bs_in_buffer bs_new = 0" "\<not> bs_complete bs_new" "sb_size (bs_buffer bs_new) = 0"
    by (simp_all add: bs_new_ok)
  obtain s1 where s1: "cs_read_up_to_bytes buf 5 (length buf) bs_new = Inr (True, s1)" "bs_ok s1" "bs_in_buffer s1 = 0"
    "sb_data (bs_buffer s1) = hp_record p"
    using cs_read_at_once[OF new(1,2,3), of 5 buf] new(4) small lb(1) t5
    by (auto simp: buf_def sb_data_def)
  let ?s2 = "s1\<lparr>bs_complete := False\<rparr>"
  have s2: "bs_ok ?s2" "bs_in_buffer ?s2 = 0" "\<not> bs_complete ?s2" "sb_size (bs_buffer ?s2) = 5"
    using s1 v(2) by (simp_all add: bs_ok_def flip: length_sb_data)
  obtain s3 where s3: "cs_read_up_to_bytes buf n (length buf) ?s2 = Inr (True, s3)"
    "sb_data (bs_buffer s3) = hp_record p @ take n (drop 5 buf)"
    using cs_read_at_once[OF s2(1,2,3), of n buf] s2(4) small lb s1(4) by (auto simp: buf_def)
  have rec: "is_tls_record (hp_record p)" using v tls_version_byte[of v] by (simp add: is_tls_record_def)
  have bl: "length (hello_text p @ rest) = length buf" by (simp add: buf_def)
  have n: "n < 2 ^ 16" using l lb(1) by simp
  have "[xs ! 0, xs ! 1] = xs" if "length xs = 2" for xs :: "u8 list" using that by (auto simp: numeral_2_eq_2 length_Suc_conv)
  from this[of "insert_bytes 2 (of_nat n)"] have "[hp_record p ! 3, hp_record p ! 4] = insert_bytes 2 (of_nat n)" using v(2) by simp
  then have len: "concat_bytes [hp_record p ! 3, hp_record p ! 4] = take_bit 16 (of_nat n)" by (simp add: concat_insert_bytes)
  have nat: "unat (ucast (take_bit 16 (of_nat n) :: u64) :: u16) = n"
    using n by (simp add: unsigned_ucast_eq unsigned_take_bit_eq unsigned_of_nat take_bit_nat_eq_self)
  have "handshake_read (hello_text p @ rest) (length buf) handshake_reader_new
      = Inr (Inr 0, \<lparr>hr_segment = s3, hr_length = ucast (take_bit 16 (of_nat n) :: u64), hr_known_length = True\<rparr>)"
    using s1(1,4) s3(1) rec len nat
    by (simp add: handshake_read_def handshake_reader_new_def record_header_length_def read_record_def Let_def flip: buf_def del: map_append)
  moreover have "map of_byte (sb_data (bs_buffer s3)) = hello_text p"
  proof -
    have "map of_byte (hp_record p) = take 5 (hello_text p)" using v(2) by (simp add: hello_text_def bytes_text_def)
    moreover have "map of_byte (sb_data (bs_buffer s3)) = map of_byte (hp_record p) @ map of_byte (map to_byte (drop 5 (hello_text p)))"
      by (simp only: s3(2) tn map_append)
    ultimately show ?thesis by (simp only: map_to_of_byte append_take_drop_id)
  qed
  ultimately show ?thesis unfolding bl by (simp add: get_bytes_def)
qed

text \<open>C8: a ClientHello record that has arrived whole, whatever follows it, is read to its end and parsed to the message it was
  printed from: its random, session, cipher suites, the host name of its server name extension, its protocols and the rest
  of its extensions.\<close>

theorem client_hello_round_trip:
  assumes "wf_hello p" "wf_record p" "length rest \<le> 2 ^ 30"
  shows "\<exists>r. handshake_read (hello_text p @ rest) (length (hello_text p @ rest)) handshake_reader_new = Inr (Inr 0, r)
    \<and> from_raw_data (get_bytes r) = Inr (parsed_hello p)"
  using record_read_whole[OF assms] client_hello_parsed[OF assms(1)] by metis

definition example_hello :: hello_parts where
  "example_hello = \<lparr>hp_record = [0x16, 3, 1, 0, 86], hp_version = [3, 3], hp_random = replicate 32 7, hp_session_id = [],
     hp_suites = [0x1301, 0xc02f], hp_compression = [0],
     hp_extensions = [Server_name 0 ''a.b'', Alpn [''h2'', ''http/1.1''], Other_extension 43 [2, 3, 4]]\<rparr>"

lemma example_hello_simps: "length (extensions_text (hp_extensions example_hello)) = 37" "length (suites_text (hp_suites example_hello)) = 4"
  "length (alpn_text [''h2'', ''http/1.1'']) = 12"
  by (simp_all add: example_hello_def extensions_text_def suites_text_def alpn_text_def)

lemma example_hello_length: "length (hello_body example_hello) = 82"
  using example_hello_simps by (simp add: hello_body_def) (simp add: example_hello_def)

lemma example_hello_wf: "wf_hello example_hello" "wf_record example_hello"
  using example_hello_simps example_hello_length
  by (simp_all add: wf_hello_def wf_record_def hello_text_def handshake_header_def)
    (simp_all add: example_hello_def ext_server_name_def ext_alpn_def insert_bytes_2)

theorem client_hello_round_trip_witness:
  "\<exists>r. handshake_read (hello_text example_hello @ ''x'') (length (hello_text example_hello @ ''x'')) handshake_reader_new = Inr (Inr 0, r)
    \<and> from_raw_data (get_bytes r) = Inr (parsed_hello example_hello)"
  by (rule client_hello_round_trip) (simp_all add: example_hello_wf)

section \<open>Lengths of one byte\<close>

text \<open>A session length from 212 on is taken for a negative number: the position in front of the session, the sum with it wraps
  and passes the bounds check, and the data is copied from there to a position before it.\<close>

theorem long_session_id_undefined:
  assumes "44 \<le> length raw" "length raw < 2 ^ 63" "to_byte (raw ! 5) = 1"
    "unat (concat_bytes (map to_byte (take 3 (drop 6 raw)))) = length raw - 9" "raw ! 43 = len1 n" "212 \<le> n" "n < 256"
  shows "from_raw_data raw = Inl Undefined"
proof -
  have c: "copy_bytes raw i k = Inr (take k (drop i raw), i + k)" if "i + k \<le> 44" for i k
    using that assms(1,2) by (simp add: copy_bytes_def size_plus_small)
  have "size_plus 44 (2 ^ 64 - 256 + n) = n - 212"
  proof -
    have "44 + (2 ^ 64 - 256 + n) = (n - 212) + 2 ^ 64" using assms(6) by simp
    then have "(word_of_nat 44 + word_of_nat (2 ^ 64 - 256 + n) :: u64) = word_of_nat (n - 212)"
      unfolding of_nat_add[symmetric] by (simp only: of_nat_add) simp
    then show ?thesis using assms(7) by (simp add: size_plus_def)
  qed
  then have u: "copy_bytes raw 44 (char_to_size (len1 n)) = Inl Undefined"
    using assms(1,6,7) by (simp add: copy_bytes_def char_to_size_len1 Let_def)
  have hh: "take 4 (drop 5 raw) = [raw ! 5, raw ! 6, raw ! 7, raw ! 8]" "take 3 (drop 6 raw) = [raw ! 6, raw ! 7, raw ! 8]"
    using assms(1) by (simp_all add: take_Suc_conv_app_nth numeral_eq_Suc Cons_nth_drop_Suc[symmetric])
  have "raw_at raw 43 = Inr (len1 n, 44)" using assms(1,5) by (simp add: raw_at_def)
  then have "from_raw_data_impl raw = Inl Undefined"
    using assms(1,3,4) c[of 0 5] c[of 5 4] c[of 9 2] c[of 11 32] u by (simp add: from_raw_data_impl_def hh)
  then show ?thesis by (simp add: from_raw_data_def)
qed

theorem long_session_id_undefined_witness:
  "from_raw_data (map of_byte ([0x16, 3, 1, 0, 39, 1, 0, 0, 35, 3, 3] @ replicate 32 0) @ [len1 255]) = Inl Undefined"
  by (rule long_session_id_undefined[where n = 255]) (simp_all add: concat_bytes_def nth_append)

end
