(* ===== verification/Certificates.thy ===== *)
theory Certificates
  imports Ordered_Maps Errors
begin

text \<open>
  tls/x509/certificate.{hpp,cpp}, memory_certificate.hpp and client_store.{hpp,cpp}.

  OpenSSL is library code: a certificate is a value of the type \<open>'x\<close>, and what OpenSSL answers about it are the members of
  \<open>x509_api\<close>.  A setter gives the changed certificate, or \<open>None\<close> when it reports an error.
\<close>

datatype nid = Nid_common_name | Nid_organization | Nid_country | Nid_state | Nid_locality | Nid_organizational_unit | Nid_dn_qualifier

text \<open>The answers about the entry of a name: \<open>Entry_text None\<close> is a null pointer from \<^verbatim>\<open>ASN1_STRING_to_UTF8\<close>.\<close>

datatype name_entry = No_name | No_index | No_entry | No_data | Entry_text "string option"

datatype general_name = Dns_name "string option" | Other_name

record ('x, 'k) x509_api =
  xa_new :: 'x
  xa_name_entry :: "nid \<Rightarrow> 'x \<Rightarrow> name_entry"
  xa_general_names :: "'x \<Rightarrow> general_name list option"
  xa_set_version :: "nat \<Rightarrow> 'x \<Rightarrow> 'x option"
  xa_set_serial :: "u64 \<Rightarrow> 'x \<Rightarrow> 'x option"
  xa_set_not_before :: "int \<Rightarrow> 'x \<Rightarrow> 'x option"
  xa_set_not_after :: "int \<Rightarrow> 'x \<Rightarrow> 'x option"
  xa_add_entry :: "nid \<Rightarrow> string \<Rightarrow> 'x \<Rightarrow> 'x option"
  xa_set_issuer :: "'x \<Rightarrow> 'x \<Rightarrow> 'x option"
  xa_set_pubkey :: "'k \<Rightarrow> 'x \<Rightarrow> 'x option"
  xa_get_pubkey :: "'x \<Rightarrow> 'k option"
  xa_add_extension :: "string \<Rightarrow> string \<Rightarrow> 'x \<Rightarrow> 'x option"
  xa_sign :: "'k \<Rightarrow> 'x \<Rightarrow> 'x option"
  xa_generate_key :: "int \<Rightarrow> 'k option"
  xa_is_address :: "string \<Rightarrow> bool"

definition get_nid_from_name :: "('x, 'k) x509_api \<Rightarrow> nid \<Rightarrow> 'x \<Rightarrow> string option result" where
  "get_nid_from_name api nid x = (case xa_name_entry api nid x of
     No_name \<Rightarrow> err certificate_issuer_not_found
   | No_index \<Rightarrow> Inr None
   | No_entry \<Rightarrow> err certificate_name_entry_error
   | No_data \<Rightarrow> err certificate_name_entry_error
   | Entry_text None \<Rightarrow> err certificate_name_entry_error
   | Entry_text (Some str) \<Rightarrow> if length str = 0 then err certificate_name_entry_error else Inr (Some str))"

definition cert_common_name :: "('x, 'k) x509_api \<Rightarrow> 'x \<Rightarrow> string option result" where
  "cert_common_name api x = get_nid_from_name api Nid_common_name x"

definition cert_organization :: "('x, 'k) x509_api \<Rightarrow> 'x \<Rightarrow> string option result" where
  "cert_organization api x = get_nid_from_name api Nid_organization x"

text \<open>Entries that are no DNS names or empty are left out.\<close>

definition add_sans :: "('x, 'k) x509_api \<Rightarrow> 'x \<Rightarrow> string list \<Rightarrow> string list" where
  "add_sans api x names = (case xa_general_names api x of
     None \<Rightarrow> names
   | Some entries \<Rightarrow> names @ concat (map (\<lambda>e. case e of Dns_name (Some str) \<Rightarrow> if length str \<noteq> 0 then [str] else [] | _ \<Rightarrow> []) entries))"

definition cert_sans :: "('x, 'k) x509_api \<Rightarrow> 'x \<Rightarrow> string list" where
  "cert_sans api x = add_sans api x []"

definition all_server_names :: "('x, 'k) x509_api \<Rightarrow> 'x \<Rightarrow> string list" where
  "all_server_names api x = add_sans api x (case cert_common_name api x of Inr (Some name) \<Rightarrow> [name] | _ \<Rightarrow> [])"

text \<open>A \<^verbatim>\<open>std::set\<close> of strings is the list of its elements in their order.\<close>

fun sset_insert :: "string \<Rightarrow> string list \<Rightarrow> string list" where
  "sset_insert s [] = [s]"
| "sset_insert s (t # ts) = (if string_less s t then s # t # ts else if string_less t s then t # sset_insert s ts else t # ts)"

definition sset_of :: "string list \<Rightarrow> string list" where
  "sset_of ss = fold sset_insert ss []"

record certificate_interface =
  ci_common_name :: "string option"
  ci_sans :: "string list"
  ci_organization :: "string option"

definition certificate_interface_new :: certificate_interface where
  "certificate_interface_new = \<lparr>ci_common_name = None, ci_sans = [], ci_organization = None\<rparr>"

record ('x, 'k) memory_certificate =
  mc_cert :: 'x
  mc_pkey :: 'k
  mc_chain_file :: string
  mc_names :: "string list"

text \<open>The sets are strictly ordered.\<close>

definition sset_ok :: "string list \<Rightarrow> bool" where
  "sset_ok ss \<longleftrightarrow> sorted_wrt string_less ss"

lemma string_less_linear: "string_less a b \<or> a = b \<or> string_less b a"
  using key_equiv_string_less[of a b] by (auto simp: key_equiv_def)

lemma string_less_irrefl [simp]: "\<not> string_less a a"
  using string_order.asym by blast

lemma string_less_trans: "string_less a b \<Longrightarrow> string_less b c \<Longrightarrow> string_less a c"
  using string_order.neg_trans string_order.asym by blast

lemma set_sset_insert [simp]: "set (sset_insert s ts) = insert s (set ts)"
  using string_less_linear by (induction ts) auto

lemma sset_insert_ok: "sset_ok ts \<Longrightarrow> sset_ok (sset_insert s ts)"
  by (induction ts) (auto simp: sset_ok_def intro: string_less_trans)

lemma sset_of_ok: "sset_ok (sset_of ss)"
proof -
  have "sset_ok ts \<Longrightarrow> sset_ok (fold sset_insert ss ts)" for ts by (induction ss arbitrary: ts) (simp_all add: sset_insert_ok)
  then show ?thesis by (simp add: sset_of_def sset_ok_def)
qed

lemma set_sset_of [simp]: "set (sset_of ss) = set ss"
proof -
  have "set (fold sset_insert ss ts) = set ss \<union> set ts" for ts by (induction ss arbitrary: ts) auto
  then show ?thesis by (simp add: sset_of_def)
qed

end
