(* ===== verification/Properties.thy ===== *)
theory Properties
  imports Strings Errors
begin

text \<open>
  program/properties.{hpp,cpp}: a flat file of keys and values.

  The file is its contents, or \<open>None\<close> when it cannot be opened.  An error is the message of a
  \<^verbatim>\<open>util::generic_error\<close>; what was read in front of it stays.
\<close>

type_synonym properties = "string \<rightharpoonup> string"

definition prop_get :: "string \<Rightarrow> properties \<Rightarrow> string option" where
  "prop_get key p = p key"

text \<open>\<^verbatim>\<open>std::getline\<close> until it fails: a line break at the end of the file begins no line.\<close>

fun getlines :: "string \<Rightarrow> string list" where
  "getlines [] = []"
| "getlines (c # cs) = (if c = CHR 0x0A then [] # getlines cs
     else case getlines cs of [] \<Rightarrow> [[c]] | l # ls \<Rightarrow> if cs \<noteq> [] \<and> hd cs = CHR 0x0A then [c] # ls else (c # l) # ls)"

fun parse_properties :: "string list \<Rightarrow> properties \<Rightarrow> (string, unit) res \<times> properties" where
  "parse_properties [] p = (Inr (), p)"
| "parse_properties (line # rest) p = (if line \<noteq> [] \<and> hd line \<noteq> CHR ''#''
     then (case find_index ((=) CHR ''='') line of
         Some 0 \<Rightarrow> (Inl (Error (''Malformed property '' @ [CHR 0x22] @ line @ [CHR 0x22])), p)
       | None \<Rightarrow> (Inl (Error (''Property '' @ [CHR 0x22] @ line @ [CHR 0x22] @ '' does not have a value'')), p)
       | Some split_loc \<Rightarrow> let key = take split_loc line; val = drop (split_loc + 1) line in
           parse_properties rest (if p key = None then p(key \<mapsto> val) else p))
     else parse_properties rest p)"

definition parse_properties_file :: "string \<Rightarrow> string option \<Rightarrow> properties \<Rightarrow> (string, unit) res \<times> properties" where
  "parse_properties_file file_path contents p = (case contents of
     None \<Rightarrow> (Inl (Error (''Could not open properties file '' @ [CHR 0x22] @ file_path @ [CHR 0x22] @ '' for reading'')), p)
   | Some text \<Rightarrow> parse_properties (getlines text) p)"

text \<open>What is written as lines is read back.\<close>

lemma getlines_line: "CHR 0x0A \<notin> set l \<Longrightarrow> getlines (l @ CHR 0x0A # rest) = l # getlines rest"
proof (induction l)
  case (Cons c l)
  then have "getlines (l @ CHR 0x0A # rest) = l # getlines rest" by simp
  with Cons show ?case by (cases l) auto
qed simp

lemma getlines_lines: "\<forall>l\<in>set ls. CHR 0x0A \<notin> set l \<Longrightarrow> getlines (concat (map (\<lambda>l. l @ [CHR 0x0A]) ls)) = ls"
  by (induction ls) (simp_all add: getlines_line)

end
