(* ===== verification/Server_Store.thy ===== *)
theory Server_Store
  imports Certificates Properties Numbers
begin

text \<open>
  tls/x509/server_store.{hpp,cpp}: the certificate authority of the proxy and the certificates it has made.

  \<^item> the file system, the PEM functions of OpenSSL and the random serial numbers are parameters, \<open>store_env\<close>; a file that is
    written keeps the contents it is given as far as the store reads them again, which is the serial number.
  \<^item> creating the directory of the store changes nothing that the model of the file system tells.
  \<^item> \<^verbatim>\<open>insert\<close> returns a copy of the reference into the map that it took before it erased the oldest entry: when that entry is
    the inserted one, the reference dangles (\<open>Undefined\<close>).
\<close>

record ('x, 'k) store_env =
  se_api :: "('x, 'k) x509_api"
  se_integer_reader :: "string \<Rightarrow> int option"
  se_cert_store_dir :: string
  se_cert_store_properties :: string
  se_dhparam_file :: string
  se_default_dhparam_file :: string
  se_strong_serial_numbers :: bool
  se_exists :: "string \<Rightarrow> bool"
  se_properties_text :: "string option"
  se_open :: "string \<Rightarrow> bool"
  se_read_key :: "string \<Rightarrow> string option \<Rightarrow> 'k option"
  se_read_cert :: "string \<Rightarrow> string option \<Rightarrow> 'x option"
  se_write_key :: "string \<Rightarrow> string option \<Rightarrow> 'k \<Rightarrow> bool"
  se_write_cert :: "string \<Rightarrow> 'x \<Rightarrow> bool"
  se_decoder :: "'k option \<Rightarrow> bool"
  se_decode_dh :: "string \<Rightarrow> 'k option"
  se_random_serial :: u64
  se_write_serial :: "u64 \<Rightarrow> bool"

record ('x, 'k) server_store =
  ss_props :: properties
  ss_ca_pkey_file :: string
  ss_ca_cert_file :: string
  ss_pkey :: "'k option"
  ss_default_cert :: 'x
  ss_dhpkey :: "'k option"
  ss_cert_map :: "(string, ('x, 'k) memory_certificate) omap"
  ss_cert_queue :: "string list"
  ss_serial_file :: "u64 option"

definition max_num_certs :: nat where
  "max_num_certs = 500"

definition default_key_size :: int where
  "default_key_size = 2048"

definition default_expiry_time :: int where
  "default_expiry_time = 60 * 60 * 24 * 365 * 3"

definition ca_pkey_file_name :: string where
  "ca_pkey_file_name = ''aether'' @ ''-cakey.pem''"

definition ca_cert_file_name :: string where
  "ca_cert_file_name = ''aether'' @ ''-cacert.pem''"

definition server_store_new :: "('x, 'k) store_env \<Rightarrow> u64 option \<Rightarrow> ('x, 'k) server_store" where
  "server_store_new env serial = \<lparr>ss_props = Map.empty, ss_ca_pkey_file = [], ss_ca_cert_file = [], ss_pkey = None,
     ss_default_cert = xa_new (se_api env), ss_dhpkey = None, ss_cert_map = [], ss_cert_queue = [], ss_serial_file = serial\<rparr>"

definition store_error :: "string \<Rightarrow> 'a result" where
  "store_error msg = err_with ssl_server_store_creation_error msg"

definition checked :: "(string \<Rightarrow> 'x result) \<Rightarrow> string \<Rightarrow> 'x option \<Rightarrow> 'x result" where
  "checked failed msg r = (case r of None \<Rightarrow> failed msg | Some x \<Rightarrow> Inr x)"

section \<open>Serial numbers\<close>

text \<open>The number that is given out and the contents of the state file.\<close>

definition write_last_serial_number :: "('x, 'k) store_env \<Rightarrow> u64 \<Rightarrow> unit result" where
  "write_last_serial_number env serial = (if se_write_serial env serial then Inr ()
     else err_with serial_number_generation_failed ''Failed to write serial number state'')"

definition read_last_serial_number :: "('x, 'k) server_store \<Rightarrow> u64 result" where
  "read_last_serial_number s = (case ss_serial_file s of None \<Rightarrow> err serial_number_generation_failed | Some serial \<Rightarrow> Inr serial)"

definition read_last_serial_number_or_reset_state :: "('x, 'k) server_store \<Rightarrow> u64" where
  "read_last_serial_number_or_reset_state s = (case read_last_serial_number s of Inr serial \<Rightarrow> serial | Inl _ \<Rightarrow> 0)"

definition generate_serial :: "('x, 'k) store_env \<Rightarrow> ('x, 'k) server_store \<Rightarrow> u64 \<times> ('x, 'k) server_store" where
  "generate_serial env s = (if \<not> se_strong_serial_numbers env then (se_random_serial env, s)
     else let serial = 1 + read_last_serial_number_or_reset_state s in
       case write_last_serial_number env serial of
         Inr _ \<Rightarrow> (serial, s\<lparr>ss_serial_file := Some serial\<rparr>)
       | Inl _ \<Rightarrow> (se_random_serial env, s))"

section \<open>The certificate authority\<close>

definition add_entry_from_props :: "('x, 'k) x509_api \<Rightarrow> properties \<Rightarrow> nid \<Rightarrow> string \<Rightarrow> 'x \<Rightarrow> 'x result" where
  "add_entry_from_props api props nid prop_name x = (case prop_get prop_name props of
     None \<Rightarrow> Inr x
   | Some val \<Rightarrow> checked store_error (''Error setting certificate's '' @ prop_name @ '' property'') (xa_add_entry api nid val x))"

definition add_entry_from_props_or :: "('x, 'k) x509_api \<Rightarrow> properties \<Rightarrow> nid \<Rightarrow> string \<Rightarrow> string \<Rightarrow> 'x \<Rightarrow> 'x result" where
  "add_entry_from_props_or api props nid prop_name default_value x =
     checked store_error (''Error setting certificate's '' @ prop_name @ '' property'')
       (xa_add_entry api nid (case prop_get prop_name props of None \<Rightarrow> default_value | Some val \<Rightarrow> val) x)"

definition add_cert_extension :: "('x, 'k) x509_api \<Rightarrow> string \<Rightarrow> string \<Rightarrow> 'x \<Rightarrow> 'x result" where
  "add_cert_extension api ext val x = checked store_error ''Error adding certificate extension'' (xa_add_extension api ext val x)"

definition ca_key_size :: "('x, 'k) store_env \<Rightarrow> properties \<Rightarrow> int" where
  "ca_key_size env props = (case prop_get ''key_size'' props of
     None \<Rightarrow> default_key_size
   | Some text \<Rightarrow> (case se_integer_reader env text of None \<Rightarrow> default_key_size | Some n \<Rightarrow> n))"

definition create_ca :: "('x, 'k) store_env \<Rightarrow> ('x, 'k) server_store \<Rightarrow> ('x, 'k) server_store result" where
  "create_ca env s = (let api = se_api env; props = ss_props s; key = xa_generate_key api (ca_key_size env props);
       (serial, s1) = generate_serial env s in
     rbind (checked store_error ''Error setting certificate version'' (xa_set_version api 2 (ss_default_cert s))) (\<lambda>x.
     rbind (checked store_error ''Error setting certificate serial number'' (xa_set_serial api serial x)) (\<lambda>x.
     rbind (checked store_error ''Error setting certificate's notBefore property'' (xa_set_not_before api 0 x)) (\<lambda>x.
     rbind (checked store_error ''Error setting certificate's notAfter property'' (xa_set_not_after api default_expiry_time x)) (\<lambda>x.
     rbind (add_entry_from_props_or api props Nid_common_name ''name'' ''aether'' x) (\<lambda>x.
     rbind (add_entry_from_props api props Nid_country ''country'' x) (\<lambda>x.
     rbind (add_entry_from_props api props Nid_state ''state'' x) (\<lambda>x.
     rbind (add_entry_from_props api props Nid_locality ''locality'' x) (\<lambda>x.
     rbind (add_entry_from_props api props Nid_organization ''organization'' x) (\<lambda>x.
     rbind (add_entry_from_props api props Nid_organizational_unit ''organizational_unit'' x) (\<lambda>x.
     rbind (add_entry_from_props api props Nid_dn_qualifier ''dn_qualifier'' x) (\<lambda>x.
     rbind (checked store_error ''Error setting certificate's issuer'' (xa_set_issuer api x x)) (\<lambda>x.
     rbind (checked store_error ''Error setting certificate public key'' (Option.bind key (\<lambda>pkey. xa_set_pubkey api pkey x))) (\<lambda>x.
     rbind (add_cert_extension api ''basic_constraints'' ''critical,CA:TRUE'' x) (\<lambda>x.
     rbind (add_cert_extension api ''netscape_cert_type'' ''sslCA'' x) (\<lambda>x.
     rbind (add_cert_extension api ''ext_key_usage''
       ''serverAuth,clientAuth,emailProtection,timeStamping,msCodeInd,msCodeCom,msCTLSign,msSGC,msEFS,nsSGC'' x) (\<lambda>x.
     rbind (add_cert_extension api ''key_usage'' ''critical,keyCertSign,cRLSign'' x) (\<lambda>x.
     rbind (add_cert_extension api ''subject_key_identifier'' ''hash'' x) (\<lambda>x.
     rbind (checked store_error ''Error signing certificate'' (Option.bind key (\<lambda>pkey. xa_sign api pkey x))) (\<lambda>x.
       Inr (s1\<lparr>ss_pkey := key, ss_default_cert := x\<rparr>)))))))))))))))))))))"

definition read_store :: "('x, 'k) store_env \<Rightarrow> string \<Rightarrow> string \<Rightarrow> ('x, 'k) server_store \<Rightarrow> ('x, 'k) server_store result" where
  "read_store env pkey_path cert_path s = (let password = prop_get ''password'' (ss_props s) in
     if \<not> se_open env pkey_path then store_error (''Could not open '' @ pkey_path @ '' for reading.'')
     else case se_read_key env pkey_path password of
       None \<Rightarrow> store_error ''Failed to read existing private key''
     | Some pkey \<Rightarrow>
         if \<not> se_open env cert_path then store_error (''Could not open '' @ cert_path @ '' for reading.'')
         else case se_read_cert env cert_path password of
           None \<Rightarrow> store_error ''Failed to read existing certificate file''
         | Some cert \<Rightarrow> Inr (s\<lparr>ss_pkey := Some pkey, ss_default_cert := cert\<rparr>))"

definition create_store :: "('x, 'k) store_env \<Rightarrow> ('x, 'k) server_store \<Rightarrow> ('x, 'k) server_store result" where
  "create_store env s = rbind (create_ca env s) (\<lambda>s1. let password = prop_get ''password'' (ss_props s1) in
     if \<not> se_open env (ss_ca_pkey_file s1) then store_error (''Could not open '' @ ss_ca_pkey_file s1 @ '' for writing'')
     else if \<not> (case ss_pkey s1 of None \<Rightarrow> False | Some pkey \<Rightarrow> se_write_key env (ss_ca_pkey_file s1) password pkey)
       then store_error ''Failed to write private key to disk''
     else if \<not> se_open env (ss_ca_cert_file s1) then store_error (''Could not open '' @ ss_ca_cert_file s1 @ '' for writing.'')
     else if \<not> se_write_cert env (ss_ca_cert_file s1) (ss_default_cert s1) then store_error ''Failed to write certificate to disk''
     else Inr s1)"

definition load_dhpkey :: "('x, 'k) store_env \<Rightarrow> ('x, 'k) server_store \<Rightarrow> ('x, 'k) server_store result" where
  "load_dhpkey env s = (let name = se_dhparam_file env in
     if \<not> se_exists env name then
       (if name = se_default_dhparam_file env
        then store_error (''The server's Diffie-Hellman parameters file was not found. This is a fatal error, and it is likely a result ''
          @ ''of the program not being set up correctly'')
        else store_error (''Could not find Diffie-Hellman parameters file at '' @ name))
     else if \<not> se_open env name then store_error (''Failed to open '' @ name @ '' for reading'')
     else if \<not> se_decoder env None then store_error ''Failed to create Diffie-Hellman private key decoder''
     else case se_decode_dh env name of
       None \<Rightarrow> store_error ''Failed to read and decode Diffie-Hellman parameters from disk''
     | Some key \<Rightarrow> Inr (s\<lparr>ss_dhpkey := Some key\<rparr>))"

text \<open>\<^verbatim>\<open>operator/\<close> of a path and a relative file name.\<close>

definition path_join :: "string \<Rightarrow> string \<Rightarrow> string" where
  "path_join dir file = (if dir = [] \<or> last dir = CHR ''/'' then dir @ file else dir @ ''/'' @ file)"

definition generic_error_state :: "string \<Rightarrow> error_state" where
  "generic_error_state msg = \<lparr>es_message = msg, es_boost = Boost_success, es_proxy = success\<rparr>"

definition store_create :: "('x, 'k) store_env \<Rightarrow> u64 option \<Rightarrow> ('x, 'k) server_store result" where
  "store_create env serial =
     (case parse_properties_file (se_cert_store_properties env) (se_properties_text env) Map.empty of
        (Inl (Error msg), p) \<Rightarrow> Inl (Error (generic_error_state msg))
      | (Inl (Exception x), p) \<Rightarrow> Inl (Exception x)
      | (Inl Undefined, p) \<Rightarrow> Inl Undefined
      | (Inl Diverges, p) \<Rightarrow> Inl Diverges
      | (Inr _, p) \<Rightarrow> let pkey_path = path_join (se_cert_store_dir env) ca_pkey_file_name;
            cert_path = path_join (se_cert_store_dir env) ca_cert_file_name;
            s = (server_store_new env serial)\<lparr>ss_props := p, ss_ca_pkey_file := pkey_path, ss_ca_cert_file := cert_path\<rparr>
          in rbind (if se_exists env pkey_path \<and> se_exists env cert_path then read_store env pkey_path cert_path s
               else create_store env s) (load_dhpkey env))"

section \<open>Certificates for hosts\<close>

definition cert_error :: "string \<Rightarrow> 'a result" where
  "cert_error msg = err_with certificate_creation_error msg"

fun san_texts :: "('x, 'k) x509_api \<Rightarrow> bool \<Rightarrow> string list \<Rightarrow> string" where
  "san_texts api first [] = []"
| "san_texts api first (san # sans) = (if first then [] else '','') @ (if xa_is_address api san then ''IP:'' else ''DNS:'') @ san
     @ san_texts api False sans"

definition subject_alt_name :: "('x, 'k) x509_api \<Rightarrow> bool \<Rightarrow> string list \<Rightarrow> string" where
  "subject_alt_name api has_valid_cn sans = (if has_valid_cn then [] else ''critical,'') @ san_texts api True sans"

definition valid_cn :: "certificate_interface \<Rightarrow> bool" where
  "valid_cn ci = (case ci_common_name ci of None \<Rightarrow> False | Some cn \<Rightarrow> length cn < 64)"

definition generate_certificate :: "('x, 'k) store_env \<Rightarrow> certificate_interface \<Rightarrow> ('x, 'k) server_store \<Rightarrow>
    'x result \<times> ('x, 'k) server_store" where
  "generate_certificate env ci s = (let api = se_api env; (serial, s1) = generate_serial env s in
     (rbind (checked cert_error ''Error setting certificate serial number'' (xa_set_serial api serial (xa_new api))) (\<lambda>x.
     rbind (checked cert_error ''Error setting certificate's notBefore property'' (xa_set_not_before api 0 x)) (\<lambda>x.
     rbind (checked cert_error ''Error setting certificate's notAfter property'' (xa_set_not_after api default_expiry_time x)) (\<lambda>x.
     rbind (checked cert_error ''Error setting certificate's issuer'' (xa_set_issuer api (ss_default_cert s1) x)) (\<lambda>x.
     rbind (case ci_common_name ci of None \<Rightarrow> Inr x | Some cn \<Rightarrow> if length cn < 64
       then checked cert_error ''Error setting certificate's common name property'' (xa_add_entry api Nid_common_name cn x)
       else Inr x) (\<lambda>x.
     rbind (case ci_organization ci of None \<Rightarrow> Inr x | Some org \<Rightarrow>
       checked cert_error ''Error setting certificate's organization property'' (xa_add_entry api Nid_organization org x)) (\<lambda>x.
     rbind (if ci_sans ci = [] then Inr x
       else rbind (checked cert_error ''Error setting certificate version'' (xa_set_version api 2 x)) (\<lambda>x.
         add_cert_extension api ''subject_alt_name'' (subject_alt_name api (valid_cn ci) (ci_sans ci)) x)) (\<lambda>x.
     rbind (add_cert_extension api ''ext_key_usage'' ''serverAuth,clientAuth'' x) (\<lambda>x.
     rbind (checked cert_error ''Error retrieving server certificate's public key.'' (xa_get_pubkey api (ss_default_cert s1))) (\<lambda>pub_key.
     rbind (checked cert_error ''Error setting certificate's public key.'' (xa_set_pubkey api pub_key x)) (\<lambda>x.
       case ss_pkey s1 of None \<Rightarrow> Inl Undefined
       | Some pkey \<Rightarrow> checked cert_error ''Error signing certificate.'' (xa_sign api pkey x))))))))))), s1))"

section \<open>The certificates in memory\<close>

definition cert_insert :: "string \<Rightarrow> ('x, 'k) memory_certificate \<Rightarrow> ('x, 'k) server_store \<Rightarrow>
    ((error_state, ('x, 'k) memory_certificate) res) \<times> ('x, 'k) server_store" where
  "cert_insert key cert s = (let m = map_emplace string_less key cert (ss_cert_map s); q = ss_cert_queue s @ [key];
       found = (case omap_find string_less key m of None \<Rightarrow> Inl Undefined | Some (_, c) \<Rightarrow> Inr c) in
     if length m > max_num_certs
     then (if hd q = key then Inl Undefined else found,
       s\<lparr>ss_cert_map := omap_erase_found string_less (hd q) m, ss_cert_queue := tl q\<rparr>)
     else (found, s\<lparr>ss_cert_map := m, ss_cert_queue := q\<rparr>))"

text \<open>The rest of the domain behind every dot.\<close>

fun asterisk_rest :: "string \<Rightarrow> string list" where
  "asterisk_rest [] = []"
| "asterisk_rest (c # cs) = (if c = CHR ''.'' then (''*.'' @ cs) # asterisk_rest cs else asterisk_rest cs)"

definition get_asterisk_forms :: "string \<Rightarrow> string list" where
  "get_asterisk_forms domain = domain # asterisk_rest domain"

fun disjoint_loop :: "string list \<Rightarrow> string list \<Rightarrow> bool" where
  "disjoint_loop [] ys = True"
| "disjoint_loop xs [] = True"
| "disjoint_loop (x # xs) (y # ys) = (if x = y then False
     else if string_less x y then disjoint_loop xs (y # ys) else disjoint_loop (x # xs) ys)"

definition is_disjoint :: "string list \<Rightarrow> string list \<Rightarrow> bool" where
  "is_disjoint set1 set2 = (if set1 = [] \<or> set2 = [] then True
     else if string_less (last set2) (hd set1) \<or> string_less (last set1) (hd set2) then True
     else disjoint_loop set1 set2)"

text \<open>The first certificate in the order of the keys one of whose names is the host or stands for it.\<close>

definition get_certificate :: "certificate_interface \<Rightarrow> ('x, 'k) server_store \<Rightarrow> ('x, 'k) memory_certificate option" where
  "get_certificate ci s = (let common_names = (case ci_common_name ci of None \<Rightarrow> [] | Some cn \<Rightarrow> sset_of (get_asterisk_forms cn)) in
     map_option snd (find (\<lambda>(key, c). \<not> is_disjoint common_names (mc_names c)) (ss_cert_map s)))"

definition create_certificate :: "('x, 'k) store_env \<Rightarrow> certificate_interface \<Rightarrow> ('x, 'k) server_store \<Rightarrow>
    ((error_state, ('x, 'k) memory_certificate) res) \<times> ('x, 'k) server_store" where
  "create_certificate env ci s = (case generate_certificate env ci s of
     (Inl f, s1) \<Rightarrow> (Inl f, s1)
   | (Inr cert, s1) \<Rightarrow> (case ss_pkey s1 of
       None \<Rightarrow> (Inl Undefined, s1)
     | Some pkey \<Rightarrow> cert_insert (case ci_common_name ci of None \<Rightarrow> [] | Some cn \<Rightarrow> cn)
         \<lparr>mc_cert = cert, mc_pkey = pkey, mc_chain_file = ss_ca_cert_file s1, mc_names = all_server_names (se_api env) cert\<rparr> s1))"

definition num_certificates :: "('x, 'k) server_store \<Rightarrow> nat" where
  "num_certificates s = length (ss_cert_map s)"

section \<open>The cache\<close>

definition cache_ok :: "('x, 'k) server_store \<Rightarrow> bool" where
  "cache_ok s \<longleftrightarrow> distinct (map fst (ss_cert_map s)) \<and> fst ` set (ss_cert_map s) \<subseteq> set (ss_cert_queue s)"

lemma find_map_of: "omap_find string_less k m = map_option (Pair k) (map_of m k)"
  by (induction m) (auto simp: omap_find_def key_equiv_string_less)

lemma find_key: "omap_find string_less k m = None \<longleftrightarrow> k \<notin> fst ` set m"
  by (simp add: find_map_of map_of_eq_None_iff)

lemma emplace_keys: "distinct (map fst m) \<Longrightarrow> k \<notin> fst ` set m \<Longrightarrow> distinct (map fst (multimap_emplace string_less k v m))
    \<and> length (multimap_emplace string_less k v m) = Suc (length m)"
  by (induction m) force+

lemma erase_string: "distinct (map fst m) \<Longrightarrow> omap_erase_found string_less k m = filter (\<lambda>p. fst p \<noteq> k) m"
proof (induction m)
  case (Cons p m)
  have "fst x \<noteq> fst p" if "x \<in> set m" for x using Cons.prems that by (metis distinct.simps(2) image_eqI list.set_map list.simps(9))
  then have "k = fst p \<Longrightarrow> filter (\<lambda>p. fst p \<noteq> k) m = m" by (intro filter_True) blast
  with Cons show ?case by (cases p) (auto simp: key_equiv_string_less)
qed simp

lemma key_count: "distinct (map fst m) \<Longrightarrow> length m = card (fst ` set m)"
  using distinct_card[of "map fst m"] by simp

lemma erase_keys: "distinct (map fst m) \<Longrightarrow> distinct (map fst (omap_erase_found string_less k m))
    \<and> fst ` set (omap_erase_found string_less k m) = fst ` set m - {k}"
  by (auto simp: erase_string distinct_map_filter intro: rev_image_eqI)

lemma erase_length: "distinct (map fst m) \<Longrightarrow> k \<in> fst ` set m \<Longrightarrow> length (omap_erase_found string_less k m) < length m"
  by (auto simp: erase_string intro: length_filter_less)

text \<open>An insertion of a new key into a cache that has room.\<close>

definition inserted :: "string \<Rightarrow> ('x, 'k) memory_certificate \<Rightarrow> ('x, 'k) server_store \<Rightarrow> ('x, 'k) server_store" where
  "inserted key cert s = s\<lparr>ss_cert_map := multimap_emplace string_less key cert (ss_cert_map s), ss_cert_queue := ss_cert_queue s @ [key]\<rparr>"

lemma emplaced_found:
  assumes "distinct (map fst m)" "key \<notin> fst ` set m"
  shows "omap_find string_less key (multimap_emplace string_less key cert m) = Some (key, cert)"
  using emplace_keys[OF assms] map_of_is_SomeI[of "multimap_emplace string_less key cert m" key cert] by (simp add: find_map_of)

lemma insert_new:
  assumes "cache_ok s" "key \<notin> fst ` set (ss_cert_map s)" "length (ss_cert_map s) < max_num_certs"
  shows "cert_insert key cert s = (Inr cert, inserted key cert s)"
    and "cache_ok (inserted key cert s)" "fst ` set (ss_cert_map (inserted key cert s)) = insert key (fst ` set (ss_cert_map s))"
      "length (ss_cert_map (inserted key cert s)) = Suc (length (ss_cert_map s))"
proof -
  let ?m = "multimap_emplace string_less key cert (ss_cert_map s)"
  have d: "distinct (map fst (ss_cert_map s))" using assms(1) by (simp add: cache_ok_def)
  note d2 = emplace_keys[OF d assms(2)] emplaced_found[OF d assms(2)]
  show "cert_insert key cert s = (Inr cert, inserted key cert s)"
    using d2 assms(2,3) by (simp add: cert_insert_def map_emplace_def find_key Let_def inserted_def)
  show "cache_ok (inserted key cert s)" "fst ` set (ss_cert_map (inserted key cert s)) = insert key (fst ` set (ss_cert_map s))"
      "length (ss_cert_map (inserted key cert s)) = Suc (length (ss_cert_map s))"
    using d2 assms by (auto simp: cache_ok_def inserted_def)
qed

lemma insert_known:
  assumes "key \<in> fst ` set (ss_cert_map s)" "length (ss_cert_map s) \<le> max_num_certs"
  shows "\<exists>old. cert_insert key cert s = (Inr old, s\<lparr>ss_cert_queue := ss_cert_queue s @ [key]\<rparr>)"
  using assms find_key[of key "ss_cert_map s"] by (auto simp: cert_insert_def map_emplace_def Let_def cache_ok_def split: option.splits)

lemma insert_full:
  assumes "cache_ok s" "key \<notin> fst ` set (ss_cert_map s)" "length (ss_cert_map s) = max_num_certs" "ss_cert_queue s = old # q" "old \<noteq> key"
  shows "cert_insert key cert s = (Inr cert, s\<lparr>ss_cert_map := omap_erase_found string_less old (multimap_emplace string_less key cert (ss_cert_map s)),
    ss_cert_queue := q @ [key]\<rparr>)"
proof -
  have d: "distinct (map fst (ss_cert_map s))" using assms(1) by (simp add: cache_ok_def)
  note d2 = emplace_keys[OF d assms(2)] emplaced_found[OF d assms(2)]
  then show ?thesis using assms(2-5) by (simp add: cert_insert_def map_emplace_def find_key Let_def)
qed

definition insert_all :: "(string \<times> ('x, 'k) memory_certificate) list \<Rightarrow> ('x, 'k) server_store \<Rightarrow> ('x, 'k) server_store" where
  "insert_all kcs s = fold (\<lambda>(k, c) s. snd (cert_insert k c s)) kcs s"

lemma insert_all_new:
  assumes "cache_ok s" "distinct (map fst kcs)" "fst ` set kcs \<inter> fst ` set (ss_cert_map s) = {}"
    "length (ss_cert_map s) + length kcs \<le> max_num_certs"
  shows "cache_ok (insert_all kcs s) \<and> fst ` set (ss_cert_map (insert_all kcs s)) = fst ` set kcs \<union> fst ` set (ss_cert_map s)
    \<and> length (ss_cert_map (insert_all kcs s)) = length (ss_cert_map s) + length kcs \<and> ss_cert_queue (insert_all kcs s) = ss_cert_queue s @ map fst kcs"
  using assms
proof (induction kcs arbitrary: s)
  case (Cons kc kcs)
  obtain k c where kc: "kc = (k, c)" by fastforce
  have n: "k \<notin> fst ` set (ss_cert_map s)" "length (ss_cert_map s) < max_num_certs" using Cons.prems kc by auto
  note i = insert_new[OF Cons.prems(1) n, of c]
  have "insert_all (kc # kcs) s = insert_all kcs (inserted k c s)" by (simp add: insert_all_def kc i(1))
  moreover have "fst ` set kcs \<inter> fst ` set (ss_cert_map (inserted k c s)) = {}" using Cons.prems(2,3) kc i(3) by auto
  ultimately show ?case using Cons.IH[OF i(2)] Cons.prems(2,4) kc i(3,4) by (auto simp: inserted_def)
qed (simp add: insert_all_def)

text \<open>The key of every host whose server could not be reached is the empty name, under which no certificate is ever found again.\<close>

lemma unnamed_not_found: "ci_common_name ci = None \<Longrightarrow> get_certificate ci s = None"
  by (auto simp: get_certificate_def is_disjoint_def Let_def find_None_iff)

text \<open>A key that has been inserted twice is in the queue twice: behind its eviction, the insertion that makes it new again
  evicts it itself and returns a reference to the certificate that is gone.\<close>

theorem repeated_key_dangles:
  assumes "distinct (map fst kcs)" "length kcs = max_num_certs" "key \<notin> fst ` set kcs" "ss_cert_map s = []" "ss_cert_queue s = []"
  shows "fst (cert_insert key c3 (insert_all ([(key, c1), (key, c2)] @ kcs) s)) = Inl Undefined"
proof -
  have ok: "cache_ok s" using assms(4,5) by (simp add: cache_ok_def)
  have n1: "key \<notin> fst ` set (ss_cert_map s)" "length (ss_cert_map s) < max_num_certs" using assms(4) by (simp_all add: max_num_certs_def)
  define s1 where "s1 = inserted key c1 s"
  note i1 = insert_new[OF ok n1, of c1, folded s1_def]
  have q1: "ss_cert_queue s1 = [key]" "length (ss_cert_map s1) = 1" using assms(5) i1(4) assms(4) by (simp_all add: s1_def inserted_def)
  define s2 where "s2 = s1\<lparr>ss_cert_queue := [key, key]\<rparr>"
  have i2: "snd (cert_insert key c2 s1) = s2"
    using insert_known[of key s1 c2] i1(3) q1 by (auto simp: s2_def max_num_certs_def)
  obtain ks k c where kcs: "kcs = ks @ [(k, c)]" using assms(2) by (cases kcs rule: rev_cases) (auto simp: max_num_certs_def)
  have s2: "cache_ok s2" "fst ` set (ss_cert_map s2) = {key}" "length (ss_cert_map s2) = 1" "ss_cert_queue s2 = [key, key]"
    using i1(2,3) q1 assms(4) by (auto simp: s2_def cache_ok_def)
  define s3 where "s3 = insert_all ks s2"
  have s3: "cache_ok s3" "fst ` set (ss_cert_map s3) = insert key (fst ` set ks)" "length (ss_cert_map s3) = max_num_certs"
      "ss_cert_queue s3 = key # (key # map fst ks)"
    using insert_all_new[OF s2(1), of ks] s2 assms(1-3) kcs by (auto simp: s3_def)
  have k: "k \<notin> fst ` set (ss_cert_map s3)" "key \<noteq> k" using s3(2) assms(1,3) kcs by auto
  define s4 where "s4 = snd (cert_insert k c s3)"
  have d: "distinct (map fst (multimap_emplace string_less k c (ss_cert_map s3)))" "length (multimap_emplace string_less k c (ss_cert_map s3)) = Suc max_num_certs"
    using emplace_keys[OF _ k(1), of c] s3(1,3) by (simp_all add: cache_ok_def)
  have e: "snd (cert_insert k c s3) = s3\<lparr>ss_cert_map := omap_erase_found string_less key (multimap_emplace string_less k c (ss_cert_map s3)),
      ss_cert_queue := (key # map fst ks) @ [k]\<rparr>"
    using insert_full[OF s3(1) k(1) s3(3,4) k(2)] by simp
  have m4: "ss_cert_map s4 = omap_erase_found string_less key (multimap_emplace string_less k c (ss_cert_map s3))"
    "ss_cert_queue s4 = key # map fst ks @ [k]"
    using e by (simp_all add: s4_def)
  have "key \<notin> fst ` set (ss_cert_map s4)" using erase_keys[OF d(1), of key] by (simp add: m4)
  moreover have "length (ss_cert_map s4) = max_num_certs"
  proof -
    have "fst ` set (ss_cert_map s4) = fst ` set kcs"
      using erase_keys[OF d(1), of key] s3(2) assms(3) kcs by (auto simp: m4)
    then show ?thesis using key_count[of "ss_cert_map s4"] key_count[OF assms(1)] erase_keys[OF d(1), of key] assms(2) by (simp add: m4)
  qed
  moreover have "insert_all ([(key, c1), (key, c2)] @ kcs) s = s4" by (simp add: insert_all_def kcs i1(1) i2 s3_def s4_def)
  ultimately show ?thesis using emplace_keys[of "ss_cert_map s4" key c3] erase_keys[OF d(1), of key] m4
    by (simp add: cert_insert_def Let_def map_emplace_def find_key)
qed

definition example_certificate :: "string \<Rightarrow> (string, unit) memory_certificate" where
  "example_certificate name = \<lparr>mc_cert = name, mc_pkey = (), mc_chain_file = [], mc_names = [name]\<rparr>"

definition example_store :: "(string, unit) server_store" where
  "example_store = \<lparr>ss_props = Map.empty, ss_ca_pkey_file = [], ss_ca_cert_file = [], ss_pkey = Some (), ss_default_cert = [],
     ss_dhpkey = None, ss_cert_map = [], ss_cert_queue = [], ss_serial_file = None\<rparr>"

definition example_hosts :: "(string \<times> (string, unit) memory_certificate) list" where
  "example_hosts = map (\<lambda>i. (replicate i CHR ''x'', example_certificate (replicate i CHR ''x''))) [1..<501]"

lemma example_hosts_distinct: "distinct (map fst example_hosts)" "length example_hosts = max_num_certs" "[] \<notin> fst ` set example_hosts"
proof -
  have "inj (\<lambda>i. replicate i CHR ''x'')" by (rule injI) (metis length_replicate)
  then have "distinct (map (\<lambda>i. replicate i CHR ''x'') [1..<501])" by (simp add: distinct_map inj_on_def)
  moreover have "map fst example_hosts = map (\<lambda>i. replicate i CHR ''x'') [1..<501]" by (simp add: example_hosts_def comp_def del: upt_rec_numeral)
  ultimately show "distinct (map fst example_hosts)" by simp
qed (auto simp: example_hosts_def max_num_certs_def)

theorem repeated_key_dangles_witness:
  "fst (cert_insert [] (example_certificate ''c'') (insert_all ([([], example_certificate ''a''), ([], example_certificate ''b'')] @ example_hosts) example_store))
    = Inl Undefined"
  by (rule repeated_key_dangles) (use example_hosts_distinct in \<open>simp_all add: example_store_def\<close>)

text \<open>When the server has not been reached, there is no common name: the certificate that is made for the client's host names is
  stored under the empty key, and if there is one under it already, the client is given that one, which was made for the host
  names of another connection.\<close>

theorem unnamed_certificate_reused:
  assumes "ci_common_name ci = None" "generate_certificate env ci s = (Inr cert, s1)" "ss_pkey s1 \<noteq> None"
    "map_of (ss_cert_map s1) [] = Some old" "length (ss_cert_map s1) \<le> max_num_certs"
  shows "get_certificate ci s = None \<and> fst (create_certificate env ci s) = Inr old"
  using assms unnamed_not_found[OF assms(1)]
  by (auto simp: create_certificate_def cert_insert_def map_emplace_def find_map_of Let_def)

text \<open>An OpenSSL whose certificates are the texts of their alternative names.\<close>

definition text_api :: "(string, unit) x509_api" where
  "text_api = \<lparr>xa_new = [], xa_name_entry = \<lambda>_ _. No_index, xa_general_names = \<lambda>x. Some [Dns_name (Some x)], xa_set_version = \<lambda>_. Some,
     xa_set_serial = \<lambda>_. Some, xa_set_not_before = \<lambda>_. Some, xa_set_not_after = \<lambda>_. Some, xa_add_entry = \<lambda>_ _. Some,
     xa_set_issuer = \<lambda>_. Some, xa_set_pubkey = \<lambda>_. Some, xa_get_pubkey = \<lambda>_. Some (),
     xa_add_extension = \<lambda>ext val x. Some (if ext = ''subject_alt_name'' then val else x), xa_sign = \<lambda>_. Some,
     xa_generate_key = \<lambda>_. Some (), xa_is_address = \<lambda>_. False\<rparr>"

definition text_env :: "(string, unit) store_env" where
  "text_env = \<lparr>se_api = text_api, se_integer_reader = \<lambda>_. None, se_cert_store_dir = [], se_cert_store_properties = [], se_dhparam_file = [],
     se_default_dhparam_file = [], se_strong_serial_numbers = False, se_exists = \<lambda>_. True, se_properties_text = Some [], se_open = \<lambda>_. True,
     se_read_key = \<lambda>_ _. Some (), se_read_cert = \<lambda>_ _. Some [], se_write_key = \<lambda>_ _ _. True, se_write_cert = \<lambda>_ _. True,
     se_decoder = \<lambda>_. True, se_decode_dh = \<lambda>_. Some (), se_random_serial = 1, se_write_serial = \<lambda>_. True\<rparr>"

lemma text_certificate: "generate_certificate text_env \<lparr>ci_common_name = None, ci_sans = [san], ci_organization = None\<rparr> s =
    (case ss_pkey s of None \<Rightarrow> Inl Undefined | Some _ \<Rightarrow> Inr (''critical,DNS:'' @ san), s)"
  by (cases "ss_pkey s") (simp_all add: generate_certificate_def text_env_def text_api_def generate_serial_def checked_def add_cert_extension_def
    subject_alt_name_def valid_cn_def)

theorem unnamed_certificate_reused_witness:
  "fst (create_certificate text_env \<lparr>ci_common_name = None, ci_sans = [''bank.com''], ci_organization = None\<rparr>
      (example_store\<lparr>ss_cert_map := [([], example_certificate ''evil.com'')], ss_cert_queue := [[]]\<rparr>)) = Inr (example_certificate ''evil.com'')"
proof -
  let ?ci = "\<lparr>ci_common_name = None, ci_sans = [''bank.com''], ci_organization = None\<rparr>"
  let ?s = "example_store\<lparr>ss_cert_map := [([], example_certificate ''evil.com'')], ss_cert_queue := [[]]\<rparr>"
  have "generate_certificate text_env ?ci ?s = (Inr (''critical,DNS:'' @ ''bank.com''), ?s)"
    by (subst text_certificate) (simp add: example_store_def)
  from unnamed_certificate_reused[OF _ this, of "example_certificate ''evil.com''"]
  show ?thesis by (simp add: example_store_def max_num_certs_def)
qed

section \<open>The overlap of names\<close>

lemma below_not_in: "string_less x y \<Longrightarrow> \<forall>z\<in>set ys. string_less y z \<Longrightarrow> x \<notin> set (y # ys)"
  by (auto dest: string_order.asym)

lemma disjoint_loop_sorted: "sset_ok xs \<Longrightarrow> sset_ok ys \<Longrightarrow> disjoint_loop xs ys \<longleftrightarrow> set xs \<inter> set ys = {}"
proof (induction xs ys rule: disjoint_loop.induct)
  case (3 x xs y ys)
  have s: "\<forall>z\<in>set xs. string_less x z" "\<forall>z\<in>set ys. string_less y z" "sset_ok xs" "sset_ok ys"
    using 3(3,4) by (simp_all add: sset_ok_def)
  consider "x = y" | "string_less x y" "x \<noteq> y" | "string_less y x" "x \<noteq> y" "\<not> string_less x y"
    using string_less_linear[of x y] string_order.asym by blast
  then show ?case
  proof cases
    case 2
    then have "x \<notin> set (y # ys)" using s(2) by (intro below_not_in)
    with 2 3(1)[OF 2(2,1) s(3) 3(4)] show ?thesis by auto
  next
    case 3
    then have "y \<notin> set (x # xs)" using s(1) by (intro below_not_in)
    with 3 "3.IH"(2)[OF 3(2,3) "3.prems"(1) s(4)] show ?thesis by auto
  qed simp
qed simp_all

lemma sset_last: "sset_ok xs \<Longrightarrow> x \<in> set xs \<Longrightarrow> x = last xs \<or> string_less x (last xs)"
  by (induction xs) (auto simp: sset_ok_def)

lemma sset_hd: "sset_ok xs \<Longrightarrow> x \<in> set xs \<Longrightarrow> x = hd xs \<or> string_less (hd xs) x"
  by (cases xs) (auto simp: sset_ok_def)

text \<open>On sorted lists \<^verbatim>\<open>is_disjoint\<close> tells whether they have no element in common.  The names of a certificate are not sorted,
  and then it overlooks names, so that no certificate is found where there is one.\<close>

theorem is_disjoint_sorted:
  assumes "sset_ok xs" "sset_ok ys"
  shows "is_disjoint xs ys \<longleftrightarrow> set xs \<inter> set ys = {}"
proof (cases "xs = [] \<or> ys = []")
  case False
  show ?thesis
  proof (cases "string_less (last ys) (hd xs) \<or> string_less (last xs) (hd ys)")
    case True
    have ends: "\<not> string_less (last as) (hd bs)" if "x \<in> set as" "x \<in> set bs" "sset_ok as" "sset_ok bs" for x as bs
    proof
      assume l: "string_less (last as) (hd bs)"
      then have "string_less (last as) x" using sset_hd[OF that(4,2)] string_less_trans by blast
      then show False using sset_last[OF that(3,1)] string_order.asym by auto
    qed
    then have "set xs \<inter> set ys = {}" using True assms by blast
    with True False show ?thesis by (auto simp: is_disjoint_def)
  qed (use False disjoint_loop_sorted[OF assms] in \<open>simp add: is_disjoint_def\<close>)
qed (auto simp: is_disjoint_def)

theorem is_disjoint_sorted_witness:
  "is_disjoint (sset_of (get_asterisk_forms ''a.com'')) [''*.com''] \<longleftrightarrow> set (sset_of (get_asterisk_forms ''a.com'')) \<inter> set [''*.com''] = {}"
  by (rule is_disjoint_sorted[OF sset_of_ok]) (simp add: sset_ok_def)

lemma is_disjoint_unsorted: "is_disjoint (sset_of (get_asterisk_forms ''a.com'')) [''b.org'', ''a.com'']"
  by (simp add: is_disjoint_def sset_of_def get_asterisk_forms_def string_less_def)

end
