(* ===== verification/Tunnel.thy ===== *)
theory Tunnel
  imports Services
begin

text \<open>
  tunnel/tunnel_loop.{hpp,cpp} and tunnel_service.{hpp,cpp}: bytes from one end of the flow to the other, unread.

  \<^item> \<open>Upstream\<close> is the loop from the client to the server, \<open>Downstream\<close> the loop back.  A loop waits for one callback at a time
    (\<open>tl_wait\<close>, with the request made of Asio); \<open>tunnel_step\<close> runs it with the library's result.
  \<^item> \<^verbatim>\<open>finished_\<close> is not initialized by the constructor: its first value is an argument.
  \<^item> the interceptors are functions on the flow.
\<close>

section \<open>State\<close>

datatype direction = Upstream | Downstream

datatype loop_wait = Tl_idle | Tl_read io_op | Tl_write io_op

record tunnel_loop =
  tl_finished :: bool
  tl_wait :: loop_wait

datatype tunnel_state = Tn_new | Tn_connecting connect_step | Tn_running | Tn_stopped

record tunnel_env =
  te_timeouts :: timeouts
  te_tunnel_hook :: "tunnel_event \<Rightarrow> flow \<Rightarrow> flow"
  te_server_hook :: "server_event \<Rightarrow> flow \<Rightarrow> flow"
  te_peek :: "flow \<Rightarrow> boost_error"

record tunnel_service =
  tn_flow :: flow
  tn_loop :: "direction \<Rightarrow> tunnel_loop"
  tn_state :: tunnel_state

definition tunnel_loop_new :: "bool \<Rightarrow> tunnel_loop" where
  "tunnel_loop_new garbage = \<lparr>tl_finished = garbage, tl_wait = Tl_idle\<rparr>"

definition tunnel_service_new :: "(direction \<Rightarrow> bool) \<Rightarrow> flow \<Rightarrow> tunnel_service" where
  "tunnel_service_new garbage w = \<lparr>tn_flow = w, tn_loop = (\<lambda>d. tunnel_loop_new (garbage d)), tn_state = Tn_new\<rparr>"

definition upd_tunnel_flow :: "(flow \<Rightarrow> flow) \<Rightarrow> tunnel_service \<Rightarrow> tunnel_service" where
  "upd_tunnel_flow f s = s\<lparr>tn_flow := f (tn_flow s)\<rparr>"

definition upd_loop :: "direction \<Rightarrow> (tunnel_loop \<Rightarrow> tunnel_loop) \<Rightarrow> tunnel_service \<Rightarrow> tunnel_service" where
  "upd_loop d f s = s\<lparr>tn_loop := (tn_loop s)(d := f (tn_loop s d))\<rparr>"

text \<open>An operation of \<^verbatim>\<open>base_connection\<close> on the source of a loop, given at the types of both connections.\<close>

definition upd_source :: "direction \<Rightarrow> (client_conn \<Rightarrow> client_conn) \<Rightarrow> (server_conn \<Rightarrow> server_conn) \<Rightarrow> flow \<Rightarrow> flow" where
  "upd_source d f g w = (case d of Upstream \<Rightarrow> upd_client f w | Downstream \<Rightarrow> upd_server g w)"

definition upd_destination :: "direction \<Rightarrow> (client_conn \<Rightarrow> client_conn) \<Rightarrow> (server_conn \<Rightarrow> server_conn) \<Rightarrow> flow \<Rightarrow> flow" where
  "upd_destination d f g w = (case d of Upstream \<Rightarrow> upd_server g w | Downstream \<Rightarrow> upd_client f w)"

definition source_input :: "direction \<Rightarrow> flow \<Rightarrow> string" where
  "source_input d w = (case d of Upstream \<Rightarrow> cn_input (fl_client w) | Downstream \<Rightarrow> cn_input (fl_server w))"

definition destination_output :: "direction \<Rightarrow> flow \<Rightarrow> string" where
  "destination_output d w = (case d of Upstream \<Rightarrow> cn_output (fl_server w) | Downstream \<Rightarrow> cn_output (fl_client w))"

section \<open>The loops\<close>

definition tunnel_stop :: "tunnel_service \<Rightarrow> tunnel_service" where
  "tunnel_stop s = (upd_tunnel_flow flow_disconnect s)\<lparr>tn_state := Tn_stopped\<rparr>"

definition tunnel_on_finish :: "tunnel_env \<Rightarrow> tunnel_service \<Rightarrow> tunnel_service" where
  "tunnel_on_finish env s = (if tl_finished (tn_loop s Downstream) \<and> tl_finished (tn_loop s Upstream)
     then tunnel_stop (upd_tunnel_flow (te_tunnel_hook env Tunnel_stop) s) else s)"

definition loop_finish :: "tunnel_env \<Rightarrow> direction \<Rightarrow> tunnel_service \<Rightarrow> tunnel_service" where
  "loop_finish env d s = tunnel_on_finish env (upd_loop d (\<lambda>l. l\<lparr>tl_finished := True, tl_wait := Tl_idle\<rparr>)
     (upd_tunnel_flow (upd_source d (set_mode Io_regular) (set_mode Io_regular)) s))"

definition start_source_read :: "timeouts \<Rightarrow> direction \<Rightarrow> flow \<Rightarrow> io_op \<times> flow" where
  "start_source_read opts d w = (case d of
     Upstream \<Rightarrow> (case read_async opts default_buffer_size (fl_client w) of (op, c) \<Rightarrow> (op, upd_client (\<lambda>_. c) w))
   | Downstream \<Rightarrow> (case read_async opts default_buffer_size (fl_server w) of (op, c) \<Rightarrow> (op, upd_server (\<lambda>_. c) w)))"

definition loop_read :: "tunnel_env \<Rightarrow> direction \<Rightarrow> tunnel_service \<Rightarrow> tunnel_service" where
  "loop_read env d s = (case start_source_read (te_timeouts env) d (tn_flow s) of
     (op, w) \<Rightarrow> upd_loop d (tl_wait_update (\<lambda>_. Tl_read op)) (s\<lparr>tn_flow := w\<rparr>))"

text \<open>\<^verbatim>\<open>operator<<\<close> of the input's buffer moves all of it.\<close>

definition move_input :: "direction \<Rightarrow> flow \<Rightarrow> flow" where
  "move_input d w = (let text = source_input d w in
     upd_destination d (conn_put text) (conn_put text) (upd_source d (cn_input_update (\<lambda>_. [])) (cn_input_update (\<lambda>_. [])) w))"

definition start_untimed_write :: "direction \<Rightarrow> flow \<Rightarrow> io_op \<times> flow" where
  "start_untimed_write d w = (case d of
     Upstream \<Rightarrow> (case write_untimed_async (fl_server w) of (op, c) \<Rightarrow> (op, upd_server (\<lambda>_. c) w))
   | Downstream \<Rightarrow> (case write_untimed_async (fl_client w) of (op, c) \<Rightarrow> (op, upd_client (\<lambda>_. c) w)))"

definition loop_write :: "direction \<Rightarrow> tunnel_service \<Rightarrow> tunnel_service" where
  "loop_write d s = (case start_untimed_write d (move_input d (tn_flow s)) of
     (op, w) \<Rightarrow> upd_loop d (tl_wait_update (\<lambda>_. Tl_write op)) (s\<lparr>tn_flow := w\<rparr>))"

definition loop_on_read :: "tunnel_env \<Rightarrow> direction \<Rightarrow> boost_error \<Rightarrow> tunnel_service \<Rightarrow> tunnel_service" where
  "loop_on_read env d e s = (if e \<noteq> Boost_success then loop_finish env d s else loop_write d s)"

definition loop_on_write :: "tunnel_env \<Rightarrow> direction \<Rightarrow> boost_error \<Rightarrow> tunnel_service \<Rightarrow> tunnel_service" where
  "loop_on_write env d e s = (if e \<noteq> Boost_success then loop_finish env d s else loop_read env d s)"

definition loop_start :: "direction \<Rightarrow> tunnel_service \<Rightarrow> tunnel_service" where
  "loop_start d s = loop_write d (upd_tunnel_flow (upd_source d (set_mode Io_tunnel) (set_mode Io_tunnel))
     (upd_loop d (tl_finished_update (\<lambda>_. False)) s))"

section \<open>The service\<close>

definition initiate_tunnel :: "tunnel_env \<Rightarrow> tunnel_service \<Rightarrow> tunnel_service" where
  "initiate_tunnel env s = loop_start Upstream (loop_start Downstream
     (upd_tunnel_flow (te_tunnel_hook env Tunnel_start) (s\<lparr>tn_state := Tn_running\<rparr>)))"

definition tunnel_on_connect_server :: "tunnel_env \<Rightarrow> boost_error \<Rightarrow> tunnel_service \<Rightarrow> tunnel_service" where
  "tunnel_on_connect_server env e s = (if e \<noteq> Boost_success
     then tunnel_stop (upd_tunnel_flow (set_flow_error (set_boost_error e)) s) else initiate_tunnel env s)"

definition tunnel_connect_server :: "tunnel_env \<Rightarrow> tunnel_service \<Rightarrow> tunnel_service" where
  "tunnel_connect_server env s = (case flow_connect_server_async (te_timeouts env) (te_peek env (tn_flow s)) (tn_flow s) of
     (step, w) \<Rightarrow> s\<lparr>tn_flow := w, tn_state := Tn_connecting step\<rparr>)"

definition tunnel_start :: "tunnel_env \<Rightarrow> tunnel_service \<Rightarrow> tunnel_service" where
  "tunnel_start env s = (if \<not> cn_connected (fl_server (tn_flow s)) then tunnel_connect_server env s else initiate_tunnel env s)"

section \<open>Steps\<close>

datatype tunnel_io =
  Te_resolved boost_error "endpoint list"
| Te_connected boost_error
| Te_posted
| Te_read direction string boost_error
| Te_write direction nat boost_error

definition tunnel_received :: "direction \<Rightarrow> string \<Rightarrow> boost_error \<Rightarrow> flow \<Rightarrow> flow" where
  "tunnel_received d got e = upd_source d (on_read_need_to_commit got e) (on_read_need_to_commit got e)"

definition tunnel_wrote :: "direction \<Rightarrow> nat \<Rightarrow> boost_error \<Rightarrow> flow \<Rightarrow> flow" where
  "tunnel_wrote d n e = upd_destination d (\<lambda>c. conn_on_write True e (c\<lparr>cn_output := drop n (cn_output c)\<rparr>))
     (\<lambda>c. conn_on_write True e (c\<lparr>cn_output := drop n (cn_output c)\<rparr>))"

text \<open>The next step of a connection attempt on the flow.\<close>

definition flow_connect_step :: "(server_conn \<Rightarrow> connect_step \<times> server_conn) \<Rightarrow> flow \<Rightarrow> connect_step \<times> flow" where
  "flow_connect_step f w = (case f (fl_server w) of (step, c) \<Rightarrow> (step, upd_server (\<lambda>_. c) w))"

definition tunnel_connect_step :: "(server_conn \<Rightarrow> connect_step \<times> server_conn) \<Rightarrow> tunnel_service \<Rightarrow> tunnel_service" where
  "tunnel_connect_step f s = (case flow_connect_step f (tn_flow s) of (step, w) \<Rightarrow> s\<lparr>tn_flow := w, tn_state := Tn_connecting step\<rparr>)"

definition is_read :: "loop_wait \<Rightarrow> bool" where
  "is_read wt = (case wt of Tl_read op \<Rightarrow> True | _ \<Rightarrow> False)"

definition is_write :: "loop_wait \<Rightarrow> bool" where
  "is_write wt = (case wt of Tl_write op \<Rightarrow> True | _ \<Rightarrow> False)"

definition tunnel_step :: "tunnel_env \<Rightarrow> tunnel_io \<Rightarrow> tunnel_service \<Rightarrow> tunnel_service" where
  "tunnel_step env ev s = (case (tn_state s, ev) of
     (Tn_connecting (Resolving host port), Te_resolved e eps) \<Rightarrow> tunnel_connect_step (on_resolve (te_timeouts env) e eps) s
   | (Tn_connecting (Connecting ep rest), Te_connected e) \<Rightarrow> tunnel_connect_step (on_connect (te_timeouts env) e rest) s
   | (Tn_connecting (Connect_posted e), Te_posted) \<Rightarrow>
       tunnel_on_connect_server env e (upd_tunnel_flow (base_on_connect_server (te_server_hook env) e) s)
   | (Tn_running, Te_read d got e) \<Rightarrow> (if is_read (tl_wait (tn_loop s d))
       then loop_on_read env d e (upd_tunnel_flow (tunnel_received d got e) s) else s)
   | (Tn_running, Te_write d n e) \<Rightarrow> (if is_write (tl_wait (tn_loop s d))
       then loop_on_write env d e (upd_tunnel_flow (tunnel_wrote d n e) s) else s)
   | _ \<Rightarrow> s)"

inductive tunnel_reachable :: "tunnel_env \<Rightarrow> tunnel_service \<Rightarrow> bool" for env where
  started: "tunnel_reachable env (tunnel_start env (tunnel_service_new garbage w))"
| stepped: "tunnel_reachable env s \<Longrightarrow> tunnel_reachable env (tunnel_step env ev s)"

end
