(* ===== verification/Tunnel_Facts.thy ===== *)
theory Tunnel_Facts
  imports Tunnel
begin

text \<open>The tunnel: a lossless channel in both directions, and what its loops wait for.\<close>

lemmas tunnel_defs = upd_tunnel_flow_def upd_loop_def upd_source_def upd_destination_def upd_client_def upd_server_def

section \<open>Bytes in transit\<close>

text \<open>What a loop has taken in and not yet given to the destination's socket.\<close>

definition in_transit :: "direction \<Rightarrow> flow \<Rightarrow> string" where
  "in_transit d w = destination_output d w @ source_input d w"

lemma in_transit_unfold:
  "in_transit Upstream w = cn_output (fl_server w) @ cn_input (fl_client w)"
  "in_transit Downstream w = cn_output (fl_client w) @ cn_input (fl_server w)"
  by (simp_all add: in_transit_def destination_output_def source_input_def)

lemma all_directions: "(\<And>d. P d) \<Longrightarrow> P Upstream \<and> P Downstream" by simp

lemma conn_frames [simp]:
  "cn_input (set_mode m c) = cn_input c" "cn_output (set_mode m c) = cn_output c"
  "cn_input (conn_put t c) = cn_input c" "cn_output (conn_put t c) = cn_output c @ t"
  "cn_output (on_read_need_to_commit got e c) = cn_output c" "cn_input (on_read_need_to_commit got e c) = cn_input c @ got"
  "cn_output (conn_on_write u e c) = cn_output c" "cn_input (conn_on_write u e c) = cn_input c"
  by (simp_all add: set_mode_def conn_step_defs Let_def)

lemma start_frames [simp]:
  "cn_input (snd (read_async opts n c)) = cn_input c" "cn_output (snd (read_async opts n c)) = cn_output c"
  "cn_input (snd (write_untimed_async c)) = cn_input c" "cn_output (snd (write_untimed_async c)) = cn_output c"
  by (auto simp: read_async_def write_untimed_async_def set_reading_def set_writing_def)

lemma connect_frames:
  "cn_input (snd (connect_async opts peek host port c)) = cn_input c" "cn_output (snd (connect_async opts peek host port c)) = cn_output c"
  "cn_input (snd (on_resolve opts e eps c)) = cn_input c" "cn_output (snd (on_resolve opts e eps c)) = cn_output c"
  "cn_input (snd (on_connect opts e eps c)) = cn_input c" "cn_output (snd (on_connect opts e eps c)) = cn_output c"
  by (auto simp: connect_async_def on_resolve_def on_connect_def set_connected_def Let_def split: list.split)

lemma transit_moved [simp]: "in_transit d (move_input d' w) = in_transit d w"
  by (cases d; cases d') (simp_all add: in_transit_unfold move_input_def tunnel_defs source_input_def Let_def)

lemma transit_source_mode [simp]: "in_transit d (upd_source d' (set_mode m) (set_mode m) w) = in_transit d w"
  by (cases d; cases d') (simp_all add: in_transit_unfold tunnel_defs)

lemma transit_read [simp]: "in_transit d (snd (start_source_read opts d' w)) = in_transit d w"
  by (cases d; cases d') (simp_all add: in_transit_unfold start_source_read_def tunnel_defs read_async_def set_reading_def)

lemma transit_write [simp]: "in_transit d (snd (start_untimed_write d' w)) = in_transit d w"
  by (cases d; cases d') (simp_all add: in_transit_unfold start_untimed_write_def tunnel_defs write_untimed_async_def set_writing_def)

lemma transit_disconnect [simp]: "in_transit d (flow_disconnect w) = in_transit d w"
  by (cases d) (simp_all add: in_transit_unfold flow_disconnect_def tunnel_defs)

lemma transit_error [simp]: "in_transit d (set_flow_error f w) = in_transit d w"
  by (cases d) (simp_all add: in_transit_unfold set_flow_error_def)

lemma transit_received: "in_transit d (tunnel_received d' got e w) = in_transit d w @ (if d = d' then got else [])"
  by (cases d; cases d') (simp_all add: in_transit_unfold tunnel_received_def tunnel_defs)

lemma transit_wrote: "take n (destination_output d w) @ in_transit d (tunnel_wrote d n e w) = in_transit d w"
  "d \<noteq> d' \<Longrightarrow> in_transit d (tunnel_wrote d' n e w) = in_transit d w"
  by (cases d; cases d'; simp add: in_transit_unfold tunnel_wrote_def tunnel_defs destination_output_def flip: append_assoc)+

lemma flow_connect_frames [simp]:
  "fl_client (snd (flow_connect_server_async opts peek w)) = fl_client w"
  "fl_server (snd (flow_connect_server_async opts peek w)) = snd (connect_async opts peek (fl_target_host w) (fl_target_port w) (fl_server w))"
  "fl_client (snd (flow_connect_step f w)) = fl_client w" "fl_server (snd (flow_connect_step f w)) = snd (f (fl_server w))"
  by (simp_all add: flow_connect_server_async_def flow_connect_step_def upd_server_def split_beta)

lemma transit_connect [simp]:
  "in_transit d (snd (flow_connect_server_async opts peek w)) = in_transit d w"
  "in_transit d (snd (flow_connect_step (on_resolve opts e eps) w)) = in_transit d w"
  "in_transit d (snd (flow_connect_step (on_connect opts e eps) w)) = in_transit d w"
  by (cases d; simp add: in_transit_unfold connect_frames)+

text \<open>Interceptors that leave the buffers as they are.\<close>

definition tunnel_hooks_ok :: "tunnel_env \<Rightarrow> bool" where
  "tunnel_hooks_ok env \<longleftrightarrow> (\<forall>d ev w. in_transit d (te_tunnel_hook env ev w) = in_transit d w)
     \<and> (\<forall>d ev w. in_transit d (te_server_hook env ev w) = in_transit d w)"

abbreviation tn_transit :: "direction \<Rightarrow> tunnel_service \<Rightarrow> string" where
  "tn_transit d s \<equiv> in_transit d (tn_flow s)"

lemma hook_transit: "tunnel_hooks_ok env \<Longrightarrow> in_transit d (te_tunnel_hook env ev w) = in_transit d w"
  "tunnel_hooks_ok env \<Longrightarrow> in_transit d (te_server_hook env sev w) = in_transit d w"
  by (auto simp: tunnel_hooks_ok_def)

lemma tunnel_flow_upd [simp]: "tn_flow (upd_loop d f s) = tn_flow s" "tn_flow (upd_tunnel_flow g s) = g (tn_flow s)"
  by (simp_all add: upd_loop_def upd_tunnel_flow_def)

lemma finish_transit: "tunnel_hooks_ok env \<Longrightarrow> tn_transit d (loop_finish env d' s) = tn_transit d s"
  by (simp add: loop_finish_def tunnel_on_finish_def tunnel_stop_def hook_transit)

lemma loop_write_transit [simp]: "tn_transit d (loop_write d' s) = tn_transit d s"
  by (simp add: loop_write_def split_beta)

lemma loop_read_transit [simp]: "tn_transit d (loop_read env d' s) = tn_transit d s"
  by (simp add: loop_read_def split_beta)

lemma initiate_transit: "tunnel_hooks_ok env \<Longrightarrow> tn_transit d (initiate_tunnel env s) = tn_transit d s"
  by (simp add: initiate_tunnel_def loop_start_def hook_transit)

lemma start_transit: "tunnel_hooks_ok env \<Longrightarrow> tn_transit d (tunnel_start env s) = tn_transit d s"
  by (simp add: tunnel_start_def initiate_transit tunnel_connect_server_def split_beta)

section \<open>The channel\<close>

text \<open>What a step takes from the source's socket and what it gives to the destination's.\<close>

definition step_in :: "direction \<Rightarrow> tunnel_io \<Rightarrow> tunnel_service \<Rightarrow> string" where
  "step_in d ev s = (case ev of
     Te_read d' got e \<Rightarrow> if tn_state s = Tn_running \<and> d' = d \<and> is_read (tl_wait (tn_loop s d)) then got else []
   | _ \<Rightarrow> [])"

definition step_out :: "direction \<Rightarrow> tunnel_io \<Rightarrow> tunnel_service \<Rightarrow> string" where
  "step_out d ev s = (case ev of
     Te_write d' n e \<Rightarrow> if tn_state s = Tn_running \<and> d' = d \<and> is_write (tl_wait (tn_loop s d))
       then take n (destination_output d (tn_flow s)) else []
   | _ \<Rightarrow> [])"

lemma step_transit:
  assumes "tunnel_hooks_ok env"
  shows "step_out d ev s @ tn_transit d (tunnel_step env ev s) = tn_transit d s @ step_in d ev s"
proof -
  note simps = tunnel_step_def step_in_def step_out_def finish_transit[OF assms] loop_on_read_def loop_on_write_def
  show ?thesis
  proof (cases "tn_state s")
    case (Tn_connecting step)
    then show ?thesis
      by (cases step; cases ev) (simp_all add: simps tunnel_connect_step_def tunnel_on_connect_server_def tunnel_stop_def
        initiate_transit[OF assms] base_on_connect_server_def hook_transit[OF assms] split_beta)
  next
    case Tn_running
    then show ?thesis
    proof (cases ev)
      case (Te_read d' got e)
      with Tn_running show ?thesis by (cases "d = d'") (simp_all add: simps transit_received)
    next
      case (Te_write d' n e)
      with Tn_running show ?thesis by (cases "d = d'") (simp_all add: simps transit_wrote)
    qed (simp_all add: simps)
  qed (cases ev; simp add: simps)+
qed

fun run_tunnel :: "tunnel_env \<Rightarrow> tunnel_io list \<Rightarrow> tunnel_service \<Rightarrow> tunnel_service" where
  "run_tunnel env [] s = s"
| "run_tunnel env (ev # evs) s = run_tunnel env evs (tunnel_step env ev s)"

fun taken_in :: "tunnel_env \<Rightarrow> direction \<Rightarrow> tunnel_io list \<Rightarrow> tunnel_service \<Rightarrow> string" where
  "taken_in env d [] s = []"
| "taken_in env d (ev # evs) s = step_in d ev s @ taken_in env d evs (tunnel_step env ev s)"

fun given_out :: "tunnel_env \<Rightarrow> direction \<Rightarrow> tunnel_io list \<Rightarrow> tunnel_service \<Rightarrow> string" where
  "given_out env d [] s = []"
| "given_out env d (ev # evs) s = step_out d ev s @ given_out env d evs (tunnel_step env ev s)"

lemma run_transit:
  assumes "tunnel_hooks_ok env"
  shows "given_out env d evs s @ tn_transit d (run_tunnel env evs s) = tn_transit d s @ taken_in env d evs s"
proof (induction evs arbitrary: s)
  case (Cons ev evs)
  have "given_out env d (ev # evs) s @ tn_transit d (run_tunnel env (ev # evs) s)
      = (step_out d ev s @ tn_transit d (tunnel_step env ev s)) @ taken_in env d evs (tunnel_step env ev s)"
    using Cons[of "tunnel_step env ev s"] by simp
  then show ?case by (simp add: step_transit[OF assms])
qed simp

text \<open>While a write is outstanding, it sends everything that was taken in.\<close>

definition waits_for_write :: "direction \<Rightarrow> tunnel_service \<Rightarrow> bool" where
  "waits_for_write d s \<longleftrightarrow> tn_state s = Tn_running \<and> is_write (tl_wait (tn_loop s d))"

definition being_sent :: "direction \<Rightarrow> tunnel_service \<Rightarrow> string" where
  "being_sent d s = (if waits_for_write d s then destination_output d (tn_flow s) else tn_transit d s)"

definition writes_all :: "tunnel_service \<Rightarrow> bool" where
  "writes_all s \<longleftrightarrow> (\<forall>d. waits_for_write d s \<longrightarrow> source_input d (tn_flow s) = [])"

lemma being_sent_all: "writes_all s \<Longrightarrow> being_sent d s = tn_transit d s"
  by (simp add: being_sent_def writes_all_def in_transit_def)

lemma input_frames [simp]:
  "source_input d (upd_source d' (set_mode m) (set_mode m) w) = source_input d w"
  "source_input d (snd (start_source_read opts d' w)) = source_input d w"
  "source_input d (snd (start_untimed_write d' w)) = source_input d w"
  "source_input d (tunnel_wrote d' n e w) = source_input d w"
  "source_input d (move_input d' w) = (if d = d' then [] else source_input d w)"
  "d \<noteq> d' \<Longrightarrow> source_input d (tunnel_received d' got e w) = source_input d w"
  by (cases d; cases d'; simp add: source_input_def tunnel_defs start_source_read_def start_untimed_write_def tunnel_wrote_def
    move_input_def tunnel_received_def read_async_def set_reading_def write_untimed_async_def set_writing_def Let_def)+

lemma loop_upd [simp]: "tn_loop (upd_loop d f s) d' = (if d' = d then f (tn_loop s d) else tn_loop s d')"
  "tn_state (upd_loop d f s) = tn_state s" "tn_loop (upd_tunnel_flow g s) = tn_loop s" "tn_state (upd_tunnel_flow g s) = tn_state s"
  by (simp_all add: upd_loop_def upd_tunnel_flow_def)

lemma not_running_writes_all: "tn_state s \<noteq> Tn_running \<Longrightarrow> writes_all s"
  by (simp add: writes_all_def waits_for_write_def)

lemma write_writes_all: "(\<And>d'. d' \<noteq> d \<Longrightarrow> waits_for_write d' s \<Longrightarrow> source_input d' (tn_flow s) = []) \<Longrightarrow> writes_all (loop_write d s)"
  by (auto simp: writes_all_def waits_for_write_def loop_write_def split_beta)

lemma read_writes_all: "(\<And>d'. d' \<noteq> d \<Longrightarrow> waits_for_write d' s \<Longrightarrow> source_input d' (tn_flow s) = []) \<Longrightarrow> writes_all (loop_read env d s)"
  by (auto simp: writes_all_def waits_for_write_def loop_read_def split_beta is_write_def)

lemma finish_writes_all: "(\<And>d'. d' \<noteq> d \<Longrightarrow> waits_for_write d' s \<Longrightarrow> source_input d' (tn_flow s) = []) \<Longrightarrow> writes_all (loop_finish env d s)"
  by (auto simp: writes_all_def waits_for_write_def loop_finish_def tunnel_on_finish_def tunnel_stop_def is_write_def)

lemma initiate_writes_all: "writes_all (initiate_tunnel env s)"
proof -
  have "writes_all (loop_start Upstream (loop_start Downstream t))" for t
    by (simp add: writes_all_def waits_for_write_def loop_start_def loop_write_def split_beta) (metis direction.exhaust)
  then show ?thesis by (simp add: initiate_tunnel_def)
qed

lemma start_writes_all: "writes_all (tunnel_start env (tunnel_service_new garbage w))"
  by (simp add: tunnel_start_def initiate_writes_all) (simp add: tunnel_connect_server_def split_beta writes_all_def waits_for_write_def)

lemma step_writes_all:
  assumes "writes_all s"
  shows "writes_all (tunnel_step env ev s)"
proof (cases "tn_state s")
  case (Tn_connecting step)
  with assms show ?thesis
    by (cases step; cases ev) (auto simp: tunnel_step_def tunnel_connect_step_def split_beta tunnel_on_connect_server_def initiate_writes_all
      not_running_writes_all tunnel_stop_def)
next
  case Tn_running
  have free: "source_input d' (tn_flow s) = []" if "waits_for_write d' s" for d'
    using assms that by (simp add: writes_all_def)
  have keep: "waits_for_write d' (upd_tunnel_flow f s) = waits_for_write d' s" for d' f by (simp add: waits_for_write_def)
  have r: "writes_all (loop_on_read env d e1 (upd_tunnel_flow (tunnel_received d got e) s))" for d e1 got e
    by (auto simp: loop_on_read_def keep free intro!: finish_writes_all write_writes_all)
  have w: "writes_all (loop_on_write env d e1 (upd_tunnel_flow (tunnel_wrote d n e) s))" for d e1 n e
    by (auto simp: loop_on_write_def keep free intro!: finish_writes_all read_writes_all)
  show ?thesis using assms r w Tn_running by (cases ev) (auto simp: tunnel_step_def)
qed (use assms in \<open>cases ev; simp add: tunnel_step_def\<close>)+

lemma run_writes_all: "writes_all s \<Longrightarrow> writes_all (run_tunnel env evs s)"
  by (induction evs arbitrary: s) (simp_all add: step_writes_all)

lemma tunnel_channel:
  assumes "tunnel_hooks_ok env"
  shows "given_out env d evs (tunnel_start env (tunnel_service_new garbage w))
      @ being_sent d (run_tunnel env evs (tunnel_start env (tunnel_service_new garbage w)))
    = in_transit d w @ taken_in env d evs (tunnel_start env (tunnel_service_new garbage w))"
  using run_transit[OF assms, of d evs] start_transit[OF assms, of d "tunnel_service_new garbage w"]
  by (simp add: tunnel_service_new_def being_sent_all[OF run_writes_all[OF start_writes_all[unfolded tunnel_service_new_def]]])

text \<open>C7: in each direction the tunnel is a channel: in every history of callbacks what the destination has been sent, and what is
  still buffered behind it, is what was buffered when the tunnel started and then all that was received, nothing lost, doubled,
  changed or out of order.  While a write is outstanding, all that is buffered is in the buffer it sends.\<close>

theorem tunnel_is_channel:
  assumes "tunnel_hooks_ok env"
  shows "given_out env d evs (tunnel_start env (tunnel_service_new garbage w))
      @ being_sent d (run_tunnel env evs (tunnel_start env (tunnel_service_new garbage w)))
    = in_transit d w @ taken_in env d evs (tunnel_start env (tunnel_service_new garbage w))"
  by (rule tunnel_channel[OF assms])

definition plain_tunnel_env :: tunnel_env where
  "plain_tunnel_env = \<lparr>te_timeouts = example_opts, te_tunnel_hook = \<lambda>_ w. w, te_server_hook = \<lambda>_ w. w, te_peek = \<lambda>_. Boost_success\<rparr>"

definition open_flow :: "string \<Rightarrow> flow" where
  "open_flow text = flow_new uuid_ns_dns (client_conn_new\<lparr>cn_open := True, cn_connected := True, cn_input := text\<rparr>)
     (server_conn_new\<lparr>cn_open := True, cn_connected := True\<rparr>)"

lemma plain_tunnel_hooks: "tunnel_hooks_ok plain_tunnel_env"
  by (simp add: tunnel_hooks_ok_def plain_tunnel_env_def)

definition example_tunnel_events :: "tunnel_io list" where
  "example_tunnel_events = [Te_write Upstream 2 Boost_success, Te_read Upstream ''cd'' Boost_success, Te_write Upstream 1 Boost_success]"

theorem tunnel_is_channel_witness:
  "given_out plain_tunnel_env Upstream example_tunnel_events (tunnel_start plain_tunnel_env (tunnel_service_new (\<lambda>_. True) (open_flow ''ab'')))
     @ being_sent Upstream (run_tunnel plain_tunnel_env example_tunnel_events (tunnel_start plain_tunnel_env (tunnel_service_new (\<lambda>_. True) (open_flow ''ab''))))
    = in_transit Upstream (open_flow ''ab'')
     @ taken_in plain_tunnel_env Upstream example_tunnel_events (tunnel_start plain_tunnel_env (tunnel_service_new (\<lambda>_. True) (open_flow ''ab'')))"
  by (rule tunnel_is_channel[OF plain_tunnel_hooks])

section \<open>What the loops wait for\<close>

definition loop_ok :: "tunnel_loop \<Rightarrow> bool" where
  "loop_ok l \<longleftrightarrow> (tl_finished l \<longleftrightarrow> tl_wait l = Tl_idle)"

definition tunnel_inv :: "tunnel_service \<Rightarrow> bool" where
  "tunnel_inv s = (case tn_state s of
     Tn_new \<Rightarrow> False
   | Tn_connecting step \<Rightarrow> \<forall>d. tl_wait (tn_loop s d) = Tl_idle
   | Tn_running \<Rightarrow> (\<forall>d. loop_ok (tn_loop s d)) \<and> (\<exists>d. \<not> tl_finished (tn_loop s d))
   | Tn_stopped \<Rightarrow> (\<forall>d. tl_wait (tn_loop s d) = Tl_idle) \<and> \<not> cn_open (fl_client (tn_flow s)) \<and> \<not> cn_open (fl_server (tn_flow s)))"

lemma ex_direction: "(\<exists>d. P d) \<longleftrightarrow> P Upstream \<or> P Downstream" "(\<forall>d. P d) \<longleftrightarrow> P Upstream \<and> P Downstream"
  by (metis direction.exhaust)+

lemma disconnected [simp]: "\<not> cn_open (fl_client (flow_disconnect w))" "\<not> cn_open (fl_server (flow_disconnect w))"
  by (simp_all add: flow_disconnect_def upd_client_def upd_server_def)

lemma tunnel_stop_facts [simp]: "tn_state (tunnel_stop s) = Tn_stopped" "tn_loop (tunnel_stop s) = tn_loop s"
  "tn_flow (tunnel_stop s) = flow_disconnect (tn_flow s)"
  by (simp_all add: tunnel_stop_def upd_tunnel_flow_def)

lemma loop_write_loop: "tn_state (loop_write d s) = tn_state s" "tl_finished (tn_loop (loop_write d s) d') = tl_finished (tn_loop s d')"
  "d' \<noteq> d \<Longrightarrow> tn_loop (loop_write d s) d' = tn_loop s d'" "tl_wait (tn_loop (loop_write d s) d) \<noteq> Tl_idle"
  by (auto simp: loop_write_def split_beta)

lemma loop_read_loop: "tn_state (loop_read env d s) = tn_state s" "tl_finished (tn_loop (loop_read env d s) d') = tl_finished (tn_loop s d')"
  "d' \<noteq> d \<Longrightarrow> tn_loop (loop_read env d s) d' = tn_loop s d'" "tl_wait (tn_loop (loop_read env d s) d) \<noteq> Tl_idle"
  by (auto simp: loop_read_def split_beta)

lemma initiate_inv: "tunnel_inv (initiate_tunnel env s)"
  by (auto simp: tunnel_inv_def initiate_tunnel_def loop_start_def loop_write_loop loop_ok_def ex_direction)

lemma finish_inv: "tn_state s = Tn_running \<Longrightarrow> \<forall>d. loop_ok (tn_loop s d) \<Longrightarrow> tunnel_inv (loop_finish env d s)"
  by (cases d) (auto simp: tunnel_inv_def loop_finish_def tunnel_on_finish_def loop_ok_def ex_direction)

lemma running_inv:
  assumes "tn_state s = Tn_running" "\<forall>d. loop_ok (tn_loop s d)" "\<not> tl_finished (tn_loop s d)"
  shows "tunnel_inv (loop_write d s)" "tunnel_inv (loop_read env d s)"
  using assms by (cases d; auto simp: tunnel_inv_def loop_ok_def ex_direction loop_write_loop loop_read_loop)+

lemma tunnel_step_inv:
  assumes "tunnel_inv s"
  shows "tunnel_inv (tunnel_step env ev s)"
proof (cases "tn_state s")
  case (Tn_connecting step)
  then show ?thesis using assms initiate_inv
    by (cases step; cases ev) (auto simp: tunnel_step_def tunnel_inv_def tunnel_connect_step_def split_beta tunnel_on_connect_server_def)
next
  case Tn_running
  have ok: "\<forall>d. loop_ok (tn_loop s d)" using assms Tn_running by (simp add: tunnel_inv_def)
  have "tunnel_inv (loop_on_read env d e (upd_tunnel_flow f s))" if "is_read (tl_wait (tn_loop s d))" for d e f
    using that ok Tn_running by (auto simp: loop_on_read_def is_read_def loop_ok_def split: loop_wait.splits intro!: finish_inv running_inv)
  moreover have "tunnel_inv (loop_on_write env d e (upd_tunnel_flow f s))" if "is_write (tl_wait (tn_loop s d))" for d e f
    using that ok Tn_running by (auto simp: loop_on_write_def is_write_def loop_ok_def split: loop_wait.splits intro!: finish_inv running_inv)
  ultimately show ?thesis using assms Tn_running by (cases ev) (auto simp: tunnel_step_def)
qed (use assms in \<open>cases ev; simp add: tunnel_inv_def tunnel_step_def\<close>)+

lemma tunnel_start_inv: "tunnel_inv (tunnel_start env (tunnel_service_new garbage w))"
  by (simp add: tunnel_start_def initiate_inv) (simp add: tunnel_inv_def tunnel_connect_server_def split_beta tunnel_service_new_def tunnel_loop_new_def)

text \<open>C19: in every reachable state of the tunnel one of its loops runs, or it connects, or it has stopped; a loop is finished exactly
  when it waits for nothing, and once it has stopped no callback of it is outstanding and both sockets are closed, so that the handler
  may destroy it.  The uninitialized flags of a new tunnel do not matter.\<close>

theorem tunnel_service_invariant:
  assumes "tunnel_reachable env s"
  shows "tunnel_inv s"
  using assms by induction (simp_all add: tunnel_start_inv tunnel_step_inv)

theorem tunnel_service_invariant_witness:
  "tunnel_inv (tunnel_step plain_tunnel_env (Te_write Upstream 2 Boost_success) (tunnel_start plain_tunnel_env (tunnel_service_new (\<lambda>_. True) (open_flow ''ab''))))"
  by (rule tunnel_service_invariant, rule stepped, rule started)

end
