(* ===== verification/Uuid_Facts.thy ===== *)
theory Uuid_Facts
  imports Uuid
begin

text \<open>
  Identifiers: their order is linear, their text and their version 1 fields can be read back, those made from names are the
  hash of the name with the version stamped in, and when the factory repeats itself.
\<close>

section \<open>The order\<close>

definition uuid_parts :: "uuid_t \<Rightarrow> nat list" where
  "uuid_parts u = time_parts u @ node_parts u"

lemma node_bytes_length [simp]: "length (node_bytes n) = 6"
  by (cases n) simp

lemma uuid_parts_length [simp]: "length (time_parts u) = 5" "length (node_parts u) = 6" "length (uuid_parts u) = 11"
  by (simp_all add: time_parts_def node_parts_def uuid_parts_def)

lemma node_bytes_inj: "node_bytes m = node_bytes n \<longleftrightarrow> m = n"
  by (cases m; cases n) simp

lemma uuid_parts_inj: "uuid_parts a = uuid_parts b \<longleftrightarrow> a = b"
proof
  assume h: "uuid_parts a = uuid_parts b"
  then have n: "map unat (node_bytes (uu_node a)) = map unat (node_bytes (uu_node b))"
    and t: "time_parts a = time_parts b" by (simp_all add: uuid_parts_def node_parts_def)
  from n have "uu_node a = uu_node b" by (cases "uu_node a"; cases "uu_node b") (simp flip: word_unat_eq_iff)
  with t show "a = b" by (cases a; cases b) (simp add: time_parts_def flip: word_unat_eq_iff)
qed simp

lemma compare_parts_append: "length as = length bs \<Longrightarrow>
    compare_parts (as @ as') (bs @ bs') = (if compare_parts as bs \<noteq> Ord_equal then compare_parts as bs else compare_parts as' bs')"
  by (induction as bs rule: compare_parts.induct) auto

lemma uuid_compare_parts: "uuid_compare a b = compare_parts (uuid_parts a) (uuid_parts b)"
  by (simp add: uuid_compare_def uuid_parts_def compare_parts_append Let_def)

lemma compare_parts_equal: "length as = length bs \<Longrightarrow> compare_parts as bs = Ord_equal \<longleftrightarrow> as = bs"
  by (induction as bs rule: compare_parts.induct) (auto simp: three_way_def)

lemma compare_parts_flip: "compare_parts as bs = Ord_greater \<longleftrightarrow> compare_parts bs as = Ord_less"
  by (induction as bs rule: compare_parts.induct) (auto simp: three_way_def)

lemma compare_parts_trans:
  "length as = length bs \<Longrightarrow> length bs = length cs \<Longrightarrow> compare_parts as bs = Ord_less \<Longrightarrow> compare_parts bs cs = Ord_less \<Longrightarrow>
    compare_parts as cs = Ord_less"
proof (induction as arbitrary: bs cs)
  case (Cons a as)
  then obtain b bs' c cs' where l: "bs = b # bs'" "cs = c # cs'" by (metis length_Suc_conv)
  have less: "compare_parts (x # xs) (y # ys) = Ord_less \<longleftrightarrow> x < y \<or> x = y \<and> compare_parts xs ys = Ord_less" for x y xs ys
    by (simp add: three_way_def)
  from Cons.prems Cons.IH[of bs' cs'] show ?case unfolding l less by auto
qed simp

lemma uuid_compare_facts:
  "uuid_compare a b = Ord_equal \<longleftrightarrow> a = b"
  "uuid_compare a b = Ord_greater \<longleftrightarrow> uuid_compare b a = Ord_less"
  "uuid_compare a b = Ord_less \<Longrightarrow> uuid_compare b c = Ord_less \<Longrightarrow> uuid_compare a c = Ord_less"
  unfolding uuid_compare_parts
  using compare_parts_equal[of "uuid_parts a" "uuid_parts b"] uuid_parts_inj compare_parts_flip
    compare_parts_trans[of "uuid_parts a" "uuid_parts b" "uuid_parts c"] by auto

instantiation uuid_t :: linorder
begin

definition less_eq_uuid_t :: "uuid_t \<Rightarrow> uuid_t \<Rightarrow> bool" where
  "less_eq_uuid_t a b = (uuid_compare a b \<noteq> Ord_greater)"

definition less_uuid_t :: "uuid_t \<Rightarrow> uuid_t \<Rightarrow> bool" where
  "less_uuid_t a b = (uuid_compare a b = Ord_less)"

instance
proof
  fix a b c :: uuid_t
  have self: "uuid_compare x x = Ord_equal" for x by (simp add: uuid_compare_facts(1))
  show "a < b \<longleftrightarrow> a \<le> b \<and> \<not> b \<le> a"
    using self uuid_compare_facts(1)[of a b] by (auto simp: less_eq_uuid_t_def less_uuid_t_def uuid_compare_facts(2))
      (metis strong_ordering.distinct(3) uuid_compare_facts(2))
  show "a \<le> a" by (simp add: less_eq_uuid_t_def self)
  show "a \<le> b \<Longrightarrow> b \<le> c \<Longrightarrow> a \<le> c"
    by (auto simp: less_eq_uuid_t_def uuid_compare_facts(2)) (metis strong_ordering.exhaust uuid_compare_facts)
  show "a \<le> b \<Longrightarrow> b \<le> a \<Longrightarrow> a = b"
    by (auto simp: less_eq_uuid_t_def uuid_compare_facts(2)) (metis strong_ordering.exhaust uuid_compare_facts(1,2))
  show "a \<le> b \<or> b \<le> a"
    by (auto simp: less_eq_uuid_t_def uuid_compare_facts(2)) (metis uuid_compare_facts(2) strong_ordering.distinct(3))
qed

end

section \<open>The text\<close>

lemma digits_value_zeros: "digits_value 16 (replicate k CHR ''0'' @ ds) = digits_value 16 ds"
proof -
  have "digits_value 16 (replicate k CHR ''0'') = 0"
    by (induction k) (simp_all add: digits_value_def digit_value_def)
  then show ?thesis by (simp add: digits_value_def)
qed

lemma hexadecimal_length: "n < 16 ^ w \<Longrightarrow> 0 < w \<Longrightarrow> length (hexadecimal n) \<le> w"
proof (induction w arbitrary: n)
  case (Suc w)
  show ?case
  proof (cases "n < 16")
    case True
    then show ?thesis by (simp add: hexadecimal_def show_base.simps)
  next
    case False
    then have "0 < w" "n div 16 < 16 ^ w" using Suc.prems by (cases w; simp)+
    from Suc.IH[OF this(2) this(1)] False show ?thesis by (simp add: hexadecimal_def show_base.simps[of 16 n])
  qed
qed simp

lemma hex_field_length: "n < 16 ^ w \<Longrightarrow> 0 < w \<Longrightarrow> length (hex_field w n) = w"
  using hexadecimal_length by (simp add: hex_field_def set_width_def)

lemma hex_field_value: "digits_value 16 (hex_field w n) = n"
  by (simp add: hex_field_def set_width_def digits_value_zeros digits_value_hexadecimal)

lemma hex_field_inj: "hex_field w m = hex_field w n \<longleftrightarrow> m = n"
  by (metis hex_field_value)

lemma hex_word_length [simp]: "length (hex_field 8 (unat (a :: u32))) = 8" "length (hex_field 4 (unat (b :: u16))) = 4"
  "length (hex_field 2 (unat (c :: u8))) = 2"
  using unsigned_less[of a, where 'a = nat] unsigned_less[of b, where 'a = nat] unsigned_less[of c, where 'a = nat]
  by (simp_all add: hex_field_length)

text \<open>Two identifiers have the same text only if they are the same.\<close>

theorem uuid_text_injective: "uuid_to_string a = uuid_to_string b \<longleftrightarrow> a = b"
proof
  assume "uuid_to_string a = uuid_to_string b"
  then show "a = b"
    by (cases a; cases b; cases "uu_node a"; cases "uu_node b") (simp add: uuid_to_string_def hex_field_inj append_eq_append_conv flip: word_unat_eq_iff)
qed simp

section \<open>Versions\<close>

definition uuid_version :: "uuid_t \<Rightarrow> u16" where
  "uuid_version u = drop_bit 12 (uu_time_hi_and_version u)"

definition uuid_variant :: "uuid_t \<Rightarrow> u8" where
  "uuid_variant u = drop_bit 6 (uu_clock_seq_hi_and_reserved u)"

definition uuid_timestamp :: "uuid_t \<Rightarrow> u64" where
  "uuid_timestamp u = ucast (uu_time_low u) OR push_bit 32 (ucast (uu_time_mid u)) OR push_bit 48 (ucast (uu_time_hi_and_version u AND 0x0FFF))"

definition uuid_clock_sequence :: "uuid_t \<Rightarrow> u16" where
  "uuid_clock_sequence u = push_bit 8 (ucast (uu_clock_seq_hi_and_reserved u AND 0x3F)) OR ucast (uu_clock_seq_low u)"

lemma low_masks: "(0xFFFFFFFF :: u64) = mask 32" "(0xFFFF :: u64) = mask 16" "(0x0FFF :: u64) = mask 12" "(0x0FFF :: u16) = mask 12"
  "(0x3F :: u8) = mask 6" "(0xFF :: u16) = mask 8" "(0x3F00 :: u16) = push_bit 8 (mask 6)" "(0x80 :: u8) = push_bit 7 1"
  by (simp_all add: mask_eq_exp_minus_1)

lemma bit_flags: "bit (0x1000 :: int) k \<longleftrightarrow> k = 12" "bit (0x80 :: int) k \<longleftrightarrow> k = 7"
proof -
  have "(0x1000 :: int) = push_bit 12 1" "(0x80 :: int) = push_bit 7 1" by simp_all
  then show "bit (0x1000 :: int) k \<longleftrightarrow> k = 12" "bit (0x80 :: int) k \<longleftrightarrow> k = 7"
    by (simp_all only: bit_push_bit_iff) (auto simp: bit_1_iff)
qed

text \<open>The fields of a version 1 identifier are those of the state it was made from: 60 bits of its time, 14 bits of its clock
  sequence, and its node.\<close>

theorem uuid_v1_fields:
  "uuid_version (format_uuid_v1 s) = 1 \<and> uuid_variant (format_uuid_v1 s) = 2 \<and> uu_node (format_uuid_v1 s) = st_node s
   \<and> uuid_timestamp (format_uuid_v1 s) = take_bit 60 (st_timestamp s) \<and> uuid_clock_sequence (format_uuid_v1 s) = take_bit 14 (st_clock_sequence s)"
proof -
  have "uuid_version (format_uuid_v1 s) = 1" unfolding uuid_version_def format_uuid_v1_def low_masks
    by (rule bit_word_eqI) (auto simp: bit_simps)
  moreover have "uuid_variant (format_uuid_v1 s) = 2" unfolding uuid_variant_def format_uuid_v1_def low_masks
    by (rule bit_word_eqI) (auto simp: bit_simps)
  moreover have "uuid_timestamp (format_uuid_v1 s) = take_bit 60 (st_timestamp s)" unfolding uuid_timestamp_def format_uuid_v1_def low_masks
    by (rule bit_word_eqI, rename_tac n, case_tac "n < 32"; case_tac "n < 48") (auto simp: bit_simps bit_flags)
  moreover have "uuid_clock_sequence (format_uuid_v1 s) = take_bit 14 (st_clock_sequence s)" unfolding uuid_clock_sequence_def format_uuid_v1_def low_masks
    by (rule bit_word_eqI) (auto simp: bit_simps bit_flags)
  ultimately show ?thesis by (simp add: format_uuid_v1_def)
qed

section \<open>Names\<close>

lemma insert_bytes_snoc: "insert_bytes (Suc n) x = insert_bytes n (drop_bit 8 x) @ [ucast x]"
  by (induction n) (simp_all add: insert_bytes_Suc add.commute[of 8])

lemma concat_bytes_snoc: "concat_bytes (bs @ [b]) = push_bit 8 (concat_bytes bs) OR ucast b"
  by (simp add: concat_bytes_def)

lemma concat_bytes_bound: "length bs \<le> 8 \<Longrightarrow> bit (concat_bytes bs) k \<Longrightarrow> k < 8 * length bs"
proof (induction bs arbitrary: k rule: rev_induct)
  case Nil
  then show ?case by (simp add: concat_bytes_def)
next
  case (snoc b bs)
  then show ?case by (cases "k < 8") (fastforce simp: concat_bytes_snoc bit_simps dest: bit_imp_le_length)+
qed

lemma insert_concat_bytes: "length bs \<le> 8 \<Longrightarrow> insert_bytes (length bs) (concat_bytes bs) = bs"
proof (induction bs rule: rev_induct)
  case (snoc b bs)
  have "drop_bit 8 (push_bit 8 (concat_bytes bs) OR ucast b) = concat_bytes bs"
    using concat_bytes_bound[of bs] snoc.prems by (intro bit_word_eqI) (fastforce simp: bit_simps dest: bit_imp_le_length)
  moreover have "(ucast (push_bit 8 (concat_bytes bs) OR ucast b) :: u8) = b"
    by (rule bit_word_eqI) (auto simp: bit_simps dest: bit_imp_le_length)
  ultimately show ?case using snoc by (simp add: insert_bytes_snoc concat_bytes_snoc)
qed simp

lemma insert_bytes_low: "insert_bytes 4 (ucast (ucast x :: u32)) = insert_bytes 4 x" "insert_bytes 2 (ucast (ucast x :: u16)) = insert_bytes 2 x"
  by (auto simp: insert_bytes_4 insert_bytes_2 intro!: bit_word_eqI simp: bit_simps)

lemma insert_word_bytes: "length bs = 4 \<Longrightarrow> insert_bytes 4 (ucast (ucast (concat_bytes bs) :: u32)) = bs"
  "length bs = 2 \<Longrightarrow> insert_bytes 2 (ucast (ucast (concat_bytes bs) :: u16)) = bs"
  using insert_concat_bytes[of bs] by (simp_all add: insert_bytes_low)

lemma network_order: "length bs = 4 \<Longrightarrow> htonl (ucast (from_little_endian bs)) = ucast (concat_bytes bs)"
  "length bs = 2 \<Longrightarrow> htons (ucast (from_little_endian bs)) = ucast (concat_bytes bs)"
  by (simp_all add: htonl_def htons_def from_little_endian_def insert_word_bytes)

text \<open>The bytes of an identifier in the order of the network.\<close>

definition uuid_wire :: "uuid_t \<Rightarrow> u8 list" where
  "uuid_wire u = insert_bytes 4 (ucast (uu_time_low u)) @ insert_bytes 2 (ucast (uu_time_mid u)) @ insert_bytes 2 (ucast (uu_time_hi_and_version u))
     @ [uu_clock_seq_hi_and_reserved u, uu_clock_seq_low u] @ node_bytes (uu_node u)"

lemma little_endian_swapped: "little_endian 4 (ucast (htonl x)) = insert_bytes 4 (ucast x)" "little_endian 2 (ucast (htons y)) = insert_bytes 2 (ucast y)"
  by (simp_all add: little_endian_def htonl_def htons_def from_little_endian_def insert_word_bytes)

lemma memory_swapped: "uuid_memory (swap_fields u) = uuid_wire u"
  by (simp add: uuid_memory_def uuid_wire_def swap_fields_def little_endian_swapped)

definition stamped :: "u8 \<Rightarrow> u8 list \<Rightarrow> u8 list" where
  "stamped version h = h[6 := (h ! 6 AND 0x0F) OR push_bit 4 version, 8 := (h ! 8 AND 0x3F) OR 0x80]"

lemma stamped_hi: "insert_bytes 2 (ucast (((ucast (concat_bytes [a, b]) :: u16) AND 0x0FFF) OR push_bit 12 (ucast v)))
    = [(a AND 0x0F) OR push_bit 4 v, b]"
proof -
  have m: "(0x0F :: u8) = mask 4" by (simp add: mask_eq_exp_minus_1)
  have c: "concat_bytes [a, b] = push_bit 8 (ucast a) OR ucast b" by (simp add: concat_bytes_def)
  have "(ucast (drop_bit 8 (ucast (((ucast (concat_bytes [a, b]) :: u16) AND 0x0FFF) OR push_bit 12 (ucast v)) :: u64)) :: u8) = (a AND 0x0F) OR push_bit 4 v"
    unfolding low_masks m c by (rule bit_word_eqI) (auto simp: bit_simps dest: bit_imp_le_length)
  moreover have "(ucast (ucast (((ucast (concat_bytes [a, b]) :: u16) AND 0x0FFF) OR push_bit 12 (ucast v)) :: u64) :: u8) = b"
    unfolding low_masks m c by (rule bit_word_eqI) (auto simp: bit_simps dest: bit_imp_le_length)
  ultimately show ?thesis by (simp add: insert_bytes_2)
qed

lemma format_wire:
  assumes "length h = 16"
  shows "uuid_wire (format_uuid_v3or5 h (ucast version)) = stamped version h"
proof -
  obtain h0 h1 h2 h3 h4 h5 h6 h7 h8 h9 h10 h11 h12 h13 h14 h15 where
    h: "h = [h0, h1, h2, h3, h4, h5, h6, h7, h8, h9, h10, h11, h12, h13, h14, h15]"
    using assms by (auto simp: length_Suc_conv numeral_eq_Suc)
  show ?thesis
    by (simp add: h format_uuid_v3or5_def stamp_version_def swap_fields_def uuid_of_memory_def uuid_wire_def stamped_def network_order
      insert_word_bytes stamped_hi node_of_bytes_def)
qed

lemma digest_name_hash: "digest_name api alg n bits ns name = Inr h \<Longrightarrow>
    \<exists>hash. dg_final api (uuid_wire ns @ map to_byte name) = Some hash \<and> length hash = n \<and> h = take 16 hash"
  by (auto simp: digest_name_def Let_def memory_swapped split: if_splits option.splits)

text \<open>C24: an identifier that is made from a name is, in the order of the network, the first 16 bytes of the hash of the namespace in the order
  of the network and the name, with version and variant stamped in.\<close>

theorem name_based_uuid:
  assumes "create_md5_from_name md5 ns name = Inr u" "create_sha1_from_name sha1 ns name = Inr v"
  shows "\<exists>h k. dg_final md5 (uuid_wire ns @ map to_byte name) = Some h \<and> uuid_wire u = stamped 3 h
    \<and> dg_final sha1 (uuid_wire ns @ map to_byte name) = Some k \<and> uuid_wire v = stamped 5 (take 16 k)"
proof -
  obtain h where h: "dg_final md5 (uuid_wire ns @ map to_byte name) = Some h" "length h = 16" "u = format_uuid_v3or5 h 3"
    using assms(1) digest_name_hash by (fastforce simp: create_md5_from_name_def rbind_eq_Inr)
  obtain k where k: "dg_final sha1 (uuid_wire ns @ map to_byte name) = Some k" "length k = 20" "v = format_uuid_v3or5 (take 16 k) 5"
    using assms(2) digest_name_hash by (fastforce simp: create_sha1_from_name_def rbind_eq_Inr)
  show ?thesis using h k format_wire[of h 3] format_wire[of "take 16 k" 5] by auto
qed

definition constant_digest :: "nat \<Rightarrow> digest_api" where
  "constant_digest n = \<lparr>dg_init = True, dg_update = \<lambda>_ _. True, dg_final = \<lambda>_. Some (replicate n 0xFF)\<rparr>"

theorem name_based_uuid_witness:
  "\<exists>u v. create_md5_from_name (constant_digest 16) uuid_ns_dns ''a'' = Inr u \<and> create_sha1_from_name (constant_digest 20) uuid_ns_dns ''a'' = Inr v
    \<and> (\<exists>h k. dg_final (constant_digest 16) (uuid_wire uuid_ns_dns @ map to_byte ''a'') = Some h \<and> uuid_wire u = stamped 3 h
    \<and> dg_final (constant_digest 20) (uuid_wire uuid_ns_dns @ map to_byte ''a'') = Some k \<and> uuid_wire v = stamped 5 (take 16 k))"
proof -
  have u: "create_md5_from_name (constant_digest 16) uuid_ns_dns ''a'' = Inr (format_uuid_v3or5 (replicate 16 0xFF) 3)"
    by (simp add: create_md5_from_name_def digest_name_def constant_digest_def Let_def)
  have v: "create_sha1_from_name (constant_digest 20) uuid_ns_dns ''a'' = Inr (format_uuid_v3or5 (replicate 16 0xFF) 5)"
    by (simp add: create_sha1_from_name_def digest_name_def constant_digest_def Let_def)
  from u v name_based_uuid[OF u v] show ?thesis by blast
qed

section \<open>The factory\<close>

text \<open>A factory that has made an identifier: its static members are set.\<close>

definition factory_ready :: "uuid_factory \<Rightarrow> bool" where
  "factory_ready f \<longleftrightarrow> uf_saved_node f = Some (st_node (uf_state f)) \<and> uf_state_read f \<and> uf_time f \<noteq> None"

definition at_times :: "int list \<Rightarrow> uuid_env \<Rightarrow> uuid_env" where
  "at_times clock env = env\<lparr>ue_clock := clock\<rparr>"

fun create_uuids :: "int list list \<Rightarrow> uuid_env \<Rightarrow> uuid_factory \<Rightarrow> (string, uuid_t list) res \<times> uuid_factory" where
  "create_uuids [] env = sreturn []"
| "create_uuids (c # cs) env = sbind (create_uuid (at_times c env)) (\<lambda>u. sbind (create_uuids cs env) (\<lambda>us. sreturn (u # us)))"

lemma create_ready:
  assumes "factory_ready f" "uf_time f = Some (prev, ticks)" "current_time_loop (map get_system_time clock) prev ticks = Some (t, prev1, ticks1)"
  shows "\<exists>f1. create_uuid (at_times clock env) f = (Inr (format_uuid_v1 (uf_state f1)), f1) \<and> factory_ready f1 \<and> uf_time f1 = Some (prev1, ticks1)
    \<and> uf_state f1 = \<lparr>st_timestamp = t, st_node = st_node (uf_state f),
        st_clock_sequence = (if t < st_timestamp (uf_state f) then st_clock_sequence (uf_state f) + 1 else st_clock_sequence (uf_state f))\<rparr>"
  using assms by (simp add: create_uuid_def sbind_def get_current_time_def at_times_def get_ieee_node_identifier_def read_state_def
    next_sequence_def sreturn_def factory_ready_def write_state_def Let_def split: prod.split option.split)

lemma create_at_new_time:
  assumes "factory_ready f" "uf_time f = Some (prev, ticks)" "prev \<noteq> get_system_time c" "st_timestamp (uf_state f) \<le> get_system_time c"
  shows "\<exists>f1. create_uuid (at_times [c] env) f = (Inr (format_uuid_v1 ((uf_state f)\<lparr>st_timestamp := get_system_time c\<rparr>)), f1)
    \<and> factory_ready f1 \<and> uf_time f1 = Some (get_system_time c, 0) \<and> uf_state f1 = (uf_state f)\<lparr>st_timestamp := get_system_time c\<rparr>"
  using create_ready[OF assms(1,2), of "[c]" "get_system_time c" "get_system_time c" 0 env] assms(3,4) by (cases "uf_state f") auto

lemma create_at_new_times:
  assumes "factory_ready f" "uf_time f = Some (prev, ticks)" "sorted_wrt (<) (map get_system_time cs)"
    "\<And>c. c \<in> set cs \<Longrightarrow> prev < get_system_time c \<and> st_timestamp (uf_state f) \<le> get_system_time c"
  shows "\<exists>f1. create_uuids (map (\<lambda>c. [c]) cs) env f
    = (Inr (map (\<lambda>c. format_uuid_v1 ((uf_state f)\<lparr>st_timestamp := get_system_time c\<rparr>)) cs), f1)"
  using assms
proof (induction cs arbitrary: f prev ticks)
  case (Cons c cs)
  have c: "prev < get_system_time c" "st_timestamp (uf_state f) \<le> get_system_time c" using Cons.prems(4)[of c] by simp_all
  then obtain f1 where f1: "create_uuid (at_times [c] env) f = (Inr (format_uuid_v1 ((uf_state f)\<lparr>st_timestamp := get_system_time c\<rparr>)), f1)"
    "factory_ready f1" "uf_time f1 = Some (get_system_time c, 0)" "uf_state f1 = (uf_state f)\<lparr>st_timestamp := get_system_time c\<rparr>"
    using create_at_new_time[OF Cons.prems(1,2), of c env] by auto
  from Cons.IH[OF f1(2,3)] Cons.prems(3) f1(4) obtain f2 where
    "create_uuids (map (\<lambda>c. [c]) cs) env f1 = (Inr (map (\<lambda>c. format_uuid_v1 ((uf_state f)\<lparr>st_timestamp := get_system_time c\<rparr>)) cs), f2)"
    by fastforce
  with f1(1) show ?case by (simp add: sbind_def sreturn_def)
qed (simp add: sreturn_def)

lemma uuid_v1_timestamp: "uuid_timestamp (format_uuid_v1 s) = take_bit 60 (st_timestamp s)"
  unfolding uuid_timestamp_def format_uuid_v1_def low_masks
  by (rule bit_word_eqI, rename_tac n, case_tac "n < 32"; case_tac "n < 48") (auto simp: bit_simps bit_flags)

lemma take_bit_60: "t < 2 ^ 60 \<Longrightarrow> take_bit 60 (t :: u64) = t"
proof -
  assume "t < 2 ^ 60"
  then have "unat t < 2 ^ 60" by (simp add: word_less_nat_alt)
  then have "unat (take_bit 60 t) = unat t" by (simp add: unsigned_take_bit_eq take_bit_nat_eq_self)
  then show ?thesis by (simp only: word_unat_eq_iff)
qed

text \<open>C23: identifiers that are made at different and increasing times, all before 2 to the 60th tick, differ.\<close>

theorem uuids_distinct:
  assumes "factory_ready f" "uf_time f = Some (prev, ticks)" "sorted_wrt (<) (map get_system_time cs)"
    "\<And>c. c \<in> set cs \<Longrightarrow> prev < get_system_time c \<and> st_timestamp (uf_state f) \<le> get_system_time c \<and> get_system_time c < 2 ^ 60"
  shows "\<exists>us f1. create_uuids (map (\<lambda>c. [c]) cs) env f = (Inr us, f1) \<and> length us = length cs \<and> distinct us"
proof -
  let ?make = "\<lambda>t. format_uuid_v1 ((uf_state f)\<lparr>st_timestamp := t\<rparr>)"
  have time: "uuid_timestamp (?make (get_system_time c)) = get_system_time c" if "c \<in> set cs" for c
    using assms(4)[OF that] by (simp add: uuid_v1_timestamp take_bit_60)
  have "distinct (map get_system_time cs)" using assms(3) strict_sorted_iff by blast
  then have "distinct (map uuid_timestamp (map (\<lambda>c. ?make (get_system_time c)) cs))"
    using time by (simp add: distinct_map inj_on_def)
  then have "distinct (map (\<lambda>c. ?make (get_system_time c)) cs)" unfolding distinct_map by blast
  with create_at_new_times[OF assms(1-3), of env] assms(4) show ?thesis by fastforce
qed

text \<open>The count of the identifiers that are made in one tick of the clock is added to the time, so that the second identifier of a tick
  and the first one of the next tick are the same.\<close>

theorem uuid_repeated:
  assumes "factory_ready f" "uf_time f = Some (prev, ticks)" "prev \<noteq> get_system_time c" "get_system_time d = get_system_time c + 1"
  shows "\<exists>u v f1. create_uuids [[c], [c], [d]] env f = (Inr [u, v, v], f1)"
proof -
  obtain f1 where f1: "create_uuid (at_times [c] env) f = (Inr (format_uuid_v1 (uf_state f1)), f1)" "factory_ready f1"
    "uf_time f1 = Some (get_system_time c, 0)" "st_timestamp (uf_state f1) = get_system_time c"
    using create_ready[OF assms(1,2), of "[c]" "get_system_time c" "get_system_time c" 0 env] assms(3) by auto
  obtain f2 where f2: "create_uuid (at_times [c] env) f1 = (Inr (format_uuid_v1 (uf_state f2)), f2)" "factory_ready f2"
    "uf_time f2 = Some (get_system_time c, 1)" "st_timestamp (uf_state f2) = get_system_time c + 1"
    using create_ready[OF f1(2,3), of "[c]" "get_system_time c + 1" "get_system_time c" 1 env] by (auto simp: uuids_per_tick_def)
  obtain f3 where f3: "create_uuid (at_times [d] env) f2 = (Inr (format_uuid_v1 (uf_state f3)), f3)" "uf_state f3 = uf_state f2"
    using create_ready[OF f2(2,3), of "[d]" "get_system_time d" "get_system_time d" 0 env] assms(4) f2(4) by (cases "uf_state f2") auto
  from f1(1) f2(1) f3 show ?thesis by (simp add: sbind_def sreturn_def)
qed

definition example_uuid_env :: uuid_env where
  "example_uuid_env = \<lparr>ue_clock = [], ue_node_opens = True, ue_node_writes = True, ue_random_info = Inr (replicate 16 0), ue_state_opens = True,
     ue_state_writes = True, ue_random_init = True, ue_random16 = Some 0, ue_random128 = Some (replicate 16 0)\<rparr>"

definition example_factory :: uuid_factory where
  "example_factory = \<lparr>uf_saved_node = Some (Node_id 0 0 0 0 0 1), uf_state = \<lparr>st_timestamp = 0, st_node = Node_id 0 0 0 0 0 1, st_clock_sequence = 0\<rparr>,
     uf_state_read = True, uf_next_save = Some 0, uf_time = Some (0, 0), uf_random_ready = True, uf_node_file = None, uf_state_file = None\<rparr>"

lemma example_factory_ready: "factory_ready example_factory" "uf_time example_factory = Some (0, 0)"
  by (simp_all add: factory_ready_def example_factory_def)

theorem uuids_distinct_witness:
  "\<exists>us f1. create_uuids (map (\<lambda>c. [c]) [0, 100]) example_uuid_env example_factory = (Inr us, f1) \<and> length us = length [0, 100 :: int] \<and> distinct us"
  by (rule uuids_distinct[OF example_factory_ready]) (auto simp: get_system_time_def example_factory_def)

end
