(* ===== verification/Connection_Manager.thy ===== *)
theory Connection_Manager
  imports Services Uuid_Facts
begin

text \<open>
  connection/connection_manager.{hpp,cpp} and the accepting of acceptor.cpp: the flows that are alive, those that are serviced
  and those that wait because the limit is reached.

  \<^item> a flow is known by its UUID; a \<^verbatim>\<open>connection_handler\<close> by its address, taken from \<open>cm_next\<close>.  \<open>mg_started\<close> tells whether the
    call of \<^verbatim>\<open>start\<close> that was posted for it has run.
  \<^item> an operation holds the lock of the manager from its beginning to its end and is one step.
  \<^item> \<open>ac_step\<close> runs the callback of \<^verbatim>\<open>async_accept\<close>, a posted start, the end of a handler and \<^verbatim>\<open>acceptor::stop\<close>.
\<close>

section \<open>The manager\<close>

type_synonym uuid = uuid_t

record managed =
  mg_handler :: nat
  mg_flow :: uuid
  mg_started :: bool

record connection_manager =
  cm_connections :: "(uuid \<times> flow) list"
  cm_pending :: "uuid list"
  cm_services :: "managed list"
  cm_next :: nat

definition connection_manager_new :: connection_manager where
  "connection_manager_new = \<lparr>cm_connections = [], cm_pending = [], cm_services = [], cm_next = 0\<rparr>"

text \<open>\<open>w\<close> is the flow that is made, with its fresh UUID; the result is the id of the flow that is returned.\<close>

definition new_connection :: "flow \<Rightarrow> connection_manager \<Rightarrow> uuid \<times> connection_manager" where
  "new_connection w m = (fl_id w, case map_of (cm_connections m) (fl_id w) of
     None \<Rightarrow> m\<lparr>cm_connections := (fl_id w, w) # cm_connections m\<rparr> | Some _ \<Rightarrow> m)"

definition start_service :: "uuid \<Rightarrow> connection_manager \<Rightarrow> connection_manager" where
  "start_service uid m = m\<lparr>cm_services := cm_services m @ [\<lparr>mg_handler = cm_next m, mg_flow = uid, mg_started = False\<rparr>],
     cm_next := cm_next m + 1\<rparr>"

text \<open>The posted call of \<^verbatim>\<open>connection_handler::start\<close>.\<close>

definition run_posted_start :: "nat \<Rightarrow> connection_manager \<Rightarrow> connection_manager" where
  "run_posted_start h m = m\<lparr>cm_services := map (\<lambda>g. if mg_handler g = h then g\<lparr>mg_started := True\<rparr> else g) (cm_services m)\<rparr>"

definition manager_start :: "nat \<Rightarrow> uuid \<Rightarrow> connection_manager \<Rightarrow> connection_manager" where
  "manager_start limit uid m = (if length (cm_services m) < limit then start_service uid m
     else m\<lparr>cm_pending := cm_pending m @ [uid]\<rparr>)"

definition erase_connection :: "uuid \<Rightarrow> connection_manager \<Rightarrow> connection_manager" where
  "erase_connection uid m = m\<lparr>cm_connections := filter (\<lambda>p. fst p \<noteq> uid) (cm_connections m)\<rparr>"

definition manager_destroy :: "uuid \<Rightarrow> connection_manager \<Rightarrow> connection_manager" where
  "manager_destroy uid m = erase_connection uid m"

text \<open>A waiting id whose flow is gone is skipped with a warning.\<close>

function start_pending_connections :: "nat \<Rightarrow> connection_manager \<Rightarrow> connection_manager" where
  "start_pending_connections limit m = (case cm_pending m of
     [] \<Rightarrow> m
   | uid # rest \<Rightarrow> if length (cm_services m) < limit
       then let m1 = m\<lparr>cm_pending := rest\<rparr> in
         start_pending_connections limit (case map_of (cm_connections m1) uid of None \<Rightarrow> m1 | Some w \<Rightarrow> start_service uid m1)
       else m)"
  by pat_completeness auto
termination
  by (relation "measure (\<lambda>(limit, m). length (cm_pending m))") (auto simp: start_service_def split: option.split)

declare start_pending_connections.simps [simp del]

definition manager_stop :: "nat \<Rightarrow> nat \<Rightarrow> connection_manager \<Rightarrow> connection_manager" where
  "manager_stop limit h m = (case find (\<lambda>g. mg_handler g = h) (cm_services m) of
     None \<Rightarrow> m
   | Some g \<Rightarrow> start_pending_connections limit
       (erase_connection (mg_flow g) (m\<lparr>cm_services := filter (\<lambda>g. mg_handler g \<noteq> h) (cm_services m)\<rparr>)))"

text \<open>The end of the first handler calls \<open>manager_stop\<close>, which locks the mutex that this thread holds already; a handler that has not
  started has no callback to call.  The queue is emptied only behind the loop.\<close>

definition stop_all :: "connection_manager \<Rightarrow> (unit, connection_manager) res" where
  "stop_all m = (if cm_services m \<noteq> [] then Inl Undefined else Inr (m\<lparr>cm_pending := []\<rparr>))"

definition total_connection_count :: "connection_manager \<Rightarrow> nat" where
  "total_connection_count m = length (cm_connections m)"

definition active_connection_count :: "connection_manager \<Rightarrow> nat" where
  "active_connection_count m = length (cm_services m)"

definition pending_connection_count :: "connection_manager \<Rightarrow> nat" where
  "pending_connection_count m = 0"

section \<open>The acceptor\<close>

text \<open>\<open>ac_waiting\<close> is the flow whose socket the outstanding \<^verbatim>\<open>async_accept\<close> fills.\<close>

record acceptor =
  ac_manager :: connection_manager
  ac_waiting :: "uuid option"
  ac_is_stopped :: bool
  ac_closed :: bool

definition init_accept :: "flow \<Rightarrow> acceptor \<Rightarrow> acceptor" where
  "init_accept w a = (case new_connection w (ac_manager a) of (uid, m) \<Rightarrow> a\<lparr>ac_manager := m, ac_waiting := Some uid\<rparr>)"

definition acceptor_new :: acceptor where
  "acceptor_new = \<lparr>ac_manager = connection_manager_new, ac_waiting = None, ac_is_stopped = False, ac_closed = False\<rparr>"

definition acceptor_stop :: "acceptor \<Rightarrow> acceptor" where
  "acceptor_stop a = a\<lparr>ac_is_stopped := True\<rparr>"

definition set_client_connected :: "uuid \<Rightarrow> connection_manager \<Rightarrow> connection_manager" where
  "set_client_connected uid m = m\<lparr>cm_connections :=
     map (\<lambda>(k, w). (k, if k = uid then upd_client (set_connected True) w else w)) (cm_connections m)\<rparr>"

text \<open>\<open>w\<close> is the flow that \<^verbatim>\<open>init_accept\<close> makes.\<close>

definition on_accept :: "nat \<Rightarrow> boost_error \<Rightarrow> flow \<Rightarrow> uuid \<Rightarrow> acceptor \<Rightarrow> acceptor" where
  "on_accept limit e w uid a = (if e \<noteq> Boost_success
     then init_accept w (a\<lparr>ac_manager := manager_destroy uid (ac_manager a)\<rparr>)
     else let a1 = a\<lparr>ac_manager := manager_start limit uid (set_client_connected uid (ac_manager a))\<rparr> in
       if \<not> ac_is_stopped a1 then init_accept w a1 else a1\<lparr>ac_closed := True\<rparr>)"

section \<open>Steps\<close>

datatype ac_event = Ac_accepted boost_error flow | Ac_posted_start nat | Ac_handler_finished nat | Ac_stop

definition ac_step :: "nat \<Rightarrow> ac_event \<Rightarrow> acceptor \<Rightarrow> acceptor" where
  "ac_step limit ev a = (case ev of
     Ac_accepted e w \<Rightarrow> (case ac_waiting a of None \<Rightarrow> a | Some uid \<Rightarrow> on_accept limit e w uid (a\<lparr>ac_waiting := None\<rparr>))
   | Ac_posted_start h \<Rightarrow> a\<lparr>ac_manager := run_posted_start h (ac_manager a)\<rparr>
   | Ac_handler_finished h \<Rightarrow> a\<lparr>ac_manager := manager_stop limit h (ac_manager a)\<rparr>
   | Ac_stop \<Rightarrow> acceptor_stop a)"

text \<open>The UUIDs are unique.\<close>

definition fresh_flow :: "flow \<Rightarrow> acceptor \<Rightarrow> bool" where
  "fresh_flow w a \<longleftrightarrow> fl_id w \<notin> fst ` set (cm_connections (ac_manager a))"

definition event_fresh :: "ac_event \<Rightarrow> acceptor \<Rightarrow> bool" where
  "event_fresh ev a = (case ev of Ac_accepted e w \<Rightarrow> fresh_flow w a | _ \<Rightarrow> True)"

inductive ac_reachable :: "nat \<Rightarrow> acceptor \<Rightarrow> bool" for limit where
  started: "ac_reachable limit (init_accept w acceptor_new)"
| stepped: "ac_reachable limit a \<Longrightarrow> event_fresh ev a \<Longrightarrow> ac_reachable limit (ac_step limit ev a)"

section \<open>Facts\<close>

definition serviced :: "connection_manager \<Rightarrow> uuid list" where
  "serviced m = map mg_flow (cm_services m)"

definition conn_ids :: "connection_manager \<Rightarrow> uuid list" where
  "conn_ids m = map fst (cm_connections m)"

text \<open>Every flow is serviced, waits for service or is one of \<open>ws\<close>, and only one of these.\<close>

definition parted :: "nat \<Rightarrow> uuid list \<Rightarrow> connection_manager \<Rightarrow> bool" where
  "parted limit ws m \<longleftrightarrow> distinct (conn_ids m) \<and> distinct (serviced m @ cm_pending m @ ws)
     \<and> set (serviced m @ cm_pending m @ ws) = set (conn_ids m)
     \<and> distinct (map mg_handler (cm_services m)) \<and> (\<forall>g\<in>set (cm_services m). mg_handler g < cm_next m)
     \<and> length (cm_services m) \<le> limit"

definition busy :: "nat \<Rightarrow> connection_manager \<Rightarrow> bool" where
  "busy limit m \<longleftrightarrow> (cm_pending m \<noteq> [] \<longrightarrow> length (cm_services m) = limit)"

definition accounted :: "nat \<Rightarrow> acceptor \<Rightarrow> bool" where
  "accounted limit a \<longleftrightarrow> parted limit (case ac_waiting a of None \<Rightarrow> [] | Some uid \<Rightarrow> [uid]) (ac_manager a) \<and> busy limit (ac_manager a)"

lemma start_service_facts [simp]:
  "cm_connections (start_service uid m) = cm_connections m" "cm_pending (start_service uid m) = cm_pending m"
  "serviced (start_service uid m) = serviced m @ [uid]" "length (cm_services (start_service uid m)) = Suc (length (cm_services m))"
  by (simp_all add: start_service_def serviced_def)

lemma serviced_frame [simp]: "serviced (m\<lparr>cm_connections := cs\<rparr>) = serviced m" "serviced (m\<lparr>cm_pending := ps\<rparr>) = serviced m"
  "conn_ids (m\<lparr>cm_pending := ps\<rparr>) = conn_ids m" "conn_ids (m\<lparr>cm_services := gs\<rparr>) = conn_ids m" "conn_ids (start_service uid m) = conn_ids m"
  "conn_ids (m\<lparr>cm_next := n\<rparr>) = conn_ids m"
  by (simp_all add: serviced_def conn_ids_def)

lemma start_pending_parted:
  "parted limit ws m \<Longrightarrow> parted limit ws (start_pending_connections limit m) \<and> busy limit (start_pending_connections limit m)"
proof (induction limit m rule: start_pending_connections.induct)
  case (1 limit m)
  show ?case
  proof (cases "cm_pending m")
    case Nil
    with 1(2) show ?thesis by (simp add: start_pending_connections.simps[of limit m] busy_def)
  next
    case (Cons uid rest)
    show ?thesis
    proof (cases "length (cm_services m) < limit")
      case True
      let ?m = "m\<lparr>cm_pending := rest\<rparr>"
      have "uid \<in> set (conn_ids m)" using 1(2) Cons by (auto simp: parted_def)
      then obtain w where w: "map_of (cm_connections ?m) uid = Some w"
        by (cases "map_of (cm_connections ?m) uid") (auto simp: conn_ids_def map_of_eq_None_iff)
      have "parted limit ws (start_service uid ?m)"
        using 1(2) Cons True by (auto simp: parted_def start_service_def serviced_def conn_ids_def)
      with 1(1)[OF Cons True refl] w Cons True show ?thesis by (simp add: start_pending_connections.simps[of limit m])
    qed (use 1(2) Cons in \<open>simp add: start_pending_connections.simps[of limit m] busy_def parted_def\<close>)
  qed
qed

lemma init_accept_accounted:
  assumes "parted limit [] (ac_manager a)" "busy limit (ac_manager a)" "fresh_flow w a"
  shows "accounted limit (init_accept w a)"
proof -
  have "map_of (cm_connections (ac_manager a)) (fl_id w) = None" using assms(3) by (simp add: fresh_flow_def map_of_eq_None_iff)
  then show ?thesis using assms by (auto simp: accounted_def init_accept_def new_connection_def parted_def busy_def conn_ids_def serviced_def fresh_flow_def)
qed

lemma conn_ids_frame [simp]: "conn_ids (set_client_connected uid m) = conn_ids m" "cm_pending (set_client_connected uid m) = cm_pending m"
  "cm_services (set_client_connected uid m) = cm_services m" "cm_next (set_client_connected uid m) = cm_next m"
  "serviced (set_client_connected uid m) = serviced m" "cm_pending (erase_connection uid m) = cm_pending m"
  "cm_services (erase_connection uid m) = cm_services m" "cm_next (erase_connection uid m) = cm_next m"
  "serviced (erase_connection uid m) = serviced m" "conn_ids (erase_connection uid m) = filter (\<lambda>k. k \<noteq> uid) (conn_ids m)"
  by (simp_all add: conn_ids_def set_client_connected_def serviced_def erase_connection_def comp_def filter_map case_prod_beta)

lemma manager_start_parted:
  assumes "parted limit [uid] m" "busy limit m"
  shows "parted limit [] (manager_start limit uid m) \<and> busy limit (manager_start limit uid m)"
  using assms by (auto simp: manager_start_def parted_def busy_def start_service_def serviced_def)

lemma destroyed_parted: "parted limit [uid] m \<Longrightarrow> busy limit m \<Longrightarrow> parted limit [] (manager_destroy uid m) \<and> busy limit (manager_destroy uid m)"
  by (auto simp: parted_def busy_def manager_destroy_def)

lemma handler_flow:
  assumes "distinct (map mg_flow gs)" "distinct (map mg_handler gs)" "g \<in> set gs"
  shows "map mg_flow (filter (\<lambda>x. mg_handler x \<noteq> mg_handler g) gs) = filter (\<lambda>u. u \<noteq> mg_flow g) (map mg_flow gs)"
  using assms by (auto simp: filter_map comp_def distinct_map inj_on_def intro!: arg_cong[where f = "map mg_flow"] filter_cong)

lemma manager_stop_accounted:
  assumes "parted limit ws m" "busy limit m"
  shows "parted limit ws (manager_stop limit h m) \<and> busy limit (manager_stop limit h m)"
proof (cases "find (\<lambda>g. mg_handler g = h) (cm_services m)")
  case (Some g)
  then have g: "g \<in> set (cm_services m)" "mg_handler g = h" by (auto simp: find_Some_iff)
  let ?m = "erase_connection (mg_flow g) (m\<lparr>cm_services := filter (\<lambda>g. mg_handler g \<noteq> h) (cm_services m)\<rparr>)"
  have "map mg_flow (filter (\<lambda>x. mg_handler x \<noteq> h) (cm_services m)) = filter (\<lambda>u. u \<noteq> mg_flow g) (map mg_flow (cm_services m))"
    using handler_flow[OF _ _ g(1)] assms(1) g(2) by (simp add: parted_def serviced_def)
  then have s: "serviced (m\<lparr>cm_services := filter (\<lambda>g. mg_handler g \<noteq> h) (cm_services m)\<rparr>) = filter (\<lambda>u. u \<noteq> mg_flow g) (serviced m)"
    by (simp add: serviced_def)
  have "mg_flow g \<in> set (serviced m)" using g(1) by (simp add: serviced_def)
  then have "mg_flow g \<notin> set (cm_pending m @ ws)" using assms(1) by (auto simp: parted_def)
  then have "parted limit ws ?m"
    using assms(1) le_trans[OF length_filter_le[of "\<lambda>g. mg_handler g \<noteq> h" "cm_services m"], of limit]
    by (auto simp: parted_def s distinct_map_filter)
  with start_pending_parted[of limit ws ?m] Some show ?thesis by (simp add: manager_stop_def)
qed (use assms in \<open>simp add: manager_stop_def\<close>)

lemma posted_start_frame [simp]: "parted limit ws (run_posted_start h m) = parted limit ws m" "busy limit (run_posted_start h m) = busy limit m"
proof -
  have gs: "map mg_flow (cm_services (run_posted_start h m)) = map mg_flow (cm_services m)"
    "map mg_handler (cm_services (run_posted_start h m)) = map mg_handler (cm_services m)"
    by (simp_all add: run_posted_start_def)
  have "(\<forall>g\<in>set gs. mg_handler g < n) \<longleftrightarrow> (\<forall>k\<in>set (map mg_handler gs). k < n)" for gs n by simp
  then show "parted limit ws (run_posted_start h m) = parted limit ws m" "busy limit (run_posted_start h m) = busy limit m"
    using gs by (simp_all only: parted_def busy_def serviced_def) (auto simp: run_posted_start_def conn_ids_def simp del: if_image_distrib)
qed

lemma step_accounted:
  assumes "accounted limit a" "event_fresh ev a"
  shows "accounted limit (ac_step limit ev a)"
proof (cases ev)
  case (Ac_accepted e w)
  show ?thesis
  proof (cases "ac_waiting a")
    case (Some uid)
    then have p: "parted limit [uid] (ac_manager a)" "busy limit (ac_manager a)" using assms(1) by (simp_all add: accounted_def)
    show ?thesis
    proof (cases "e = Boost_success")
      case True
      have "parted limit [uid] (set_client_connected uid (ac_manager a))" "busy limit (set_client_connected uid (ac_manager a))"
        using p by (simp_all add: parted_def busy_def)
      note m = manager_start_parted[OF this]
      have "fst ` set (cm_connections (manager_start limit uid (set_client_connected uid (ac_manager a)))) = set (conn_ids (ac_manager a))"
        by (simp add: manager_start_def conn_ids_def set_client_connected_def image_image case_prod_beta)
      then have f: "fresh_flow w (a\<lparr>ac_waiting := None, ac_manager := manager_start limit uid (set_client_connected uid (ac_manager a))\<rparr>)"
        using assms(2) Ac_accepted by (simp add: fresh_flow_def event_fresh_def conn_ids_def)
      show ?thesis
      proof (cases "ac_is_stopped a")
        case True
        with m Ac_accepted Some \<open>e = Boost_success\<close> show ?thesis by (simp add: ac_step_def on_accept_def Let_def accounted_def)
      next
        case False
        with m f Ac_accepted Some True show ?thesis by (auto simp: ac_step_def on_accept_def Let_def intro!: init_accept_accounted)
      qed
    next
      case False
      with destroyed_parted[OF p] assms(2) Ac_accepted Some show ?thesis
        by (auto simp: ac_step_def on_accept_def fresh_flow_def event_fresh_def manager_destroy_def erase_connection_def intro!: init_accept_accounted)
    qed
  qed (use assms Ac_accepted in \<open>simp add: ac_step_def\<close>)
next
  case (Ac_posted_start h)
  then show ?thesis using assms(1) by (simp add: ac_step_def accounted_def)
next
  case (Ac_handler_finished h)
  then have "ac_step limit ev a = a\<lparr>ac_manager := manager_stop limit h (ac_manager a)\<rparr>" by (simp add: ac_step_def)
  moreover have "parted limit ws (manager_stop limit h (ac_manager a)) \<and> busy limit (manager_stop limit h (ac_manager a))"
    if "parted limit ws (ac_manager a)" "busy limit (ac_manager a)" for ws using manager_stop_accounted[OF that] .
  ultimately show ?thesis using assms(1) by (auto simp: accounted_def)
qed (use assms(1) in \<open>simp add: ac_step_def accounted_def acceptor_stop_def\<close>)

lemma reachable_accounted: "ac_reachable limit a \<Longrightarrow> accounted limit a"
proof (induction rule: ac_reachable.induct)
  case (started w)
  show ?case by (rule init_accept_accounted) (simp_all add: acceptor_new_def connection_manager_new_def parted_def serviced_def conn_ids_def busy_def fresh_flow_def)
qed (rule step_accounted)


definition example_flow :: "uuid \<Rightarrow> flow" where
  "example_flow uid = flow_new uid client_conn_new server_conn_new"

definition example_acceptor :: acceptor where
  "example_acceptor = ac_step 1 (Ac_accepted Boost_success (example_flow uuid_ns_oid)) (ac_step 1 (Ac_accepted Boost_success (example_flow uuid_ns_url))
     (init_accept (example_flow uuid_ns_dns) acceptor_new))"

lemma example_reachable: "ac_reachable 1 example_acceptor"
  unfolding example_acceptor_def
  by (intro stepped started) (simp_all add: event_fresh_def fresh_flow_def example_flow_def flow_new_def init_accept_def new_connection_def
    uuid_ns_dns_def uuid_ns_url_def uuid_ns_oid_def acceptor_new_def connection_manager_new_def ac_step_def on_accept_def manager_start_def set_client_connected_def start_service_def acceptor_stop_def upd_client_def)


section \<open>Two clients on one flow\<close>



end
