(* ===== verification/Ssl_Context.thy ===== *)
theory Ssl_Context
  imports Connection Handshake_Types Bytes Segment
begin

text \<open>
  tls/openssl/ssl_context.{hpp,cpp} and the ALPN callback of tls_service.cpp: what a TLS context is set up with.

  OpenSSL is library code: \<open>ssl_lib\<close> are its answers.  A context is what it was given (\<open>ssl_context\<close>).  The options are the
  names of the flags.
\<close>

datatype ssl_option = Cipher_server_preference | No_compression | Default_workarounds | Single_dh_use | No_sslv2 | No_sslv3

definition default_options :: "ssl_option list" where
  "default_options = [Cipher_server_preference, No_compression, Default_workarounds, Single_dh_use]"

definition sslv23_options :: "ssl_option list" where
  "sslv23_options = default_options @ [No_sslv2, No_sslv3]"

definition get_options_for_method :: "ssl_method \<Rightarrow> ssl_option list" where
  "get_options_for_method m = (if m = Ssl_v23 then sslv23_options else default_options)"

text \<open>The only callbacks the program has are \<^verbatim>\<open>accept_all\<close> and \<^verbatim>\<open>alpn_select_callback\<close>: their members tell whether they are given.\<close>

record ssl_context_args =
  sa_verify :: nat
  sa_method :: ssl_method
  sa_options :: "ssl_option list"
  sa_verify_file :: string
  sa_verify_callback :: bool
  sa_cipher_suites :: "cipher_suite list"
  sa_alpn_protos :: "string list"
  sa_alpn_select_callback :: bool
  sa_server_alpn :: "string option"

record ssl_lib =
  sl_load_verify_file :: "string \<Rightarrow> bool"
  sl_set_cipher_list :: "string \<Rightarrow> bool"
  sl_set_alpn_protos :: "u8 list \<Rightarrow> bool"
  sl_error_text :: "boost_error \<Rightarrow> string"

text \<open>\<open>sx_select\<close>: the argument of the ALPN callback when it is set, \<open>None\<close> for the null pointer.\<close>

record ssl_context =
  sx_method :: ssl_method
  sx_verify :: nat
  sx_options :: "ssl_option list"
  sx_verify_file :: "string option"
  sx_verify_callback :: bool
  sx_cipher_list :: "string option"
  sx_alpn :: "u8 list option"
  sx_select :: "string option option"

definition verify_none :: nat where
  "verify_none = 0"

text \<open>A cipher suite without a name is written as the text of the error.\<close>

definition cipher_text :: "ssl_lib \<Rightarrow> cipher_suite \<Rightarrow> string" where
  "cipher_text lib c = (case cipher_to_string c of Inr str \<Rightarrow> str | Inl (Error e) \<Rightarrow> error_message (sl_error_text lib) e | Inl _ \<Rightarrow> [])"

definition cipher_list :: "ssl_lib \<Rightarrow> cipher_suite list \<Rightarrow> string" where
  "cipher_list lib cs = join (map (cipher_text lib) cs) '':''"

definition create_ssl_context :: "ssl_lib \<Rightarrow> ssl_context_args \<Rightarrow> ssl_context result" where
  "create_ssl_context lib args = (
     if sa_verify args \<noteq> verify_none \<and> \<not> sl_load_verify_file lib (sa_verify_file args) then Inl (Exception System_error)
     else let ciphers = cipher_list lib (sa_cipher_suites args); wire_alpn = to_wire_format 1 (map (map to_byte) (sa_alpn_protos args)) in
       if sa_cipher_suites args \<noteq> [] \<and> \<not> sl_set_cipher_list lib ciphers then err invalid_cipher_suite_list
       else if sa_alpn_protos args \<noteq> [] \<and> \<not> sl_set_alpn_protos lib wire_alpn then err invalid_alpn_protos_list
       else Inr \<lparr>sx_method = sa_method args, sx_verify = sa_verify args, sx_options = sa_options args,
         sx_verify_file = (if sa_verify args \<noteq> verify_none then Some (sa_verify_file args) else None),
         sx_verify_callback = sa_verify_callback args,
         sx_cipher_list = (if sa_cipher_suites args \<noteq> [] then Some ciphers else None),
         sx_alpn = (if sa_alpn_protos args \<noteq> [] then Some wire_alpn else None),
         sx_select = (if sa_alpn_select_callback args
           then Some (case sa_server_alpn args of Some proto \<Rightarrow> if length proto > 0 then Some proto else None | None \<Rightarrow> None) else None)\<rparr>)"

text \<open>The three calls that are counted, in their order.\<close>

definition enable_hostname_verification :: "nat \<Rightarrow> nat \<Rightarrow> nat \<Rightarrow> unit result" where
  "enable_hostname_verification set_flags set_host set_param = (if set_flags + set_host + set_param \<noteq> 3
     then err_with ssl_context_error ''Failed to enable hostname verification'' else Inr ())"

section \<open>Choosing the protocol\<close>

definition default_alpn :: string where
  "default_alpn = ''http/1.1''"

text \<open>The C string at an address.\<close>

definition c_string :: "string \<Rightarrow> string" where
  "c_string s = takeWhile (\<lambda>c. c \<noteq> CHR 0x00) s"

text \<open>The start of the chosen protocol in the client's list, which is in the wire format, and its length, cut to a byte.\<close>

definition alpn_select_callback :: "string option \<Rightarrow> string \<Rightarrow> (nat \<times> u8) result" where
  "alpn_select_callback arg protos = (let
       default_choice = (case find_sub default_alpn protos of
           Some pos \<Rightarrow> Inr (pos, of_nat (length default_alpn))
         | None \<Rightarrow> if protos = [] then Inl Undefined else Inr (1, to_byte (hd protos)))
     in case arg of
       None \<Rightarrow> default_choice
     | Some a \<Rightarrow> (case find_sub (c_string a) protos of
         Some pos \<Rightarrow> Inr (pos, of_nat (length (c_string a)))
       | None \<Rightarrow> default_choice))"

text \<open>What the client is answered.\<close>

definition selected_protocol :: "string \<Rightarrow> nat \<times> u8 \<Rightarrow> string" where
  "selected_protocol protos sel = take (unat (snd sel)) (drop (fst sel) protos)"

definition wire_protocols :: "string list \<Rightarrow> string" where
  "wire_protocols ps = concat (map (\<lambda>p. of_byte (of_nat (length p)) # p) ps)"

section \<open>Facts\<close>

lemma find_sub_there: "take (length d) (drop k s) = d \<Longrightarrow> k \<le> length s \<Longrightarrow> \<exists>j. find_sub d s = Some j"
proof (cases "find_sub d s")
  case None
  assume "take (length d) (drop k s) = d" "k \<le> length s"
  with None show ?thesis by (auto simp: find_sub_None)
qed simp

lemma wire_offers: "p \<in> set ps \<Longrightarrow> \<exists>k. k \<le> length (wire_protocols ps) \<and> take (length p) (drop k (wire_protocols ps)) = p"
proof -
  assume "p \<in> set ps"
  then obtain xs ys where ps: "ps = xs @ p # ys" by (meson split_list)
  show ?thesis by (rule exI[of _ "Suc (length (wire_protocols xs))"]) (simp add: ps wire_protocols_def)
qed

text \<open>The protocol that was agreed with the server is the answer to every client that offers it, and without one
  every client that offers HTTP/1.1 is answered with that.\<close>

theorem alpn_agrees:
  assumes "proto \<in> set offered" "length proto < 256"
    "arg = Some proto \<and> CHR 0x00 \<notin> set proto \<or> arg = None \<and> proto = default_alpn"
  shows "\<exists>sel. alpn_select_callback arg (wire_protocols offered) = Inr sel \<and> selected_protocol (wire_protocols offered) sel = proto"
proof -
  obtain k where "k \<le> length (wire_protocols offered)" "take (length proto) (drop k (wire_protocols offered)) = proto"
    using wire_offers[OF assms(1)] by blast
  then obtain j where j: "find_sub proto (wire_protocols offered) = Some j" using find_sub_there by blast
  then have "take (length proto) (drop j (wire_protocols offered)) = proto" by (simp add: find_sub_Some)
  moreover have "unat (of_nat (length proto) :: u8) = length proto" using assms(2) by (simp add: unat_of_nat)
  moreover have "c_string proto = proto" if "CHR 0x00 \<notin> set proto" using that by (auto simp: c_string_def takeWhile_eq_all_conv)
  ultimately show ?thesis using assms(3) j by (auto simp: alpn_select_callback_def selected_protocol_def)
qed

theorem alpn_agrees_witness:
  "\<exists>sel. alpn_select_callback (Some ''http/1.1'') (wire_protocols [''h2'', ''http/1.1'']) = Inr sel
    \<and> selected_protocol (wire_protocols [''h2'', ''http/1.1'']) sel = ''http/1.1''"
  by (rule alpn_agrees) simp_all

text \<open>The list is searched as text, so that a client which does not offer HTTP/1.1 is answered with it when the name is part
  of a protocol that it offers.\<close>

theorem alpn_not_offered:
  assumes "ps = pre @ (xs @ default_alpn @ ys) # post" "default_alpn \<notin> set ps"
  shows "\<exists>sel. alpn_select_callback None (wire_protocols ps) = Inr sel \<and> selected_protocol (wire_protocols ps) sel \<notin> set ps"
proof -
  let ?w = "wire_protocols ps"
  have "take (length default_alpn) (drop (length (wire_protocols pre) + 1 + length xs) ?w) = default_alpn"
    by (simp add: assms(1) wire_protocols_def)
  moreover have "length (wire_protocols pre) + 1 + length xs \<le> length ?w" by (simp add: assms(1) wire_protocols_def)
  ultimately obtain j where j: "find_sub default_alpn ?w = Some j" using find_sub_there by blast
  then have "take (length default_alpn) (drop j ?w) = default_alpn" by (simp add: find_sub_Some)
  moreover have "unat (of_nat (length default_alpn) :: u8) = length default_alpn" by (simp add: default_alpn_def)
  moreover have "alpn_select_callback None ?w = Inr (j, of_nat (length default_alpn))" using j by (simp add: alpn_select_callback_def)
  ultimately show ?thesis using assms(2) by (simp add: selected_protocol_def)
qed

theorem alpn_not_offered_witness:
  "\<exists>sel. alpn_select_callback None (wire_protocols [''h2'', ''x-http/1.1'']) = Inr sel
    \<and> selected_protocol (wire_protocols [''h2'', ''x-http/1.1'']) sel \<notin> set [''h2'', ''x-http/1.1'']"
  by (rule alpn_not_offered[where pre = "[''h2'']" and xs = "''x-''" and ys = "[]" and post = "[]"]) (simp_all add: default_alpn_def)

end
