(* ===== verification/Tls_Service.thy ===== *)
theory Tls_Service
  imports Ssl_Context Client_Hello Server_Store Services
begin

text \<open>
  tls/tls_service.{hpp,cpp}: the service behind a CONNECT, which reads the ClientHello, connects to the server, and makes TLS
  connections with both ends.

  \<^item> \<open>ts_wait\<close> is the callback the service waits for; \<open>tls_step\<close> runs it with the library's result.  A client handshake that
    fails never calls back (\<open>Tw_lost\<close>, see \<open>client_handshake_done\<close>).
  \<^item> the certificate store is shared by all services: \<open>Te_store\<close> is the work of others on it.
  \<^item> a certificate of OpenSSL is a number; OpenSSL's answers are \<open>tls_lib\<close>, the interceptors are functions on the flow.  An exception
    or undefined behaviour ends the service in \<open>Tw_crashed\<close>.
\<close>

section \<open>State\<close>

record 'k tls_lib = ssl_lib +
  sl_set_host_name :: "string \<Rightarrow> bool"
  sl_verify_param :: "string \<Rightarrow> nat \<times> nat \<times> nat"
  sl_use_private_key :: "'k \<Rightarrow> bool"
  sl_use_certificate :: "certificate \<Rightarrow> bool"
  sl_add_chain_cert :: "certificate \<Rightarrow> bool"
  sl_set_tmp_dh :: "'k \<Rightarrow> bool"

record 'k tls_env =
  tv_timeouts :: timeouts
  tv_ssl_verify :: nat
  tv_server_method :: ssl_method
  tv_client_method :: ssl_method
  tv_negotiate_alpn :: bool
  tv_negotiate_ciphers :: bool
  tv_supply_chain :: bool
  tv_cert_file :: string
  tv_lib :: "'k tls_lib"
  tv_store_env :: "(certificate, 'k) store_env"
  tv_tls_hook :: "tls_event \<Rightarrow> flow \<Rightarrow> flow"
  tv_server_hook :: "server_event \<Rightarrow> flow \<Rightarrow> flow"
  tv_certificate_hook :: "ssl_certificate_event \<Rightarrow> flow \<times> certificate_interface \<Rightarrow> flow \<times> certificate_interface"
  tv_peek :: "flow \<Rightarrow> boost_error"

record 'k server_context_args =
  sc_base_args :: ssl_context_args
  sc_cert :: certificate
  sc_pkey :: 'k
  sc_dhpkey :: "'k option"
  sc_cert_chain :: "certificate list option"

datatype tls_wait =
  Tw_none
| Tw_client_hello io_op
| Tw_connect connect_step
| Tw_server_handshake
| Tw_client_handshake
| Tw_lost
| Tw_stopped
| Tw_switched service_kind
| Tw_crashed "error_state failure"

record 'k tls_service =
  ts_flow :: flow
  ts_store :: "(certificate, 'k) server_store"
  ts_reader :: handshake_reader
  ts_hello :: "client_hello option"
  ts_client_args :: "ssl_context_args option"
  ts_server_args :: "'k server_context_args option"
  ts_wait :: tls_wait

definition tls_service_new :: "(certificate, 'k) server_store \<Rightarrow> flow \<Rightarrow> 'k tls_service" where
  "tls_service_new store w = \<lparr>ts_flow = w, ts_store = store, ts_reader = handshake_reader_new, ts_hello = None,
     ts_client_args = None, ts_server_args = None, ts_wait = Tw_none\<rparr>"

definition default_client_ciphers :: "cipher_suite list" where
  "default_client_ciphers = [0xc02b, 0xc02f, 0xc02c, 0xc030, 0xcc14, 0xcc13, 0x9e, 0x9f, 0xcc15, 0xc023, 0xc027, 0xc009, 0xc013,
     0xc024, 0xc028, 0xc00a, 0xc014, 0x67, 0x6b, 0x9c, 0x9d, 0x3c, 0x3d, 0x2f, 0x35, 0x0a]"

definition upd_tls_flow :: "(flow \<Rightarrow> flow) \<Rightarrow> 'k tls_service \<Rightarrow> 'k tls_service" where
  "upd_tls_flow f s = s\<lparr>ts_flow := f (ts_flow s)\<rparr>"

definition tls_stop :: "'k tls_service \<Rightarrow> 'k tls_service" where
  "tls_stop s = (upd_tls_flow flow_disconnect s)\<lparr>ts_wait := Tw_stopped\<rparr>"

definition tls_switch :: "service_kind \<Rightarrow> 'k tls_service \<Rightarrow> 'k tls_service" where
  "tls_switch k s = s\<lparr>ts_wait := Tw_switched k\<rparr>"

definition tls_crash :: "error_state failure \<Rightarrow> 'k tls_service \<Rightarrow> 'k tls_service" where
  "tls_crash f s = s\<lparr>ts_wait := Tw_crashed f\<rparr>"

text \<open>What both \<^verbatim>\<open>establish_tls_with\<close> methods do with an error of the inner one.\<close>

definition tls_fail :: "error_state failure \<Rightarrow> 'k tls_service \<Rightarrow> 'k tls_service" where
  "tls_fail f s = (case f of Error e \<Rightarrow> tls_stop (upd_tls_flow (set_flow_error (\<lambda>_. e)) s) | _ \<Rightarrow> tls_crash f s)"

section \<open>The client's side\<close>

text \<open>\<^verbatim>\<open>cert_interface.sans.insert\<close> for every name.\<close>

definition insert_sans :: "string list \<Rightarrow> certificate_interface \<Rightarrow> certificate_interface" where
  "insert_sans names ci = ci\<lparr>ci_sans := fold sset_insert names (ci_sans ci)\<rparr>"

text \<open>The names of a server's certificate, once TLS is established with it.\<close>

definition add_server_certificate :: "(certificate, 'k) x509_api \<Rightarrow> certificate \<Rightarrow> certificate_interface \<Rightarrow> certificate_interface result" where
  "add_server_certificate api cert ci = (let ci1 = insert_sans (cert_sans api cert) ci in
     rbind (cert_common_name api cert) (\<lambda>cn.
       let ci2 = (case cn of None \<Rightarrow> ci1 | Some name \<Rightarrow> insert_sans [name] ci1) in
     rbind (cert_organization api cert) (\<lambda>org.
       Inr (case org of None \<Rightarrow> ci2 | Some name \<Rightarrow> ci2\<lparr>ci_organization := Some name\<rparr>))))"

definition server_interface :: "(certificate, 'k) x509_api \<Rightarrow> server_conn \<Rightarrow> certificate_interface result" where
  "server_interface api c = (if \<not> cn_connected c then Inr certificate_interface_new
     else let ci = certificate_interface_new\<lparr>ci_common_name := Some (sv_host c)\<rparr> in
       if \<not> secured c then Inr ci
       else case sv_cert c of None \<Rightarrow> Inl Undefined | Some cert \<Rightarrow> add_server_certificate api cert ci)"

text \<open>The interface that is searched for, before the interceptors see it.\<close>

definition client_interface :: "(certificate, 'k) x509_api \<Rightarrow> flow \<Rightarrow> client_hello \<Rightarrow> certificate_interface result" where
  "client_interface api w hello = rbind (server_interface api (fl_server w)) (\<lambda>ci.
     let ci1 = insert_sans (map sn_host_name (ch_server_names hello)) ci in
       Inr (case ci_common_name ci1 of None \<Rightarrow> ci1 | Some cn \<Rightarrow> insert_sans [cn] ci1))"

definition run_certificate :: "'k tls_env \<Rightarrow> ssl_certificate_event \<Rightarrow> certificate_interface \<Rightarrow> 'k tls_service \<Rightarrow>
    certificate_interface \<times> 'k tls_service" where
  "run_certificate env ev ci s = (case tv_certificate_hook env ev (ts_flow s, ci) of (w, ci1) \<Rightarrow> (ci1, s\<lparr>ts_flow := w\<rparr>))"

definition get_certificate_for_client :: "'k tls_env \<Rightarrow> 'k tls_service \<Rightarrow> (certificate, 'k) memory_certificate result \<times> 'k tls_service" where
  "get_certificate_for_client env s = (case ts_hello s of
     None \<Rightarrow> (Inl Undefined, s)
   | Some hello \<Rightarrow> (case client_interface (se_api (tv_store_env env)) (ts_flow s) hello of
       Inl f \<Rightarrow> (Inl f, s)
     | Inr ci \<Rightarrow> (case run_certificate env Ssl_certificate_search ci s of (ci1, s1) \<Rightarrow>
         (case get_certificate ci1 (ts_store s1) of
            Some cert \<Rightarrow> (Inr cert, s1)
          | None \<Rightarrow> (case run_certificate env Ssl_certificate_create ci1 s1 of (ci2, s2) \<Rightarrow>
              (case create_certificate (tv_store_env env) ci2 (ts_store s2) of (r, store) \<Rightarrow> (r, s2\<lparr>ts_store := store\<rparr>)))))))"

definition server_args :: "'k tls_env \<Rightarrow> (certificate, 'k) memory_certificate \<Rightarrow> 'k tls_service \<Rightarrow> 'k server_context_args" where
  "server_args env cert s = (let server = fl_server (ts_flow s); method = tv_client_method env in
     \<lparr>sc_base_args = \<lparr>sa_verify = verify_none, sa_method = method, sa_options = get_options_for_method method,
        sa_verify_file = mc_chain_file cert, sa_verify_callback = True, sa_cipher_suites = default_client_ciphers,
        sa_alpn_protos = [], sa_alpn_select_callback = True,
        sa_server_alpn = (if secured server then Some (cn_alpn server) else None)\<rparr>,
      sc_cert = mc_cert cert, sc_pkey = mc_pkey cert, sc_dhpkey = ss_dhpkey (ts_store s),
      sc_cert_chain = (if tv_supply_chain env \<and> cn_connected server \<and> secured server then Some (sv_cert_chain server) else None)\<rparr>)"

definition ssl_answers_for :: "'k tls_lib \<Rightarrow> 'k server_context_args \<Rightarrow> ssl_answers" where
  "ssl_answers_for lib args = \<lparr>sa_context = map_sum id (\<lambda>_. ()) (create_ssl_context (ssl_lib.truncate lib) (sc_base_args args)),
     sa_private_key = sl_use_private_key lib (sc_pkey args), sa_certificate = sl_use_certificate lib (sc_cert args),
     sa_chain = (case sc_cert_chain args of None \<Rightarrow> [] | Some chain \<Rightarrow> map (sl_add_chain_cert lib) chain),
     sa_dh = map_option (sl_set_tmp_dh lib) (sc_dhpkey args)\<rparr>"

definition establish_tls_with_client_impl :: "'k tls_env \<Rightarrow> 'k tls_service \<Rightarrow> unit result \<times> 'k tls_service" where
  "establish_tls_with_client_impl env s = (case get_certificate_for_client env s of
     (Inl f, s1) \<Rightarrow> (Inl f, s1)
   | (Inr cert, s1) \<Rightarrow> let args = server_args env cert s1; s2 = s1\<lparr>ts_server_args := Some args\<rparr> in
       (case client_establish_tls (ssl_answers_for (tv_lib env) args) (sc_cert args) (fl_client (ts_flow s2)) of
          (r, c) \<Rightarrow> (r, (upd_tls_flow (upd_client (\<lambda>_. c)) s2)\<lparr>ts_wait := Tw_client_handshake\<rparr>)))"

definition establish_tls_with_client :: "'k tls_env \<Rightarrow> 'k tls_service \<Rightarrow> 'k tls_service" where
  "establish_tls_with_client env s = (case establish_tls_with_client_impl env s of
     (Inl f, s1) \<Rightarrow> tls_fail f s1 | (Inr _, s1) \<Rightarrow> s1)"

definition on_establish_tls_with_client :: "'k tls_env \<Rightarrow> boost_error \<Rightarrow> 'k tls_service \<Rightarrow> 'k tls_service" where
  "on_establish_tls_with_client env e s = (if e \<noteq> Boost_success
     then tls_stop (upd_tls_flow (tv_tls_hook env Tls_error)
       (upd_tls_flow (set_flow_error (set_proxy_error downstream_handshake_failed \<circ> set_boost_error e)) s))
     else let s1 = upd_tls_flow (tv_tls_hook env Tls_established) s; alpn = cn_alpn (fl_client (ts_flow s1)) in
       if alpn = ''http/1.1'' \<or> alpn = [] then tls_switch Kind_http s1
       else if \<not> has_error (fl_error (ts_flow s1)) then tls_switch Kind_tunnel s1
       else tls_stop s1)"

section \<open>The server's side\<close>

definition sv_rfind :: "string \<Rightarrow> string \<Rightarrow> nat option" where
  "sv_rfind pat s = (case filter (\<lambda>i. take (length pat) (drop i s) = pat) (rev [0..<Suc (length s)]) of [] \<Rightarrow> None | i # is \<Rightarrow> Some i)"

definition server_alpn_protos :: "'k tls_env \<Rightarrow> client_hello \<Rightarrow> client_conn \<Rightarrow> string list" where
  "server_alpn_protos env hello client = (
     if secured client then [cn_alpn client]
     else if has_alpn_extension hello \<and> \<not> tv_negotiate_alpn env
     then filter (\<lambda>p. p \<noteq> ''h2'') (filter (\<lambda>p. \<not> (sv_rfind ''h2-'' p = Some 0 \<or> p = ''SPDY'')) (ch_alpn hello))
     else [default_alpn])"

definition client_args :: "'k tls_env \<Rightarrow> client_hello \<Rightarrow> client_conn \<Rightarrow> ssl_context_args" where
  "client_args env hello client = \<lparr>sa_verify = tv_ssl_verify env, sa_method = tv_server_method env,
     sa_options = get_options_for_method (tv_server_method env), sa_verify_file = tv_cert_file env, sa_verify_callback = False,
     sa_cipher_suites = (if \<not> tv_negotiate_ciphers env then filter cipher_is_valid (ch_cipher_suites hello) else []),
     sa_alpn_protos = server_alpn_protos env hello client, sa_alpn_select_callback = False, sa_server_alpn = None\<rparr>"

definition verification_of :: "'k tls_lib \<Rightarrow> string \<Rightarrow> unit result" where
  "verification_of lib host = (case sl_verify_param lib host of (a, b, c) \<Rightarrow> enable_hostname_verification a b c)"

definition establish_tls_with_server_impl :: "'k tls_env \<Rightarrow> 'k tls_service \<Rightarrow> unit result \<times> 'k tls_service" where
  "establish_tls_with_server_impl env s = (case ts_hello s of
     None \<Rightarrow> (err_with tls_service_error ''Must parse Client Hello message before establishing TLS with server'', s)
   | Some hello \<Rightarrow> let args = client_args env hello (fl_client (ts_flow s)); s1 = s\<lparr>ts_client_args := Some args\<rparr>;
         server = fl_server (ts_flow s1); lib = tv_lib env in
       (case server_establish_tls (map_sum id (\<lambda>_. ()) (create_ssl_context (ssl_lib.truncate lib) args)) (sl_set_host_name lib (sv_host server))
            (verification_of lib (sv_host server)) server of
          (r, c) \<Rightarrow> (r, (upd_tls_flow (upd_server (\<lambda>_. c)) s1)\<lparr>ts_wait := Tw_server_handshake\<rparr>)))"

definition establish_tls_with_server :: "'k tls_env \<Rightarrow> 'k tls_service \<Rightarrow> 'k tls_service" where
  "establish_tls_with_server env s = (case establish_tls_with_server_impl env s of
     (Inl f, s1) \<Rightarrow> tls_fail f s1 | (Inr _, s1) \<Rightarrow> s1)"

definition server_text :: "string \<Rightarrow> flow \<Rightarrow> string" where
  "server_text prefix w = prefix @ sv_host (fl_server w) @ '':'' @ decimal (unat (sv_port (fl_server w)))"

text \<open>An error of the server is kept in the flow and told the client later.\<close>

definition upstream_error :: "'k tls_env \<Rightarrow> errc \<Rightarrow> string \<Rightarrow> boost_error \<Rightarrow> 'k tls_service \<Rightarrow> 'k tls_service" where
  "upstream_error env code prefix e s = upd_tls_flow (tv_tls_hook env Tls_error) (upd_tls_flow (set_flow_error
     (set_message (server_text prefix (ts_flow s)) \<circ> set_proxy_error code \<circ> set_boost_error e)) s)"

definition on_establish_tls_with_server :: "'k tls_env \<Rightarrow> boost_error \<Rightarrow> 'k tls_service \<Rightarrow> 'k tls_service" where
  "on_establish_tls_with_server env e s = establish_tls_with_client env
     (if e \<noteq> Boost_success then upstream_error env upstream_handshake_failed ''Could not establish TLS with '' e s else s)"

definition tls_on_connect_server :: "'k tls_env \<Rightarrow> boost_error \<Rightarrow> 'k tls_service \<Rightarrow> 'k tls_service" where
  "tls_on_connect_server env e s = (if e \<noteq> Boost_success
     then establish_tls_with_client env (upstream_error env upstream_connect_error ''Could not connect to '' e s)
     else establish_tls_with_server env s)"

definition tls_connect_server :: "'k tls_env \<Rightarrow> 'k tls_service \<Rightarrow> 'k tls_service" where
  "tls_connect_server env s = (case flow_connect_server_async (tv_timeouts env) (tv_peek env (ts_flow s)) (ts_flow s) of
     (step, w) \<Rightarrow> s\<lparr>ts_flow := w, ts_wait := Tw_connect step\<rparr>)"

section \<open>The ClientHello\<close>

definition handle_not_client_hello :: "'k tls_service \<Rightarrow> 'k tls_service" where
  "handle_not_client_hello s = tls_switch Kind_tunnel s"

definition handle_client_hello :: "'k tls_env \<Rightarrow> 'k tls_service \<Rightarrow> 'k tls_service" where
  "handle_client_hello env s = (case from_raw_data (get_bytes (ts_reader s)) of
     Inr message \<Rightarrow> tls_connect_server env (s\<lparr>ts_hello := Some message\<rparr>)
   | Inl (Error e) \<Rightarrow> handle_not_client_hello s
   | Inl f \<Rightarrow> tls_crash f s)"

definition read_client_hello :: "'k tls_env \<Rightarrow> 'k tls_service \<Rightarrow> 'k tls_service" where
  "read_client_hello env s = (case read_async (tv_timeouts env) default_buffer_size (fl_client (ts_flow s)) of
     (op, c) \<Rightarrow> (upd_tls_flow (upd_client (\<lambda>_. c)) s)\<lparr>ts_wait := Tw_client_hello op\<rparr>)"

text \<open>The reader itself raises nothing but exceptions.\<close>

definition on_read_client_hello :: "'k tls_env \<Rightarrow> boost_error \<Rightarrow> nat \<Rightarrow> 'k tls_service \<Rightarrow> 'k tls_service" where
  "on_read_client_hello env e n s = (if e \<noteq> Boost_success then handle_not_client_hello s
     else case handshake_read (cn_input (fl_client (ts_flow s))) n (ts_reader s) of
       Inl f \<Rightarrow> tls_crash (case f of Exception x \<Rightarrow> Exception x | Diverges \<Rightarrow> Diverges | _ \<Rightarrow> Undefined) s
     | Inr (remaining, r) \<Rightarrow> let s1 = s\<lparr>ts_reader := r\<rparr> in
         (case remaining of
            Inl (Error err_state) \<Rightarrow> handle_not_client_hello s1
          | Inl f \<Rightarrow> tls_crash f s1
          | Inr k \<Rightarrow> if k = 0 then handle_client_hello env s1 else read_client_hello env s1))"

definition tls_start :: "'k tls_env \<Rightarrow> 'k tls_service \<Rightarrow> 'k tls_service" where
  "tls_start env s = read_client_hello env s"

section \<open>Steps\<close>

datatype 'k tls_io =
  Te_client_read string boost_error
| Te_server_resolved boost_error "endpoint list"
| Te_server_connected boost_error
| Te_connect_posted
| Te_server_handshake boost_error certificate "certificate list" "string option"
| Te_client_handshake boost_error ssl_details
| Te_store "(certificate, 'k) server_store"

definition tls_connect_step :: "(server_conn \<Rightarrow> connect_step \<times> server_conn) \<Rightarrow> 'k tls_service \<Rightarrow> 'k tls_service" where
  "tls_connect_step f s = (case f (fl_server (ts_flow s)) of
     (step, c) \<Rightarrow> (upd_tls_flow (upd_server (\<lambda>_. c)) s)\<lparr>ts_wait := Tw_connect step\<rparr>)"

text \<open>The client's handshake; the handler is only posted when it has succeeded.\<close>

definition client_handshake_end :: "'k tls_env \<Rightarrow> boost_error \<Rightarrow> ssl_details \<Rightarrow> 'k tls_service \<Rightarrow> 'k tls_service" where
  "client_handshake_end env e d s = (case client_handshake_done e d (fl_client (ts_flow s)) of
     Inl f \<Rightarrow> tls_crash (case f of Exception x \<Rightarrow> Exception x | Diverges \<Rightarrow> Diverges | _ \<Rightarrow> Undefined) s
   | Inr (posted, c) \<Rightarrow> let s1 = upd_tls_flow (upd_client (\<lambda>_. c)) s in
       if posted then on_establish_tls_with_client env e s1 else s1\<lparr>ts_wait := Tw_lost\<rparr>)"

definition tls_step :: "'k tls_env \<Rightarrow> 'k tls_io \<Rightarrow> 'k tls_service \<Rightarrow> 'k tls_service" where
  "tls_step env ev s = (case (ts_wait s, ev) of
     (_, Te_store store) \<Rightarrow> s\<lparr>ts_store := store\<rparr>
   | (Tw_client_hello op, Te_client_read got e) \<Rightarrow>
       on_read_client_hello env e (length got) (upd_tls_flow (upd_client (on_read_need_to_commit got e)) s)
   | (Tw_connect (Resolving host port), Te_server_resolved e eps) \<Rightarrow> tls_connect_step (on_resolve (tv_timeouts env) e eps) s
   | (Tw_connect (Connecting ep rest), Te_server_connected e) \<Rightarrow> tls_connect_step (on_connect (tv_timeouts env) e rest) s
   | (Tw_connect (Connect_posted e), Te_connect_posted) \<Rightarrow>
       tls_on_connect_server env e (upd_tls_flow (base_on_connect_server (tv_server_hook env) e) s)
   | (Tw_server_handshake, Te_server_handshake e cert chain proto) \<Rightarrow>
       on_establish_tls_with_server env e (upd_tls_flow (upd_server (server_on_handshake e cert chain proto)) s)
   | (Tw_client_handshake, Te_client_handshake e d) \<Rightarrow> client_handshake_end env e d s
   | _ \<Rightarrow> s)"

inductive tls_reachable :: "'k tls_env \<Rightarrow> 'k tls_service \<Rightarrow> bool" for env where
  started: "tls_reachable env (tls_start env (tls_service_new store w))"
| stepped: "tls_reachable env s \<Longrightarrow> tls_reachable env (tls_step env ev s)"

end
