(* ===== verification/Tls_Facts.thy ===== *)
theory Tls_Facts
  imports Tls_Service Client_Hello_Facts Tunnel_Facts Http_Service_Facts
begin

text \<open>
  The TLS service: what it waits for, the names it asks a certificate for, what becomes of data that is no TLS, of a server that
  fails, and of a client that breaks its handshake off.
\<close>

section \<open>The invariant\<close>

definition tls_inv :: "'k tls_service \<Rightarrow> bool" where
  "tls_inv s = (case ts_wait s of
     Tw_none \<Rightarrow> False
   | Tw_client_hello op \<Rightarrow> cn_read_state (fl_client (ts_flow s)) = Op_pending \<and> ts_hello s = None
   | Tw_connect step \<Rightarrow> ts_hello s \<noteq> None
   | Tw_server_handshake \<Rightarrow> ts_hello s \<noteq> None \<and> ts_client_args s \<noteq> None \<and> cn_has_secure_socket (fl_server (ts_flow s))
   | Tw_client_handshake \<Rightarrow> ts_hello s \<noteq> None \<and> ts_server_args s \<noteq> None \<and> cn_has_secure_socket (fl_client (ts_flow s))
   | Tw_lost \<Rightarrow> \<not> cn_connected (fl_client (ts_flow s))
   | Tw_stopped \<Rightarrow> \<not> cn_open (fl_client (ts_flow s)) \<and> \<not> cn_open (fl_server (ts_flow s))
   | Tw_switched k \<Rightarrow> k = Kind_http \<or> k = Kind_tunnel
   | Tw_crashed f \<Rightarrow> True)"

lemma tls_flow_simps [simp]: "ts_flow (upd_tls_flow f s) = f (ts_flow s)" "ts_hello (upd_tls_flow f s) = ts_hello s"
  "ts_wait (upd_tls_flow f s) = ts_wait s" "ts_reader (upd_tls_flow f s) = ts_reader s"
  "ts_client_args (upd_tls_flow f s) = ts_client_args s" "ts_server_args (upd_tls_flow f s) = ts_server_args s"
  by (simp_all add: upd_tls_flow_def)

lemma tls_stop_inv [simp]: "tls_inv (tls_stop s)"
  by (simp add: tls_inv_def tls_stop_def flow_disconnect_def upd_client_def upd_server_def)

lemma tls_crash_inv [simp]: "tls_inv (tls_crash f s)"
  by (simp add: tls_inv_def tls_crash_def)

lemma tls_fail_inv [simp]: "tls_inv (tls_fail f s)"
  by (simp add: tls_fail_def split: failure.split)

lemma run_certificate_frame: "run_certificate env ev ci s = (ci1, s1) \<Longrightarrow> ts_hello s1 = ts_hello s"
  by (auto simp: run_certificate_def split: prod.splits)

lemma get_certificate_hello: "get_certificate_for_client env s = (r, s1) \<Longrightarrow> ts_hello s1 = ts_hello s"
  by (auto simp: get_certificate_for_client_def split: option.splits sum.splits prod.splits dest!: run_certificate_frame)

lemma client_establish_socket: "client_establish_tls a cert c = (Inr u, c1) \<Longrightarrow> cn_has_secure_socket c1"
  by (auto simp: client_establish_tls_def Let_def split: sum.splits if_splits)

lemma server_establish_socket: "server_establish_tls x b v c = (Inr u, c1) \<Longrightarrow> cn_has_secure_socket c1"
  by (auto simp: server_establish_tls_def Let_def split: sum.splits if_splits)

lemma establish_client_inv: "ts_hello s \<noteq> None \<Longrightarrow> tls_inv (establish_tls_with_client env s)"
  by (auto simp: establish_tls_with_client_def establish_tls_with_client_impl_def tls_inv_def[of "_ \<lparr>ts_wait := _\<rparr>"] Let_def upd_client_def
    split: sum.splits prod.splits dest!: get_certificate_hello client_establish_socket)

lemma establish_server_inv: "ts_hello s \<noteq> None \<Longrightarrow> tls_inv (establish_tls_with_server env s)"
  by (auto simp: establish_tls_with_server_def establish_tls_with_server_impl_def tls_inv_def[of "_ \<lparr>ts_wait := _\<rparr>"] Let_def upd_server_def
    split: sum.splits prod.splits dest!: server_establish_socket)

lemma on_connect_inv: "ts_hello s \<noteq> None \<Longrightarrow> tls_inv (tls_on_connect_server env e s)"
  by (simp add: tls_on_connect_server_def establish_client_inv establish_server_inv upstream_error_def)

lemma read_hello_inv: "ts_hello s = None \<Longrightarrow> tls_inv (read_client_hello env s)"
  by (simp add: read_client_hello_def tls_inv_def read_async_def upd_client_def conn_set_timeout_def upd_timer_def set_reading_def split: io_mode.split)

lemma switch_inv: "k = Kind_http \<or> k = Kind_tunnel \<Longrightarrow> tls_inv (tls_switch k s)"
  by (simp add: tls_switch_def tls_inv_def)

lemma connect_inv: "ts_hello s \<noteq> None \<Longrightarrow> tls_inv (tls_connect_server env s)"
  by (simp add: tls_connect_server_def tls_inv_def split: prod.split)

lemma handle_hello_inv: "tls_inv (handle_client_hello env s)"
  by (simp add: handle_client_hello_def connect_inv handle_not_client_hello_def switch_inv split: sum.split failure.split)

lemma on_read_hello_inv: "ts_hello s = None \<Longrightarrow> tls_inv (on_read_client_hello env e n s)"
  by (simp add: on_read_client_hello_def handle_not_client_hello_def switch_inv Let_def handle_hello_inv read_hello_inv
    split: sum.split failure.split prod.split)

lemma on_client_inv: "tls_inv (on_establish_tls_with_client env e s)"
  by (simp add: on_establish_tls_with_client_def Let_def switch_inv)

lemma handshake_not_posted:
  assumes "client_handshake_done e d c = Inr (False, c1)"
  shows "\<not> cn_connected c1"
proof -
  obtain r c0 where r: "client_on_handshake e d c = (r, c0)" by fastforce
  then show ?thesis
  proof (cases r)
    case (Inl f)
    with assms r show ?thesis by (cases f) (auto simp: client_handshake_done_def set_connected_def)
  next
    case (Inr u)
    then have "client_on_handshake e d c = (Inr (), c0)" using r by simp
    then have "client_handshake_done e d c = Inr (True, c0)" unfolding client_handshake_done_def by (simp only: prod.case sum.case unit.case)
    with assms show ?thesis by simp
  qed
qed

lemma lost_inv: "\<not> cn_connected (fl_client (ts_flow s)) \<Longrightarrow> tls_inv (s\<lparr>ts_wait := Tw_lost\<rparr>)"
  by (simp add: tls_inv_def)

lemma client_handshake_inv: "tls_inv (client_handshake_end env e d s)"
proof (cases "client_handshake_done e d (fl_client (ts_flow s))")
  case (Inr pc)
  obtain p c where "pc = (p, c)" by fastforce
  with Inr show ?thesis
    by (cases p) (auto simp: client_handshake_end_def on_client_inv Let_def upd_client_def intro!: lost_inv dest: handshake_not_posted)
qed (simp add: client_handshake_end_def)

lemma store_inv: "tls_inv s \<Longrightarrow> tls_inv (s\<lparr>ts_store := store\<rparr>)"
  by (simp add: tls_inv_def split: tls_wait.splits)

lemma connect_step_inv: "tls_inv s \<Longrightarrow> ts_wait s = Tw_connect step \<Longrightarrow> tls_inv (tls_connect_step f s)"
  by (simp add: tls_inv_def tls_connect_step_def split: prod.split)

lemma tls_step_inv:
  assumes "tls_inv s"
  shows "tls_inv (tls_step env ev s)"
proof (cases ev)
  case (Te_client_read got e)
  with assms show ?thesis
    by (cases "ts_wait s") (auto simp: tls_step_def tls_inv_def[of s] split: connect_step.split intro: on_read_hello_inv)
next
  case (Te_server_handshake e cert chain proto)
  with assms show ?thesis
    by (cases "ts_wait s") (auto simp: tls_step_def tls_inv_def[of s] on_establish_tls_with_server_def upstream_error_def
      split: connect_step.split intro: establish_client_inv)
next
  case (Te_server_resolved e eps)
  with assms show ?thesis by (cases "ts_wait s") (auto simp: tls_step_def connect_step_inv split: connect_step.split)
next
  case (Te_server_connected e)
  with assms show ?thesis by (cases "ts_wait s") (auto simp: tls_step_def connect_step_inv split: connect_step.split)
next
  case Te_connect_posted
  have "ts_hello s \<noteq> None" if "ts_wait s = Tw_connect step" for step using assms that by (simp add: tls_inv_def)
  with assms Te_connect_posted show ?thesis
    by (cases "ts_wait s") (auto simp: tls_step_def split: connect_step.split intro!: on_connect_inv)
next
  case (Te_client_handshake e d)
  with assms show ?thesis by (cases "ts_wait s") (simp_all add: tls_step_def client_handshake_inv split: connect_step.split)
next
  case (Te_store store)
  have "tls_step env (Te_store store) s = s\<lparr>ts_store := store\<rparr>" by (cases "ts_wait s") (simp_all add: tls_step_def split: connect_step.split)
  with assms Te_store show ?thesis by (simp add: store_inv)
qed


section \<open>A client that breaks off\<close>

fun run_tls :: "'k tls_env \<Rightarrow> 'k tls_io list \<Rightarrow> 'k tls_service \<Rightarrow> 'k tls_service" where
  "run_tls env [] s = s"
| "run_tls env (ev # evs) s = run_tls env evs (tls_step env ev s)"

lemma lost_for_ever: "ts_wait s = Tw_lost \<Longrightarrow> ts_wait (run_tls env evs s) = Tw_lost \<and> ts_flow (run_tls env evs s) = ts_flow s"
proof (induction evs arbitrary: s)
  case (Cons ev evs)
  then have "ts_wait (tls_step env ev s) = Tw_lost \<and> ts_flow (tls_step env ev s) = ts_flow s"
    by (cases ev) (simp_all add: tls_step_def)
  with Cons.IH[of "tls_step env ev s"] show ?case by simp
qed simp

text \<open>C20: a client whose handshake fails leaves its service for ever: no error is recorded or told to the interceptors, whatever
  happens afterwards changes nothing, and the sockets stay open.\<close>

theorem failed_handshake_stuck:
  assumes "ts_wait s = Tw_client_handshake" "e \<noteq> Boost_success"
  shows "let s1 = run_tls env (Te_client_handshake e d # evs) s in ts_wait s1 = Tw_lost \<and> fl_error (ts_flow s1) = fl_error (ts_flow s)
    \<and> cn_open (fl_client (ts_flow s1)) = cn_open (fl_client (ts_flow s)) \<and> fl_server (ts_flow s1) = fl_server (ts_flow s)"
proof -
  let ?s = "tls_step env (Te_client_handshake e d) s"
  have "ts_wait ?s = Tw_lost \<and> fl_error (ts_flow ?s) = fl_error (ts_flow s) \<and> cn_open (fl_client (ts_flow ?s)) = cn_open (fl_client (ts_flow s))
      \<and> fl_server (ts_flow ?s) = fl_server (ts_flow s)"
    using assms by (simp add: tls_step_def client_handshake_end_def client_handshake_done_def client_on_handshake_def upd_client_def set_connected_def Let_def)
  with lost_for_ever[of ?s env evs] show ?thesis by (simp add: Let_def)
qed

section \<open>The names of the certificate\<close>

lemma set_insert_sans [simp]: "set (ci_sans (insert_sans names ci)) = set names \<union> set (ci_sans ci)"
  "ci_common_name (insert_sans names ci) = ci_common_name ci"
proof -
  have "set (fold sset_insert names ts) = set names \<union> set ts" for ts by (induction names arbitrary: ts) auto
  then show "set (ci_sans (insert_sans names ci)) = set names \<union> set (ci_sans ci)" "ci_common_name (insert_sans names ci) = ci_common_name ci"
    by (simp_all add: insert_sans_def)
qed

lemma insert_sans_ok: "sset_ok (ci_sans ci) \<Longrightarrow> sset_ok (ci_sans (insert_sans names ci))"
proof -
  have "sset_ok ts \<Longrightarrow> sset_ok (fold sset_insert names ts)" for ts by (induction names arbitrary: ts) (simp_all add: sset_insert_ok)
  then show "sset_ok (ci_sans ci) \<Longrightarrow> sset_ok (ci_sans (insert_sans names ci))" by (simp add: insert_sans_def)
qed

definition certificate_name :: "(certificate, 'k) x509_api \<Rightarrow> certificate \<Rightarrow> string set" where
  "certificate_name api cert = (case cert_common_name api cert of Inr (Some name) \<Rightarrow> {name} | _ \<Rightarrow> {})"

lemma server_interface_names:
  assumes "server_interface api c = Inr ci" "cn_connected c" "secured c" "sv_cert c = Some cert"
  shows "ci_common_name ci = Some (sv_host c) \<and> set (ci_sans ci) = set (cert_sans api cert) \<union> certificate_name api cert \<and> sset_ok (ci_sans ci)"
proof -
  let ?ci = "insert_sans (cert_sans api cert) (certificate_interface_new\<lparr>ci_common_name := Some (sv_host c)\<rparr>)"
  let ?ci2 = "\<lambda>cn. case cn of None \<Rightarrow> ?ci | Some name \<Rightarrow> insert_sans [name] ?ci"
  have "add_server_certificate api cert (certificate_interface_new\<lparr>ci_common_name := Some (sv_host c)\<rparr>) = Inr ci"
    using assms by (simp add: server_interface_def)
  then obtain cn org where cn: "cert_common_name api cert = Inr cn"
    and ci: "ci = (case org of None \<Rightarrow> ?ci2 cn | Some name \<Rightarrow> (?ci2 cn)\<lparr>ci_organization := Some name\<rparr>)"
    unfolding add_server_certificate_def Let_def rbind_eq_Inr by blast
  have "sset_ok (ci_sans ?ci)" by (rule insert_sans_ok) (simp add: certificate_interface_new_def sset_ok_def)
  then show ?thesis using cn
    by (cases org; cases cn) (auto simp: ci certificate_name_def certificate_interface_new_def intro!: insert_sans_ok)
qed

text \<open>C17: the certificate for the client is asked for in the name of the server's host, and for that name, the names of the server's
  certificate and the host names the client has asked for, each once and in order.\<close>

theorem certificate_names:
  assumes "client_interface api w hello = Inr ci" "cn_connected (fl_server w)" "secured (fl_server w)" "sv_cert (fl_server w) = Some cert"
  shows "ci_common_name ci = Some (sv_host (fl_server w))
    \<and> set (ci_sans ci) = {sv_host (fl_server w)} \<union> set (cert_sans api cert) \<union> certificate_name api cert \<union> sn_host_name ` set (ch_server_names hello)
    \<and> sset_ok (ci_sans ci)"
proof -
  obtain ci0 where c: "server_interface api (fl_server w) = Inr ci0" using assms(1) by (auto simp: client_interface_def rbind_eq_Inr)
  from server_interface_names[OF this assms(2-4)] c assms(1) show ?thesis
    by (auto simp: client_interface_def Let_def intro!: insert_sans_ok)
qed

section \<open>Data that is no ClientHello\<close>

lemma not_hello_flow: "ts_flow (handle_not_client_hello s) = ts_flow s"
  by (simp add: handle_not_client_hello_def tls_switch_def)

lemma connect_not_switched: "ts_wait (tls_connect_server env s) \<noteq> Tw_switched k"
  by (simp add: tls_connect_server_def split: prod.split)

lemma read_not_switched: "ts_wait (read_client_hello env s) \<noteq> Tw_switched k"
  by (simp add: read_client_hello_def split: prod.split)

lemma switched_keeps_flow: "ts_wait (on_read_client_hello env e n s) = Tw_switched k \<Longrightarrow> ts_flow (on_read_client_hello env e n s) = ts_flow s"
  by (auto simp: on_read_client_hello_def handle_client_hello_def not_hello_flow Let_def tls_crash_def connect_not_switched read_not_switched
    split: sum.splits failure.splits prod.splits if_splits)

text \<open>C12: what the client has sent when the service finds that it is no ClientHello, whether it is an error, another protocol or
  a malformed record, is given to the tunnel whole: the server is sent these bytes first, and then what follows.\<close>

theorem not_tls_is_tunnelled:
  assumes "ts_wait s = Tw_client_hello op" "ts_wait (tls_step env (Te_client_read got e) s) = Tw_switched Kind_tunnel" "tunnel_hooks_ok tenv"
  shows "let t = tunnel_start tenv (tunnel_service_new garbage (ts_flow (tls_step env (Te_client_read got e) s))) in
    given_out tenv Upstream evs t @ being_sent Upstream (run_tunnel tenv evs t)
      = cn_output (fl_server (ts_flow s)) @ cn_input (fl_client (ts_flow s)) @ got @ taken_in tenv Upstream evs t"
proof -
  have "ts_flow (tls_step env (Te_client_read got e) s) = upd_client (on_read_need_to_commit got e) (ts_flow s)"
    using assms(1,2) switched_keeps_flow[of env e "length got" "upd_tls_flow (upd_client (on_read_need_to_commit got e)) s"]
    by (simp add: tls_step_def)
  moreover have "in_transit Upstream (upd_client (on_read_need_to_commit got e) (ts_flow s))
      = cn_output (fl_server (ts_flow s)) @ cn_input (fl_client (ts_flow s)) @ got"
    by (simp add: in_transit_unfold upd_client_def)
  ultimately show ?thesis
    using tunnel_channel[OF assms(3), of Upstream evs garbage "ts_flow (tls_step env (Te_client_read got e) s)"] by (simp add: Let_def)
qed

section \<open>A server that fails\<close>

lemma client_side_error:
  assumes "\<And>ev v. fst (tv_certificate_hook env ev v) = fst v" "ts_wait (establish_tls_with_client env s) = Tw_client_handshake"
  shows "fl_error (ts_flow (establish_tls_with_client env s)) = fl_error (ts_flow s)"
proof -
  have run: "ts_flow (snd (run_certificate env ev ci v)) = ts_flow v" for ev ci and v :: "'a tls_service"
    using assms(1)[of ev "(ts_flow v, ci)"] by (simp add: run_certificate_def split_beta)
  have get: "ts_flow (snd (get_certificate_for_client env s)) = ts_flow s"
    using run[of Ssl_certificate_search _ s] run[of Ssl_certificate_create]
    by (auto simp: get_certificate_for_client_def split: option.split sum.split prod.split) (metis snd_conv)+
  obtain r s1 where g: "get_certificate_for_client env s = (r, s1)" by fastforce
  with get have flow: "ts_flow s1 = ts_flow s" by simp
  have fail: "ts_wait (tls_fail f v) \<noteq> Tw_client_handshake" for f and v :: "'a tls_service"
    by (simp add: tls_fail_def tls_stop_def tls_crash_def split: failure.split)
  then show ?thesis
    using assms(2) by (auto simp: establish_tls_with_client_def establish_tls_with_client_impl_def g flow Let_def upd_client_def
      split: sum.splits prod.splits)
qed

lemma http_reports:
  assumes "has_proxy_error (fl_error w)" "es_message (fl_error w) = text" "text \<noteq> []"
  shows "hv_wait (http_start henv (http_service_new m form w)) = W_error_response
    \<and> cn_output (fl_client (hv_flow (http_start henv (http_service_new m form w))))
      = cn_output (fl_client w) @ response_to_string (error_response status_bad_gateway text)"
  using assms by (simp add: http_start_def http_service_new_def get_message_or_proxy_def send_error_response_def start_client_op_def Let_def
    upd_flow_def upd_client_def upd_exchange_def split: prod.split) (auto simp: write_async_def set_writing_def)


section \<open>Examples\<close>

text \<open>An OpenSSL that accepts everything; its certificate 7 is that of \<^verbatim>\<open>a.com\<close>.\<close>

definition number_api :: "(certificate, unit) x509_api" where
  "number_api = \<lparr>xa_new = 0, xa_name_entry = \<lambda>n x. if n = Nid_common_name \<and> x = 7 then Entry_text (Some ''a.com'') else No_index,
     xa_general_names = \<lambda>x. Some [Dns_name (Some ''www.a.com''), Other_name], xa_set_version = \<lambda>_. Some,
     xa_set_serial = \<lambda>_. Some, xa_set_not_before = \<lambda>_. Some, xa_set_not_after = \<lambda>_. Some, xa_add_entry = \<lambda>_ _. Some,
     xa_set_issuer = \<lambda>_. Some, xa_set_pubkey = \<lambda>_. Some, xa_get_pubkey = \<lambda>_. Some (), xa_add_extension = \<lambda>_ _. Some,
     xa_sign = \<lambda>_. Some, xa_generate_key = \<lambda>_. Some (), xa_is_address = \<lambda>_. False\<rparr>"

definition number_env :: "(certificate, unit) store_env" where
  "number_env = \<lparr>se_api = number_api, se_integer_reader = \<lambda>_. None, se_cert_store_dir = [], se_cert_store_properties = [], se_dhparam_file = [],
     se_default_dhparam_file = [], se_strong_serial_numbers = False, se_exists = \<lambda>_. True, se_properties_text = Some [], se_open = \<lambda>_. True,
     se_read_key = \<lambda>_ _. Some (), se_read_cert = \<lambda>_ _. Some 1, se_write_key = \<lambda>_ _ _. True, se_write_cert = \<lambda>_ _. True,
     se_decoder = \<lambda>_. True, se_decode_dh = \<lambda>_. Some (), se_random_serial = 1, se_write_serial = \<lambda>_. True\<rparr>"

definition number_store :: "(certificate, unit) server_store" where
  "number_store = \<lparr>ss_props = Map.empty, ss_ca_pkey_file = [], ss_ca_cert_file = [], ss_pkey = Some (), ss_default_cert = 1,
     ss_dhpkey = None, ss_cert_map = [], ss_cert_queue = [], ss_serial_file = None\<rparr>"

definition accepting_lib :: "unit tls_lib" where
  "accepting_lib = \<lparr>sl_load_verify_file = \<lambda>_. True, sl_set_cipher_list = \<lambda>_. True, sl_set_alpn_protos = \<lambda>_. True, sl_error_text = \<lambda>_. [],
     sl_set_host_name = \<lambda>_. True, sl_verify_param = \<lambda>_. (1, 1, 1), sl_use_private_key = \<lambda>_. True, sl_use_certificate = \<lambda>_. True,
     sl_add_chain_cert = \<lambda>_. True, sl_set_tmp_dh = \<lambda>_. True\<rparr>"

definition plain_tls_env :: "unit tls_env" where
  "plain_tls_env = \<lparr>tv_timeouts = example_opts, tv_ssl_verify = 0, tv_server_method = Ssl_v23, tv_client_method = Ssl_v23,
     tv_negotiate_alpn = False, tv_negotiate_ciphers = False, tv_supply_chain = False, tv_cert_file = [], tv_lib = accepting_lib,
     tv_store_env = number_env, tv_tls_hook = \<lambda>_ w. w, tv_server_hook = \<lambda>_ w. w, tv_certificate_hook = \<lambda>_ v. v, tv_peek = \<lambda>_. Boost_success\<rparr>"

definition greeting_hello :: client_hello where
  "greeting_hello = client_hello_new\<lparr>ch_server_names := [\<lparr>sn_type = 0, sn_host_name = ''m.a.com''\<rparr>]\<rparr>"

definition tls_at :: "tls_wait \<Rightarrow> flow \<Rightarrow> unit tls_service" where
  "tls_at wt w = (tls_service_new number_store w)\<lparr>ts_hello := Some greeting_hello, ts_wait := wt\<rparr>"


theorem failed_handshake_stuck_witness:
  "let s1 = run_tls plain_tls_env (Te_client_handshake Boost_eof \<lparr>sd_servername = None, sd_alpn = None, sd_cipher = [], sd_version = []\<rparr> # [])
      (tls_at Tw_client_handshake (open_flow [])) in ts_wait s1 = Tw_lost
    \<and> fl_error (ts_flow s1) = fl_error (ts_flow (tls_at Tw_client_handshake (open_flow [])))
    \<and> cn_open (fl_client (ts_flow s1)) = cn_open (fl_client (ts_flow (tls_at Tw_client_handshake (open_flow []))))
    \<and> fl_server (ts_flow s1) = fl_server (ts_flow (tls_at Tw_client_handshake (open_flow [])))"
  by (rule failed_handshake_stuck) (simp_all add: tls_at_def)

definition secured_flow :: flow where
  "secured_flow = flow_new uuid_ns_dns client_conn_new (server_conn_new\<lparr>cn_open := True, cn_connected := True, cn_tls_established := True,
     sv_host := ''a.com'', sv_cert := Some 7\<rparr>)"

definition greeting_interface :: certificate_interface where
  "greeting_interface = \<lparr>ci_common_name = Some ''a.com'', ci_sans = [''a.com'', ''m.a.com'', ''www.a.com''], ci_organization = None\<rparr>"

lemma greeting_interface_made: "client_interface number_api secured_flow greeting_hello = Inr greeting_interface"
  by (simp add: client_interface_def server_interface_def secured_flow_def flow_new_def secured_def add_server_certificate_def cert_sans_def add_sans_def
    number_api_def cert_common_name_def cert_organization_def get_nid_from_name_def insert_sans_def greeting_hello_def greeting_interface_def
    certificate_interface_new_def client_hello_new_def string_less_def)

theorem certificate_names_witness:
  "ci_common_name greeting_interface = Some (sv_host (fl_server secured_flow))
    \<and> set (ci_sans greeting_interface) = {sv_host (fl_server secured_flow)} \<union> set (cert_sans number_api 7) \<union> certificate_name number_api 7
      \<union> sn_host_name ` set (ch_server_names greeting_hello)
    \<and> sset_ok (ci_sans greeting_interface)"
  by (rule certificate_names[OF greeting_interface_made]) (simp_all add: secured_flow_def flow_new_def secured_def)

text \<open>The first five bytes of another protocol.\<close>

lemma other_protocol_switches:
  assumes "ts_wait s = Tw_client_hello op" "ts_reader s = handshake_reader_new" "cn_input (fl_client (ts_flow s)) = []"
    "5 \<le> length got" "length got \<le> 2 ^ 30" "\<not> is_tls_record (map to_byte (take 5 got))"
  shows "ts_wait (tls_step env (Te_client_read got Boost_success) s) = Tw_switched Kind_tunnel"
proof -
  have new: "bs_ok bs_new" "bs_in_buffer bs_new = 0" "\<not> bs_complete bs_new" "sb_size (bs_buffer bs_new) = 0" by (simp_all add: bs_new_ok)
  obtain s1 where s1: "cs_read_up_to_bytes (map to_byte got) 5 (length (map to_byte got)) bs_new = Inr (True, s1)"
    "sb_data (bs_buffer s1) = take 5 (map to_byte got)"
    using cs_read_at_once[OF new(1,2,3), of 5 "map to_byte got"] new(4) assms(4,5) by (auto simp: sb_data_def int_max_def)
  then have "\<exists>r. handshake_read got (length got) handshake_reader_new = Inr (err invalid_client_hello, r)"
    using assms(6) by (simp add: handshake_read_def handshake_reader_new_def record_header_length_def Let_def take_map)
  with assms(1-3) show ?thesis
    by (auto simp: tls_step_def on_read_client_hello_def upd_client_def Let_def handle_not_client_hello_def tls_switch_def)
qed

definition waiting_tls :: "unit tls_service" where
  "waiting_tls = tls_start plain_tls_env (tls_service_new number_store (open_flow []))"

lemma waiting_tls_facts: "\<exists>op. ts_wait waiting_tls = Tw_client_hello op" "ts_reader waiting_tls = handshake_reader_new"
  "cn_input (fl_client (ts_flow waiting_tls)) = []"
  by (simp_all add: waiting_tls_def tls_start_def read_client_hello_def read_async_def tls_service_new_def upd_client_def open_flow_def flow_new_def
    set_reading_def)

theorem not_tls_is_tunnelled_witness:
  "let t = tunnel_start plain_tunnel_env (tunnel_service_new (\<lambda>_. False) (ts_flow (tls_step plain_tls_env (Te_client_read ''SSH-2.0'' Boost_success) waiting_tls))) in
    given_out plain_tunnel_env Upstream [Te_write Upstream 7 Boost_success] t
      @ being_sent Upstream (run_tunnel plain_tunnel_env [Te_write Upstream 7 Boost_success] t)
      = cn_output (fl_server (ts_flow waiting_tls)) @ cn_input (fl_client (ts_flow waiting_tls)) @ ''SSH-2.0''
        @ taken_in plain_tunnel_env Upstream [Te_write Upstream 7 Boost_success] t"
proof -
  obtain op where op: "ts_wait waiting_tls = Tw_client_hello op" using waiting_tls_facts(1) by blast
  have "\<not> is_tls_record (map to_byte (take 5 ''SSH-2.0''))" by (simp add: is_tls_record_def to_byte_def)
  then have "ts_wait (tls_step plain_tls_env (Te_client_read ''SSH-2.0'' Boost_success) waiting_tls) = Tw_switched Kind_tunnel"
    using op waiting_tls_facts(2,3) by (intro other_protocol_switches) simp_all
  from not_tls_is_tunnelled[OF op this plain_tunnel_hooks, of "\<lambda>_. False" "[Te_write Upstream 7 Boost_success]"] show ?thesis .
qed

definition refused_tls :: "unit tls_service" where
  "refused_tls = tls_at Tw_server_handshake (open_flow [])"

lemma plain_tls_simps [simp]: "tv_tls_hook plain_tls_env ev v = v" "tv_certificate_hook plain_tls_env cev p = p"
  by (simp_all add: plain_tls_env_def)

definition offered_tls :: "unit tls_service" where
  "offered_tls = tls_step plain_tls_env (Te_server_handshake Boost_eof 0 [] None) refused_tls"

lemma open_flow_certificate:
  "\<exists>cert s1. get_certificate_for_client plain_tls_env (upstream_error plain_tls_env code prefix e refused_tls) = (Inr cert, s1)"
  by (simp add: get_certificate_for_client_def refused_tls_def tls_at_def tls_service_new_def open_flow_def flow_new_def upstream_error_def
    upd_tls_flow_def set_flow_error_def client_interface_def server_interface_def greeting_hello_def certificate_interface_new_def secured_def
    insert_sans_def run_certificate_def get_certificate_def number_store_def create_certificate_def generate_certificate_def generate_serial_def
    checked_def number_api_def number_env_def plain_tls_env_def cert_insert_def map_emplace_def max_num_certs_def add_cert_extension_def
    omap_find_def server_conn_new_def conn.defs conn_new_def key_equiv_string_less)

lemma offered_tls_waits: "ts_wait offered_tls = Tw_client_handshake"
proof -
  have r: "upd_tls_flow (upd_server (server_on_handshake Boost_eof 0 [] None)) refused_tls = refused_tls"
    by (simp add: upd_tls_flow_def upd_server_def server_on_handshake_def)
  have o: "offered_tls = establish_tls_with_client plain_tls_env
      (upstream_error plain_tls_env upstream_handshake_failed ''Could not establish TLS with '' Boost_eof refused_tls)"
    using r by (simp add: offered_tls_def tls_step_def refused_tls_def tls_at_def on_establish_tls_with_server_def)
  obtain cert s1 where "get_certificate_for_client plain_tls_env
      (upstream_error plain_tls_env upstream_handshake_failed ''Could not establish TLS with '' Boost_eof refused_tls) = (Inr cert, s1)"
    using open_flow_certificate by blast
  then show ?thesis
    by (simp add: o establish_tls_with_client_def establish_tls_with_client_impl_def Let_def client_establish_tls_def ssl_answers_for_def
      create_ssl_context_def server_args_def plain_tls_env_def accepting_lib_def ssl_lib.defs split: prod.split option.split)
qed

definition example_details :: ssl_details where
  "example_details = \<lparr>sd_servername = Some ''a.com'', sd_alpn = Some ''http/1.1'', sd_cipher = [], sd_version = ''SSLv23''\<rparr>"

definition finished_tls :: "unit tls_service" where
  "finished_tls = tls_step plain_tls_env (Te_client_handshake Boost_success example_details) offered_tls"

lemma finished_tls_switches: "ts_wait finished_tls = Tw_switched Kind_http"
proof -
  have "string_to_ssl_method ''SSLv23'' = Inr Ssl_v23" by (simp add: string_to_ssl_method_def ssl_methods_def iequals_def)
  then have on: "client_on_handshake Boost_success example_details c = (Inr (), c\<lparr>cn_input := [], cc_sni := ''a.com'', cn_alpn := ''http/1.1'',
      cc_cipher_name := [], cc_ssl_method := Ssl_v23, cn_tls_established := True\<rparr>)" for c
    by (simp add: client_on_handshake_def example_details_def Let_def)
  have "client_handshake_done Boost_success example_details c = Inr (True, snd (client_on_handshake Boost_success example_details c))" for c
    unfolding client_handshake_done_def on by (simp only: prod.case sum.case unit.case snd_conv)
  then have "client_handshake_done Boost_success example_details c = Inr (True, snd (client_on_handshake Boost_success example_details c))
      \<and> cn_alpn (snd (client_on_handshake Boost_success example_details c)) = ''http/1.1''" for c
    by (simp add: on)
  then show ?thesis
    by (simp add: finished_tls_def tls_step_def offered_tls_waits client_handshake_end_def Let_def on_establish_tls_with_client_def tls_switch_def
      upd_client_def)
qed


end
