(* ===== verification/Options_Parser.thy ===== *)
theory Options_Parser
  imports Ordered_Maps Errors Strings
begin

text \<open>
  program/options_parser.{hpp,cpp}: declared options and the parser of the command line.

  \<^item> the destination of an option is a setter of the state \<open>'s\<close> (the options of the program), so that the closure \<open>so_parser\<close> that
    erases the option's type is a function on it.
  \<^item> \<^verbatim>\<open>boost::lexical_cast\<close> for the option's type is a member of the option: \<open>co_read\<close>, which is \<open>None\<close> for
    \<^verbatim>\<open>bad_lexical_cast\<close>, and \<open>co_show\<close>.  \<open>co_cast\<close> is the conversion of the value to the destination's type where C++ has one.
  \<^item> an error is the message of the \<^verbatim>\<open>generic_error\<close>; the state is what was set in front of it.
\<close>

section \<open>Options\<close>

record ('i, 'o, 's) command_line_option =
  co_name :: "string option"
  co_letter :: "char option"
  co_destination :: "'o \<Rightarrow> 's \<Rightarrow> 's"
  co_required :: bool
  co_default_value :: "'i option"
  co_description :: "string option"
  co_validate :: "('i \<Rightarrow> bool) option"
  co_converter :: "('i \<Rightarrow> 'o) option"
  co_cast :: "('i \<Rightarrow> 'o) option"
  co_read :: "string \<Rightarrow> 'i option"
  co_show :: "'i \<Rightarrow> string"

record 's stored_option =
  so_name :: "string option"
  so_letter :: "char option"
  so_default_value :: "string option"
  so_description :: "string option"
  so_is_boolean :: bool
  so_required_id :: int
  so_help_string :: string
  so_parser :: "string \<Rightarrow> 's \<Rightarrow> (string, unit) res \<times> 's"

record 's options_parser =
  op_option_map :: "(string, 's stored_option) omap"
  op_num_required :: nat

definition options_parser_new :: "'s options_parser" where
  "options_parser_new = \<lparr>op_option_map = [], op_num_required = 0\<rparr>"

definition so_required :: "'s stored_option \<Rightarrow> bool" where
  "so_required opt \<longleftrightarrow> so_required_id opt \<ge> 0"

definition generate_help_string :: "string option \<Rightarrow> char option \<Rightarrow> string" where
  "generate_help_string name letter = (case letter of
     Some l \<Rightarrow> ''-'' @ [l] @ (case name of Some n \<Rightarrow> '', --'' @ n | None \<Rightarrow> [])
   | None \<Rightarrow> ''--'' @ (case name of Some n \<Rightarrow> n | None \<Rightarrow> []))"

definition string_to_bool :: "string \<Rightarrow> bool \<Rightarrow> bool" where
  "string_to_bool str def = (let lower = lowercase str in if lower = ''true'' then True else if lower = ''false'' then False else def)"

definition bool_to_string :: "bool \<Rightarrow> string" where
  "bool_to_string b = (if b then ''true'' else ''false'')"

definition validate_option :: "('i, 'o, 's) command_line_option \<Rightarrow> (string, unit) res" where
  "validate_option opt = (if co_name opt = None \<and> co_letter opt = None then Inl (Error ''One of option name or letter must be specified'')
     else if co_cast opt = None \<and> co_converter opt = None
       then Inl (Error ''No converter defined for option with non-convertible output type'')
     else Inr ())"

text \<open>The converter if there is one, else the conversion of the language.\<close>

definition assign_value :: "('i, 'o, 's) command_line_option \<Rightarrow> 'i \<Rightarrow> 's \<Rightarrow> 's" where
  "assign_value opt v s = (case co_converter opt of
     Some f \<Rightarrow> co_destination opt (f v) s
   | None \<Rightarrow> (case co_cast opt of Some f \<Rightarrow> co_destination opt (f v) s | None \<Rightarrow> s))"

definition valid_value :: "('i, 'o, 's) command_line_option \<Rightarrow> 'i \<Rightarrow> bool" where
  "valid_value opt v \<longleftrightarrow> (case co_validate opt of Some f \<Rightarrow> f v | None \<Rightarrow> True)"

definition invalid_value :: "string \<Rightarrow> (string, unit) res" where
  "invalid_value help_string = Inl (Error (''Invalid value for option '' @ help_string))"

definition value_parser :: "('i, 'o, 's) command_line_option \<Rightarrow> string \<Rightarrow> string \<Rightarrow> 's \<Rightarrow> (string, unit) res \<times> 's" where
  "value_parser opt help_string str s = (case co_read opt str of
     None \<Rightarrow> (invalid_value help_string, s)
   | Some v \<Rightarrow> if \<not> valid_value opt v then (invalid_value help_string, s) else (Inr (), assign_value opt v s))"

definition bool_parser :: "(bool, 'o, 's) command_line_option \<Rightarrow> string \<Rightarrow> string \<Rightarrow> 's \<Rightarrow> (string, unit) res \<times> 's" where
  "bool_parser opt help_string str s = (let v = string_to_bool str True in
     if \<not> valid_value opt v then (invalid_value help_string, s) else (Inr (), assign_value opt v s))"

text \<open>The two forms of \<^verbatim>\<open>add_option_internal\<close>: the default is assigned at once.\<close>

definition store_option :: "('i, 'o, 's) command_line_option \<Rightarrow> string \<Rightarrow> bool \<Rightarrow> (string \<Rightarrow> string \<Rightarrow> 's \<Rightarrow> (string, unit) res \<times> 's) \<Rightarrow>
    's options_parser \<Rightarrow> 's options_parser" where
  "store_option opt default_str boolean parser p = (let help = generate_help_string (co_name opt) (co_letter opt);
       new_option = \<lparr>so_name = co_name opt, so_letter = co_letter opt, so_default_value = Some default_str,
         so_description = co_description opt, so_is_boolean = boolean,
         so_required_id = (if co_required opt then int (op_num_required p) else - 1), so_help_string = help, so_parser = parser help\<rparr>
     in p\<lparr>op_option_map := map_emplace string_less help new_option (op_option_map p),
       op_num_required := (if co_required opt then op_num_required p + 1 else op_num_required p)\<rparr>)"

definition add_option_internal :: "('i, 'o, 's) command_line_option \<Rightarrow> 's options_parser \<times> 's \<Rightarrow> 's options_parser \<times> 's" where
  "add_option_internal opt ps = (case ps of (p, s) \<Rightarrow>
     (store_option opt (case co_default_value opt of Some v \<Rightarrow> co_show opt v | None \<Rightarrow> []) False (value_parser opt) p,
      case co_default_value opt of Some v \<Rightarrow> assign_value opt v s | None \<Rightarrow> s))"

definition add_bool_option_internal :: "(bool, 'o, 's) command_line_option \<Rightarrow> 's options_parser \<times> 's \<Rightarrow> 's options_parser \<times> 's" where
  "add_bool_option_internal opt ps = (case ps of (p, s) \<Rightarrow> let def = (case co_default_value opt of Some v \<Rightarrow> v | None \<Rightarrow> False) in
     (store_option opt (bool_to_string def) True (bool_parser opt) p, assign_value opt def s))"

definition add_option :: "('i, 'o, 's) command_line_option \<Rightarrow> 's options_parser \<times> 's \<Rightarrow> (string, 's options_parser \<times> 's) res" where
  "add_option opt ps = rbind (validate_option opt) (\<lambda>_. Inr (add_option_internal opt ps))"

definition add_bool_option :: "(bool, 'o, 's) command_line_option \<Rightarrow> 's options_parser \<times> 's \<Rightarrow> (string, 's options_parser \<times> 's) res" where
  "add_bool_option opt ps = rbind (validate_option opt) (\<lambda>_. Inr (add_bool_option_internal opt ps))"

section \<open>The command line\<close>

text \<open>\<^verbatim>\<open>curr.substr(2, eq - 2)\<close>: without an equal sign the rest of the argument.\<close>

definition full_name :: "string \<Rightarrow> string" where
  "full_name arg = (case find_index ((=) CHR ''='') arg of None \<Rightarrow> drop 2 arg | Some eq \<Rightarrow> take (eq - 2) (drop 2 arg))"

definition match_option :: "(string, 's stored_option) omap \<Rightarrow> string \<Rightarrow> 's stored_option option" where
  "match_option m arg = map_option snd (if arg ! 1 = CHR ''-''
     then find (\<lambda>(k, opt). so_name opt = Some (full_name arg)) m
     else find (\<lambda>(k, opt). so_letter opt = Some (arg ! 1)) m)"

text \<open>
  The loop from argument \<open>i\<close> on, which is the first one of \<open>args\<close>: the index behind the last one that was read and
  the required options that were seen.  An empty argument is indexed at 0 and a single dash at 1, which is undefined for a
  \<^verbatim>\<open>string_view\<close>.
\<close>

fun parse_loop :: "(string, 's stored_option) omap \<Rightarrow> nat \<Rightarrow> string list \<Rightarrow> bool list \<Rightarrow> 's \<Rightarrow> (string, nat \<times> bool list) res \<times> 's" where
  "parse_loop m i [] req s = (Inr (i, req), s)"
| "parse_loop m i (arg # rest) req s = (
     if arg = ''--'' then (Inr (i + 1, req), s)
     else if arg = [] then (Inl Undefined, s)
     else if hd arg \<noteq> CHR ''-'' then (Inl (Error (''Unknown option '' @ arg)), s)
     else if length arg < 2 then (Inl Undefined, s)
     else let eq = find_index ((=) CHR ''='') arg; is_full_name = (arg ! 1 = CHR ''-'') in
       case match_option m arg of
         None \<Rightarrow> (Inl (Error (''Unknown option '' @ (case eq of None \<Rightarrow> arg | Some k \<Rightarrow> take k arg))), s)
       | Some opt \<Rightarrow> let req1 = (if so_required opt then req[nat (so_required_id opt) := True] else req) in
           if is_full_name \<and> eq \<noteq> None
           then (case so_parser opt (drop (case eq of None \<Rightarrow> 0 | Some k \<Rightarrow> k + 1) arg) s of
               (Inl f, s1) \<Rightarrow> (Inl f, s1) | (Inr _, s1) \<Rightarrow> parse_loop m (i + 1) rest req1 s1)
           else if so_is_boolean opt
           then (case so_parser opt [] s of
               (Inl f, s1) \<Rightarrow> (Inl f, s1) | (Inr _, s1) \<Rightarrow> parse_loop m (i + 1) rest req1 s1)
           else (case rest of
               [] \<Rightarrow> (Inl (Error (''Missing value for option '' @ so_help_string opt)), s)
             | value # rest1 \<Rightarrow> (case so_parser opt value s of
                 (Inl f, s1) \<Rightarrow> (Inl f, s1) | (Inr _, s1) \<Rightarrow> parse_loop m (i + 2) rest1 req1 s1)))"

definition parse_options :: "'s options_parser \<Rightarrow> string list \<Rightarrow> 's \<Rightarrow> (string, nat) res \<times> 's" where
  "parse_options p argv s = (case parse_loop (op_option_map p) 1 (tl argv) (replicate (op_num_required p) False) s of
     (Inl f, s1) \<Rightarrow> (Inl f, s1)
   | (Inr (i, req), s1) \<Rightarrow> (if False \<in> set req then Inl (Error ''Missing 1 or more required arguments'') else Inr i, s1))"

section \<open>The help text\<close>

definition option_text :: "nat \<Rightarrow> string \<Rightarrow> 's stored_option \<Rightarrow> string" where
  "option_text spaces help opt = help
     @ (case so_description opt of None \<Rightarrow> [] | Some d \<Rightarrow> replicate (spaces - length (so_help_string opt)) CHR '' ''
         @ (if so_required opt then ''[REQUIRED] '' else []) @ d)
     @ (case so_default_value opt of None \<Rightarrow> [] | Some v \<Rightarrow> [CHR 0x0A] @ replicate spaces CHR '' '' @ ''Default = '' @ v) @ [CHR 0x0A]"

text \<open>Without any option the longest one is read behind the end of the map.\<close>

definition print_option_list :: "'s options_parser \<Rightarrow> (string, string) res" where
  "print_option_list p = (let m = op_option_map p in if m = [] then Inl Undefined
     else let spaces = Max (set (map (length \<circ> fst) m)) + 4 in Inr (concat (map (\<lambda>(help, opt). option_text spaces help opt) m)))"

end
