(* ===== verification/Options.thy ===== *)
theory Options
  imports Options_Parser Connection Numbers
begin

text \<open>
  program/options.hpp and options_factory.{hpp,cpp}: the options of the program, each one declared as in \<^verbatim>\<open>add_options\<close>, and the
  outcome of the command line.

  \<open>option_env\<close> are the file system, the machine and \<^verbatim>\<open>boost::lexical_cast\<close>.  A duration is its number of milliseconds.
\<close>

section \<open>The options\<close>

record options =
  o_port :: u16
  o_help :: bool
  o_ipv6 :: bool
  o_thread_pool_size :: int
  o_connection_queue_limit :: int
  o_connection_service_limit :: u64
  o_timeout :: u64
  o_tunnel_timeout :: u64
  o_body_size_limit :: u64
  o_ssl_passthrough :: bool
  o_ssl_passthrough_strict :: bool
  o_ssl_client_method :: ssl_method
  o_ssl_server_method :: ssl_method
  o_ssl_verify :: int
  o_ssl_negotiate_ciphers :: bool
  o_ssl_negotiate_alpn :: bool
  o_ssl_supply_server_chain_to_client :: bool
  o_ssl_cert_store_properties :: string
  o_ssl_cert_store_dir :: string
  o_ssl_dhparam_file :: string
  o_ssl_verify_upstream_trusted_ca_file_path :: string
  o_ssl_use_strong_serial_numbers :: bool
  o_websocket_passthrough :: bool
  o_websocket_passthrough_strict :: bool
  o_websocket_intercept_messages_by_default :: bool
  o_run_interactive :: bool
  o_run_logs :: bool
  o_run_silent :: bool
  o_log_file_name :: string

record option_env =
  oe_read_port :: "string \<Rightarrow> u16 option"
  oe_read_int :: "string \<Rightarrow> int option"
  oe_show_int :: "int \<Rightarrow> string"
  oe_read_size :: "string \<Rightarrow> u64 option"
  oe_hardware_concurrency :: u32
  oe_somaxconn :: int
  oe_exists :: "string \<Rightarrow> bool"
  oe_parent_path :: "string \<Rightarrow> string"
  oe_can_write :: "string \<Rightarrow> bool"
  oe_default_properties_file :: string
  oe_default_dir :: string
  oe_default_dhparam_file :: string
  oe_default_trusted_certificates_file :: string

text \<open>A boolean option without a converter; its value is never read by \<^verbatim>\<open>lexical_cast\<close>.\<close>

definition bool_option :: "string \<Rightarrow> char option \<Rightarrow> (bool \<Rightarrow> options \<Rightarrow> options) \<Rightarrow> bool \<Rightarrow> string \<Rightarrow> (bool, bool, options) command_line_option" where
  "bool_option name letter destination def description = \<lparr>co_name = Some name, co_letter = letter, co_destination = destination,
     co_required = False, co_default_value = Some def, co_description = Some description, co_validate = None, co_converter = None,
     co_cast = Some (\<lambda>b. b), co_read = \<lambda>_. None, co_show = bool_to_string\<rparr>"

definition resolve_threads :: "int \<Rightarrow> int \<Rightarrow> int" where
  "resolve_threads val val2 = (if val > 0 then val else val2)"

definition verify_none_mode :: int where
  "verify_none_mode = 0"

definition verify_peer :: int where
  "verify_peer = 1"

definition is_ssl_method :: "string \<Rightarrow> bool" where
  "is_ssl_method m = (case string_to_ssl_method m of Inr _ \<Rightarrow> True | Inl _ \<Rightarrow> False)"

text \<open>Only called for a name that is valid.\<close>

definition ssl_method_of :: "string \<Rightarrow> ssl_method" where
  "ssl_method_of m = (case string_to_ssl_method m of Inr x \<Rightarrow> x | Inl _ \<Rightarrow> Ssl_v23)"

definition option_port :: "option_env \<Rightarrow> (u16, u16, options) command_line_option" where
  "option_port env = \<lparr>co_name = Some ''port'', co_letter = Some CHR ''p'', co_destination = \<lambda>v s. s\<lparr>o_port := v\<rparr>, co_required = False,
     co_default_value = Some 3000,
     co_description = Some ''Specifies the port to listen on.'',
     co_validate = None, co_converter = None, co_cast = Some (\<lambda>v. v),
     co_read = oe_read_port env, co_show = \<lambda>n. decimal (unat n)\<rparr>"

definition option_help :: "(bool, bool, options) command_line_option" where
  "option_help = bool_option ''help'' (Some CHR ''h'') (\<lambda>v s. s\<lparr>o_help := v\<rparr>) False
     ''Displays help and options.''"

definition option_ipv6 :: "(bool, bool, options) command_line_option" where
  "option_ipv6 = bool_option ''ipv6'' (Some CHR ''6'') (\<lambda>v s. s\<lparr>o_ipv6 := v\<rparr>) True
     ''Enables IPv6 using a dual stack socket.''"

definition option_threads :: "option_env \<Rightarrow> (int, int, options) command_line_option" where
  "option_threads env = \<lparr>co_name = Some ''threads'', co_letter = None, co_destination = \<lambda>v s. s\<lparr>o_thread_pool_size := v\<rparr>, co_required = False,
     co_default_value = Some (resolve_threads (sint (2 * oe_hardware_concurrency env)) 2),
     co_description = Some ''Number of threads for the server to run.'',
     co_validate = Some (\<lambda>t. t > 0), co_converter = None, co_cast = Some (\<lambda>v. v),
     co_read = oe_read_int env, co_show = oe_show_int env\<rparr>"

definition option_connection_limit :: "option_env \<Rightarrow> (int, int, options) command_line_option" where
  "option_connection_limit env = \<lparr>co_name = Some ''connection-limit'', co_letter = None, co_destination = \<lambda>v s. s\<lparr>o_connection_queue_limit := v\<rparr>, co_required = False,
     co_default_value = Some (oe_somaxconn env),
     co_description = Some ''Number of connections that can be queued for server acceptor port at any given time.'',
     co_validate = Some (\<lambda>q. q > 0), co_converter = None, co_cast = Some (\<lambda>v. v),
     co_read = oe_read_int env, co_show = oe_show_int env\<rparr>"

definition option_connection_service_limit :: "option_env \<Rightarrow> (u64, u64, options) command_line_option" where
  "option_connection_service_limit env = \<lparr>co_name = Some ''connection-service-limit'', co_letter = None, co_destination = \<lambda>v s. s\<lparr>o_connection_service_limit := v\<rparr>, co_required = False,
     co_default_value = Some (- 1),
     co_description = Some ''Number of connections that can be serviced by the proxy at any given time.'',
     co_validate = None, co_converter = None, co_cast = Some (\<lambda>v. v),
     co_read = oe_read_size env, co_show = \<lambda>n. decimal (unat n)\<rparr>"

definition option_timeout :: "option_env \<Rightarrow> (u64, u64, options) command_line_option" where
  "option_timeout env = \<lparr>co_name = Some ''timeout'', co_letter = None, co_destination = \<lambda>v s. s\<lparr>o_timeout := v\<rparr>, co_required = False,
     co_default_value = Some 120000,
     co_description = Some ''Milliseconds for connect, read, and write operations to timeout.'',
     co_validate = Some (\<lambda>t. t \<noteq> 0), co_converter = Some (\<lambda>t. t), co_cast = None,
     co_read = oe_read_size env, co_show = \<lambda>n. decimal (unat n)\<rparr>"

definition option_tunnel_timeout :: "option_env \<Rightarrow> (u64, u64, options) command_line_option" where
  "option_tunnel_timeout env = \<lparr>co_name = Some ''tunnel-timeout'', co_letter = None, co_destination = \<lambda>v s. s\<lparr>o_tunnel_timeout := v\<rparr>, co_required = False,
     co_default_value = Some 30000,
     co_description = Some ''Milliseconds for tunnel operations to timeout.'',
     co_validate = Some (\<lambda>t. t \<noteq> 0), co_converter = Some (\<lambda>t. t), co_cast = None,
     co_read = oe_read_size env, co_show = \<lambda>n. decimal (unat n)\<rparr>"

definition option_body_size_limit :: "option_env \<Rightarrow> (u64, u64, options) command_line_option" where
  "option_body_size_limit env = \<lparr>co_name = Some ''body-size-limit'', co_letter = None, co_destination = \<lambda>v s. s\<lparr>o_body_size_limit := v\<rparr>, co_required = False,
     co_default_value = Some 200000000,
     co_description = Some ''Maximum body size (in bytes) to allow through the proxy. Must be greater than 4096.'',
     co_validate = Some (\<lambda>l. l > 4096), co_converter = None, co_cast = Some (\<lambda>v. v),
     co_read = oe_read_size env, co_show = \<lambda>n. decimal (unat n)\<rparr>"

definition option_ssl_passthrough_strict :: "(bool, bool, options) command_line_option" where
  "option_ssl_passthrough_strict = bool_option ''ssl-passthrough-strict'' None (\<lambda>v s. s\<lparr>o_ssl_passthrough_strict := v\<rparr>) False
     ''Passes all CONNECT requests to a TCP tunnel and does not use TLS services.''"

definition option_ssl_passthrough :: "(bool, bool, options) command_line_option" where
  "option_ssl_passthrough = bool_option ''ssl-passthrough'' None (\<lambda>v s. s\<lparr>o_ssl_passthrough := v\<rparr>) False
     ''Passes all CONNECT requests to a TCP tunnel unless explicitly marked for SSL interception.''"

definition option_ssl_client_method :: "(string, ssl_method, options) command_line_option" where
  "option_ssl_client_method = \<lparr>co_name = Some ''ssl-client-method'', co_letter = None, co_destination = \<lambda>v s. s\<lparr>o_ssl_client_method := v\<rparr>, co_required = False,
     co_default_value = Some ''SSLv23'',
     co_description = Some ''SSL method to be used by the client when connecting to the proxy.'',
     co_validate = Some is_ssl_method, co_converter = Some ssl_method_of, co_cast = None,
     co_read = Some, co_show = \<lambda>s. s\<rparr>"

definition option_ssl_server_method :: "(string, ssl_method, options) command_line_option" where
  "option_ssl_server_method = \<lparr>co_name = Some ''ssl-server-method'', co_letter = None, co_destination = \<lambda>v s. s\<lparr>o_ssl_server_method := v\<rparr>, co_required = False,
     co_default_value = Some ''SSLv23'',
     co_description = Some ''SSL method to be used by the server when connecting to an upstream server.'',
     co_validate = Some is_ssl_method, co_converter = Some ssl_method_of, co_cast = None,
     co_read = Some, co_show = \<lambda>s. s\<rparr>"

definition option_ssl_verify :: "(bool, int, options) command_line_option" where
  "option_ssl_verify = \<lparr>co_name = Some ''ssl-verify'', co_letter = None, co_destination = \<lambda>v s. s\<lparr>o_ssl_verify := v\<rparr>, co_required = False,
     co_default_value = Some True,
     co_description = Some ''Verify the upstream server's SSL certificate.'',
     co_validate = None, co_converter = Some (\<lambda>verify. if verify then verify_peer else verify_none_mode), co_cast = Some (\<lambda>b. if b then 1 else 0),
     co_read = \<lambda>_. None, co_show = bool_to_string\<rparr>"

definition option_ssl_negotiate_ciphers :: "(bool, bool, options) command_line_option" where
  "option_ssl_negotiate_ciphers = bool_option ''ssl-negotiate-ciphers'' None (\<lambda>v s. s\<lparr>o_ssl_negotiate_ciphers := v\<rparr>) False
     ''Negotiate the SSL cipher suites with the server, regardless of the options the client sends.''"

definition option_ssl_negotiate_alpn :: "(bool, bool, options) command_line_option" where
  "option_ssl_negotiate_alpn = bool_option ''ssl-negotiate-alpn'' None (\<lambda>v s. s\<lparr>o_ssl_negotiate_alpn := v\<rparr>) False
     ''Negotiate the ALPN protocol with the server, regardless of the options the client sends.''"

definition option_ssl_supply_server_chain :: "(bool, bool, options) command_line_option" where
  "option_ssl_supply_server_chain = bool_option ''ssl-supply-server-chain'' None (\<lambda>v s. s\<lparr>o_ssl_supply_server_chain_to_client := v\<rparr>) False
     ''Supply the upstream server's certificate chain to the proxy client.''"

definition option_ssl_certificate_properties :: "option_env \<Rightarrow> (string, string, options) command_line_option" where
  "option_ssl_certificate_properties env = \<lparr>co_name = Some ''ssl-certificate-properties'', co_letter = None, co_destination = \<lambda>v s. s\<lparr>o_ssl_cert_store_properties := v\<rparr>, co_required = False,
     co_default_value = Some (oe_default_properties_file env),
     co_description = Some ''Path to a .properties file for the server's certificate configuration.'',
     co_validate = Some (oe_exists env), co_converter = None, co_cast = Some (\<lambda>v. v),
     co_read = Some, co_show = \<lambda>s. s\<rparr>"

definition option_ssl_certificate_dir :: "option_env \<Rightarrow> (string, string, options) command_line_option" where
  "option_ssl_certificate_dir env = \<lparr>co_name = Some ''ssl-certificate-dir'', co_letter = None, co_destination = \<lambda>v s. s\<lparr>o_ssl_cert_store_dir := v\<rparr>, co_required = False,
     co_default_value = Some (oe_default_dir env),
     co_description = Some ''Folder containing the server's SSL certificates, or the destination folder for generated certificates.'',
     co_validate = Some (\<lambda>path. oe_exists env path \<or> oe_exists env (oe_parent_path env path)), co_converter = None, co_cast = Some (\<lambda>v. v),
     co_read = Some, co_show = \<lambda>s. s\<rparr>"

definition option_ssl_dhparam_file :: "option_env \<Rightarrow> (string, string, options) command_line_option" where
  "option_ssl_dhparam_file env = \<lparr>co_name = Some ''ssl-dhparam-file'', co_letter = None, co_destination = \<lambda>v s. s\<lparr>o_ssl_dhparam_file := v\<rparr>, co_required = False,
     co_default_value = Some (oe_default_dhparam_file env),
     co_description = Some ''Path to a .pem file containing the server's Diffie-Hellman parameters.'',
     co_validate = Some (oe_exists env), co_converter = None, co_cast = Some (\<lambda>v. v),
     co_read = Some, co_show = \<lambda>s. s\<rparr>"

definition option_upstream_trusted_ca_file :: "option_env \<Rightarrow> (string, string, options) command_line_option" where
  "option_upstream_trusted_ca_file env = \<lparr>co_name = Some ''upstream-trusted-ca-file'', co_letter = None, co_destination = \<lambda>v s. s\<lparr>o_ssl_verify_upstream_trusted_ca_file_path := v\<rparr>, co_required = False,
     co_default_value = Some (oe_default_trusted_certificates_file env),
     co_description = Some ''Path to a PEM-formatted trusted CA certificate for upstream verification.'',
     co_validate = Some (oe_exists env), co_converter = None, co_cast = Some (\<lambda>v. v),
     co_read = Some, co_show = \<lambda>s. s\<rparr>"

definition option_strong_serial_numbers :: "(bool, bool, options) command_line_option" where
  "option_strong_serial_numbers = bool_option ''strong-serial-numbers'' None (\<lambda>v s. s\<lparr>o_ssl_use_strong_serial_numbers := v\<rparr>) False
     ''Use strong serial numbers for generated certificates by checkpointing state to disk.''"

definition option_ws_passthrough_strict :: "(bool, bool, options) command_line_option" where
  "option_ws_passthrough_strict = bool_option ''ws-passthrough-strict'' None (\<lambda>v s. s\<lparr>o_websocket_passthrough_strict := v\<rparr>) False
     ''Passes all WebSocket connections to a TCP tunnel and does not use WebSocket services.''"

definition option_ws_passthrough :: "(bool, bool, options) command_line_option" where
  "option_ws_passthrough = bool_option ''ws-passthrough'' None (\<lambda>v s. s\<lparr>o_websocket_passthrough := v\<rparr>) False
     ''Passes all WebSocket connections to a TCP tunnel unless explicitly marked for interception.''"

definition option_ws_intercept_default :: "(bool, bool, options) command_line_option" where
  "option_ws_intercept_default = bool_option ''ws-intercept-default'' None (\<lambda>v s. s\<lparr>o_websocket_intercept_messages_by_default := v\<rparr>) False
     ''Intercept all WebSocket messages by default.''"

definition option_interactive :: "(bool, bool, options) command_line_option" where
  "option_interactive = bool_option ''interactive'' (Some CHR ''i'') (\<lambda>v s. s\<lparr>o_run_interactive := v\<rparr>) False
     ''Runs a command-line service for interacting with the server in real time.''"

definition option_logs :: "(bool, bool, options) command_line_option" where
  "option_logs = bool_option ''logs'' (Some CHR ''l'') (\<lambda>v s. s\<lparr>o_run_logs := v\<rparr>) False
     ''Logs all server activity to the console.''"

definition option_silent :: "(bool, bool, options) command_line_option" where
  "option_silent = bool_option ''silent'' (Some CHR ''s'') (\<lambda>v s. s\<lparr>o_run_silent := v\<rparr>) False
     ''Prints nothing to stdout while the server runs.''"

definition option_log_file :: "option_env \<Rightarrow> (string, string, options) command_line_option" where
  "option_log_file env = \<lparr>co_name = Some ''log-file'', co_letter = None, co_destination = \<lambda>v s. s\<lparr>o_log_file_name := v\<rparr>, co_required = False,
     co_default_value = None,
     co_description = Some ''Redirect all log output to given output file. Redirects stdout and stderr.'',
     co_validate = Some (oe_can_write env), co_converter = None, co_cast = Some (\<lambda>v. v),
     co_read = Some, co_show = \<lambda>s. s\<rparr>"

definition add_options :: "option_env \<Rightarrow> options options_parser \<times> options \<Rightarrow> (string, options options_parser \<times> options) res" where
  "add_options env ps = (
     rbind (add_option (option_port env) ps) (\<lambda>ps.
     rbind (add_bool_option option_help ps) (\<lambda>ps.
     rbind (add_bool_option option_ipv6 ps) (\<lambda>ps.
     rbind (add_option (option_threads env) ps) (\<lambda>ps.
     rbind (add_option (option_connection_limit env) ps) (\<lambda>ps.
     rbind (add_option (option_connection_service_limit env) ps) (\<lambda>ps.
     rbind (add_option (option_timeout env) ps) (\<lambda>ps.
     rbind (add_option (option_tunnel_timeout env) ps) (\<lambda>ps.
     rbind (add_option (option_body_size_limit env) ps) (\<lambda>ps.
     rbind (add_bool_option option_ssl_passthrough_strict ps) (\<lambda>ps.
     rbind (add_bool_option option_ssl_passthrough ps) (\<lambda>ps.
     rbind (add_option option_ssl_client_method ps) (\<lambda>ps.
     rbind (add_option option_ssl_server_method ps) (\<lambda>ps.
     rbind (add_bool_option option_ssl_verify ps) (\<lambda>ps.
     rbind (add_bool_option option_ssl_negotiate_ciphers ps) (\<lambda>ps.
     rbind (add_bool_option option_ssl_negotiate_alpn ps) (\<lambda>ps.
     rbind (add_bool_option option_ssl_supply_server_chain ps) (\<lambda>ps.
     rbind (add_option (option_ssl_certificate_properties env) ps) (\<lambda>ps.
     rbind (add_option (option_ssl_certificate_dir env) ps) (\<lambda>ps.
     rbind (add_option (option_ssl_dhparam_file env) ps) (\<lambda>ps.
     rbind (add_option (option_upstream_trusted_ca_file env) ps) (\<lambda>ps.
     rbind (add_bool_option option_strong_serial_numbers ps) (\<lambda>ps.
     rbind (add_bool_option option_ws_passthrough_strict ps) (\<lambda>ps.
     rbind (add_bool_option option_ws_passthrough ps) (\<lambda>ps.
     rbind (add_bool_option option_ws_intercept_default ps) (\<lambda>ps.
     rbind (add_bool_option option_interactive ps) (\<lambda>ps.
     rbind (add_bool_option option_logs ps) (\<lambda>ps.
     rbind (add_bool_option option_silent ps) (\<lambda>ps.
     add_option (option_log_file env) ps)))))))))))))))))))))))))))))"

section \<open>The factory\<close>

record options_factory =
  of_options :: options
  of_parser :: "options options_parser"
  of_options_added :: bool

datatype cmdline_outcome = Cl_options options_factory | Cl_exit nat string

definition print_help :: "string \<Rightarrow> options_factory \<Rightarrow> (string, string) res" where
  "print_help command_name f = rbind (print_option_list (of_parser f)) (\<lambda>text. Inr (
     ''Aether is a simple HTTP/HTTPS/WebSocket proxy server written in C++ using Boost.Asio and OpenSSL.'' @ [CHR 0x0A]
     @ ''Usage: '' @ command_name @ '' [OPTIONS]'' @ [CHR 0x0A, CHR 0x0A] @ text @ [CHR 0x0A]))"

text \<open>An option that could not be declared is only reported; the options behind it are missing then.  What is written to the console is the
  text of the outcome.\<close>

definition factory_with_options :: "option_env \<Rightarrow> options_factory \<Rightarrow> options_factory" where
  "factory_with_options env f = (if of_options_added f then f
     else (case add_options env (of_parser f, of_options f) of
         Inl e \<Rightarrow> f\<lparr>of_options_added := True\<rparr>
       | Inr (p, s) \<Rightarrow> f\<lparr>of_parser := p, of_options := s, of_options_added := True\<rparr>))"

definition usage_error :: "string \<Rightarrow> string \<Rightarrow> string" where
  "usage_error command_name msg = msg @ [CHR 0x0A] @ ''Usage:  [OPTIONS]'' @ [CHR 0x0A] @ ''Use `'' @ command_name @ '' --help` to view options'' @ [CHR 0x0A]"

definition parse_cmdline :: "option_env \<Rightarrow> string list \<Rightarrow> options_factory \<Rightarrow> (string, cmdline_outcome) res" where
  "parse_cmdline env argv f = (let f1 = factory_with_options env f in
     case argv of
       [] \<Rightarrow> Inl Undefined
     | command_name # args \<Rightarrow> (case parse_options (of_parser f1) argv (of_options f1) of
         (Inl (Error msg), s) \<Rightarrow> Inr (Cl_exit 1 (usage_error command_name msg))
       | (Inl e, s) \<Rightarrow> Inl e
       | (Inr i, s) \<Rightarrow> if o_help s then rbind (print_help command_name f1) (\<lambda>text. Inr (Cl_exit 0 text))
           else Inr (Cl_options (f1\<lparr>of_options := s\<rparr>))))"

end
