(* ===== verification/Options_Facts.thy ===== *)
theory Options_Facts
  imports Options
begin

text \<open>
  The command line: arguments that are printed are read back, the defaults, and what holds of every command line that is accepted.
\<close>

section \<open>Printed arguments\<close>

datatype cl_arg = Full_value string string | Full_next string string | Short_next char string | Full_flag string | Short_flag char

fun render_arg :: "cl_arg \<Rightarrow> string list" where
  "render_arg (Full_value n v) = [''--'' @ n @ ''='' @ v]"
| "render_arg (Full_next n v) = [''--'' @ n, v]"
| "render_arg (Short_next c v) = [[CHR ''-'', c], v]"
| "render_arg (Full_flag n) = [''--'' @ n]"
| "render_arg (Short_flag c) = [[CHR ''-'', c]]"

definition named :: "(string, 's stored_option) omap \<Rightarrow> string \<Rightarrow> 's stored_option option" where
  "named m n = map_option snd (find (\<lambda>(k, opt). so_name opt = Some n) m)"

definition lettered :: "(string, 's stored_option) omap \<Rightarrow> char \<Rightarrow> 's stored_option option" where
  "lettered m c = map_option snd (find (\<lambda>(k, opt). so_letter opt = Some c) m)"

fun arg_option :: "(string, 's stored_option) omap \<Rightarrow> cl_arg \<Rightarrow> 's stored_option option" where
  "arg_option m (Full_value n v) = named m n"
| "arg_option m (Full_next n v) = named m n"
| "arg_option m (Short_next c v) = lettered m c"
| "arg_option m (Full_flag n) = named m n"
| "arg_option m (Short_flag c) = lettered m c"

fun arg_value :: "cl_arg \<Rightarrow> string" where
  "arg_value (Full_value n v) = v"
| "arg_value (Full_next n v) = v"
| "arg_value (Short_next c v) = v"
| "arg_value a = []"

text \<open>A value behind a space is for options that are not boolean, none at all for those that are.\<close>

fun arg_form :: "bool \<Rightarrow> cl_arg \<Rightarrow> bool" where
  "arg_form boolean (Full_value n v) = (CHR ''='' \<notin> set n)"
| "arg_form boolean (Full_next n v) = (\<not> boolean \<and> n \<noteq> [] \<and> CHR ''='' \<notin> set n)"
| "arg_form boolean (Short_next c v) = (\<not> boolean \<and> c \<noteq> CHR ''-'')"
| "arg_form boolean (Full_flag n) = (boolean \<and> n \<noteq> [] \<and> CHR ''='' \<notin> set n)"
| "arg_form boolean (Short_flag c) = (boolean \<and> c \<noteq> CHR ''-'')"

definition arg_ok :: "(string, 's stored_option) omap \<Rightarrow> cl_arg \<Rightarrow> bool" where
  "arg_ok m a \<longleftrightarrow> (case arg_option m a of None \<Rightarrow> False | Some opt \<Rightarrow> arg_form (so_is_boolean opt) a)"

text \<open>What the arguments mean: each option's parser is run on its value, in order, until one fails.\<close>

fun apply_args :: "(string, 's stored_option) omap \<Rightarrow> cl_arg list \<Rightarrow> 's \<Rightarrow> (string, unit) res \<times> 's" where
  "apply_args m [] s = (Inr (), s)"
| "apply_args m (a # as) s = (case arg_option m a of
     None \<Rightarrow> (Inr (), s)
   | Some opt \<Rightarrow> (case so_parser opt (arg_value a) s of (Inl f, s1) \<Rightarrow> (Inl f, s1) | (Inr _, s1) \<Rightarrow> apply_args m as s1))"

definition mark_seen :: "'s stored_option \<Rightarrow> bool list \<Rightarrow> bool list" where
  "mark_seen opt req = (if so_required opt then req[nat (so_required_id opt) := True] else req)"

fun marks :: "(string, 's stored_option) omap \<Rightarrow> cl_arg list \<Rightarrow> bool list \<Rightarrow> bool list" where
  "marks m [] req = req"
| "marks m (a # as) req = marks m as (case arg_option m a of None \<Rightarrow> req | Some opt \<Rightarrow> mark_seen opt req)"

lemma full_matched: "CHR ''='' \<notin> set n \<Longrightarrow> match_option m (''--'' @ n) = named m n \<and> match_option m (''--'' @ n @ ''='' @ v) = named m n"
proof -
  assume n: "CHR ''='' \<notin> set n"
  have "find_index ((=) CHR ''='') (''--'' @ n) = None" using n by (auto simp: find_index_None)
  moreover have "find_index ((=) CHR ''='') (''--'' @ n @ ''='' @ v) = Some (length n + 2)"
    using n find_index_append_hit[of "''--'' @ n" "(=) CHR ''=''" "CHR ''=''" v] by auto
  ultimately show ?thesis by (simp add: match_option_def full_name_def named_def)
qed

lemma full_eq: "CHR ''='' \<notin> set n \<Longrightarrow> find_index ((=) CHR ''='') (''--'' @ n) = None
    \<and> find_index ((=) CHR ''='') (''--'' @ n @ ''='' @ v) = Some (length n + 2)"
  using find_index_append_hit[of "''--'' @ n" "(=) CHR ''=''" "CHR ''=''" v] by (auto simp: find_index_None)

lemma parse_one:
  assumes "arg_ok m a"
  obtains opt where "arg_option m a = Some opt"
    "parse_loop m i (render_arg a @ rest) req s = (case so_parser opt (arg_value a) s of
       (Inl f, s1) \<Rightarrow> (Inl f, s1) | (Inr _, s1) \<Rightarrow> parse_loop m (i + length (render_arg a)) rest (mark_seen opt req) s1)"
proof -
  obtain opt where o: "arg_option m a = Some opt" "arg_form (so_is_boolean opt) a" using assms by (auto simp: arg_ok_def split: option.splits)
  obtain r s1 where p: "so_parser opt (arg_value a) s = (r, s1)" by fastforce
  have "parse_loop m i (render_arg a @ rest) req s = (case r of
       Inl f \<Rightarrow> (Inl f, s1) | Inr _ \<Rightarrow> parse_loop m (i + length (render_arg a)) rest (mark_seen opt req) s1)"
  proof (cases a)
    case (Full_value n v)
    with o p full_matched[of n m v] full_eq[of n v] show ?thesis by (cases r) (simp_all add: mark_seen_def Let_def)
  next
    case (Full_next n v)
    with o p full_matched[of n m v] full_eq[of n v] show ?thesis by (cases r) (simp_all add: mark_seen_def Let_def)
  next
    case (Short_next c v)
    then have "match_option m (hd (render_arg a)) = Some opt" using o by (simp add: match_option_def lettered_def)
    with o p \<open>a = _\<close> show ?thesis by (cases r) (simp_all add: mark_seen_def Let_def)
  next
    case (Full_flag n)
    with o p full_matched[of n m "[]"] full_eq[of n "[]"] show ?thesis by (cases r) (simp_all add: mark_seen_def Let_def)
  next
    case (Short_flag c)
    then have "match_option m (hd (render_arg a)) = Some opt" using o by (simp add: match_option_def lettered_def)
    with o p \<open>a = _\<close> show ?thesis by (cases r) (simp_all add: mark_seen_def Let_def)
  qed
  then have "parse_loop m i (render_arg a @ rest) req s = (case so_parser opt (arg_value a) s of
       (Inl f, s1) \<Rightarrow> (Inl f, s1) | (Inr _, s1) \<Rightarrow> parse_loop m (i + length (render_arg a)) rest (mark_seen opt req) s1)"
    by (cases r) (simp_all add: p)
  with o(1) that show ?thesis by blast
qed

lemma parse_all:
  assumes "list_all (arg_ok m) as" "rest = [] \<or> (\<exists>tail. rest = ''--'' # tail)"
  shows "parse_loop m i (concat (map render_arg as) @ rest) req s = (case apply_args m as s of
     (Inl f, s1) \<Rightarrow> (Inl f, s1)
   | (Inr _, s1) \<Rightarrow> (Inr (i + length (concat (map render_arg as)) + (if rest = [] then 0 else 1), marks m as req), s1))"
  using assms(1)
proof (induction as arbitrary: i req s)
  case Nil
  then show ?case using assms(2) by auto
next
  case (Cons a as)
  have "arg_ok m a" using Cons.prems by simp
  from parse_one[OF this, where i = i and rest = "concat (map render_arg as) @ rest" and req = req and s = s]
  obtain opt where o: "arg_option m a = Some opt"
    "parse_loop m i (render_arg a @ (concat (map render_arg as) @ rest)) req s = (case so_parser opt (arg_value a) s of
       (Inl f, s1) \<Rightarrow> (Inl f, s1) | (Inr _, s1) \<Rightarrow> parse_loop m (i + length (render_arg a)) (concat (map render_arg as) @ rest) (mark_seen opt req) s1)"
    by blast
  obtain r s1 where p: "so_parser opt (arg_value a) s = (r, s1)" by fastforce
  show ?case
  proof (cases r)
    case (Inl f)
    with o p show ?thesis by simp
  next
    case (Inr u)
    with o p Cons.IH[of "i + length (render_arg a)" "mark_seen opt req" s1] Cons.prems show ?thesis
      by (cases "apply_args m as s1") (simp add: add.assoc split: sum.split)
  qed
qed

lemma set_mark: "k < length req \<Longrightarrow> req[j := True] ! k \<longleftrightarrow> req ! k \<or> j = k"
  by (cases "j = k") simp_all

lemma marks_nth: "k < length req \<Longrightarrow> length (marks m as req) = length req \<and>
    (marks m as req ! k \<longleftrightarrow> req ! k \<or> (\<exists>a\<in>set as. \<exists>opt. arg_option m a = Some opt \<and> so_required_id opt = int k))"
proof (induction as arbitrary: req)
  case (Cons a as)
  let ?req = "case arg_option m a of None \<Rightarrow> req | Some opt \<Rightarrow> mark_seen opt req"
  have l: "length ?req = length req" by (simp add: mark_seen_def split: option.split)
  have "?req ! k \<longleftrightarrow> req ! k \<or> (\<exists>opt. arg_option m a = Some opt \<and> so_required_id opt = int k)"
    using Cons.prems by (cases "arg_option m a") (auto simp: mark_seen_def so_required_def set_mark)
  with Cons.IH[of ?req] Cons.prems l show ?case by (auto simp: l)
qed simp

lemma marks_length: "length (marks m as req) = length req"
  by (induction as arbitrary: req) (simp_all add: mark_seen_def split: option.split)

definition all_required_given :: "'s options_parser \<Rightarrow> cl_arg list \<Rightarrow> bool" where
  "all_required_given p as \<longleftrightarrow> (\<forall>k<op_num_required p. \<exists>a\<in>set as. \<exists>opt. arg_option (op_option_map p) a = Some opt \<and> so_required_id opt = int k)"

text \<open>C18: arguments that are printed for declared options, in any of their forms and up to the end or a double dash, are read as these
  options: each option's value is parsed in order, and the line is accepted with the index behind it exactly if all parsers
  accept and every required option is there.\<close>

theorem command_line_read_back:
  assumes "list_all (arg_ok (op_option_map p)) as" "rest = [] \<or> rest = ''--'' # tail"
  shows "parse_options p (command # concat (map render_arg as) @ rest) s = (case apply_args (op_option_map p) as s of
     (Inl f, s1) \<Rightarrow> (Inl f, s1)
   | (Inr _, s1) \<Rightarrow> (if all_required_given p as
        then Inr (1 + length (concat (map render_arg as)) + (if rest = [] then 0 else 1))
        else Inl (Error ''Missing 1 or more required arguments''), s1))"
proof -
  let ?req = "replicate (op_num_required p) False"
  have "False \<notin> set (marks (op_option_map p) as ?req) \<longleftrightarrow> all_required_given p as"
    using marks_nth[of _ ?req "op_option_map p" as]
    by (simp add: all_required_given_def in_set_conv_nth marks_length)
  moreover have "rest = [] \<or> (\<exists>tail. rest = ''--'' # tail)" using assms(2) by blast
  ultimately show ?thesis using parse_all[OF assms(1), of rest 1 ?req s]
    by (cases "apply_args (op_option_map p) as s") (auto simp: parse_options_def split: sum.split)
qed

section \<open>What holds of every accepted command line\<close>

definition map_keeps :: "('s \<Rightarrow> bool) \<Rightarrow> (string, 's stored_option) omap \<Rightarrow> bool" where
  "map_keeps P m \<longleftrightarrow> (\<forall>(k, opt)\<in>set m. \<forall>str s. P s \<longrightarrow> P (snd (so_parser opt str s)))"

lemma matched_in: "match_option m c = Some opt \<Longrightarrow> \<exists>k. (k, opt) \<in> set m"
  by (auto simp: match_option_def find_Some_iff split: if_splits) (metis nth_mem)+

lemma parse_loop_keeps: "map_keeps P m \<Longrightarrow> P s \<Longrightarrow> P (snd (parse_loop m i args req s))"
proof (induction m i args req s rule: parse_loop.induct)
  case (2 m i arg rest req s)
  have keeps: "P s1" if o: "match_option m arg = Some opt" "so_parser opt v s = (r, s1)" for opt v r s1
  proof -
    obtain k where "(k, opt) \<in> set m" using matched_in[OF o(1)] by blast
    then have "P (snd (so_parser opt v s))" using 2(4,5) by (auto simp: map_keeps_def)
    with o(2) show ?thesis by simp
  qed
  show ?case
  proof (cases "arg = ''--'' \<or> arg = [] \<or> hd arg \<noteq> CHR ''-'' \<or> length arg < 2")
    case True
    with 2(5) show ?thesis by auto
  next
    case False
    then have f: "arg \<noteq> ''--''" "arg \<noteq> []" "\<not> hd arg \<noteq> CHR ''-''" "\<not> length arg < 2" by auto
    show ?thesis
    proof (cases "match_option m arg")
      case None
      with f 2(5) show ?thesis by (simp add: Let_def)
    next
      case (Some opt)
      let ?eq = "find_index ((=) CHR ''='') arg"
      note ih = "2.IH"[OF f refl refl Some refl]
      show ?thesis
      proof (cases "arg ! 1 = CHR ''-'' \<and> ?eq \<noteq> None")
        case True
        obtain r s1 where p: "so_parser opt (drop (case ?eq of None \<Rightarrow> 0 | Some k \<Rightarrow> k + 1) arg) s = (r, s1)" by fastforce
        show ?thesis
        proof (cases r)
          case (Inl e)
          with p keeps[OF Some p] f Some True 2(5) show ?thesis by (auto simp: Let_def)
        next
          case (Inr u)
          from ih(1)[OF True p[symmetric] this 2(4) keeps[OF Some p]] p Inr f Some True show ?thesis by (auto simp: Let_def)
        qed
      next
        case no_eq: False
        show ?thesis
        proof (cases "so_is_boolean opt")
          case True
          obtain r s1 where p: "so_parser opt [] s = (r, s1)" by fastforce
          show ?thesis
          proof (cases r)
            case (Inl e)
            with p keeps[OF Some p] f Some no_eq True 2(5) show ?thesis by (auto simp: Let_def)
          next
            case (Inr u)
            from ih(2)[OF no_eq True p[symmetric] this 2(4) keeps[OF Some p]] p Inr f Some no_eq True show ?thesis by (auto simp: Let_def)
          qed
        next
          case False
          show ?thesis
          proof (cases rest)
            case Nil
            with f Some no_eq False 2(5) show ?thesis by (auto simp: Let_def)
          next
            case (Cons v rest1)
            obtain r s1 where p: "so_parser opt v s = (r, s1)" by fastforce
            show ?thesis
            proof (cases r)
              case (Inl e)
              with p keeps[OF Some p] f Some no_eq False Cons 2(5) show ?thesis by (auto simp: Let_def)
            next
              case (Inr u)
              from ih(3)[OF no_eq False Cons p[symmetric] this 2(4) keeps[OF Some p]] p Inr f Some no_eq False Cons show ?thesis by (auto simp: Let_def)
            qed
          qed
        qed
      qed
    qed
  qed
qed simp

definition option_keeps :: "('s \<Rightarrow> bool) \<Rightarrow> ('i, 'o, 's) command_line_option \<Rightarrow> bool" where
  "option_keeps P opt \<longleftrightarrow> (\<forall>v s. valid_value opt v \<longrightarrow> P s \<longrightarrow> P (assign_value opt v s))"

lemma value_parser_keeps: "option_keeps P opt \<Longrightarrow> P s \<Longrightarrow> P (snd (value_parser opt help str s))"
  by (simp add: value_parser_def option_keeps_def split: option.split)

lemma bool_parser_keeps: "option_keeps P opt \<Longrightarrow> P s \<Longrightarrow> P (snd (bool_parser opt help str s))"
  by (simp add: bool_parser_def option_keeps_def Let_def)

lemma store_option_keeps:
  assumes "map_keeps P (op_option_map p)" "\<And>help str s. P s \<Longrightarrow> P (snd (parser help str s))"
  shows "map_keeps P (op_option_map (store_option opt d b parser p))"
  using assms by (auto simp: map_keeps_def store_option_def map_emplace_def Let_def)

definition keeping :: "('s \<Rightarrow> bool) \<Rightarrow> 's options_parser \<Rightarrow> bool" where
  "keeping P p \<longleftrightarrow> op_num_required p = 0 \<and> map_keeps P (op_option_map p)"

definition option_fine :: "('s \<Rightarrow> bool) \<Rightarrow> ('i, 'o, 's) command_line_option \<Rightarrow> bool" where
  "option_fine P opt \<longleftrightarrow> validate_option opt = Inr () \<and> \<not> co_required opt \<and> option_keeps P opt"

definition given_default :: "('i, 'o, 's) command_line_option \<Rightarrow> 's \<Rightarrow> 's" where
  "given_default opt s = (case co_default_value opt of Some v \<Rightarrow> assign_value opt v s | None \<Rightarrow> s)"

lemma add_option_keeping:
  assumes "keeping P p" "option_fine P opt"
  shows "\<exists>p1. keeping P p1 \<and> add_option opt (p, s) = Inr (p1, given_default opt s)"
  using assms value_parser_keeps[of P opt]
  by (auto simp: add_option_def rbind_def option_fine_def add_option_internal_def given_default_def keeping_def intro!: store_option_keeps)
    (simp add: store_option_def Let_def)

lemma add_bool_option_keeping:
  assumes "keeping P p" "option_fine P opt" "co_default_value opt = Some v"
  shows "\<exists>p1. keeping P p1 \<and> add_bool_option opt (p, s) = Inr (p1, given_default opt s)"
  using assms bool_parser_keeps[of P opt]
  by (auto simp: add_bool_option_def rbind_def option_fine_def add_bool_option_internal_def given_default_def keeping_def Let_def intro!: store_option_keeps)
    (simp add: store_option_def Let_def)

lemma add_option_then:
  assumes "keeping P p" "option_fine P opt"
    "\<And>p1. keeping P p1 \<Longrightarrow> \<exists>p2. keeping P p2 \<and> f (p1, given_default opt s) = Inr (p2, s2)"
  shows "\<exists>p2. keeping P p2 \<and> rbind (add_option opt (p, s)) f = Inr (p2, s2)"
  using add_option_keeping[OF assms(1,2), of s] assms(3) by (auto simp: rbind_def)

lemma add_bool_option_then:
  assumes "keeping P p" "option_fine P opt" "co_default_value opt = Some v"
    "\<And>p1. keeping P p1 \<Longrightarrow> \<exists>p2. keeping P p2 \<and> f (p1, given_default opt s) = Inr (p2, s2)"
  shows "\<exists>p2. keeping P p2 \<and> rbind (add_bool_option opt (p, s)) f = Inr (p2, s2)"
  using add_bool_option_keeping[OF assms(1-3), of s] assms(4) by (auto simp: rbind_def)

section \<open>The options of the program\<close>

definition default_values :: "option_env \<Rightarrow> string \<Rightarrow> options" where
  "default_values env log_file = \<lparr>o_port = 3000, o_help = False, o_ipv6 = True, o_thread_pool_size = resolve_threads (sint (2 * oe_hardware_concurrency env)) 2,
     o_connection_queue_limit = oe_somaxconn env, o_connection_service_limit = - 1, o_timeout = 120000, o_tunnel_timeout = 30000,
     o_body_size_limit = 200000000, o_ssl_passthrough = False, o_ssl_passthrough_strict = False, o_ssl_client_method = Ssl_v23,
     o_ssl_server_method = Ssl_v23, o_ssl_verify = verify_peer, o_ssl_negotiate_ciphers = False, o_ssl_negotiate_alpn = False,
     o_ssl_supply_server_chain_to_client = False, o_ssl_cert_store_properties = oe_default_properties_file env, o_ssl_cert_store_dir =
     oe_default_dir env, o_ssl_dhparam_file = oe_default_dhparam_file env, o_ssl_verify_upstream_trusted_ca_file_path =
     oe_default_trusted_certificates_file env, o_ssl_use_strong_serial_numbers = False, o_websocket_passthrough = False,
     o_websocket_passthrough_strict = False, o_websocket_intercept_messages_by_default = False, o_run_interactive = False, o_run_logs =
     False, o_run_silent = False, o_log_file_name = log_file\<rparr>"

text \<open>The values that the server relies on.\<close>

definition usable :: "options \<Rightarrow> bool" where
  "usable s \<longleftrightarrow> 0 < o_thread_pool_size s \<and> 0 < o_connection_queue_limit s \<and> o_timeout s \<noteq> 0 \<and> o_tunnel_timeout s \<noteq> 0 \<and> 4096 < o_body_size_limit s"

lemmas option_kinds = option_fine_def option_keeps_def validate_option_def valid_value_def assign_value_def usable_def bool_option_def

lemma options_fine:
  "option_fine usable (option_port env)"
  "option_fine usable option_help"
  "option_fine usable option_ipv6"
  "option_fine usable (option_threads env)"
  "option_fine usable (option_connection_limit env)"
  "option_fine usable (option_connection_service_limit env)"
  "option_fine usable (option_timeout env)"
  "option_fine usable (option_tunnel_timeout env)"
  "option_fine usable (option_body_size_limit env)"
  "option_fine usable option_ssl_passthrough_strict"
  "option_fine usable option_ssl_passthrough"
  "option_fine usable option_ssl_client_method"
  "option_fine usable option_ssl_server_method"
  "option_fine usable option_ssl_verify"
  "option_fine usable option_ssl_negotiate_ciphers"
  "option_fine usable option_ssl_negotiate_alpn"
  "option_fine usable option_ssl_supply_server_chain"
  "option_fine usable (option_ssl_certificate_properties env)"
  "option_fine usable (option_ssl_certificate_dir env)"
  "option_fine usable (option_ssl_dhparam_file env)"
  "option_fine usable (option_upstream_trusted_ca_file env)"
  "option_fine usable option_strong_serial_numbers"
  "option_fine usable option_ws_passthrough_strict"
  "option_fine usable option_ws_passthrough"
  "option_fine usable option_ws_intercept_default"
  "option_fine usable option_interactive"
  "option_fine usable option_logs"
  "option_fine usable option_silent"
  "option_fine usable (option_log_file env)"
  by (simp_all add: option_kinds option_port_def option_help_def option_ipv6_def option_threads_def option_connection_limit_def option_connection_service_limit_def option_timeout_def option_tunnel_timeout_def option_body_size_limit_def option_ssl_passthrough_strict_def option_ssl_passthrough_def option_ssl_client_method_def option_ssl_server_method_def option_ssl_verify_def option_ssl_negotiate_ciphers_def option_ssl_negotiate_alpn_def option_ssl_supply_server_chain_def option_ssl_certificate_properties_def option_ssl_certificate_dir_def option_ssl_dhparam_file_def option_upstream_trusted_ca_file_def option_strong_serial_numbers_def option_ws_passthrough_strict_def option_ws_passthrough_def option_ws_intercept_default_def option_interactive_def option_logs_def option_silent_def option_log_file_def)

lemma boolean_defaults:
  "co_default_value option_help = Some False"
  "co_default_value option_ipv6 = Some True"
  "co_default_value option_ssl_passthrough_strict = Some False"
  "co_default_value option_ssl_passthrough = Some False"
  "co_default_value option_ssl_verify = Some True"
  "co_default_value option_ssl_negotiate_ciphers = Some False"
  "co_default_value option_ssl_negotiate_alpn = Some False"
  "co_default_value option_ssl_supply_server_chain = Some False"
  "co_default_value option_strong_serial_numbers = Some False"
  "co_default_value option_ws_passthrough_strict = Some False"
  "co_default_value option_ws_passthrough = Some False"
  "co_default_value option_ws_intercept_default = Some False"
  "co_default_value option_interactive = Some False"
  "co_default_value option_logs = Some False"
  "co_default_value option_silent = Some False"
  by (simp_all add: bool_option_def option_help_def option_ipv6_def option_ssl_passthrough_strict_def option_ssl_passthrough_def option_ssl_verify_def option_ssl_negotiate_ciphers_def option_ssl_negotiate_alpn_def option_ssl_supply_server_chain_def option_strong_serial_numbers_def option_ws_passthrough_strict_def option_ws_passthrough_def option_ws_intercept_default_def option_interactive_def option_logs_def option_silent_def)

lemma add_options_result:
  assumes "keeping usable p"
  shows "\<exists>p2. keeping usable p2 \<and> add_options env (p, s) = Inr (p2, default_values env (o_log_file_name s))"
proof -
  let ?s = "given_default (option_log_file env) (given_default option_silent (given_default option_logs (given_default option_interactive (given_default
    option_ws_intercept_default (given_default option_ws_passthrough (given_default option_ws_passthrough_strict (given_default
    option_strong_serial_numbers (given_default (option_upstream_trusted_ca_file env) (given_default (option_ssl_dhparam_file env)
    (given_default (option_ssl_certificate_dir env) (given_default (option_ssl_certificate_properties env) (given_default
    option_ssl_supply_server_chain (given_default option_ssl_negotiate_alpn (given_default option_ssl_negotiate_ciphers (given_default
    option_ssl_verify (given_default option_ssl_server_method (given_default option_ssl_client_method (given_default option_ssl_passthrough
    (given_default option_ssl_passthrough_strict (given_default (option_body_size_limit env) (given_default (option_tunnel_timeout env)
    (given_default (option_timeout env) (given_default (option_connection_service_limit env) (given_default (option_connection_limit env)
    (given_default (option_threads env) (given_default option_ipv6 (given_default option_help (given_default (option_port env)
    s))))))))))))))))))))))))))))"
  have "?s = default_values env (o_log_file_name s)"
    by (simp add: given_default_def assign_value_def default_values_def bool_option_def ssl_method_of_def string_to_ssl_method_def ssl_methods_def iequals_def
      option_port_def option_help_def option_ipv6_def option_threads_def option_connection_limit_def option_connection_service_limit_def
      option_timeout_def option_tunnel_timeout_def option_body_size_limit_def option_ssl_passthrough_strict_def
      option_ssl_passthrough_def option_ssl_client_method_def option_ssl_server_method_def option_ssl_verify_def
      option_ssl_negotiate_ciphers_def option_ssl_negotiate_alpn_def option_ssl_supply_server_chain_def
      option_ssl_certificate_properties_def option_ssl_certificate_dir_def option_ssl_dhparam_file_def
      option_upstream_trusted_ca_file_def option_strong_serial_numbers_def option_ws_passthrough_strict_def option_ws_passthrough_def
      option_ws_intercept_default_def option_interactive_def option_logs_def option_silent_def option_log_file_def)
  moreover have "\<exists>p2. keeping usable p2 \<and> add_options env (p, s) = Inr (p2, ?s)"
    unfolding add_options_def
    by (rule assms | assumption | rule options_fine boolean_defaults
      | rule add_option_then add_bool_option_then add_option_keeping add_bool_option_keeping)+
  ultimately show ?thesis by simp
qed

definition factory_new :: "options \<Rightarrow> options_factory" where
  "factory_new garbage = \<lparr>of_options = garbage, of_parser = options_parser_new, of_options_added = False\<rparr>"

lemma factory_added:
  obtains p where "keeping usable p"
    "factory_with_options env (factory_new garbage) = \<lparr>of_options = default_values env (o_log_file_name garbage), of_parser = p, of_options_added = True\<rparr>"
proof -
  have "keeping usable (options_parser_new :: options options_parser)" by (simp add: keeping_def options_parser_new_def map_keeps_def)
  from add_options_result[OF this, of env garbage] obtain p where "keeping usable p"
    "add_options env (options_parser_new, garbage) = Inr (p, default_values env (o_log_file_name garbage))" by blast
  with that show thesis by (simp add: factory_with_options_def factory_new_def)
qed

text \<open>Without arguments every option that is declared has its documented default, whatever the memory of the options held before.\<close>

theorem no_arguments_defaults:
  "\<exists>f. parse_cmdline env [command] (factory_new garbage) = Inr (Cl_options f) \<and> of_options f = default_values env (o_log_file_name garbage)"
proof -
  obtain p where p: "keeping usable p" "factory_with_options env (factory_new garbage)
      = \<lparr>of_options = default_values env (o_log_file_name garbage), of_parser = p, of_options_added = True\<rparr>"
    using factory_added[of env garbage] by blast
  then show ?thesis by (simp add: parse_cmdline_def parse_options_def keeping_def Let_def) (simp add: default_values_def)
qed

lemma accepted_usable:
  assumes "parse_cmdline env argv (factory_new garbage) = Inr (Cl_options f)" "0 < oe_somaxconn env"
  shows "usable (of_options f)"
proof -
  obtain p where p: "keeping usable p" "factory_with_options env (factory_new garbage)
      = \<lparr>of_options = default_values env (o_log_file_name garbage), of_parser = p, of_options_added = True\<rparr>"
    using factory_added[of env garbage] by blast
  have "usable (default_values env (o_log_file_name garbage))"
    using assms(2) by (simp add: usable_def default_values_def resolve_threads_def)
  then have *: "usable (snd (parse_loop (op_option_map p) 1 (tl argv) (replicate (op_num_required p) False) (default_values env (o_log_file_name garbage))))"
    using p(1) parse_loop_keeps[of usable "op_option_map p" "default_values env (o_log_file_name garbage)" 1 "tl argv" "replicate (op_num_required p) False"]
    by (simp add: keeping_def)
  have "usable (snd (parse_options p argv (default_values env (o_log_file_name garbage))))"
    using * by (auto simp: parse_options_def split: prod.split sum.split)
  with assms(1) p(2) show ?thesis
    by (auto simp: parse_cmdline_def Let_def rbind_eq_Inr split: list.splits prod.splits sum.splits failure.splits if_splits)
qed


definition example_option_env :: option_env where
  "example_option_env = \<lparr>oe_read_port = \<lambda>_. None, oe_read_int = \<lambda>_. None, oe_show_int = \<lambda>_. [], oe_read_size = \<lambda>_. None,
     oe_hardware_concurrency = 8, oe_somaxconn = 4096, oe_exists = \<lambda>_. True, oe_parent_path = \<lambda>p. p, oe_can_write = \<lambda>_. True,
     oe_default_properties_file = ''proxy.properties'', oe_default_dir = ''cert_store'', oe_default_dhparam_file = ''dhparam.default.pem'',
     oe_default_trusted_certificates_file = ''mozilla-cacert.pem''\<rparr>"

definition example_values :: options where
  "example_values = default_values example_option_env []"

definition example_result :: options_factory where
  "example_result = (case parse_cmdline example_option_env [''aether''] (factory_new example_values) of Inr (Cl_options f) \<Rightarrow> f | _ \<Rightarrow> factory_new example_values)"

lemma example_accepted: "parse_cmdline example_option_env [''aether''] (factory_new example_values) = Inr (Cl_options example_result)"
proof -
  obtain p where "keeping usable p" "factory_with_options example_option_env (factory_new example_values)
      = \<lparr>of_options = default_values example_option_env (o_log_file_name example_values), of_parser = p, of_options_added = True\<rparr>"
    using factory_added[of example_option_env example_values] by blast
  then have "\<exists>f. parse_cmdline example_option_env [''aether''] (factory_new example_values) = Inr (Cl_options f)"
    by (simp add: parse_cmdline_def parse_options_def keeping_def Let_def) (simp add: default_values_def)
  then show ?thesis by (auto simp: example_result_def)
qed


definition example_map :: "options options_parser" where
  "example_map = fst (add_option_internal (option_log_file example_option_env) (add_bool_option_internal option_help (options_parser_new, example_values)))"

lemma example_map_args: "list_all (arg_ok (op_option_map example_map)) [Short_flag CHR ''h'', Full_value ''log-file'' ''x.log'']"
  by (simp add: example_map_def add_option_internal_def add_bool_option_internal_def store_option_def options_parser_new_def Let_def arg_ok_def
    named_def lettered_def map_emplace_def omap_find_def option_log_file_def option_help_def bool_option_def generate_help_string_def
    string_less_def key_equiv_string_less)

theorem command_line_read_back_witness:
  "parse_options example_map (''aether'' # concat (map render_arg [Short_flag CHR ''h'', Full_value ''log-file'' ''x.log'']) @ ''--'' # [''rest'']) example_values
    = (case apply_args (op_option_map example_map) [Short_flag CHR ''h'', Full_value ''log-file'' ''x.log''] example_values of
     (Inl f, s1) \<Rightarrow> (Inl f, s1)
   | (Inr _, s1) \<Rightarrow> (if all_required_given example_map [Short_flag CHR ''h'', Full_value ''log-file'' ''x.log'']
        then Inr (1 + length (concat (map render_arg [Short_flag CHR ''h'', Full_value ''log-file'' ''x.log''])) + (if ''--'' # [''rest''] = [] then 0 else 1))
        else Inl (Error ''Missing 1 or more required arguments''), s1))"
  by (rule command_line_read_back[OF example_map_args]) simp

end
