(* ===== verification/Connection_Life.thy ===== *)
theory Connection_Life
  imports Tls_Facts Ws_Service_Facts
begin

text \<open>
  connection_handler.{hpp,cpp} with the services it owns: the life of one connection, from the HTTP service through the services it is
  switched to, to its end.

  \<^item> \<open>connection_service\<close> is what the handler relies on: a service that is started waits for an operation of the library or has ended,
    and has closed both sockets when it stopped.  All four services are instances.
  \<^item> \<open>current_service\<close> is the handler's \<^verbatim>\<open>current_service_\<close>; \<open>connection_handler_step\<close> delivers the result of an operation to it and starts the next service
    when it has asked for one.  The handler is finished when its service has stopped.
  \<^item> \<open>handler_env\<close> are the environments of the services, and the values of members that are not initialized.
\<close>

section \<open>What a service promises\<close>

datatype service_state = Sv_waiting | Sv_lost | Sv_stopped | Sv_switched service_kind | Sv_crashed "error_state failure"

locale connection_service =
  fixes flow_of :: "'s \<Rightarrow> flow"
    and state_of :: "'s \<Rightarrow> service_state"
    and outstanding :: "'s \<Rightarrow> bool"
    and step :: "'e \<Rightarrow> 's \<Rightarrow> 's"
    and reachable :: "'s \<Rightarrow> bool"
  assumes reachable_step: "reachable s \<Longrightarrow> reachable (step e s)"
    and waiting_outstanding: "reachable s \<Longrightarrow> state_of s = Sv_waiting \<Longrightarrow> outstanding s"
    and stopped_closed: "reachable s \<Longrightarrow> state_of s = Sv_stopped \<Longrightarrow> sockets_closed (flow_of s)"
    and ended_unmoved: "state_of s \<noteq> Sv_waiting \<Longrightarrow> state_of (step e s) = state_of s \<and> flow_of (step e s) = flow_of s"
begin

lemma run_reachable: "reachable s \<Longrightarrow> reachable (fold step es s)"
  by (induction es arbitrary: s) (simp_all add: reachable_step)

lemma ended_for_good: "state_of s \<noteq> Sv_waiting \<Longrightarrow> state_of (fold step es s) = state_of s \<and> flow_of (fold step es s) = flow_of s"
  by (induction es arbitrary: s) (simp_all add: ended_unmoved)

lemma fate: "reachable s \<Longrightarrow> outstanding s \<or> (state_of s = Sv_stopped \<and> sockets_closed (flow_of s))
    \<or> state_of s = Sv_lost \<or> (\<exists>k. state_of s = Sv_switched k) \<or> (\<exists>f. state_of s = Sv_crashed f)"
  using waiting_outstanding stopped_closed by (cases "state_of s") auto

end

section \<open>The services\<close>

definition http_state :: "http_service \<Rightarrow> service_state" where
  "http_state s = (case hv_wait s of W_none \<Rightarrow> Sv_lost | W_stopped \<Rightarrow> Sv_stopped | W_switched k \<Rightarrow> Sv_switched k | W_crashed f \<Rightarrow> Sv_crashed f
     | _ \<Rightarrow> Sv_waiting)"

definition http_outstanding :: "http_service \<Rightarrow> bool" where
  "http_outstanding s = (hv_op s \<noteq> None \<or> (case hv_wait s of W_connect step \<Rightarrow> True | _ \<Rightarrow> False))"

definition tls_state :: "'k tls_service \<Rightarrow> service_state" where
  "tls_state s = (case ts_wait s of Tw_none \<Rightarrow> Sv_lost | Tw_lost \<Rightarrow> Sv_lost | Tw_stopped \<Rightarrow> Sv_stopped | Tw_switched k \<Rightarrow> Sv_switched k
     | Tw_crashed f \<Rightarrow> Sv_crashed f | _ \<Rightarrow> Sv_waiting)"

definition tls_outstanding :: "'k tls_service \<Rightarrow> bool" where
  "tls_outstanding s = (case ts_wait s of
     Tw_client_hello op \<Rightarrow> cn_read_state (fl_client (ts_flow s)) = Op_pending
   | Tw_connect step \<Rightarrow> True
   | Tw_server_handshake \<Rightarrow> cn_has_secure_socket (fl_server (ts_flow s))
   | Tw_client_handshake \<Rightarrow> cn_has_secure_socket (fl_client (ts_flow s))
   | _ \<Rightarrow> False)"

definition tunnel_state_of :: "tunnel_service \<Rightarrow> service_state" where
  "tunnel_state_of s = (case tn_state s of Tn_new \<Rightarrow> Sv_lost | Tn_stopped \<Rightarrow> Sv_stopped | _ \<Rightarrow> Sv_waiting)"

definition tunnel_outstanding :: "tunnel_service \<Rightarrow> bool" where
  "tunnel_outstanding s = (case tn_state s of
     Tn_connecting step \<Rightarrow> True
   | Tn_running \<Rightarrow> tl_wait (tn_loop s Upstream) \<noteq> Tl_idle \<or> tl_wait (tn_loop s Downstream) \<noteq> Tl_idle
   | _ \<Rightarrow> False)"

definition ws_state :: "'z ws_service \<Rightarrow> service_state" where
  "ws_state s = (case wv_end s of Ws_running \<Rightarrow> Sv_waiting | Ws_stopped \<Rightarrow> Sv_stopped | Ws_crashed f \<Rightarrow> Sv_crashed f)"

definition ws_outstanding :: "'z ws_service \<Rightarrow> bool" where
  "ws_outstanding s = (wc_wait (conn_of Client s) \<noteq> Ws_idle \<or> wc_wait (conn_of Server s) \<noteq> Ws_idle)"

definition ws_deliver :: "'z wsv_env \<Rightarrow> ws_endpoint \<times> ws_event \<Rightarrow> 'z ws_service \<Rightarrow> 'z ws_service" where
  "ws_deliver env = (\<lambda>(ep, ev). ws_step env ep ev)"

text \<open>An HTTP service that does nothing any more has answered a request that expects it.\<close>

definition http_started :: "http_env \<Rightarrow> http_service \<Rightarrow> bool" where
  "http_started env s \<longleftrightarrow> http_reachable env s \<and> (hv_wait s = W_none \<longrightarrow> left_waiting env s)"

lemma http_reachable_ok: "http_reachable env s \<Longrightarrow> wait_ok (hv_wait s) (hv_op s) (hv_flow s) (hv_exchange s)"
  using reachable_ok by (simp add: service_ok_def)

lemma http_started_step: "http_started env s \<Longrightarrow> http_started env (http_step env ev s)"
  using http_step_cases[OF reachable_ok, of env s env ev]
  by (auto simp: http_started_def answered_def intro: http_reachable.stepped)

interpretation http_life: connection_service "\<lambda>s. hv_flow s" http_state http_outstanding "http_step env" "http_started env" for env
proof unfold_locales
  fix s ev
  show "http_started env s \<Longrightarrow> http_started env (http_step env ev s)" by (rule http_started_step)
  assume h: "http_started env s"
  then have ok: "wait_ok (hv_wait s) (hv_op s) (hv_flow s) (hv_exchange s)" using http_reachable_ok[of env s] by (simp add: http_started_def)
  show "http_state s = Sv_waiting \<Longrightarrow> http_outstanding s"
    using ok by (cases "hv_wait s") (auto simp: http_state_def http_outstanding_def)
  show "http_state s = Sv_stopped \<Longrightarrow> sockets_closed (hv_flow s)"
    using ok by (cases "hv_wait s") (auto simp: http_state_def sockets_closed_def)
next
  fix s ev
  show "http_state s \<noteq> Sv_waiting \<Longrightarrow> http_state (http_step env ev s) = http_state s \<and> hv_flow (http_step env ev s) = hv_flow s"
    by (cases "hv_wait s") (simp_all add: http_state_def http_step_def)
qed

lemma tls_reachable_inv: "tls_reachable env s \<Longrightarrow> tls_inv s"
  by (induction rule: tls_reachable.induct) (simp_all add: tls_start_def read_hello_inv tls_service_new_def tls_step_inv)

interpretation tls_life: connection_service "\<lambda>s. ts_flow s" tls_state tls_outstanding "tls_step env" "tls_reachable env" for env
proof unfold_locales
  fix s ev
  show "tls_reachable env s \<Longrightarrow> tls_reachable env (tls_step env ev s)" by (rule tls_reachable.stepped)
  assume "tls_reachable env s"
  then have ok: "tls_inv s" by (rule tls_reachable_inv)
  show "tls_state s = Sv_waiting \<Longrightarrow> tls_outstanding s"
    using ok by (cases "ts_wait s") (auto simp: tls_state_def tls_outstanding_def tls_inv_def)
  show "tls_state s = Sv_stopped \<Longrightarrow> sockets_closed (ts_flow s)"
    using ok by (cases "ts_wait s") (auto simp: tls_state_def sockets_closed_def tls_inv_def)
next
  fix s ev
  show "tls_state s \<noteq> Sv_waiting \<Longrightarrow> tls_state (tls_step env ev s) = tls_state s \<and> ts_flow (tls_step env ev s) = ts_flow s"
    by (cases "ts_wait s"; cases ev) (simp_all add: tls_state_def tls_step_def)
qed

lemma tunnel_reachable_inv: "tunnel_reachable env s \<Longrightarrow> tunnel_inv s"
  by (induction rule: tunnel_reachable.induct) (simp_all add: tunnel_start_inv tunnel_step_inv)

interpretation tunnel_life: connection_service "\<lambda>s. tn_flow s" tunnel_state_of tunnel_outstanding "tunnel_step env" "tunnel_reachable env" for env
proof unfold_locales
  fix s ev
  show "tunnel_reachable env s \<Longrightarrow> tunnel_reachable env (tunnel_step env ev s)" by (rule tunnel_reachable.stepped)
  assume "tunnel_reachable env s"
  then have ok: "tunnel_inv s" by (rule tunnel_reachable_inv)
  show "tunnel_state_of s = Sv_waiting \<Longrightarrow> tunnel_outstanding s"
    using ok by (cases "tn_state s") (auto simp: tunnel_state_of_def tunnel_outstanding_def tunnel_inv_def loop_ok_def ex_direction)
  show "tunnel_state_of s = Sv_stopped \<Longrightarrow> sockets_closed (tn_flow s)"
    using ok by (cases "tn_state s") (auto simp: tunnel_state_of_def sockets_closed_def tunnel_inv_def)
next
  fix s ev
  show "tunnel_state_of s \<noteq> Sv_waiting \<Longrightarrow> tunnel_state_of (tunnel_step env ev s) = tunnel_state_of s \<and> tn_flow (tunnel_step env ev s) = tn_flow s"
    by (cases "tn_state s"; cases ev) (simp_all add: tunnel_state_of_def tunnel_step_def)
qed

interpretation ws_life: connection_service "\<lambda>s. wv_flow s" ws_state ws_outstanding "ws_deliver env" "ws_reachable env" for env
proof unfold_locales
  fix s ev
  show "ws_reachable env s \<Longrightarrow> ws_reachable env (ws_deliver env ev s)"
    by (simp add: ws_deliver_def split_beta ws_reachable.stepped)
  assume "ws_reachable env s"
  then have ok: "reach_ok s" by (rule ws_reachable_ok)
  show "ws_state s = Sv_waiting \<Longrightarrow> ws_outstanding s"
    using ok by (auto simp: ws_state_def ws_outstanding_def reach_ok_def settled_def ended_ok_def split: ws_end.splits)
  show "ws_state s = Sv_stopped \<Longrightarrow> sockets_closed (wv_flow s)"
    using ok by (auto simp: ws_state_def reach_ok_def ended_ok_def split: ws_end.splits)
next
  fix s ev
  show "ws_state s \<noteq> Sv_waiting \<Longrightarrow> ws_state (ws_deliver env ev s) = ws_state s \<and> wv_flow (ws_deliver env ev s) = wv_flow s"
    by (auto simp: ws_state_def ws_deliver_def ws_step_def split_beta split: ws_end.splits)
qed

section \<open>The handler\<close>

datatype ('k, 'z) current_service =
  Cur_http http_service
| Cur_tls "'k tls_service"
| Cur_tunnel tunnel_service
| Cur_websocket "'z ws_service"
| Cur_failed flow "error_state failure"

record ('k, 'z) handler_env =
  hx_http :: http_env
  hx_tls :: "'k tls_env"
  hx_tunnel :: tunnel_env
  hx_ws :: "'z wsv_env"
  hx_method :: http_method
  hx_form :: target_form
  hx_flags :: "direction \<Rightarrow> bool"
  hx_store :: "(certificate, 'k) server_store"

datatype 'k handler_event = He_http io_event | He_tls "'k tls_io" | He_tunnel tunnel_io | He_websocket "ws_endpoint \<times> ws_event"

text \<open>\<^verbatim>\<open>switch_service\<close>: the new service is made on the flow and started.\<close>

definition launch :: "('k, 'z) handler_env \<Rightarrow> service_kind \<Rightarrow> flow \<Rightarrow> ('k, 'z) current_service" where
  "launch env kind w = (case kind of
     Kind_http \<Rightarrow> Cur_http (http_start (hx_http env) (http_service_new (hx_method env) (hx_form env) w))
   | Kind_tls \<Rightarrow> Cur_tls (tls_start (hx_tls env) (tls_service_new (hx_store env) w))
   | Kind_tunnel \<Rightarrow> Cur_tunnel (tunnel_start (hx_tunnel env) (tunnel_service_new (hx_flags env) w))
   | Kind_websocket handshake \<Rightarrow> (case ws_service_new (hx_ws env) w handshake of
         Inr s \<Rightarrow> Cur_websocket (ws_start (hx_ws env) s)
       | Inl f \<Rightarrow> Cur_failed w f))"

definition current_state :: "('k, 'z) current_service \<Rightarrow> service_state" where
  "current_state c = (case c of Cur_http s \<Rightarrow> http_state s | Cur_tls s \<Rightarrow> tls_state s | Cur_tunnel s \<Rightarrow> tunnel_state_of s
     | Cur_websocket s \<Rightarrow> ws_state s | Cur_failed w f \<Rightarrow> Sv_crashed f)"

definition current_flow :: "('k, 'z) current_service \<Rightarrow> flow" where
  "current_flow c = (case c of Cur_http s \<Rightarrow> hv_flow s | Cur_tls s \<Rightarrow> ts_flow s | Cur_tunnel s \<Rightarrow> tn_flow s
     | Cur_websocket s \<Rightarrow> wv_flow s | Cur_failed w f \<Rightarrow> w)"

definition current_outstanding :: "('k, 'z) current_service \<Rightarrow> bool" where
  "current_outstanding c = (case c of Cur_http s \<Rightarrow> http_outstanding s | Cur_tls s \<Rightarrow> tls_outstanding s | Cur_tunnel s \<Rightarrow> tunnel_outstanding s
     | Cur_websocket s \<Rightarrow> ws_outstanding s | Cur_failed w f \<Rightarrow> False)"

definition deliver :: "('k, 'z) handler_env \<Rightarrow> 'k handler_event \<Rightarrow> ('k, 'z) current_service \<Rightarrow> ('k, 'z) current_service" where
  "deliver env ev c = (case (c, ev) of
     (Cur_http s, He_http e) \<Rightarrow> Cur_http (http_step (hx_http env) e s)
   | (Cur_tls s, He_tls e) \<Rightarrow> Cur_tls (tls_step (hx_tls env) e s)
   | (Cur_tunnel s, He_tunnel e) \<Rightarrow> Cur_tunnel (tunnel_step (hx_tunnel env) e s)
   | (Cur_websocket s, He_websocket e) \<Rightarrow> Cur_websocket (ws_deliver (hx_ws env) e s)
   | _ \<Rightarrow> c)"

definition settle :: "('k, 'z) handler_env \<Rightarrow> ('k, 'z) current_service \<Rightarrow> ('k, 'z) current_service" where
  "settle env c = (case current_state c of Sv_switched kind \<Rightarrow> launch env kind (current_flow c) | _ \<Rightarrow> c)"

definition connection_handler_step :: "('k, 'z) handler_env \<Rightarrow> 'k handler_event \<Rightarrow> ('k, 'z) current_service \<Rightarrow> ('k, 'z) current_service" where
  "connection_handler_step env ev c = settle env (deliver env ev c)"

inductive handler_reachable :: "('k, 'z) handler_env \<Rightarrow> ('k, 'z) current_service \<Rightarrow> bool" for env where
  started: "handler_reachable env (launch env Kind_http w)"
| stepped: "handler_reachable env c \<Longrightarrow> handler_reachable env (connection_handler_step env ev c)"

section \<open>The life of a connection\<close>

definition service_reached :: "('k, 'z) handler_env \<Rightarrow> ('k, 'z) current_service \<Rightarrow> bool" where
  "service_reached env c = (case c of
     Cur_http s \<Rightarrow> http_started (hx_http env) s
   | Cur_tls s \<Rightarrow> tls_reachable (hx_tls env) s
   | Cur_tunnel s \<Rightarrow> tunnel_reachable (hx_tunnel env) s
   | Cur_websocket s \<Rightarrow> ws_reachable (hx_ws env) s
   | Cur_failed w f \<Rightarrow> True)"

lemma launch_reached: "service_reached env (launch env kind w)"
proof (cases kind)
  case Kind_http
  have "hv_wait (http_start henv (http_service_new m form w)) \<noteq> W_none" for henv m form
    using start_answered[of henv "http_service_new m form w"] by (simp add: answered_def)
  with Kind_http show ?thesis by (simp add: launch_def service_reached_def http_started_def http_reachable.started)
qed (auto simp: launch_def service_reached_def split: sum.split intro: tls_reachable.started tunnel_reachable.started ws_reachable.started)

lemma launch_not_switched: "current_state (launch env kind w) \<noteq> Sv_switched k"
proof (cases kind)
  case Kind_http
  have "hv_wait (http_start henv s) \<noteq> W_switched k" for henv s
    by (simp add: http_start_def read_request_head_def send_error_response_def start_client_op_def Let_def split: prod.split)
  then have "http_state (http_start henv s) \<noteq> Sv_switched k" for henv s
    by (auto simp: http_state_def split: http_wait.split)
  with Kind_http show ?thesis by (simp add: launch_def current_state_def)
next
  case Kind_tls
  have "\<exists>op. ts_wait (tls_start (hx_tls env) (tls_service_new (hx_store env) w)) = Tw_client_hello op"
    by (simp add: tls_start_def read_client_hello_def split: prod.split)
  with Kind_tls show ?thesis by (auto simp: launch_def current_state_def tls_state_def)
next
  case Kind_tunnel
  then show ?thesis by (simp add: launch_def current_state_def tunnel_state_of_def split: tunnel_state.split)
next
  case (Kind_websocket x4)
  then show ?thesis by (simp add: launch_def current_state_def ws_state_def split: sum.split ws_end.split)
qed

lemma settle_reached: "service_reached env c \<Longrightarrow> service_reached env (settle env c)"
  by (simp add: settle_def launch_reached split: service_state.split)

lemma deliver_reached: "service_reached env c \<Longrightarrow> service_reached env (deliver env ev c)"
  by (cases c; cases ev) (simp_all add: deliver_def service_reached_def http_life.reachable_step tls_life.reachable_step
    tunnel_life.reachable_step ws_life.reachable_step)

lemma handler_reached: "handler_reachable env c \<Longrightarrow> service_reached env c \<and> (\<forall>k. current_state c \<noteq> Sv_switched k)"
proof (induction rule: handler_reachable.induct)
  case (started w)
  then show ?case by (simp add: launch_reached launch_not_switched)
next
  case (stepped c ev)
  then have "service_reached env (connection_handler_step env ev c)" by (simp add: connection_handler_step_def settle_reached deliver_reached)
  moreover have "current_state (settle env d) \<noteq> Sv_switched k" for d k
    by (cases "current_state d") (simp_all add: settle_def launch_not_switched)
  ultimately show ?case by (simp add: connection_handler_step_def)
qed


definition example_handler_env :: "(unit, unit) handler_env" where
  "example_handler_env = \<lparr>hx_http = example_env, hx_tls = plain_tls_env, hx_tunnel = plain_tunnel_env, hx_ws = example_wsv_env,
     hx_method = M_GET, hx_form = Origin_form, hx_flags = \<lambda>_. False, hx_store = number_store\<rparr>"


end
