(* ===== verification/Result.thy ===== *)
theory Result
  imports Prelude
begin

text \<open>
  util/result.hpp: the class \<^verbatim>\<open>result<T, E>\<close>, one block of memory that holds a value or an error.

  \<^item> \<open>storage\<close> is the block: raw, or with an object alive in it.  \<open>rb_error\<close> is the flag that tells which one; the constructors set both.
  \<^item> \<open>lifetimes\<close> counts the objects that were constructed and destroyed, so that a leak or a second destruction shows.  A destructor or
    an access to an object that is not there is \<open>Undefined\<close>.
  \<^item> \<open>moved_ok\<close> and \<open>moved_err\<close> are what a move leaves behind in the source; copies are copies.  The constructor that \<open>emplace\<close> forwards its
    arguments to is an argument: \<open>None\<close> when it throws.
  \<^item> \<^verbatim>\<open>result<void, E>\<close> is a \<^verbatim>\<open>std::optional<E>\<close>: the last section.
\<close>

section \<open>The block of memory\<close>

datatype ('t, 'e) storage = Raw | Holds_ok 't | Holds_err 'e

record lifetimes =
  made_ok :: nat
  made_err :: nat
  dead_ok :: nat
  dead_err :: nat

record ('t, 'e) result_base =
  rb_error :: bool
  rb_storage :: "('t, 'e) storage"
  rb_lifetimes :: lifetimes

text \<open>\<^verbatim>\<open>bad_result_access\<close> is made from a tag, which chooses its text; \<open>Constructor_threw\<close> is whatever a constructor of \<open>'t\<close> or \<open>'e\<close> throws.\<close>

datatype result_tag = Ok_t | Err_t

datatype result_exception = Bad_access result_tag | Constructor_threw

fun bad_result_access_what :: "result_tag \<Rightarrow> string" where
  "bad_result_access_what Ok_t = ''Attempted to access the value of a result with an error''"
| "bad_result_access_what Err_t = ''Attempted to access the error of a result with no error''"

type_synonym ('t, 'e, 'a) result_op = "('t, 'e) result_base \<Rightarrow> (result_exception failure + 'a) \<times> ('t, 'e) result_base"

definition no_lifetimes :: lifetimes where
  "no_lifetimes = \<lparr>made_ok = 0, made_err = 0, dead_ok = 0, dead_err = 0\<rparr>"

text \<open>A block of which nothing has been constructed; the flag is whatever was there.\<close>

definition raw_result :: "bool \<Rightarrow> ('t, 'e) result_base" where
  "raw_result garbage = \<lparr>rb_error = garbage, rb_storage = Raw, rb_lifetimes = no_lifetimes\<rparr>"

definition is_ok :: "('t, 'e) result_base \<Rightarrow> bool" where
  "is_ok r \<longleftrightarrow> \<not> rb_error r"

definition is_err :: "('t, 'e) result_base \<Rightarrow> bool" where
  "is_err r \<longleftrightarrow> rb_error r"

definition construct_ok :: "'t \<Rightarrow> ('t, 'e) result_base \<Rightarrow> ('t, 'e) result_base" where
  "construct_ok v r = r\<lparr>rb_storage := Holds_ok v, rb_error := False, rb_lifetimes := made_ok_update Suc (rb_lifetimes r)\<rparr>"

definition construct_err :: "'e \<Rightarrow> ('t, 'e) result_base \<Rightarrow> ('t, 'e) result_base" where
  "construct_err e r = r\<lparr>rb_storage := Holds_err e, rb_error := True, rb_lifetimes := made_err_update Suc (rb_lifetimes r)\<rparr>"

definition get_ok_impl :: "('t, 'e, 't) result_op" where
  "get_ok_impl r = (case rb_storage r of Holds_ok v \<Rightarrow> (Inr v, r) | _ \<Rightarrow> (Inl Undefined, r))"

definition get_err_impl :: "('t, 'e, 'e) result_op" where
  "get_err_impl r = (case rb_storage r of Holds_err e \<Rightarrow> (Inr e, r) | _ \<Rightarrow> (Inl Undefined, r))"

definition result_destroy :: "('t, 'e, unit) result_op" where
  "result_destroy r = (if is_ok r
     then (case rb_storage r of Holds_ok v \<Rightarrow> (Inr (), r\<lparr>rb_storage := Raw, rb_lifetimes := dead_ok_update Suc (rb_lifetimes r)\<rparr>)
         | _ \<Rightarrow> (Inl Undefined, r))
     else (case rb_storage r of Holds_err e \<Rightarrow> (Inr (), r\<lparr>rb_storage := Raw, rb_lifetimes := dead_err_update Suc (rb_lifetimes r)\<rparr>)
         | _ \<Rightarrow> (Inl Undefined, r)))"

text \<open>Assignment to the object that is there.\<close>

definition assign_value_ok :: "'t \<Rightarrow> ('t, 'e, unit) result_op" where
  "assign_value_ok v r = (case rb_storage r of Holds_ok _ \<Rightarrow> (Inr (), r\<lparr>rb_storage := Holds_ok v, rb_error := False\<rparr>) | _ \<Rightarrow> (Inl Undefined, r))"

definition assign_value_err :: "'e \<Rightarrow> ('t, 'e, unit) result_op" where
  "assign_value_err e r = (case rb_storage r of Holds_err _ \<Rightarrow> (Inr (), r\<lparr>rb_storage := Holds_err e, rb_error := True\<rparr>) | _ \<Rightarrow> (Inl Undefined, r))"

definition make_ok :: "'t \<Rightarrow> ('t, 'e, unit) result_op" where
  "make_ok v r = (Inr (), construct_ok v r)"

definition make_err :: "'e \<Rightarrow> ('t, 'e, unit) result_op" where
  "make_err e r = (Inr (), construct_err e r)"

definition assign_ok :: "'t \<Rightarrow> ('t, 'e, unit) result_op" where
  "assign_ok v r = (if is_ok r then assign_value_ok v r else sbind result_destroy (\<lambda>_. make_ok v) r)"

definition assign_err :: "'e \<Rightarrow> ('t, 'e, unit) result_op" where
  "assign_err e r = (if is_err r then assign_value_err e r else sbind result_destroy (\<lambda>_. make_err e) r)"

text \<open>\<^verbatim>\<open>assign(const result_base&)\<close>, and the copy constructor on a raw block.\<close>

definition assign_copy :: "('t, 'e) result_base \<Rightarrow> ('t, 'e, unit) result_op" where
  "assign_copy rhs r = (if is_ok rhs then (case get_ok_impl rhs of (Inl f, _) \<Rightarrow> (Inl f, r) | (Inr v, _) \<Rightarrow> assign_ok v r)
     else (case get_err_impl rhs of (Inl f, _) \<Rightarrow> (Inl f, r) | (Inr e, _) \<Rightarrow> assign_err e r))"

definition copy_construct :: "('t, 'e) result_base \<Rightarrow> ('t, 'e, unit) result_op" where
  "copy_construct rhs r = (if is_ok rhs then (case get_ok_impl rhs of (Inl f, _) \<Rightarrow> (Inl f, r) | (Inr v, _) \<Rightarrow> make_ok v r)
     else (case get_err_impl rhs of (Inl f, _) \<Rightarrow> (Inl f, r) | (Inr e, _) \<Rightarrow> make_err e r))"

text \<open>What a move leaves in the source.\<close>

definition moved_from :: "('t \<Rightarrow> 't) \<Rightarrow> ('e \<Rightarrow> 'e) \<Rightarrow> ('t, 'e) result_base \<Rightarrow> ('t, 'e) result_base" where
  "moved_from moved_ok moved_err rhs = rhs\<lparr>rb_storage := (case rb_storage rhs of
     Raw \<Rightarrow> Raw | Holds_ok v \<Rightarrow> Holds_ok (moved_ok v) | Holds_err e \<Rightarrow> Holds_err (moved_err e))\<rparr>"

definition emplace_ok :: "'t option \<Rightarrow> ('t, 'e, unit) result_op" where
  "emplace_ok arg = sbind result_destroy (\<lambda>_ r. case arg of None \<Rightarrow> (Inl (Error Constructor_threw), r) | Some v \<Rightarrow> make_ok v r)"

definition emplace_err :: "'e option \<Rightarrow> ('t, 'e, unit) result_op" where
  "emplace_err arg = sbind result_destroy (\<lambda>_ r. case arg of None \<Rightarrow> (Inl (Error Constructor_threw), r) | Some e \<Rightarrow> make_err e r)"

section \<open>Access\<close>

text \<open>Both \<^verbatim>\<open>ok()\<close> and \<^verbatim>\<open>err()\<close> throw with the tag \<^verbatim>\<open>util::ok\<close>.\<close>

definition result_ok :: "('t, 'e, 't) result_op" where
  "result_ok r = (if is_ok r then get_ok_impl r else (Inl (Error (Bad_access Ok_t)), r))"

definition result_err :: "('t, 'e, 'e) result_op" where
  "result_err r = (if is_err r then get_err_impl r else (Inl (Error (Bad_access Ok_t)), r))"

definition ok_or :: "'t \<Rightarrow> ('t, 'e, 't) result_op" where
  "ok_or other r = (if is_ok r then get_ok_impl r else (Inr other, r))"

definition err_or :: "'e \<Rightarrow> ('t, 'e, 'e) result_op" where
  "err_or other r = (if is_err r then get_err_impl r else (Inr other, r))"

definition get_ok_ptr :: "('t, 'e) result_base \<Rightarrow> 't option" where
  "get_ok_ptr r = (if is_ok r then (case rb_storage r of Holds_ok v \<Rightarrow> Some v | _ \<Rightarrow> None) else None)"

definition get_err_ptr :: "('t, 'e) result_base \<Rightarrow> 'e option" where
  "get_err_ptr r = (if \<not> is_ok r then (case rb_storage r of Holds_err e \<Rightarrow> Some e | _ \<Rightarrow> None) else None)"

section \<open>Chaining\<close>

definition new_ok :: "'t \<Rightarrow> ('t, 'e) result_base" where
  "new_ok v = construct_ok v (raw_result False)"

definition new_err :: "'e \<Rightarrow> ('t, 'e) result_base" where
  "new_err e = construct_err e (raw_result False)"

definition and_then :: "('t \<Rightarrow> ('u, 'e) result_base) \<Rightarrow> ('t, 'e) result_base \<Rightarrow> result_exception failure + ('u, 'e) result_base" where
  "and_then f r = (if is_ok r then map_sum id f (fst (get_ok_impl r)) else map_sum id new_err (fst (get_err_impl r)))"

definition result_map :: "('t \<Rightarrow> 'u) \<Rightarrow> ('t, 'e) result_base \<Rightarrow> result_exception failure + ('u, 'e) result_base" where
  "result_map f r = (if is_ok r then map_sum id (\<lambda>v. new_ok (f v)) (fst (get_ok_impl r)) else map_sum id new_err (fst (get_err_impl r)))"

definition map_err :: "('e \<Rightarrow> 'x) \<Rightarrow> ('t, 'e) result_base \<Rightarrow> result_exception failure + ('t, 'x) result_base" where
  "map_err f r = (if is_ok r then map_sum id new_ok (fst (get_ok_impl r)) else map_sum id (\<lambda>e. new_err (f e)) (fst (get_err_impl r)))"

definition show_result :: "('t \<Rightarrow> string) \<Rightarrow> ('e \<Rightarrow> string) \<Rightarrow> ('t, 'e) result_base \<Rightarrow> result_exception failure + string" where
  "show_result f g r = (if is_ok r then map_sum id f (fst (result_ok r)) else map_sum id g (fst (result_err r)))"

section \<open>The sum type\<close>

text \<open>A result with an object alive in it that the flag tells of, and with every other object that was ever in it destroyed.\<close>

fun alive_ok :: "('t, 'e) storage \<Rightarrow> nat" where
  "alive_ok (Holds_ok v) = 1"
| "alive_ok _ = 0"

fun alive_err :: "('t, 'e) storage \<Rightarrow> nat" where
  "alive_err (Holds_err e) = 1"
| "alive_err _ = 0"

definition balanced :: "('t, 'e) result_base \<Rightarrow> bool" where
  "balanced r \<longleftrightarrow> made_ok (rb_lifetimes r) = dead_ok (rb_lifetimes r) + alive_ok (rb_storage r)
     \<and> made_err (rb_lifetimes r) = dead_err (rb_lifetimes r) + alive_err (rb_storage r)"

fun denotes :: "'e + 't \<Rightarrow> ('t, 'e) result_base \<Rightarrow> bool" where
  "denotes (Inr v) r \<longleftrightarrow> balanced r \<and> \<not> rb_error r \<and> rb_storage r = Holds_ok v"
| "denotes (Inl e) r \<longleftrightarrow> balanced r \<and> rb_error r \<and> rb_storage r = Holds_err e"

lemmas result_defs = is_ok_def is_err_def construct_ok_def construct_err_def get_ok_impl_def get_err_impl_def result_destroy_def
  assign_value_ok_def assign_value_err_def make_ok_def make_err_def assign_ok_def assign_err_def balanced_def sbind_def

text \<open>The members that change a result.\<close>

datatype ('t, 'e) member =
  Assign_ok 't | Assign_err 'e | Assign_copy "'e + 't" | Assign_self | Emplace_ok 't | Emplace_err 'e | Move_out

fun specified :: "('t \<Rightarrow> 't) \<Rightarrow> ('e \<Rightarrow> 'e) \<Rightarrow> ('t, 'e) member \<Rightarrow> 'e + 't \<Rightarrow> 'e + 't" where
  "specified mo me (Assign_ok v) x = Inr v"
| "specified mo me (Assign_err e) x = Inl e"
| "specified mo me (Assign_copy y) x = y"
| "specified mo me Assign_self x = x"
| "specified mo me (Emplace_ok v) x = Inr v"
| "specified mo me (Emplace_err e) x = Inl e"
| "specified mo me Move_out x = map_sum me mo x"

definition new_result :: "'e + 't \<Rightarrow> ('t, 'e) result_base" where
  "new_result x = (case x of Inr v \<Rightarrow> new_ok v | Inl e \<Rightarrow> new_err e)"

fun perform :: "('t \<Rightarrow> 't) \<Rightarrow> ('e \<Rightarrow> 'e) \<Rightarrow> ('t, 'e) member \<Rightarrow> ('t, 'e, unit) result_op" where
  "perform mo me (Assign_ok v) r = assign_ok v r"
| "perform mo me (Assign_err e) r = assign_err e r"
| "perform mo me (Assign_copy y) r = assign_copy (new_result y) r"
| "perform mo me Assign_self r = assign_copy r r"
| "perform mo me (Emplace_ok v) r = emplace_ok (Some v) r"
| "perform mo me (Emplace_err e) r = emplace_err (Some e) r"
| "perform mo me Move_out r = (Inr (), moved_from mo me r)"

lemma new_result_denotes [simp]: "denotes x (new_result x)"
  by (cases x) (simp_all add: new_result_def new_ok_def new_err_def result_defs raw_result_def no_lifetimes_def)

lemma new_result_members [simp]: "rb_error (new_result (Inr v)) = False" "rb_storage (new_result (Inr v)) = Holds_ok v"
  "rb_error (new_result (Inl e)) = True" "rb_storage (new_result (Inl e)) = Holds_err e"
  by (simp_all add: new_result_def new_ok_def new_err_def construct_ok_def construct_err_def)

lemma perform_denotes:
  assumes "denotes x r"
  shows "\<exists>r1. perform mo me m r = (Inr (), r1) \<and> denotes (specified mo me m x) r1"
proof (cases m)
  case (Assign_copy y)
  with assms show ?thesis by (cases x; cases y) (simp_all add: assign_copy_def result_defs)
qed (cases x; use assms in \<open>simp add: assign_copy_def emplace_ok_def emplace_err_def moved_from_def result_defs\<close>)+

fun perform_all :: "('t \<Rightarrow> 't) \<Rightarrow> ('e \<Rightarrow> 'e) \<Rightarrow> ('t, 'e) member list \<Rightarrow> ('t, 'e, unit) result_op" where
  "perform_all mo me [] r = (Inr (), r)"
| "perform_all mo me (m # ms) r = sbind (perform mo me m) (\<lambda>_. perform_all mo me ms) r"

lemma perform_all_denotes:
  "denotes x r \<Longrightarrow> \<exists>r1. perform_all mo me ms r = (Inr (), r1) \<and> denotes (fold (specified mo me) ms x) r1"
proof (induction ms arbitrary: x r)
  case (Cons m ms)
  from perform_denotes[OF Cons.prems] obtain r1 where r1: "perform mo me m r = (Inr (), r1)" "denotes (specified mo me m x) r1" by blast
  from Cons.IH[OF r1(2)] r1(1) show ?case by (simp add: sbind_def)
qed simp

lemma denotes_read:
  "denotes (Inr v) r \<Longrightarrow> is_ok r \<and> result_ok r = (Inr v, r) \<and> ok_or d r = (Inr v, r) \<and> get_ok_ptr r = Some v \<and> get_err_ptr r = None
    \<and> result_err r = (Inl (Error (Bad_access Ok_t)), r) \<and> err_or e r = (Inr e, r)"
  "denotes (Inl e') r \<Longrightarrow> is_err r \<and> result_err r = (Inr e', r) \<and> err_or e r = (Inr e', r) \<and> get_err_ptr r = Some e' \<and> get_ok_ptr r = None
    \<and> result_ok r = (Inl (Error (Bad_access Ok_t)), r) \<and> ok_or d r = (Inr d, r)"
  by (simp_all add: result_defs result_ok_def result_err_def ok_or_def err_or_def get_ok_ptr_def get_err_ptr_def)

lemma denotes_chain:
  "denotes x r \<Longrightarrow> result_map f r = Inr (new_result (map_sum id f x)) \<and> map_err g r = Inr (new_result (map_sum g id x))
    \<and> and_then (\<lambda>v. new_result (h v)) r = Inr (new_result (rbind x h))"
  by (cases x) (simp_all add: result_defs result_map_def map_err_def and_then_def new_result_def rbind_def)


text \<open>When the constructor that \<open>emplace\<close> calls throws, the block is raw and the flag still tells of the object that was destroyed: the
  destructor destroys it again.\<close>

lemma emplace_throws:
  assumes "denotes x r"
  shows "\<exists>r1. emplace_ok None r = (Inl (Error Constructor_threw), r1) \<and> fst (result_destroy r1) = Inl Undefined"
  using assms by (cases x) (simp_all add: emplace_ok_def result_defs)

text \<open>The text of the exception of \<^verbatim>\<open>err()\<close> speaks of the value, although there is one and the error is missing.\<close>

lemma err_names_value:
  "fst (result_err (new_result (Inr v))) = Inl (Error (Bad_access Ok_t))"
  by (simp add: result_err_def is_err_def)

section \<open>Results without a value\<close>

record 'e void_result =
  vr_error :: "'e option"

definition void_ok :: "'e void_result" where
  "void_ok = \<lparr>vr_error = None\<rparr>"

definition void_err :: "'e \<Rightarrow> 'e void_result" where
  "void_err e = \<lparr>vr_error = Some e\<rparr>"

definition void_is_ok :: "'e void_result \<Rightarrow> bool" where
  "void_is_ok r \<longleftrightarrow> vr_error r = None"

definition void_is_err :: "'e void_result \<Rightarrow> bool" where
  "void_is_err r \<longleftrightarrow> vr_error r \<noteq> None"

definition void_set_ok :: "'e void_result \<Rightarrow> 'e void_result" where
  "void_set_ok r = r\<lparr>vr_error := None\<rparr>"

definition void_assign :: "'e \<Rightarrow> 'e void_result \<Rightarrow> 'e void_result" where
  "void_assign e r = r\<lparr>vr_error := Some e\<rparr>"

text \<open>\<^verbatim>\<open>std::optional::emplace\<close> destroys the old value first and is left empty when the constructor throws.\<close>

definition void_emplace_err :: "'e option \<Rightarrow> 'e void_result \<Rightarrow> (result_exception failure + unit) \<times> 'e void_result" where
  "void_emplace_err arg r = (case arg of None \<Rightarrow> (Inl (Error Constructor_threw), void_set_ok r) | Some e \<Rightarrow> (Inr (), void_assign e r))"

definition void_result_err :: "'e void_result \<Rightarrow> result_exception failure + 'e" where
  "void_result_err r = (case vr_error r of Some e \<Rightarrow> Inr e | None \<Rightarrow> Inl (Error (Bad_access Ok_t)))"

definition void_err_or :: "'e \<Rightarrow> 'e void_result \<Rightarrow> 'e" where
  "void_err_or other r = (case vr_error r of Some e \<Rightarrow> e | None \<Rightarrow> other)"

definition void_and_then :: "('u, 'e) result_base \<Rightarrow> 'e void_result \<Rightarrow> ('u, 'e) result_base" where
  "void_and_then f r = (case vr_error r of None \<Rightarrow> f | Some e \<Rightarrow> new_err e)"

definition void_map :: "'u \<Rightarrow> 'e void_result \<Rightarrow> ('u, 'e) result_base" where
  "void_map v r = (case vr_error r of None \<Rightarrow> new_ok v | Some e \<Rightarrow> new_err e)"

definition void_map_err :: "('e \<Rightarrow> 'x) \<Rightarrow> 'e void_result \<Rightarrow> 'x void_result" where
  "void_map_err f r = (case vr_error r of None \<Rightarrow> void_ok | Some e \<Rightarrow> void_err (f e))"

definition show_void_result :: "('e \<Rightarrow> string) \<Rightarrow> 'e void_result \<Rightarrow> string" where
  "show_void_result g r = (case vr_error r of None \<Rightarrow> ''OK'' | Some e \<Rightarrow> g e)"

end
