(* ===== verification/Any_Invocable.thy ===== *)
theory Any_Invocable
  imports Prelude
begin

text \<open>
  util/any_invocable.hpp: the move-only wrapper of callables in which Asio's callbacks and the interceptors are kept.

  \<^item> A \<open>target\<close> is a callable object with what the compiler knows of its type: whether it fits into the wrapper, whether it is trivially copyable
    and whether it can be freed without its destructor.  Calling it is \<open>tg_fun\<close>.
  \<^item> \<open>invocable\<close> is the wrapper: the union \<^verbatim>\<open>type_erased_state\<close> and the two function pointers.  A \<open>world\<close> has the wrappers of a program, the
    temporary of an assignment and the heap; \<open>wd_leaks\<close> counts the objects with a destructor whose storage was reused before it ran.
  \<^item> Reading storage in which no object lives, and freeing memory that is not allocated, are \<open>Undefined\<close>.  \<^verbatim>\<open>AETHER_ASSERT\<close> terminates the program:
    \<open>Null_invoker\<close> and \<open>Used_after_move\<close>.

  The theorem relates any sequence of operations to one on values that are there or not.
\<close>

section \<open>The wrapper\<close>

record 'f target =
  tg_fun :: 'f
  tg_local :: bool
  tg_trivial_copy :: bool
  tg_trivial_remote :: bool

datatype 'f erased_state = Unset | Local_object "'f target" | Remote_object nat

datatype manager = Empty_manager | Local_manager_trivial | Local_manager_nontrivial | Remote_manager_trivial | Remote_manager_nontrivial

datatype invoker = Local_invoker | Remote_invoker | Assert_use_after_move

datatype function_to_call = Relocate_from_to | Dispose

record 'f invocable =
  iv_state :: "'f erased_state"
  iv_manager :: manager
  iv_invoker :: "invoker option"

datatype slot = Var nat | Temporary

record 'f world =
  wd_slots :: "slot \<Rightarrow> 'f invocable"
  wd_heap :: "nat \<Rightarrow> 'f target option"
  wd_next :: nat
  wd_leaks :: nat

datatype invocable_error = Null_invoker | Used_after_move | Target_threw

type_synonym ('f, 'a) invocable_res = "(invocable_error, 'a) res"

definition empty_invocable :: "'f invocable" where
  "empty_invocable = \<lparr>iv_state = Unset, iv_manager = Empty_manager, iv_invoker = None\<rparr>"

definition new_world :: "'f world" where
  "new_world = \<lparr>wd_slots = \<lambda>_. empty_invocable, wd_heap = \<lambda>_. None, wd_next = 0, wd_leaks = 0\<rparr>"

definition upd_slot :: "slot \<Rightarrow> ('f invocable \<Rightarrow> 'f invocable) \<Rightarrow> 'f world \<Rightarrow> 'f world" where
  "upd_slot s g w = w\<lparr>wd_slots := (wd_slots w)(s := g (wd_slots w s))\<rparr>"

definition object_alive :: "'f erased_state \<Rightarrow> bool" where
  "object_alive st = (case st of Local_object t \<Rightarrow> \<not> tg_trivial_copy t | _ \<Rightarrow> False)"

text \<open>Writing to the storage of a wrapper; an object with a destructor that is still there is lost.\<close>

definition put_state :: "slot \<Rightarrow> 'f erased_state \<Rightarrow> 'f world \<Rightarrow> 'f world" where
  "put_state s st w = (let w1 = upd_slot s (\<lambda>v. v\<lparr>iv_state := st\<rparr>) w in
     if object_alive (iv_state (wd_slots w s)) then w1\<lparr>wd_leaks := Suc (wd_leaks w1)\<rparr> else w1)"

definition free_remote :: "nat \<Rightarrow> 'f world \<Rightarrow> ('f, 'f world) invocable_res" where
  "free_remote a w = (case wd_heap w a of None \<Rightarrow> Inl Undefined | Some t \<Rightarrow> Inr (w\<lparr>wd_heap := (wd_heap w)(a := None)\<rparr>))"

definition remote_manager :: "function_to_call \<Rightarrow> slot \<Rightarrow> slot \<Rightarrow> 'f world \<Rightarrow> ('f, 'f world) invocable_res" where
  "remote_manager op src dst w = (case iv_state (wd_slots w src) of
     Remote_object a \<Rightarrow> (case op of Relocate_from_to \<Rightarrow> Inr (put_state dst (Remote_object a) w) | Dispose \<Rightarrow> free_remote a w)
   | _ \<Rightarrow> Inl Undefined)"

definition local_manager_nontrivial :: "function_to_call \<Rightarrow> slot \<Rightarrow> slot \<Rightarrow> 'f world \<Rightarrow> ('f, 'f world) invocable_res" where
  "local_manager_nontrivial op src dst w = (case iv_state (wd_slots w src) of
     Local_object t \<Rightarrow> (let w1 = (case op of Relocate_from_to \<Rightarrow> put_state dst (Local_object t) w | Dispose \<Rightarrow> w)
       in Inr (upd_slot src (\<lambda>v. v\<lparr>iv_state := Unset\<rparr>) w1))
   | _ \<Rightarrow> Inl Undefined)"

definition run_manager :: "function_to_call \<Rightarrow> slot \<Rightarrow> slot \<Rightarrow> 'f world \<Rightarrow> ('f, 'f world) invocable_res" where
  "run_manager op src dst w = (case iv_manager (wd_slots w src) of
     Empty_manager \<Rightarrow> Inr w
   | Local_manager_trivial \<Rightarrow> Inr (put_state dst (iv_state (wd_slots w src)) w)
   | Local_manager_nontrivial \<Rightarrow> local_manager_nontrivial op src dst w
   | Remote_manager_trivial \<Rightarrow> remote_manager op src dst w
   | Remote_manager_nontrivial \<Rightarrow> remote_manager op src dst w)"

definition set_empty :: "slot \<Rightarrow> 'f world \<Rightarrow> 'f world" where
  "set_empty s = upd_slot s (\<lambda>v. v\<lparr>iv_manager := Empty_manager, iv_invoker := None\<rparr>)"

definition has_value :: "'f invocable \<Rightarrow> bool" where
  "has_value v \<longleftrightarrow> iv_invoker v \<noteq> None"

definition clear_invocable :: "slot \<Rightarrow> 'f world \<Rightarrow> ('f, 'f world) invocable_res" where
  "clear_invocable s w = rbind (run_manager Dispose s s w) (\<lambda>w1. Inr (set_empty s w1))"

definition take_over :: "slot \<Rightarrow> slot \<Rightarrow> 'f world \<Rightarrow> ('f, 'f world) invocable_res" where
  "take_over s other w = rbind (run_manager Relocate_from_to other s w) (\<lambda>w1.
     let v = wd_slots w1 other; w2 = upd_slot s (\<lambda>u. u\<lparr>iv_manager := iv_manager v, iv_invoker := iv_invoker v\<rparr>) w1
     in Inr (set_empty other w2))"

definition move_assign :: "slot \<Rightarrow> slot \<Rightarrow> 'f world \<Rightarrow> ('f, 'f world) invocable_res" where
  "move_assign s other w = rbind (clear_invocable s w) (take_over s other)"

text \<open>The destructor, after which there is no wrapper: a new one can begin in the same slot.\<close>

definition destruct :: "slot \<Rightarrow> 'f world \<Rightarrow> ('f, 'f world) invocable_res" where
  "destruct s w = rbind (run_manager Dispose s s w) (\<lambda>w1. Inr (upd_slot s (\<lambda>_. empty_invocable)
     (if object_alive (iv_state (wd_slots w1 s)) then w1\<lparr>wd_leaks := Suc (wd_leaks w1)\<rparr> else w1)))"

section \<open>Construction\<close>

definition local_manager_of :: "'f target \<Rightarrow> manager" where
  "local_manager_of t = (if tg_trivial_copy t then Local_manager_trivial else Local_manager_nontrivial)"

definition remote_manager_of :: "'f target \<Rightarrow> manager" where
  "remote_manager_of t = (if tg_trivial_remote t then Remote_manager_trivial else Remote_manager_nontrivial)"

definition initialize_storage :: "'f target \<Rightarrow> slot \<Rightarrow> 'f world \<Rightarrow> 'f world" where
  "initialize_storage t s w = (if tg_local t
     then upd_slot s (\<lambda>v. v\<lparr>iv_invoker := Some Local_invoker, iv_manager := local_manager_of t\<rparr>) (put_state s (Local_object t) w)
     else let a = wd_next w; w1 = w\<lparr>wd_heap := (wd_heap w)(a \<mapsto> t), wd_next := Suc a\<rparr>
       in upd_slot s (\<lambda>v. v\<lparr>iv_manager := remote_manager_of t, iv_invoker := Some Remote_invoker\<rparr>) (put_state s (Remote_object a) w1))"

text \<open>What a wrapper is made from.  A target comes with \<open>None\<close> for a null pointer or an empty wrapper of another signature; \<open>Throwing\<close> is
  an object whose copy throws.\<close>

datatype 'f source = Null | Pointer "'f target option" | Compatible slot | Incompatible "'f target option" | Other "'f target" | Throwing

definition initialize :: "'f source \<Rightarrow> slot \<Rightarrow> 'f world \<Rightarrow> ('f, 'f world) invocable_res" where
  "initialize src s w = (case src of
     Null \<Rightarrow> Inr (set_empty s w)
   | Pointer None \<Rightarrow> Inr (set_empty s w)
   | Pointer (Some t) \<Rightarrow> Inr (initialize_storage t s w)
   | Compatible other \<Rightarrow> take_over s other w
   | Incompatible None \<Rightarrow> Inr (set_empty s w)
   | Incompatible (Some t) \<Rightarrow> Inr (initialize_storage t s w)
   | Other t \<Rightarrow> Inr (initialize_storage t s w)
   | Throwing \<Rightarrow> Inl (Error Target_threw))"

text \<open>\<^verbatim>\<open>operator=(F&&)\<close> makes a temporary first; \<^verbatim>\<open>swap\<close> is \<^verbatim>\<open>std::swap\<close>.\<close>

definition assign_from :: "'f source \<Rightarrow> slot \<Rightarrow> 'f world \<Rightarrow> ('f, 'f world) invocable_res" where
  "assign_from src s w = rbind (initialize src Temporary w) (\<lambda>w1. rbind (move_assign s Temporary w1) (destruct Temporary))"

definition swap_invocables :: "slot \<Rightarrow> slot \<Rightarrow> 'f world \<Rightarrow> ('f, 'f world) invocable_res" where
  "swap_invocables a b w = rbind (take_over Temporary a w) (\<lambda>w1. rbind (move_assign a b w1) (\<lambda>w2.
     rbind (move_assign b Temporary w2) (destruct Temporary)))"

section \<open>Invocation\<close>

text \<open>\<open>rvalue\<close> tells whether the signature ends in \<^verbatim>\<open>&&\<close>: such a wrapper can be called once.\<close>

definition extract_invoker :: "bool \<Rightarrow> slot \<Rightarrow> 'f world \<Rightarrow> invoker option \<times> 'f world" where
  "extract_invoker rvalue s w = (iv_invoker (wd_slots w s),
     if rvalue then upd_slot s (\<lambda>v. v\<lparr>iv_invoker := Some Assert_use_after_move\<rparr>) w else w)"

definition run_invoker :: "invoker \<Rightarrow> slot \<Rightarrow> 'f world \<Rightarrow> ('f, 'f) invocable_res" where
  "run_invoker i s w = (case i of
     Local_invoker \<Rightarrow> (case iv_state (wd_slots w s) of Local_object t \<Rightarrow> Inr (tg_fun t) | _ \<Rightarrow> Inl Undefined)
   | Remote_invoker \<Rightarrow> (case iv_state (wd_slots w s) of
       Remote_object a \<Rightarrow> (case wd_heap w a of Some t \<Rightarrow> Inr (tg_fun t) | None \<Rightarrow> Inl Undefined) | _ \<Rightarrow> Inl Undefined)
   | Assert_use_after_move \<Rightarrow> Inl (Error Used_after_move))"

definition invoke :: "bool \<Rightarrow> slot \<Rightarrow> 'f world \<Rightarrow> ('f, 'f \<times> 'f world) invocable_res" where
  "invoke rvalue s w = (case extract_invoker rvalue s w of
     (None, w1) \<Rightarrow> Inl (Error Null_invoker)
   | (Some i, w1) \<Rightarrow> rbind (run_invoker i s w1) (\<lambda>f. Inr (f, w1)))"

section \<open>Programs\<close>

datatype 'f instruction =
  Renew nat "'f source" | Assign nat "'f source" | Move nat nat | Clear nat | Swap nat nat | Invoke nat

definition perform_instruction :: "bool \<Rightarrow> 'f instruction \<Rightarrow> 'f world \<Rightarrow> ('f, 'f list \<times> 'f world) invocable_res" where
  "perform_instruction rvalue i w = (case i of
     Renew v src \<Rightarrow> rbind (destruct (Var v) w) (\<lambda>w1. rbind (initialize src (Var v) w1) (\<lambda>w2. Inr ([], w2)))
   | Assign v src \<Rightarrow> rbind (assign_from src (Var v) w) (\<lambda>w1. Inr ([], w1))
   | Move v u \<Rightarrow> rbind (move_assign (Var v) (Var u) w) (\<lambda>w1. Inr ([], w1))
   | Clear v \<Rightarrow> rbind (clear_invocable (Var v) w) (\<lambda>w1. Inr ([], w1))
   | Swap v u \<Rightarrow> rbind (swap_invocables (Var v) (Var u) w) (\<lambda>w1. Inr ([], w1))
   | Invoke v \<Rightarrow> rbind (invoke rvalue (Var v) w) (\<lambda>(f, w1). Inr ([f], w1)))"

fun run_program :: "bool \<Rightarrow> 'f instruction list \<Rightarrow> 'f world \<Rightarrow> ('f, 'f list \<times> 'f world) invocable_res" where
  "run_program rvalue [] w = Inr ([], w)"
| "run_program rvalue (i # is) w = rbind (perform_instruction rvalue i w) (\<lambda>(fs, w1).
     rbind (run_program rvalue is w1) (\<lambda>(gs, w2). Inr (fs @ gs, w2)))"

fun destruct_all :: "nat list \<Rightarrow> 'f world \<Rightarrow> ('f, 'f world) invocable_res" where
  "destruct_all [] w = Inr w"
| "destruct_all (v # vs) w = rbind (destruct (Var v) w) (destruct_all vs)"

section \<open>What a wrapper stands for\<close>

datatype 'f holder = Nothing_held | Held 'f | Spent 'f

type_synonym 'f store_spec = "slot \<Rightarrow> 'f holder"

definition source_spec :: "'f source \<Rightarrow> slot \<Rightarrow> 'f store_spec \<Rightarrow> ('f, 'f store_spec) invocable_res" where
  "source_spec src s h = (case src of
     Compatible other \<Rightarrow> Inr (if other = s then h(s := Nothing_held) else h(s := h other, other := Nothing_held))
   | Throwing \<Rightarrow> Inl (Error Target_threw)
   | Pointer (Some t) \<Rightarrow> Inr (h(s := Held (tg_fun t)))
   | Incompatible (Some t) \<Rightarrow> Inr (h(s := Held (tg_fun t)))
   | Other t \<Rightarrow> Inr (h(s := Held (tg_fun t)))
   | _ \<Rightarrow> Inr (h(s := Nothing_held)))"

definition move_spec :: "slot \<Rightarrow> slot \<Rightarrow> 'f store_spec \<Rightarrow> 'f store_spec" where
  "move_spec s other h = (if other = s then h(s := Nothing_held) else h(s := h other, other := Nothing_held))"

definition invoke_spec :: "bool \<Rightarrow> slot \<Rightarrow> 'f store_spec \<Rightarrow> ('f, 'f list \<times> 'f store_spec) invocable_res" where
  "invoke_spec rvalue s h = (case h s of
     Nothing_held \<Rightarrow> Inl (Error Null_invoker)
   | Spent f \<Rightarrow> Inl (Error Used_after_move)
   | Held f \<Rightarrow> Inr ([f], if rvalue then h(s := Spent f) else h))"

definition instruction_spec :: "bool \<Rightarrow> 'f instruction \<Rightarrow> 'f store_spec \<Rightarrow> ('f, 'f list \<times> 'f store_spec) invocable_res" where
  "instruction_spec rvalue i h = (case i of
     Renew v src \<Rightarrow> rbind (source_spec src (Var v) (h(Var v := Nothing_held))) (\<lambda>h1. Inr ([], h1))
   | Assign v src \<Rightarrow> rbind (source_spec src Temporary h) (\<lambda>h1. Inr ([], move_spec (Var v) Temporary h1))
   | Move v u \<Rightarrow> Inr ([], move_spec (Var v) (Var u) h)
   | Clear v \<Rightarrow> Inr ([], h(Var v := Nothing_held))
   | Swap v u \<Rightarrow> Inr ([], h(Var v := h (Var u), Var u := h (Var v)))
   | Invoke v \<Rightarrow> invoke_spec rvalue (Var v) h)"

fun program_spec :: "bool \<Rightarrow> 'f instruction list \<Rightarrow> 'f store_spec \<Rightarrow> ('f, 'f list \<times> 'f store_spec) invocable_res" where
  "program_spec rvalue [] h = Inr ([], h)"
| "program_spec rvalue (i # is) h = rbind (instruction_spec rvalue i h) (\<lambda>(fs, h1).
     rbind (program_spec rvalue is h1) (\<lambda>(gs, h2). Inr (fs @ gs, h2)))"

section \<open>The invariant\<close>

text \<open>\<open>keeps t v H\<close>: the wrapper \<open>v\<close> holds the target \<open>t\<close>, in itself or on the heap \<open>H\<close>, and its manager is the one for it.\<close>

definition keeps :: "'f target \<Rightarrow> invoker \<Rightarrow> 'f invocable \<Rightarrow> (nat \<Rightarrow> 'f target option) \<Rightarrow> bool" where
  "keeps t i v H \<longleftrightarrow> (if tg_local t then iv_state v = Local_object t \<and> iv_manager v = local_manager_of t \<and> i = Local_invoker
     else (\<exists>a. iv_state v = Remote_object a \<and> H a = Some t) \<and> iv_manager v = remote_manager_of t \<and> i = Remote_invoker)"

fun stands_for :: "'f holder \<Rightarrow> 'f invocable \<Rightarrow> (nat \<Rightarrow> 'f target option) \<Rightarrow> bool" where
  "stands_for Nothing_held v H \<longleftrightarrow> iv_manager v = Empty_manager \<and> iv_invoker v = None \<and> \<not> object_alive (iv_state v)"
| "stands_for (Held f) v H \<longleftrightarrow> (\<exists>t i. tg_fun t = f \<and> keeps t i v H \<and> iv_invoker v = Some i)"
| "stands_for (Spent f) v H \<longleftrightarrow> (\<exists>t i. tg_fun t = f \<and> keeps t i v H \<and> iv_invoker v = Some Assert_use_after_move)"

definition owned :: "'f invocable \<Rightarrow> nat option" where
  "owned v = (if iv_manager v \<in> {Remote_manager_trivial, Remote_manager_nontrivial}
     then (case iv_state v of Remote_object a \<Rightarrow> Some a | _ \<Rightarrow> None) else None)"

definition owners :: "'f world \<Rightarrow> bool" where
  "owners w \<longleftrightarrow> (\<forall>s s1 a. owned (wd_slots w s) = Some a \<and> owned (wd_slots w s1) = Some a \<longrightarrow> s = s1)
     \<and> (\<forall>a. (wd_heap w a \<noteq> None) = (\<exists>s. owned (wd_slots w s) = Some a)) \<and> (\<forall>a\<ge>wd_next w. wd_heap w a = None) \<and> wd_leaks w = 0"

definition models :: "'f store_spec \<Rightarrow> 'f world \<Rightarrow> bool" where
  "models h w \<longleftrightarrow> (\<forall>s. stands_for (h s) (wd_slots w s) (wd_heap w)) \<and> owners w"

lemma managers_of [simp]: "local_manager_of t \<noteq> Empty_manager" "remote_manager_of t \<noteq> Empty_manager"
  "local_manager_of t \<noteq> Remote_manager_trivial" "local_manager_of t \<noteq> Remote_manager_nontrivial"
  "remote_manager_of t = Remote_manager_trivial \<or> remote_manager_of t = Remote_manager_nontrivial"
  by (simp_all add: local_manager_of_def remote_manager_of_def)

lemma owned_None [simp]: "iv_manager v = Empty_manager \<Longrightarrow> owned v = None" "iv_manager v = local_manager_of t \<Longrightarrow> owned v = None"
  by (simp_all add: owned_def)

lemma owned_remote [simp]: "iv_manager v = remote_manager_of t \<Longrightarrow> iv_state v = Remote_object a \<Longrightarrow> owned v = Some a"
  using managers_of(5)[of t] by (auto simp: owned_def)

lemma stands_for_held:
  "h \<noteq> Nothing_held \<Longrightarrow> stands_for h v H \<longleftrightarrow> (\<exists>t i. keeps t i v H \<and>
     (case h of Held f \<Rightarrow> tg_fun t = f \<and> iv_invoker v = Some i | Spent f \<Rightarrow> tg_fun t = f \<and> iv_invoker v = Some Assert_use_after_move | Nothing_held \<Rightarrow> False))"
  by (cases h) auto

lemma models_new: "models (\<lambda>_. Nothing_held) new_world"
  by (simp add: models_def new_world_def owners_def empty_invocable_def object_alive_def)

text \<open>A heap cell that no wrapper owns can go, and a new one can come.\<close>

lemma stands_for_heap:
  "stands_for h v H \<Longrightarrow> (\<And>a. owned v = Some a \<Longrightarrow> H1 a = H a) \<Longrightarrow> stands_for h v H1"
  by (cases h) (auto simp: keeps_def split: if_splits; blast)+

lemma models_change:
  assumes "models h w" "\<And>s1. s1 \<noteq> s \<Longrightarrow> wd_slots w1 s1 = wd_slots w s1" "stands_for x (wd_slots w1 s) (wd_heap w1)" "owners w1"
    and "\<And>s1 a. s1 \<noteq> s \<Longrightarrow> owned (wd_slots w s1) = Some a \<Longrightarrow> wd_heap w1 a = wd_heap w a"
  shows "models (h(s := x)) w1"
  unfolding models_def
proof (intro conjI allI)
  fix s1 show "stands_for ((h(s := x)) s1) (wd_slots w1 s1) (wd_heap w1)"
  proof (cases "s1 = s")
    case False
    with assms(1) have "stands_for (h s1) (wd_slots w s1) (wd_heap w)" by (simp add: models_def)
    then have "stands_for (h s1) (wd_slots w s1) (wd_heap w1)" by (rule stands_for_heap) (use assms(5) False in simp)
    with False assms(2) show ?thesis by simp
  qed (use assms(3) in simp)
qed (rule assms(4))

lemmas slot_defs = upd_slot_def put_state_def set_empty_def Let_def

lemma models_at: "models h w \<Longrightarrow> stands_for (h s) (wd_slots w s) (wd_heap w)" "models h w \<Longrightarrow> owners w"
  by (simp_all add: models_def)

text \<open>The three shapes of a wrapper.\<close>

lemma shape_cases [consumes 1]:
  assumes "stands_for x v H"
  obtains (empty) "x = Nothing_held" "iv_manager v = Empty_manager" "iv_invoker v = None" "\<not> object_alive (iv_state v)"
  | (inside) t where "x \<noteq> Nothing_held" "tg_local t" "iv_state v = Local_object t" "iv_manager v = local_manager_of t"
  | (heap) t a where "x \<noteq> Nothing_held" "\<not> tg_local t" "iv_state v = Remote_object a" "H a = Some t" "iv_manager v = remote_manager_of t"
  using assms by (cases x) (auto simp: keeps_def split: if_splits)

lemma run_managers:
  "iv_manager (wd_slots w s) = Empty_manager \<Longrightarrow> run_manager op s d w = Inr w"
  "iv_manager (wd_slots w s) = remote_manager_of t \<Longrightarrow> run_manager op s d w = remote_manager op s d w"
  by (simp_all add: run_manager_def remote_manager_of_def)

lemma set_empty_slots [simp]: "wd_heap (set_empty s w) = wd_heap w" "s1 \<noteq> s \<Longrightarrow> wd_slots (set_empty s w) s1 = wd_slots w s1"
  "iv_manager (wd_slots (set_empty s w) s) = Empty_manager" "iv_invoker (wd_slots (set_empty s w) s) = None"
  "iv_state (wd_slots (set_empty s w) s) = iv_state (wd_slots w s)" "wd_next (set_empty s w) = wd_next w" "wd_leaks (set_empty s w) = wd_leaks w"
  by (simp_all add: slot_defs)

lemma owners_same:
  assumes "owners w" "wd_heap w1 = wd_heap w" "wd_next w1 = wd_next w" "wd_leaks w1 = wd_leaks w" "\<And>s. owned (wd_slots w1 s) = owned (wd_slots w s)"
  shows "owners w1"
  using assms by (simp add: owners_def)

lemma owners_free:
  assumes "owners w" "wd_heap w1 = (wd_heap w)(a := None)" "wd_next w1 = wd_next w" "wd_leaks w1 = wd_leaks w" "owned (wd_slots w s) = Some a"
    "owned (wd_slots w1 s) = None" "\<And>s1. s1 \<noteq> s \<Longrightarrow> owned (wd_slots w1 s1) = owned (wd_slots w s1)"
  shows "owners w1"
  unfolding owners_def
proof (intro conjI allI impI)
  fix b
  have only: "s1 = s" if "owned (wd_slots w s1) = Some a" for s1 using assms(1,5) that by (auto simp: owners_def)
  have b: "(wd_heap w b \<noteq> None) = (\<exists>s. owned (wd_slots w s) = Some b)" using assms(1) by (simp add: owners_def)
  show "(wd_heap w1 b \<noteq> None) = (\<exists>s. owned (wd_slots w1 s) = Some b)"
  proof (cases "b = a")
    case True
    then have "owned (wd_slots w1 s1) \<noteq> Some b" for s1 using only assms(6,7) by (cases "s1 = s") auto
    with True assms(2) show ?thesis by simp
  next
    case False
    have "owned (wd_slots w1 s1) = Some b \<longleftrightarrow> owned (wd_slots w s1) = Some b" for s1 using assms(5,6,7) False by (cases "s1 = s") auto
    with False b assms(2) show ?thesis by simp
  qed
next
  fix s1 s2 b
  assume *: "owned (wd_slots w1 s1) = Some b \<and> owned (wd_slots w1 s2) = Some b"
  then have "s1 \<noteq> s" "s2 \<noteq> s" using assms(6) by auto
  with * assms(7) have "owned (wd_slots w s1) = Some b" "owned (wd_slots w s2) = Some b" by auto
  with assms(1) show "s1 = s2" unfolding owners_def by blast
qed (use assms in \<open>auto simp: owners_def\<close>)

lemma dispose_models:
  assumes "models h w"
  shows "\<exists>w1. run_manager Dispose s s w = Inr w1 \<and> \<not> object_alive (iv_state (wd_slots w1 s)) \<and> models (h(s := Nothing_held)) (set_empty s w1)"
  using models_at(1)[OF assms, of s]
proof (cases rule: shape_cases)
  case empty
  have "models (h(s := Nothing_held)) (set_empty s w)"
    by (rule models_change[OF assms]) (use empty in \<open>auto intro!: owners_same[OF models_at(2)[OF assms]] simp: slot_defs\<close>)
  with empty show ?thesis by (simp add: run_managers)
next
  case (inside t)
  let ?w = "if tg_trivial_copy t then w else upd_slot s (\<lambda>v. v\<lparr>iv_state := Unset\<rparr>) w"
  have "run_manager Dispose s s w = Inr ?w"
    using inside by (simp add: run_manager_def local_manager_of_def local_manager_nontrivial_def slot_defs object_alive_def fun_upd_idem)
  moreover have na: "\<not> object_alive (iv_state (wd_slots ?w s))" using inside by (simp add: object_alive_def slot_defs)
  moreover have "models (h(s := Nothing_held)) (set_empty s ?w)"
    by (rule models_change[OF assms]) (use inside na in \<open>auto intro!: owners_same[OF models_at(2)[OF assms]] simp: slot_defs\<close>)
  ultimately show ?thesis by blast
next
  case (heap t a)
  let ?w = "w\<lparr>wd_heap := (wd_heap w)(a := None)\<rparr>"
  have own: "owned (wd_slots w s) = Some a" using heap by simp
  have "run_manager Dispose s s w = Inr ?w" using heap by (simp add: run_managers remote_manager_def free_remote_def)
  moreover have na: "\<not> object_alive (iv_state (wd_slots ?w s))" using heap by (simp add: object_alive_def)
  moreover have "owners (set_empty s ?w)"
    by (rule owners_free[OF models_at(2)[OF assms], where s = s and a = a]) (use own in simp_all)
  then have "models (h(s := Nothing_held)) (set_empty s ?w)"
  proof (rule models_change[OF assms, rotated 2])
    fix s1 b assume "s1 \<noteq> s" "owned (wd_slots w s1) = Some b"
    with own models_at(2)[OF assms] have "b \<noteq> a" unfolding owners_def by blast
    then show "wd_heap (set_empty s ?w) b = wd_heap w b" by simp
  qed (use na in simp_all)
  ultimately show ?thesis by blast
qed

lemma clear_invocable_models: "models h w \<Longrightarrow> \<exists>w1. clear_invocable s w = Inr w1 \<and> models (h(s := Nothing_held)) w1"
  using dispose_models[of h w s] by (auto simp: clear_invocable_def)

lemma destruct_models:
  assumes "models h w"
  shows "\<exists>w1. destruct s w = Inr w1 \<and> models (h(s := Nothing_held)) w1"
proof -
  obtain w1 where w1: "run_manager Dispose s s w = Inr w1" "\<not> object_alive (iv_state (wd_slots w1 s))" "models (h(s := Nothing_held)) (set_empty s w1)"
    using dispose_models[OF assms] by blast
  have "models ((h(s := Nothing_held))(s := Nothing_held)) (upd_slot s (\<lambda>_. empty_invocable) w1)"
    by (rule models_change[OF w1(3)])
       (auto intro!: owners_same[OF models_at(2)[OF w1(3)]] simp: slot_defs empty_invocable_def object_alive_def)
  with w1 show ?thesis by (simp add: destruct_def)
qed

lemma owners_move:
  assumes "owners w" "wd_heap w1 = wd_heap w" "wd_next w1 = wd_next w" "wd_leaks w1 = wd_leaks w" "s \<noteq> other"
    "owned (wd_slots w s) = None" "owned (wd_slots w1 s) = owned (wd_slots w other)" "owned (wd_slots w1 other) = None"
    "\<And>s1. s1 \<noteq> s \<Longrightarrow> s1 \<noteq> other \<Longrightarrow> owned (wd_slots w1 s1) = owned (wd_slots w s1)"
  shows "owners w1"
proof -
  let ?p = "\<lambda>s1. if s1 = s then other else if s1 = other then s else s1"
  have p: "owned (wd_slots w1 s1) = owned (wd_slots w (?p s1))" for s1 using assms(5-9) by simp
  have "s1 = s2" if o: "owned (wd_slots w1 s1) = Some a" "owned (wd_slots w1 s2) = Some a" for s1 s2 a
  proof -
    have "?p s1 = ?p s2" using assms(1) o unfolding owners_def p by blast
    then show ?thesis by (auto split: if_splits)
  qed
  moreover have "(\<exists>s1. owned (wd_slots w1 s1) = Some a) = (\<exists>s1. owned (wd_slots w s1) = Some a)" for a
  proof
    assume "\<exists>s1. owned (wd_slots w s1) = Some a"
    then obtain s1 where "owned (wd_slots w s1) = Some a" by blast
    moreover have "?p (?p s1) = s1" by simp
    ultimately have "owned (wd_slots w1 (?p s1)) = Some a" by (simp only: p)
    then show "\<exists>s1. owned (wd_slots w1 s1) = Some a" by blast
  qed (metis p)
  ultimately show ?thesis using assms(1-4) by (auto simp: owners_def)
qed

lemma stands_for_same:
  "iv_state v = iv_state u \<Longrightarrow> iv_manager v = iv_manager u \<Longrightarrow> iv_invoker v = iv_invoker u \<Longrightarrow> stands_for x v H = stands_for x u H"
  by (cases x) (simp_all add: keeps_def)

lemma take_over_models:
  assumes "models h w" "h s = Nothing_held"
  shows "\<exists>w1. take_over s other w = Inr w1 \<and> models (move_spec s other h) w1"
proof (cases "other = s")
  case True
  from models_at(1)[OF assms(1), of s] assms(2) have e: "iv_manager (wd_slots w s) = Empty_manager" "iv_invoker (wd_slots w s) = None"
    "\<not> object_alive (iv_state (wd_slots w s))" by simp_all
  let ?w = "set_empty s (upd_slot s (\<lambda>u. u\<lparr>iv_manager := iv_manager (wd_slots w s), iv_invoker := iv_invoker (wd_slots w s)\<rparr>) w)"
  have "models (h(s := Nothing_held)) ?w"
    by (rule models_change[OF assms(1)]) (use e in \<open>auto intro!: owners_same[OF models_at(2)[OF assms(1)]] simp: slot_defs\<close>)
  with True e show ?thesis by (simp add: take_over_def run_managers move_spec_def)
next
  case False
  note at = models_at[OF assms(1)]
  from at(1)[of s] assms(2) have e: "iv_manager (wd_slots w s) = Empty_manager" "\<not> object_alive (iv_state (wd_slots w s))" by simp_all
  let ?o = "wd_slots w other" and ?to = "iv_state (wd_slots w other)"
  have "\<exists>st st1. run_manager Relocate_from_to other s w = Inr (upd_slot other (\<lambda>v. v\<lparr>iv_state := st1\<rparr>) (upd_slot s (\<lambda>v. v\<lparr>iv_state := st\<rparr>) w))
      \<and> \<not> object_alive st1 \<and> (h other \<noteq> Nothing_held \<longrightarrow> st = iv_state ?o) \<and> (h other = Nothing_held \<longrightarrow> \<not> object_alive st)"
    using at(1)[of other]
  proof (cases rule: shape_cases)
    case empty
    have same: "upd_slot other (\<lambda>v. v\<lparr>iv_state := iv_state ?o\<rparr>) (upd_slot s (\<lambda>v. v\<lparr>iv_state := iv_state (wd_slots w s)\<rparr>) w) = w"
      using False by (simp add: slot_defs fun_upd_idem)
    from empty have "run_manager Relocate_from_to other s w = Inr (upd_slot other (\<lambda>v. v\<lparr>iv_state := iv_state ?o\<rparr>)
        (upd_slot s (\<lambda>v. v\<lparr>iv_state := iv_state (wd_slots w s)\<rparr>) w))" unfolding same by (simp add: run_managers)
    with empty e show ?thesis by blast
  next
    case (inside t)
    have "run_manager Relocate_from_to other s w = Inr (upd_slot other (\<lambda>v. v\<lparr>iv_state := if tg_trivial_copy t then iv_state ?o else Unset\<rparr>)
        (upd_slot s (\<lambda>v. v\<lparr>iv_state := iv_state ?o\<rparr>) w))"
      using inside e False
      by (simp add: run_manager_def local_manager_of_def local_manager_nontrivial_def put_state_def Let_def upd_slot_def fun_upd_twist fun_upd_idem)
    moreover have "\<not> object_alive (if tg_trivial_copy t then iv_state ?o else Unset)" using inside by (simp add: object_alive_def)
    ultimately show ?thesis using inside by blast
  next
    case (heap t a)
    have "run_manager Relocate_from_to other s w = Inr (upd_slot other (\<lambda>v. v\<lparr>iv_state := iv_state ?o\<rparr>) (upd_slot s (\<lambda>v. v\<lparr>iv_state := iv_state ?o\<rparr>) w))"
      using heap e False by (simp add: run_managers remote_manager_def put_state_def Let_def upd_slot_def fun_upd_twist fun_upd_idem)
    moreover have "\<not> object_alive (iv_state ?o)" using heap by (simp add: object_alive_def)
    ultimately show ?thesis using heap by blast
  qed
  then obtain st st1 where r: "run_manager Relocate_from_to other s w = Inr (upd_slot other (\<lambda>v. v\<lparr>iv_state := st1\<rparr>) (upd_slot s (\<lambda>v. v\<lparr>iv_state := st\<rparr>) w))"
    "\<not> object_alive st1" "h other \<noteq> Nothing_held \<longrightarrow> st = iv_state ?o" "h other = Nothing_held \<longrightarrow> \<not> object_alive st" by blast
  let ?w = "w\<lparr>wd_slots := (wd_slots w)(s := (wd_slots w s)\<lparr>iv_state := st, iv_manager := iv_manager ?o, iv_invoker := iv_invoker ?o\<rparr>,
      other := ?o\<lparr>iv_state := st1, iv_manager := Empty_manager, iv_invoker := None\<rparr>)\<rparr>"
  have t: "take_over s other w = Inr ?w" using r(1) False by (simp add: take_over_def slot_defs fun_upd_twist)
  have own: "owned (wd_slots ?w s) = owned ?o"
    using r(3) at(1)[of other] False by (cases "h other = Nothing_held") (simp_all add: owned_def)
  have "owned (wd_slots w s) = None" "owned (wd_slots ?w other) = None" using e by simp_all
  then have ow: "owners ?w" by (intro owners_move[OF at(2) _ _ _ _ _ own]) (use False in simp_all)
  have "stands_for (h other) (wd_slots ?w s) (wd_heap ?w)"
  proof (cases "h other = Nothing_held")
    case True
    with at(1)[of other] r(4) False show ?thesis by simp
  next
    case held: False
    with r(3) False have "stands_for (h other) (wd_slots ?w s) (wd_heap w) = stands_for (h other) ?o (wd_heap w)" by (intro stands_for_same) simp_all
    with at(1)[of other] show ?thesis by simp
  qed
  moreover have "stands_for ((move_spec s other h) s1) (wd_slots ?w s1) (wd_heap ?w)" if "s1 \<noteq> s" for s1
    using that at(1)[of s1] r(2) False by (cases "s1 = other") (simp_all add: move_spec_def)
  ultimately have "stands_for ((move_spec s other h) s1) (wd_slots ?w s1) (wd_heap ?w)" for s1
    using False by (cases "s1 = s") (auto simp: move_spec_def)
  with ow t show ?thesis by (simp add: models_def)
qed

lemma move_assign_models:
  assumes "models h w"
  shows "\<exists>w1. move_assign s other w = Inr w1 \<and> models (move_spec s other h) w1"
proof -
  obtain w1 where w1: "clear_invocable s w = Inr w1" "models (h(s := Nothing_held)) w1" using clear_invocable_models[OF assms] by blast
  have "move_spec s other (h(s := Nothing_held)) = move_spec s other h" by (auto simp: move_spec_def)
  with take_over_models[OF w1(2), of s other] w1(1) show ?thesis by (simp add: move_assign_def)
qed

lemma owners_fresh:
  assumes "owners w" "wd_heap w1 = (wd_heap w)(wd_next w \<mapsto> t)" "wd_next w1 = Suc (wd_next w)" "wd_leaks w1 = wd_leaks w"
    "owned (wd_slots w s) = None" "owned (wd_slots w1 s) = Some (wd_next w)" "\<And>s1. s1 \<noteq> s \<Longrightarrow> owned (wd_slots w1 s1) = owned (wd_slots w s1)"
  shows "owners w1"
proof -
  have n: "owned (wd_slots w s1) \<noteq> Some (wd_next w)" for s1 using assms(1) by (force simp: owners_def)
  have o: "owned (wd_slots w1 s1) = (if s1 = s then Some (wd_next w) else owned (wd_slots w s1))" for s1 using assms(6,7) by simp
  show ?thesis
    unfolding owners_def
  proof (intro conjI allI)
    fix a
    have "(wd_heap w a \<noteq> None) = (\<exists>s1. owned (wd_slots w s1) = Some a)" using assms(1) by (simp add: owners_def)
    then show "(wd_heap w1 a \<noteq> None) = (\<exists>s. owned (wd_slots w1 s) = Some a)" using assms(2,5) o by (cases "a = wd_next w") (auto, metis option.distinct(1))
  next
    fix s1 s2 a show "owned (wd_slots w1 s1) = Some a \<and> owned (wd_slots w1 s2) = Some a \<longrightarrow> s1 = s2"
      using assms(1) o n by (auto simp: owners_def)
  qed (use assms in \<open>auto simp: owners_def\<close>)
qed

lemma initialize_storage_models:
  assumes "models h w" "h s = Nothing_held"
  shows "models (h(s := Held (tg_fun t))) (initialize_storage t s w)"
proof -
  note at = models_at[OF assms(1)]
  from at(1)[of s] assms(2) have e: "iv_manager (wd_slots w s) = Empty_manager" "\<not> object_alive (iv_state (wd_slots w s))" by simp_all
  show ?thesis
  proof (cases "tg_local t")
    case True
    show ?thesis
      by (rule models_change[OF assms(1)])
         (use e True in \<open>auto intro!: owners_same[OF at(2)] simp: initialize_storage_def slot_defs keeps_def\<close>)
  next
    case False
    have "owners (initialize_storage t s w)"
      by (rule owners_fresh[OF at(2), of _ t s]) (use e False in \<open>simp_all add: initialize_storage_def slot_defs\<close>)
    moreover have "owned (wd_slots w s1) \<noteq> Some (wd_next w)" for s1 using at(2) by (force simp: owners_def)
    ultimately show ?thesis
      by (intro models_change[OF assms(1)]) (use e False in \<open>auto simp: initialize_storage_def slot_defs keeps_def\<close>)
  qed
qed

lemma set_empty_models:
  assumes "models h w" "h s = Nothing_held"
  shows "models (h(s := Nothing_held)) (set_empty s w)"
proof (rule models_change[OF assms(1)])
  have e: "iv_manager (wd_slots w s) = Empty_manager" "\<not> object_alive (iv_state (wd_slots w s))"
    using models_at(1)[OF assms(1), of s] assms(2) by simp_all
  then show "stands_for Nothing_held (wd_slots (set_empty s w) s) (wd_heap (set_empty s w))" by simp
  from e show "owners (set_empty s w)" by (auto intro!: owners_same[OF models_at(2)[OF assms(1)]] simp: slot_defs)
qed simp_all

lemma initialize_models:
  assumes "models h w" "h s = Nothing_held"
  shows "case source_spec src s h of Inr h1 \<Rightarrow> \<exists>w1. initialize src s w = Inr w1 \<and> models h1 w1 | Inl f \<Rightarrow> initialize src s w = Inl f"
  using initialize_storage_models[OF assms] set_empty_models[OF assms] take_over_models[OF assms]
  by (auto simp: source_spec_def initialize_def move_spec_def split: source.split option.split)

lemma assign_from_models:
  assumes "models h w" "h Temporary = Nothing_held"
  shows "case source_spec src Temporary h of
      Inr h1 \<Rightarrow> \<exists>w1. assign_from src s w = Inr w1 \<and> models ((move_spec s Temporary h1)(Temporary := Nothing_held)) w1
    | Inl f \<Rightarrow> assign_from src s w = Inl f"
proof (cases "source_spec src Temporary h")
  case (Inr h1)
  with initialize_models[OF assms, of src] obtain w1 where w1: "initialize src Temporary w = Inr w1" "models h1 w1" by auto
  obtain w2 where w2: "move_assign s Temporary w1 = Inr w2" "models (move_spec s Temporary h1) w2" using move_assign_models[OF w1(2)] by blast
  with destruct_models[OF w2(2), of Temporary] w1(1) Inr show ?thesis by (auto simp: assign_from_def)
qed (use initialize_models[OF assms, of src] in \<open>simp add: assign_from_def\<close>)

lemma swap_models:
  assumes "models h w" "h Temporary = Nothing_held" "a \<noteq> Temporary" "b \<noteq> Temporary"
  shows "\<exists>w1. swap_invocables a b w = Inr w1 \<and> models (h(a := h b, b := h a)) w1"
proof -
  obtain w1 where w1: "take_over Temporary a w = Inr w1" "models (move_spec Temporary a h) w1" using take_over_models[OF assms(1,2)] by blast
  obtain w2 where w2: "move_assign a b w1 = Inr w2" "models (move_spec a b (move_spec Temporary a h)) w2" using move_assign_models[OF w1(2)] by blast
  obtain w3 where w3: "move_assign b Temporary w2 = Inr w3" "models (move_spec b Temporary (move_spec a b (move_spec Temporary a h))) w3"
    using move_assign_models[OF w2(2)] by blast
  have "(move_spec b Temporary (move_spec a b (move_spec Temporary a h)))(Temporary := Nothing_held) = h(a := h b, b := h a)"
    using assms(2-4) by (auto simp: move_spec_def)
  with destruct_models[OF w3(2), of Temporary] w1(1) w2(1) w3(1) show ?thesis by (simp add: swap_invocables_def)
qed

lemma invoke_models:
  assumes "models h w"
  shows "case invoke_spec rvalue s h of Inr (fs, h1) \<Rightarrow> \<exists>f w1. fs = [f] \<and> invoke rvalue s w = Inr (f, w1) \<and> models h1 w1
    | Inl f \<Rightarrow> invoke rvalue s w = Inl f"
proof (cases "h s")
  case (Held f)
  with models_at(1)[OF assms, of s] obtain t i where t: "tg_fun t = f" "keeps t i (wd_slots w s) (wd_heap w)" "iv_invoker (wd_slots w s) = Some i"
    by auto
  let ?w = "if rvalue then upd_slot s (\<lambda>v. v\<lparr>iv_invoker := Some Assert_use_after_move\<rparr>) w else w"
  have "run_invoker i s ?w = Inr f" using t by (auto simp: run_invoker_def keeps_def slot_defs split: if_splits)
  then have "invoke rvalue s w = Inr (f, ?w)" using t(3) by (simp add: invoke_def extract_invoker_def)
  moreover have "models (h(s := Spent f)) (upd_slot s (\<lambda>v. v\<lparr>iv_invoker := Some Assert_use_after_move\<rparr>) w)"
  proof (rule models_change[OF assms])
    show "stands_for (Spent f) (wd_slots (upd_slot s (\<lambda>v. v\<lparr>iv_invoker := Some Assert_use_after_move\<rparr>) w) s)
        (wd_heap (upd_slot s (\<lambda>v. v\<lparr>iv_invoker := Some Assert_use_after_move\<rparr>) w))"
      using t(1,2) unfolding stands_for.simps by (intro exI[of _ t] exI[of _ i]) (simp add: slot_defs keeps_def)
  qed (auto intro!: owners_same[OF models_at(2)[OF assms]] simp: slot_defs owned_def)
  ultimately show ?thesis using assms Held by (simp add: invoke_spec_def)
qed (use models_at(1)[OF assms, of s] in \<open>auto simp: invoke_spec_def invoke_def extract_invoker_def run_invoker_def\<close>)

lemma spec_temporary:
  assumes "h Temporary = Nothing_held" "instruction_spec rvalue i h = Inr (fs, h1)"
  shows "h1 Temporary = Nothing_held"
  using assms by (auto simp: instruction_spec_def source_spec_def move_spec_def invoke_spec_def rbind_eq_Inr
      split: instruction.splits source.splits option.splits holder.splits if_splits)

lemma instruction_models:
  assumes "models h w" "h Temporary = Nothing_held"
  shows "case instruction_spec rvalue i h of Inr (fs, h1) \<Rightarrow> \<exists>w1. perform_instruction rvalue i w = Inr (fs, w1) \<and> models h1 w1
    | Inl f \<Rightarrow> perform_instruction rvalue i w = Inl f"
proof (cases i)
  case (Renew v src)
  obtain w1 where w1: "destruct (Var v) w = Inr w1" "models (h(Var v := Nothing_held)) w1" using destruct_models[OF assms(1)] by blast
  with Renew initialize_models[OF w1(2), of "Var v" src] show ?thesis
    by (cases "source_spec src (Var v) (h(Var v := Nothing_held))") (auto simp: instruction_spec_def perform_instruction_def)
next
  case (Assign v src)
  from assign_from_models[OF assms, of src "Var v"] show ?thesis
  proof (cases "source_spec src Temporary h")
    case (Inr h1)
    have "(move_spec (Var v) Temporary h1)(Temporary := Nothing_held) = move_spec (Var v) Temporary h1" by (auto simp: move_spec_def)
    with Inr Assign assign_from_models[OF assms, of src "Var v"] show ?thesis by (auto simp: instruction_spec_def perform_instruction_def)
  qed (use Assign in \<open>auto simp: instruction_spec_def perform_instruction_def\<close>)
next
  case (Move v u)
  with move_assign_models[OF assms(1), of "Var v" "Var u"] show ?thesis by (auto simp: instruction_spec_def perform_instruction_def)
next
  case (Clear v)
  with clear_invocable_models[OF assms(1), of "Var v"] show ?thesis by (auto simp: instruction_spec_def perform_instruction_def)
next
  case (Swap v u)
  with swap_models[OF assms, of "Var v" "Var u"] show ?thesis by (auto simp: instruction_spec_def perform_instruction_def)
next
  case (Invoke v)
  with invoke_models[OF assms(1), of rvalue "Var v"] show ?thesis
    by (cases "invoke_spec rvalue (Var v) h") (auto simp: instruction_spec_def perform_instruction_def)
qed

lemma program_models:
  "models h w \<Longrightarrow> h Temporary = Nothing_held \<Longrightarrow>
    (case program_spec rvalue is h of Inr (fs, h1) \<Rightarrow> \<exists>w1. run_program rvalue is w = Inr (fs, w1) \<and> models h1 w1
      | Inl f \<Rightarrow> run_program rvalue is w = Inl f)"
proof (induction "is" arbitrary: h w)
  case (Cons i "is")
  show ?case
  proof (cases "instruction_spec rvalue i h")
    case (Inr p)
    obtain fs h1 where p: "p = (fs, h1)" by (cases p)
    with Inr instruction_models[OF Cons.prems, of rvalue i] obtain w1 where w1: "perform_instruction rvalue i w = Inr (fs, w1)" "models h1 w1" by auto
    have "h1 Temporary = Nothing_held" using spec_temporary Cons.prems(2) Inr p by blast
    from Cons.IH[OF w1(2) this] show ?thesis using Inr p w1(1) by (cases "program_spec rvalue is h1") auto
  qed (use instruction_models[OF Cons.prems, of rvalue i] in simp)
qed simp

lemma destruct_all_models:
  "models h w \<Longrightarrow> \<exists>w1. destruct_all vs w = Inr w1 \<and> models (\<lambda>s. if s \<in> Var ` set vs then Nothing_held else h s) w1"
proof (induction vs arbitrary: h w)
  case (Cons v vs)
  obtain w1 where w1: "destruct (Var v) w = Inr w1" "models (h(Var v := Nothing_held)) w1" using destruct_models[OF Cons.prems] by blast
  have "(\<lambda>s. if s \<in> Var ` set vs then Nothing_held else (h(Var v := Nothing_held)) s) = (\<lambda>s. if s \<in> Var ` set (v # vs) then Nothing_held else h s)"
    by auto
  with Cons.IH[OF w1(2)] w1(1) show ?case by simp
qed simp

text \<open>The variables that a program names.\<close>

fun instruction_vars :: "'f instruction \<Rightarrow> nat list" where
  "instruction_vars (Renew v src) = v # (case src of Compatible (Var u) \<Rightarrow> [u] | _ \<Rightarrow> [])"
| "instruction_vars (Assign v src) = v # (case src of Compatible (Var u) \<Rightarrow> [u] | _ \<Rightarrow> [])"
| "instruction_vars (Move v u) = [v, u]"
| "instruction_vars (Clear v) = [v]"
| "instruction_vars (Swap v u) = [v, u]"
| "instruction_vars (Invoke v) = [v]"

definition program_vars :: "'f instruction list \<Rightarrow> nat list" where
  "program_vars is = concat (map instruction_vars is)"

lemma spec_frame:
  assumes "instruction_spec rvalue i h = Inr (fs, h1)" "v \<notin> set (instruction_vars i)"
  shows "h1 (Var v) = h (Var v)"
  using assms by (auto simp: instruction_spec_def source_spec_def move_spec_def invoke_spec_def rbind_eq_Inr
      split: instruction.splits source.splits option.splits holder.splits if_splits slot.splits)

lemma program_frame:
  "program_spec rvalue is h = Inr (fs, h1) \<Longrightarrow> v \<notin> set (program_vars is) \<Longrightarrow> h1 (Var v) = h (Var v)"
  by (induction "is" arbitrary: h fs) (auto simp: program_vars_def rbind_eq_Inr dest: spec_frame)

lemma program_temporary:
  "program_spec rvalue is h = Inr (fs, h1) \<Longrightarrow> h Temporary = Nothing_held \<Longrightarrow> h1 Temporary = Nothing_held"
  by (induction "is" arbitrary: h fs) (auto simp: rbind_eq_Inr dest: spec_temporary)

lemma spec_not_undefined:
  "program_spec rvalue is h = Inl f \<Longrightarrow> f \<noteq> Undefined"
proof (induction "is" arbitrary: h)
  case (Cons i "is")
  have "instruction_spec rvalue i h \<noteq> Inl Undefined"
    by (auto simp: instruction_spec_def source_spec_def invoke_spec_def rbind_def
        split: instruction.split source.split option.split holder.split)
  with Cons show ?case by (cases "instruction_spec rvalue i h") (auto simp: rbind_def split: sum.splits)
qed simp

lemma nothing_owned:
  assumes "models (\<lambda>_. Nothing_held) w"
  shows "wd_heap w = (\<lambda>_. None) \<and> wd_leaks w = 0"
proof -
  have "owned (wd_slots w s) = None" for s using models_at(1)[OF assms, of s] by simp
  with models_at(2)[OF assms] show ?thesis by (fastforce simp: owners_def)
qed

text \<open>C27: a program over wrappers behaves like the same program over values that are there or not.  Each call reaches the target that was
  put in or moved there last; a call of an empty wrapper, or a second call when the signature ends in \<^verbatim>\<open>&&\<close>, fails the assertion.
  Nothing is read that is not alive, freed twice or leaked: when the wrappers have been destroyed, the heap is empty.\<close>

theorem invocables_own_targets:
  "case program_spec rvalue is (\<lambda>_. Nothing_held) of
     Inl f \<Rightarrow> run_program rvalue is new_world = Inl f \<and> f \<noteq> Undefined
   | Inr (fs, h) \<Rightarrow> \<exists>w w1. run_program rvalue is new_world = Inr (fs, w) \<and> destruct_all (program_vars is) w = Inr w1
       \<and> wd_heap w1 = (\<lambda>_. None) \<and> wd_leaks w1 = 0"
proof (cases "program_spec rvalue is (\<lambda>_. Nothing_held)")
  case (Inl f)
  with program_models[OF models_new refl, of rvalue "is"] spec_not_undefined[OF Inl] show ?thesis by simp
next
  case (Inr p)
  obtain fs h where p: "p = (fs, h)" by (cases p)
  with Inr program_models[OF models_new refl, of rvalue "is"] obtain w where w: "run_program rvalue is new_world = Inr (fs, w)" "models h w" by auto
  obtain w1 where w1: "destruct_all (program_vars is) w = Inr w1"
    "models (\<lambda>s. if s \<in> Var ` set (program_vars is) then Nothing_held else h s) w1" using destruct_all_models[OF w(2)] by blast
  have "h s = Nothing_held" if "s \<notin> Var ` set (program_vars is)" for s
    using that program_frame[OF Inr[unfolded p]] program_temporary[OF Inr[unfolded p] refl] by (cases s) auto
  then have "(\<lambda>s. if s \<in> Var ` set (program_vars is) then Nothing_held else h s) = (\<lambda>_. Nothing_held)" by auto
  with nothing_owned w w1 Inr p show ?thesis by auto
qed

end
