(* ===== verification/Server.thy ===== *)
theory Server
  imports Connection_Manager Options
begin

text \<open>
  proxy/server.cpp with what it starts and stops: concurrent/io_context_pool, util/signal_handler, util/thread_blocker, the socket of
  proxy/acceptor.cpp and the logging manager of util/console.

  \<^item> The threads are interleaved: \<open>sys_step\<close> is one step of the main thread in \<^verbatim>\<open>await_stop\<close> and the destructor, of the thread that runs the
    signal handler, of the operating system, or a spurious wakeup, which \<^verbatim>\<open>std::condition_variable::wait\<close> allows.
  \<^item> A context of the pool is its index; \<open>ip_contexts\<close> tells which are stopped.  A second \<^verbatim>\<open>join\<close> of a thread, and one by the thread itself, throws.
  \<^item> \<open>acceptor_env\<close> are the answers of the operating system to the acceptor.
  \<^item> The facts: contexts are handed out in turn, a server is shut down once whatever the interleaving, and which stop requests are lost.
\<close>

section \<open>The pool of I/O contexts\<close>

record pool_thread =
  pt_context :: nat
  pt_joined :: bool

record io_context_pool =
  ip_contexts :: "bool list"
  ip_guards :: "nat list"
  ip_threads :: "pool_thread list"
  ip_next :: nat
  ip_size :: nat

text \<open>The loop of the constructor, \<open>n\<close> rounds from the \<open>i\<close>-th on.\<close>

fun add_contexts :: "nat \<Rightarrow> nat \<Rightarrow> io_context_pool \<Rightarrow> io_context_pool" where
  "add_contexts i 0 p = p"
| "add_contexts i (Suc n) p = add_contexts (Suc i) n (p\<lparr>ip_contexts := ip_contexts p @ [False], ip_guards := ip_guards p @ [i]\<rparr>)"

definition io_pool_new :: "nat \<Rightarrow> io_context_pool" where
  "io_pool_new n = add_contexts 0 n \<lparr>ip_contexts = [], ip_guards = [], ip_threads = [], ip_next = 0, ip_size = n\<rparr>"

definition io_pool_create :: "nat \<Rightarrow> io_context_pool result" where
  "io_pool_create n = (if n = 0 then err_with invalid_option ''Number of threads cannot be 0'' else Inr (io_pool_new n))"

definition io_pool_run :: "io_context_pool \<Rightarrow> io_context_pool" where
  "io_pool_run p = p\<lparr>ip_threads := ip_threads p @ map (\<lambda>i. \<lparr>pt_context = i, pt_joined = False\<rparr>) [0..<ip_size p]\<rparr>"

text \<open>\<open>caller\<close> is the thread of the pool that runs this, if it is one.\<close>

fun join_threads :: "nat option \<Rightarrow> nat \<Rightarrow> nat \<Rightarrow> (io_context_pool, error_state failure, unit) sres" where
  "join_threads caller i 0 p = (Inr (), p)"
| "join_threads caller i (Suc n) p = (if i \<ge> length (ip_threads p) then (Inl Undefined, p)
     else if pt_joined (ip_threads p ! i) \<or> caller = Some i then (Inl (Exception System_error), p)
     else join_threads caller (Suc i) n (p\<lparr>ip_threads := (ip_threads p)[i := (ip_threads p ! i)\<lparr>pt_joined := True\<rparr>]\<rparr>))"

definition io_pool_stop :: "nat option \<Rightarrow> (io_context_pool, error_state failure, unit) sres" where
  "io_pool_stop caller p = (let p1 = p\<lparr>ip_contexts := map (\<lambda>_. True) (ip_contexts p)\<rparr> in
     if ip_threads p1 \<noteq> [] then join_threads caller 0 (ip_size p1) p1 else (Inr (), p1))"

definition get_io_context :: "(io_context_pool, error_state failure, nat) sres" where
  "get_io_context p = (if ip_next p \<ge> length (ip_contexts p) then (Inl Undefined, p)
     else (let n = Suc (ip_next p) in (Inr (ip_next p), p\<lparr>ip_next := if n \<ge> ip_size p then 0 else n\<rparr>)))"

text \<open>\<^verbatim>\<open>run_io_context\<close> on what the calls of \<^verbatim>\<open>ioc.run\<close> throw: every exception is logged and the context run again.\<close>

fun run_io_context :: "string option list \<Rightarrow> string list" where
  "run_io_context [] = []"
| "run_io_context (None # outcomes) = []"
| "run_io_context (Some what # outcomes) = (''Unexpected exception running io_context instance: '' @ what) # run_io_context outcomes"

section \<open>Logging\<close>

text \<open>The two global streams, each with its buffer and whether \<^verbatim>\<open>badbit\<close> is set; the null buffer takes nothing, so writing to it
  sets the bit, and \<^verbatim>\<open>rdbuf\<close> clears it.\<close>

datatype out_buffer = Cout_buffer | Cerr_buffer | Null_buffer | File_buffer string

record log_stream =
  ls_buffer :: out_buffer
  ls_bad :: bool

record logging_manager =
  lm_silenced :: bool
  lm_file :: "string option"
  lm_cout :: log_stream
  lm_cerr :: log_stream

definition logging_manager_new :: logging_manager where
  "logging_manager_new = \<lparr>lm_silenced = False, lm_file = None,
     lm_cout = \<lparr>ls_buffer = Cout_buffer, ls_bad = False\<rparr>, lm_cerr = \<lparr>ls_buffer = Cerr_buffer, ls_bad = False\<rparr>\<rparr>"

definition set_buffers :: "out_buffer \<Rightarrow> out_buffer \<Rightarrow> logging_manager \<Rightarrow> logging_manager" where
  "set_buffers b1 b2 m = m\<lparr>lm_cout := \<lparr>ls_buffer = b1, ls_bad = False\<rparr>, lm_cerr := \<lparr>ls_buffer = b2, ls_bad = False\<rparr>\<rparr>"

definition reset_buffers :: "logging_manager \<Rightarrow> logging_manager" where
  "reset_buffers m = (case lm_file m of Some f \<Rightarrow> set_buffers (File_buffer f) (File_buffer f) m | None \<Rightarrow> set_buffers Cout_buffer Cerr_buffer m)"

definition reset_flags :: "logging_manager \<Rightarrow> logging_manager" where
  "reset_flags m = m\<lparr>lm_cout := (lm_cout m)\<lparr>ls_bad := False\<rparr>, lm_cerr := (lm_cerr m)\<lparr>ls_bad := False\<rparr>\<rparr>"

text \<open>\<open>good\<close> tells whether the file could be opened.\<close>

definition redirect_to_file :: "(string \<Rightarrow> bool) \<Rightarrow> string \<Rightarrow> logging_manager \<Rightarrow> logging_manager" where
  "redirect_to_file good f m = (if \<not> good f then m
     else (if lm_silenced m then m else reset_flags (set_buffers (File_buffer f) (File_buffer f) m))\<lparr>lm_file := Some f\<rparr>)"

definition silence :: "logging_manager \<Rightarrow> logging_manager" where
  "silence m = set_buffers Null_buffer Null_buffer (m\<lparr>lm_silenced := True\<rparr>)"

definition unsilence :: "logging_manager \<Rightarrow> logging_manager" where
  "unsilence m = reset_flags (reset_buffers (m\<lparr>lm_silenced := False\<rparr>))"

definition logging_reset :: "logging_manager \<Rightarrow> logging_manager" where
  "logging_reset m = reset_flags (reset_buffers (m\<lparr>lm_file := None\<rparr>))"

text \<open>Writing a text: what arrives where.\<close>

definition write_log :: "string \<Rightarrow> log_stream \<Rightarrow> (out_buffer \<times> string) list \<times> log_stream" where
  "write_log text s = (if ls_bad s \<or> text = '''' then ([], s)
     else if ls_buffer s = Null_buffer then ([], s\<lparr>ls_bad := True\<rparr>) else ([(ls_buffer s, text)], s))"

section \<open>Signals\<close>

text \<open>\<open>sh_undelivered\<close> counts the signals that arrived and were not yet given to a wait, which Asio keeps for the next one.\<close>

record signal_handler =
  sh_context :: nat
  sh_waiting :: bool
  sh_undelivered :: nat
  sh_paused :: bool

definition signal_handler_new :: "nat \<Rightarrow> signal_handler" where
  "signal_handler_new ctx = \<lparr>sh_context = ctx, sh_waiting = False, sh_undelivered = 0, sh_paused = False\<rparr>"

definition signal_wait :: "signal_handler \<Rightarrow> signal_handler" where
  "signal_wait h = h\<lparr>sh_waiting := True\<rparr>"

definition signal_pause :: "signal_handler \<Rightarrow> signal_handler" where
  "signal_pause h = h\<lparr>sh_paused := True\<rparr>"

definition signal_unpause :: "signal_handler \<Rightarrow> signal_handler" where
  "signal_unpause h = h\<lparr>sh_paused := False\<rparr>"

text \<open>\<^verbatim>\<open>on_signal\<close>: whether the callback is called.\<close>

definition on_signal :: "boost_error \<Rightarrow> signal_handler \<Rightarrow> bool \<times> signal_handler" where
  "on_signal e h = (if e = Boost_success then (if sh_paused h then (False, signal_wait h) else (True, h)) else (False, h))"

section \<open>The socket of the acceptor\<close>

record acceptor_env =
  ae_open :: bool
  ae_v6_only :: boost_error
  ae_send_buffer_size :: boost_error
  ae_reuse_address :: boost_error
  ae_listen :: bool
  ae_value :: "boost_error \<Rightarrow> string"

definition acceptor_initialize :: "acceptor_env \<Rightarrow> options \<Rightarrow> unit result" where
  "acceptor_initialize env opts = (if o_ipv6 opts \<and> ae_send_buffer_size env \<noteq> Boost_success then Inl (Exception System_error)
     else if o_ipv6 opts \<and> ae_v6_only env \<noteq> Boost_success
       then err_with ipv6_error (''Could not configure dual stack socket (error code = '' @ ae_value env (ae_v6_only env)
         @ ''). Use --ipv6=false to disable IPv6.'')
     else if ae_reuse_address env \<noteq> Boost_success then err_with acceptor_error ''Could not configure socket option SO_REUSEADDR.''
     else Inr ())"

text \<open>\<^verbatim>\<open>acceptor::create\<close>: the constructor asks for a context, opens the socket and binds it.  The connection manager, of which the acceptor has a
  reference, is new when the server is started.\<close>

definition acceptor_create :: "acceptor_env \<Rightarrow> options \<Rightarrow> (io_context_pool, error_state failure, acceptor) sres" where
  "acceptor_create env opts = sbind get_io_context (\<lambda>ctx p.
     if \<not> ae_open env then (Inl (Exception System_error), p)
     else (rbind (acceptor_initialize env opts) (\<lambda>_. Inr acceptor_new), p))"

text \<open>\<open>w\<close> is the flow of the first connection.\<close>

definition acceptor_start :: "acceptor_env \<Rightarrow> flow \<Rightarrow> acceptor \<Rightarrow> (io_context_pool, error_state failure, acceptor) sres" where
  "acceptor_start env w a p = (if \<not> ae_listen env then (Inl (Exception System_error), p)
     else sbind get_io_context (\<lambda>ctx p1. (Inr (init_accept w a), p1)) p)"

section \<open>The server\<close>

text \<open>\<open>sv_main_blocked\<close> tells that the main thread waits in \<^verbatim>\<open>blocker_\<close>; \<open>sv_certificates\<close> is the number of certificates in the server store, if
  there is a store.\<close>

record server =
  sv_options :: options
  sv_pool :: io_context_pool
  sv_is_running :: bool
  sv_needs_cleanup :: bool
  sv_logs :: logging_manager
  sv_acceptor :: "acceptor option"
  sv_signals :: "signal_handler option"
  sv_main_blocked :: bool
  sv_certificates :: "nat option"

type_synonym 'a server_op = "(server, error_state failure, 'a) sres"

text \<open>A negative number of threads becomes a \<^verbatim>\<open>std::size_t\<close>.\<close>

definition int_to_size :: "int \<Rightarrow> nat" where
  "int_to_size i = nat (i mod 2 ^ 64)"

definition initial_logs :: "(string \<Rightarrow> bool) \<Rightarrow> options \<Rightarrow> logging_manager" where
  "initial_logs good opts = (let
     m0 = logging_manager_new;
     m1 = (if o_run_interactive opts then silence m0 else m0);
     m2 = (if o_log_file_name opts \<noteq> [] then redirect_to_file good (o_log_file_name opts) m1 else m1)
     in if o_run_silent opts then silence m2 else m2)"

text \<open>The components and the server.  \<open>store\<close> is what the creation of the server store answers: the number of its certificates, or an error, whose
  \<^verbatim>\<open>ok()\<close> throws.\<close>

definition server_new :: "(string \<Rightarrow> bool) \<Rightarrow> nat result \<Rightarrow> options \<Rightarrow> server result" where
  "server_new good store opts = (case io_pool_create (int_to_size (o_thread_pool_size opts)) of
     Inl e \<Rightarrow> Inl (Exception Bad_result_access)
   | Inr p \<Rightarrow> rbind (if o_ssl_passthrough_strict opts then Inr None
       else (case store of Inl (Error e) \<Rightarrow> Inl (Exception Bad_result_access) | Inl e \<Rightarrow> Inl e | Inr n \<Rightarrow> Inr (Some n))) (\<lambda>certificates.
     Inr \<lparr>sv_options = opts, sv_pool = p, sv_is_running = False, sv_needs_cleanup = False, sv_logs = initial_logs good opts,
       sv_acceptor = None, sv_signals = None, sv_main_blocked = False, sv_certificates = certificates\<rparr>))"

definition on_pool :: "(io_context_pool, error_state failure, 'a) sres \<Rightarrow> 'a server_op" where
  "on_pool f s = (case f (sv_pool s) of (r, p) \<Rightarrow> (r, s\<lparr>sv_pool := p\<rparr>))"

definition server_start :: "acceptor_env \<Rightarrow> flow \<Rightarrow> unit server_op" where
  "server_start env w s = sbind (on_pool get_io_context) (\<lambda>ctx s.
     sbind (on_pool (acceptor_create env (sv_options s))) (\<lambda>a s.
     sbind (on_pool (acceptor_start env w a)) (\<lambda>a s. (Inr (), s\<lparr>sv_acceptor := Some a, sv_pool := io_pool_run (sv_pool s)\<rparr>))
       (s\<lparr>sv_acceptor := Some a\<rparr>))
       (s\<lparr>sv_signals := Some (signal_wait (signal_handler_new ctx))\<rparr>))
     (s\<lparr>sv_is_running := True, sv_needs_cleanup := True\<rparr>)"

definition unblock :: "server \<Rightarrow> server" where
  "unblock s = s\<lparr>sv_main_blocked := False\<rparr>"

definition signal_stop :: "server \<Rightarrow> server" where
  "signal_stop s = unblock (s\<lparr>sv_is_running := False\<rparr>)"

definition server_cleanup :: "nat option \<Rightarrow> unit server_op" where
  "server_cleanup caller s = (if sv_needs_cleanup s
     then sbind (on_pool (io_pool_stop caller)) (\<lambda>_ s. (Inr (), (unblock (s\<lparr>sv_signals := None\<rparr>))\<lparr>sv_needs_cleanup := False\<rparr>))
       (s\<lparr>sv_acceptor := map_option acceptor_stop (sv_acceptor s)\<rparr>)
     else (Inr (), s))"

definition server_stop :: "nat option \<Rightarrow> unit server_op" where
  "server_stop caller s = server_cleanup caller (signal_stop s)"

text \<open>The destructor also ends the logging manager.\<close>

definition server_destroy :: "unit server_op" where
  "server_destroy = sbind (server_stop None) (\<lambda>_ s. (Inr (), s\<lparr>sv_logs := logging_reset (sv_logs s)\<rparr>))"

definition pause_signals :: "unit server_op" where
  "pause_signals s = (case sv_signals s of None \<Rightarrow> (err_with invalid_operation ''Cannot pause signals when server is not running.'', s)
   | Some h \<Rightarrow> (Inr (), s\<lparr>sv_signals := Some (signal_pause h)\<rparr>))"

definition unpause_signals :: "unit server_op" where
  "unpause_signals s = (case sv_signals s of None \<Rightarrow> (err_with invalid_operation ''Cannot unpause signals when server is not running.'', s)
   | Some h \<Rightarrow> (Inr (), s\<lparr>sv_signals := Some (signal_unpause h)\<rparr>))"

definition enable_logs :: "server \<Rightarrow> server" where
  "enable_logs s = s\<lparr>sv_logs := unsilence (sv_logs s)\<rparr>"

definition disable_logs :: "server \<Rightarrow> server" where
  "disable_logs s = s\<lparr>sv_logs := silence (sv_logs s)\<rparr>"

definition server_endpoint :: "(bool \<Rightarrow> u16 \<Rightarrow> string) \<Rightarrow> server \<Rightarrow> string result" where
  "server_endpoint show_endpoint s = (case sv_acceptor s of
     None \<Rightarrow> err_with invalid_operation ''Cannot access port before server has started. Call server.start() first.''
   | Some a \<Rightarrow> Inr (show_endpoint (o_ipv6 (sv_options s)) (o_port (sv_options s))))"

definition num_connections :: "server \<Rightarrow> nat" where
  "num_connections s = (case sv_acceptor s of None \<Rightarrow> 0 | Some a \<Rightarrow> total_connection_count (ac_manager a))"

text \<open>\<^verbatim>\<open>server_store\<close> dereferences its pointer without a test.\<close>

definition num_ssl_certificates :: "server \<Rightarrow> nat result" where
  "num_ssl_certificates s = (case sv_certificates s of None \<Rightarrow> Inl Undefined | Some n \<Rightarrow> Inr n)"

section \<open>The threads\<close>

text \<open>Where the main thread is: in \<^verbatim>\<open>await_stop\<close> before the test of \<open>is_running_\<close>, between the test and \<^verbatim>\<open>cv_.wait\<close>, in it, after it, at the end of
  \<^verbatim>\<open>main\<close>, and gone; \<open>At_terminate\<close> is an exception out of it.\<close>

datatype main_at = At_check | At_block | At_wait | At_cleanup | At_exit | At_gone | At_terminate "error_state failure"

record sys =
  sy_server :: server
  sy_main :: main_at

datatype sys_event = Ev_main | Ev_signal | Ev_handler | Ev_spurious_wakeup

definition main_op :: "unit server_op \<Rightarrow> main_at \<Rightarrow> sys \<Rightarrow> sys" where
  "main_op f next_at y = (case f (sy_server y) of (Inl e, s) \<Rightarrow> \<lparr>sy_server = s, sy_main = At_terminate e\<rparr> | (Inr _, s) \<Rightarrow> \<lparr>sy_server = s, sy_main = next_at\<rparr>)"

definition main_step :: "sys \<Rightarrow> sys" where
  "main_step y = (case sy_main y of
     At_check \<Rightarrow> y\<lparr>sy_main := if sv_is_running (sy_server y) then At_block else At_cleanup\<rparr>
   | At_block \<Rightarrow> y\<lparr>sy_main := At_wait, sy_server := (sy_server y)\<lparr>sv_main_blocked := True\<rparr>\<rparr>
   | At_wait \<Rightarrow> if sv_main_blocked (sy_server y) then y else y\<lparr>sy_main := At_cleanup\<rparr>
   | At_cleanup \<Rightarrow> main_op (server_cleanup None) At_exit y
   | At_exit \<Rightarrow> main_op server_destroy At_gone y
   | _ \<Rightarrow> y)"

text \<open>The thread of the signal handler's context runs its callback while the context is not stopped.\<close>

definition handler_enabled :: "server \<Rightarrow> signal_handler \<Rightarrow> bool" where
  "handler_enabled s h \<longleftrightarrow> sh_waiting h \<and> 0 < sh_undelivered h \<and> sh_context h < length (ip_contexts (sv_pool s))
     \<and> \<not> ip_contexts (sv_pool s) ! sh_context h \<and> sh_context h \<in> pt_context ` set (ip_threads (sv_pool s))"

definition handler_step :: "server \<Rightarrow> server" where
  "handler_step s = (case sv_signals s of None \<Rightarrow> s
   | Some h \<Rightarrow> if \<not> handler_enabled s h then s
     else (case on_signal Boost_success (h\<lparr>sh_waiting := False, sh_undelivered := sh_undelivered h - 1\<rparr>) of (called, h1) \<Rightarrow>
       (if called then signal_stop else id) (s\<lparr>sv_signals := Some h1\<rparr>)))"

definition signal_arrives :: "server \<Rightarrow> server" where
  "signal_arrives s = s\<lparr>sv_signals := map_option (\<lambda>h. h\<lparr>sh_undelivered := Suc (sh_undelivered h)\<rparr>) (sv_signals s)\<rparr>"

definition sys_step :: "sys_event \<Rightarrow> sys \<Rightarrow> sys" where
  "sys_step ev y = (case ev of
     Ev_main \<Rightarrow> main_step y
   | Ev_signal \<Rightarrow> y\<lparr>sy_server := signal_arrives (sy_server y)\<rparr>
   | Ev_handler \<Rightarrow> y\<lparr>sy_server := handler_step (sy_server y)\<rparr>
   | Ev_spurious_wakeup \<Rightarrow> y\<lparr>sy_server := unblock (sy_server y)\<rparr>)"

definition sys_run :: "sys_event list \<Rightarrow> sys \<Rightarrow> sys" where
  "sys_run evs y = fold sys_step evs y"

end
