(* ===== verification/Example_Interceptors.thy ===== *)
theory Example_Interceptors
  imports Message Interceptors Connection Certificates Pipeline
begin

text \<open>
  src/src/aether/interceptors: the interceptor that every server has, \<^verbatim>\<open>disable_h2c\<close>, the logger of the command \<open>logs\<close>, and the examples.

  An interceptor is a function on what it is given by reference, the flow and the exchange (the certificate interface, the pipeline); its
  failure is an exception or undefined behaviour.  \<open>lc\<close> is \<^verbatim>\<open>boost::lexical_cast\<close>, for the ports of the URLs.
\<close>

section \<open>The default interceptor\<close>

definition disable_h2c :: "exchange \<Rightarrow> exchange" where
  "disable_h2c e = (if header_has_value ''Upgrade'' ''h2c'' False (ex_request e)
     then e\<lparr>ex_request := remove_header ''Upgrade'' (ex_request e)\<rparr> else e)"

definition attach_default :: "(http_event, exchange) interceptor_service \<Rightarrow> (http_event, exchange) interceptor_service" where
  "attach_default s = snd (attach Http_any_request disable_h2c s)"

text \<open>\<^verbatim>\<open>http_logger\<close>: the lines it logs.\<close>

definition http_logger :: "exchange \<times> string list \<Rightarrow> exchange \<times> string list" where
  "http_logger x = (fst x, snd x @ [absolute_request_line_string (ex_request (fst x))])"

section \<open>Teapot\<close>

definition status_im_a_teapot :: status where
  "status_im_a_teapot = 418"

definition status_found :: status where
  "status_found = 302"

definition status_moved_permanently :: status where
  "status_moved_permanently = 301"

definition upd_exchange_response :: "(response \<Rightarrow> response) \<Rightarrow> exchange \<Rightarrow> exchange" where
  "upd_exchange_response g e = (case exchange_response e of (r, e1) \<Rightarrow> e1\<lparr>ex_response := Some (g r)\<rparr>)"

definition upd_exchange_request :: "(request \<Rightarrow> request) \<Rightarrow> exchange \<Rightarrow> exchange" where
  "upd_exchange_request g e = e\<lparr>ex_request := g (ex_request e)\<rparr>"

definition make_teapot_response :: "exchange \<Rightarrow> exchange" where
  "make_teapot_response e = upd_exchange_response (\<lambda>r. set_content_length
     ((add_header ''Content-Type'' ''text/plain'' (r\<lparr>res_status := status_im_a_teapot\<rparr>))\<lparr>msg_body := ''I'' @ [CHR 0x27] @ ''m a little teapot, short and stout!''\<rparr>))
     (make_response e)"

definition give_teapot_response :: "exchange \<Rightarrow> exchange" where
  "give_teapot_response e = (if req_method (ex_request e) = M_GET \<and> is_host ''tea.pot'' (req_target (ex_request e))
     then make_teapot_response e else e)"

definition allow_teapot_https :: "flow \<Rightarrow> flow" where
  "allow_teapot_https w = (if sv_host (fl_server w) = ''tea.pot'' \<and> \<not> cn_connected (fl_server w) \<and> es_proxy (fl_error w) = upstream_connect_error
     then w\<lparr>fl_error := error_clear (fl_error w)\<rparr> else w)"

definition intercept_with_teapot :: "exchange \<Rightarrow> exchange" where
  "intercept_with_teapot e = (if req_method (ex_request e) = M_GET \<and> is_host ''www.google.com'' (req_target (ex_request e))
     then make_teapot_response e else e)"

section \<open>Facebook on another domain\<close>

definition facebook_marker :: string where "facebook_marker = ''aether-facebook''"
definition facebook_site :: string where "facebook_site = ''www.facebook.com''"
definition facebook_domain :: string where "facebook_domain = ''facebook.com''"
definition spoofed_site :: string where "spoofed_site = ''my.face.book''"
definition redirect_to :: string where "redirect_to = ''https://my.face.book/''"

definition set_host :: "string \<Rightarrow> url \<Rightarrow> url" where
  "set_host host u = u\<lparr>url_netloc := (url_netloc u)\<lparr>nl_host := host\<rparr>\<rparr>"

text \<open>\<^verbatim>\<open>get_header(name).ok()\<close>.\<close>

definition header_ok :: "string \<Rightarrow> 'm message_scheme \<Rightarrow> string result" where
  "header_ok name m = (case get_header name m of Inl (Error e) \<Rightarrow> Inl (Exception Bad_result_access) | r \<Rightarrow> r)"

text \<open>A header with a URL, which is rewritten when its host is the given one.\<close>

definition switch_origin :: "(string \<Rightarrow> u64 option) \<Rightarrow> string \<Rightarrow> (string \<times> string) list \<Rightarrow> string \<Rightarrow> request \<Rightarrow> request result" where
  "switch_origin lc marker hosts name r = rbind (header_ok name r) (\<lambda>v. rbind (url_parse lc v) (\<lambda>origin.
     Inr (case find (\<lambda>h. is_host (fst h) origin) hosts of None \<Rightarrow> r
       | Some h \<Rightarrow> add_header marker [] (update_origin_and_referer_url (set_host (snd h) origin) r))))"

definition switch_origin_or_referer :: "(string \<Rightarrow> u64 option) \<Rightarrow> string \<Rightarrow> (string \<times> string) list \<Rightarrow> request \<Rightarrow> request result" where
  "switch_origin_or_referer lc marker hosts r = (if has_header ''Origin'' r then switch_origin lc marker hosts ''Origin'' r
     else if has_header ''Referer'' r then switch_origin lc marker hosts ''Referer'' r else Inr r)"

definition facebook_on_connect :: "exchange \<Rightarrow> exchange" where
  "facebook_on_connect e = (let target = req_target (ex_request e) in
     if is_host spoofed_site target then upd_exchange_request (update_host_port facebook_site (port_or_default 80 target)) e else e)"

definition redirect_response :: "status \<Rightarrow> string \<Rightarrow> exchange \<Rightarrow> exchange" where
  "redirect_response st location e = upd_exchange_response (\<lambda>r. set_content_length (set_header_to_value ''Location'' location (r\<lparr>res_status := st\<rparr>))) (make_response e)"

text \<open>The cookies of the session are the member \<open>cookies_\<close>.\<close>

definition facebook_to_site :: "cookie_collection \<Rightarrow> url \<Rightarrow> request \<Rightarrow> (request \<times> cookie_collection) result" where
  "facebook_to_site cookies target r = (let
     new_target = set_host facebook_site target;
     new_target1 = (if url_path new_target = ''/intern/common/referer_frame.php'' then new_target\<lparr>url_path := ''/common/referer_frame.php''\<rparr> else new_target);
     r1 = update_target new_target1 (add_header facebook_marker [] r)
     in if \<not> has_header ''Cookie'' r1 \<and> cookies \<noteq> [] then Inr (request_set_cookies cookies r1, cookies)
        else if has_header ''Cookie'' r1 \<and> cookies = [] then rbind (request_get_cookies r1) (\<lambda>cs. Inr (r1, cookies_update cs cookies))
        else Inr (r1, cookies))"

definition facebook_on_request :: "(string \<Rightarrow> u64 option) \<Rightarrow> flow \<Rightarrow> exchange \<times> cookie_collection \<Rightarrow> (exchange \<times> cookie_collection) result" where
  "facebook_on_request lc w x = (let e = fst x; target = req_target (ex_request e);
       origin = (\<lambda>(e, cs). rbind (switch_origin_or_referer lc facebook_marker [(spoofed_site, facebook_site)] (ex_request e))
         (\<lambda>r. Inr (e\<lparr>ex_request := r\<rparr>, cs))) in
     if is_host facebook_site target
     then (let u = set_host spoofed_site target in
       origin (redirect_response status_found (absolute_string (if url_scheme u = [] then u\<lparr>url_scheme := ''https''\<rparr> else u)) e, snd x))
     else if is_host spoofed_site target
     then (if port_or_default 0 target = 80 \<and> \<not> secured (fl_client w)
       then Inr (redirect_response status_moved_permanently redirect_to e, snd x)
       else rbind (facebook_to_site (snd x) target (ex_request e)) (\<lambda>(r, cs). origin (e\<lparr>ex_request := r\<rparr>, cs)))
     else origin x)"

text \<open>The headers of a response that name a host, for both examples.\<close>

definition switch_allow_origin :: "(string \<Rightarrow> u64 option) \<Rightarrow> (string \<times> string) list \<Rightarrow> response \<Rightarrow> response result" where
  "switch_allow_origin lc hosts r = (if has_header ''Access-Control-Allow-Origin'' r
     then rbind (header_ok ''Access-Control-Allow-Origin'' r) (\<lambda>v. rbind (url_parse lc v) (\<lambda>origin.
       Inr (case find (\<lambda>h. is_host (fst h) origin) hosts of None \<Rightarrow> r
         | Some h \<Rightarrow> set_header_to_value ''Access-Control-Allow-Origin'' (origin_string (set_host (snd h) origin)) r)))
     else Inr (set_header_to_value ''Access-Control-Allow-Origin'' ''*'' r))"

definition switch_location :: "(string \<Rightarrow> u64 option) \<Rightarrow> (string \<times> string) list \<Rightarrow> response \<Rightarrow> response result" where
  "switch_location lc hosts r = (if res_status r = status_found
     then rbind (header_ok ''Location'' r) (\<lambda>v. rbind (url_parse lc v) (\<lambda>redirect.
       Inr (case find (\<lambda>h. is_host (fst h) redirect) hosts of None \<Rightarrow> r
         | Some h \<Rightarrow> set_header_to_value ''Location'' (absolute_string (set_host (snd h) redirect)) r)))
     else Inr r)"

definition facebook_on_response :: "(string \<Rightarrow> u64 option) \<Rightarrow> exchange \<times> cookie_collection \<Rightarrow> (exchange \<times> cookie_collection) result" where
  "facebook_on_response lc x = (if \<not> has_header facebook_marker (ex_request (fst x)) then Inr x
     else (case exchange_response (fst x) of (res, e) \<Rightarrow>
       rbind (switch_allow_origin lc [(facebook_site, spoofed_site)] res) (\<lambda>r1.
       rbind (switch_location lc [(facebook_site, spoofed_site)] r1) (\<lambda>r2.
       if \<not> response_has_cookies r2 then Inr (e\<lparr>ex_response := Some r2\<rparr>, snd x)
       else rbind (response_get_cookies r2) (\<lambda>cs.
         let cs1 = map (\<lambda>(n, c). (n, if cookie_domain c = Some facebook_domain then set_domain spoofed_site c else c)) cs
         in Inr (e\<lparr>ex_response := Some (response_set_cookies cs1 r2)\<rparr>, cookies_update cs1 (snd x)))))))"

definition facebook_on_certificate :: "certificate_interface \<Rightarrow> certificate_interface" where
  "facebook_on_certificate ci = (case ci_common_name ci of
     Some cn \<Rightarrow> if ends_with cn facebook_domain then ci\<lparr>ci_sans := sset_insert spoofed_site (ci_sans ci)\<rparr> else ci
   | None \<Rightarrow> ci)"

section \<open>One site for another\<close>

definition swap_marker :: string where "swap_marker = ''aether-https-swap''"
definition twitter :: string where "twitter = ''twitter.com''"

definition swapped_hosts :: "(string \<times> string) list" where
  "swapped_hosts = [(facebook_site, twitter), (twitter, facebook_site)]"

definition swap_on_request :: "(string \<Rightarrow> u64 option) \<Rightarrow> exchange \<Rightarrow> exchange result" where
  "swap_on_request lc e = (let r = ex_request e; target = req_target r;
       r1 = (if is_host facebook_site target then update_host_port twitter (port_or_default 80 target) (add_header swap_marker [] r)
         else if is_host twitter target then update_target (set_host facebook_site target) (add_header swap_marker [] r) else r)
     in rbind (switch_origin_or_referer lc swap_marker swapped_hosts r1) (\<lambda>r2. Inr (e\<lparr>ex_request := r2\<rparr>)))"

definition swap_cookie :: "cookie \<Rightarrow> cookie" where
  "swap_cookie c = (case cookie_domain c of
     Some d \<Rightarrow> if d = facebook_domain then set_attribute ''Domain'' twitter c
       else if d = twitter then set_attribute ''Domain'' facebook_domain c else c
   | None \<Rightarrow> c)"

text \<open>\<^verbatim>\<open>set_cookies\<close> is called in every round of the loop.\<close>

fun swap_cookies :: "cookie_collection \<Rightarrow> cookie_collection \<Rightarrow> response \<Rightarrow> response" where
  "swap_cookies before [] r = r"
| "swap_cookies before ((n, c) # after) r = swap_cookies (before @ [(n, swap_cookie c)]) after
     (response_set_cookies (before @ (n, swap_cookie c) # after) r)"

definition swap_on_response :: "(string \<Rightarrow> u64 option) \<Rightarrow> exchange \<Rightarrow> exchange result" where
  "swap_on_response lc e = (if \<not> has_header swap_marker (ex_request e) then Inr e
     else (case exchange_response e of (res, e1) \<Rightarrow>
       rbind (switch_allow_origin lc swapped_hosts res) (\<lambda>r1.
       rbind (switch_location lc swapped_hosts r1) (\<lambda>r2.
       if \<not> response_has_cookies r2 then Inr (e1\<lparr>ex_response := Some r2\<rparr>)
       else rbind (response_get_cookies r2) (\<lambda>cs. Inr (e1\<lparr>ex_response := Some (swap_cookies [] cs r2)\<rparr>))))))"

definition swap_on_certificate :: "certificate_interface \<Rightarrow> certificate_interface" where
  "swap_on_certificate ci = (case ci_common_name ci of
     Some cn \<Rightarrow> if ends_with cn facebook_domain then ci\<lparr>ci_sans := sset_insert twitter (ci_sans ci)\<rparr>
       else if ends_with cn twitter then ci\<lparr>ci_sans := sset_insert facebook_site (ci_sans ci)\<rparr> else ci
   | None \<Rightarrow> ci)"

section \<open>Pokengine\<close>

definition pokengine_server :: "flow \<Rightarrow> bool" where
  "pokengine_server w \<longleftrightarrow> is_connected_to ''pokengine.org'' 8443 (fl_server w)"

definition pokengine_start :: "flow \<Rightarrow> pipeline \<times> string list \<Rightarrow> pipeline \<times> string list" where
  "pokengine_start w x = (if pokengine_server w then (set_interception True (fst x), snd x @ [''Server connection started'']) else x)"

definition pokengine_stop :: "flow \<Rightarrow> string list \<Rightarrow> string list" where
  "pokengine_stop w lines = (if pokengine_server w then lines @ [''Server connection finished''] else lines)"

definition pokengine_received :: "(ws_endpoint \<Rightarrow> string) \<Rightarrow> flow \<Rightarrow> ws_message \<Rightarrow> string list \<Rightarrow> string list" where
  "pokengine_received show_endpoint w m lines = (if pokengine_server w
     then lines @ [decimal (length (wm_content m)) @ '' bytes received from the '' @ show_endpoint (wm_origin m) @ '': '' @ wm_content m] else lines)"

section \<open>Facts\<close>

lemma header_has_value_list:
  "header_has_value n v False m \<longleftrightarrow> v \<in> set (get_all_of_header n m)"
  by (force simp: header_has_value_def get_all_of_header_def list_ex_iff)

text \<open>C39: what the default interceptor does to an upgrade to HTTP/2: it removes one \<open>Upgrade\<close> header, the first, so the request still asks for
  \<open>h2c\<close> exactly when a header behind the first does; nothing else of the request changes.\<close>

theorem h2c_upgrade_left:
  "(header_has_value ''Upgrade'' ''h2c'' False (ex_request (disable_h2c e)) \<longleftrightarrow> ''h2c'' \<in> set (tl (get_all_of_header ''Upgrade'' (ex_request e))))
    \<and> get_all_of_header k (ex_request (disable_h2c e)) = (if iequals k ''Upgrade'' \<and> ''h2c'' \<in> set (get_all_of_header ''Upgrade'' (ex_request e))
      then tl (get_all_of_header k (ex_request e)) else get_all_of_header k (ex_request e))
    \<and> req_target (ex_request (disable_h2c e)) = req_target (ex_request e) \<and> ex_response (disable_h2c e) = ex_response e"
proof -
  have "iequals ''Upgrade'' ''Upgrade''" by (simp add: iequals_refl)
  moreover have "''h2c'' \<in> set xs" if "''h2c'' \<in> set (tl xs)" for xs :: "string list" using that by (cases xs) auto
  moreover have "req_target (remove_header n r) = req_target r" for n and r :: request by (simp add: remove_header_def)
  ultimately show ?thesis by (auto simp: disable_h2c_def header_has_value_list get_all_remove_header)
qed

text \<open>The second of two upgrades is not found by the first search.\<close>

lemma second_upgrade_kept:
  "get_all_of_header ''Upgrade'' (ex_request e) = [''websocket'', ''h2c''] \<Longrightarrow> get_all_of_header ''Upgrade'' (ex_request (disable_h2c e)) = [''h2c'']"
  by (simp add: disable_h2c_def header_has_value_list get_all_remove_header iequals_refl)

text \<open>A redirection without a \<open>Location\<close> makes the examples throw.\<close>

lemma redirect_without_location:
  "res_status r = status_found \<Longrightarrow> \<not> has_header ''Location'' r \<Longrightarrow> switch_location lc hosts r = Inl (Exception Bad_result_access)"
  by (cases "omap_find iless ''Location'' (msg_headers r)") (simp_all add: switch_location_def header_ok_def get_header_def has_header_def)

end
