(* ===== verification/Commands.thy ===== *)
theory Commands
  imports Server Example_Interceptors String_Facts
begin

text \<open>
  input/: the command service that reads commands from a stream and runs them on the server, in interactive mode.

  \<^item> \<open>text_stream\<close> is a \<^verbatim>\<open>std::istream\<close>: what is left to read and its two flags.
  \<^item> \<open>console\<close> is the state of a session: the stream, the server, the interceptors of HTTP with what they log, and what was printed to the
    terminal.  \<open>console_env\<close> says when signals come.
  \<^item> The loop has fuel; the theorem gives the fuel that is enough for a stream that is not broken.
\<close>

section \<open>Input streams\<close>

record text_stream =
  ts_text :: string
  ts_eof :: bool
  ts_fail :: bool

definition NL :: char where
  "NL = CHR 0x0A"

definition ts_good :: "text_stream \<Rightarrow> bool" where
  "ts_good s \<longleftrightarrow> \<not> ts_eof s \<and> \<not> ts_fail s"

text \<open>\<^verbatim>\<open>operator>>\<close> into a string, \<^verbatim>\<open>peek\<close>, \<^verbatim>\<open>get\<close>, \<^verbatim>\<open>std::getline\<close>, and \<^verbatim>\<open>ignore\<close> up to the end of the line.\<close>

definition stream_word :: "text_stream \<Rightarrow> string \<times> text_stream" where
  "stream_word s = (if \<not> ts_good s then ([], s\<lparr>ts_fail := True\<rparr>)
     else let t = dropWhile is_space (ts_text s) in
       if t = [] then ([], \<lparr>ts_text = [], ts_eof = True, ts_fail = True\<rparr>)
       else let rest = dropWhile (\<lambda>c. \<not> is_space c) t in (takeWhile (\<lambda>c. \<not> is_space c) t, s\<lparr>ts_text := rest, ts_eof := rest = []\<rparr>))"

definition stream_peek :: "text_stream \<Rightarrow> char option \<times> text_stream" where
  "stream_peek s = (if \<not> ts_good s then (None, s\<lparr>ts_fail := True\<rparr>)
     else case ts_text s of [] \<Rightarrow> (None, s\<lparr>ts_eof := True\<rparr>) | c # cs \<Rightarrow> (Some c, s))"

definition stream_get :: "text_stream \<Rightarrow> text_stream" where
  "stream_get s = (if \<not> ts_good s then s\<lparr>ts_fail := True\<rparr>
     else case ts_text s of [] \<Rightarrow> s\<lparr>ts_eof := True, ts_fail := True\<rparr> | c # cs \<Rightarrow> s\<lparr>ts_text := cs\<rparr>)"

definition stream_getline :: "text_stream \<Rightarrow> string \<times> text_stream" where
  "stream_getline s = (if \<not> ts_good s then ([], s\<lparr>ts_fail := True\<rparr>)
     else case dropWhile (\<lambda>c. c \<noteq> NL) (ts_text s) of
       [] \<Rightarrow> (ts_text s, \<lparr>ts_text = [], ts_eof = True, ts_fail = (ts_text s = [])\<rparr>)
     | c # cs \<Rightarrow> (takeWhile (\<lambda>c. c \<noteq> NL) (ts_text s), s\<lparr>ts_text := cs\<rparr>))"

definition stream_ignore_line :: "text_stream \<Rightarrow> text_stream" where
  "stream_ignore_line s = (if \<not> ts_good s then s\<lparr>ts_fail := True\<rparr>
     else case dropWhile (\<lambda>c. c \<noteq> NL) (ts_text s) of
       [] \<Rightarrow> s\<lparr>ts_text := [], ts_eof := True\<rparr> | c # cs \<Rightarrow> s\<lparr>ts_text := cs\<rparr>)"

section \<open>The session\<close>

datatype command = Cmd_help | Cmd_logs | Cmd_stats | Cmd_stop

fun command_name :: "command \<Rightarrow> string" where
  "command_name Cmd_help = ''help''"
| "command_name Cmd_logs = ''logs''"
| "command_name Cmd_stats = ''stats''"
| "command_name Cmd_stop = ''stop''"

fun command_args :: "command \<Rightarrow> string" where
  "command_args Cmd_help = ''(cmd)''"
| "command_args Cmd_logs = []"
| "command_args Cmd_stats = ''(watch)''"
| "command_args Cmd_stop = []"

fun command_description :: "command \<Rightarrow> string" where
  "command_description Cmd_help = ''Returns details about all (or one) commands.''"
| "command_description Cmd_logs = ''Starts logging all server activity.''"
| "command_description Cmd_stats = ''Displays stats for the server.''"
| "command_description Cmd_stop = ''Stops the server.''"

fun uses_signals :: "command \<Rightarrow> bool" where
  "uses_signals Cmd_help = False"
| "uses_signals Cmd_logs = True"
| "uses_signals Cmd_stats = True"
| "uses_signals Cmd_stop = False"

definition insert_default :: "(string, command) omap" where
  "insert_default = fold (\<lambda>c m. map_emplace string_less (command_name c) c m) [Cmd_help, Cmd_stop, Cmd_logs, Cmd_stats] []"

record console =
  tc_input :: text_stream
  tc_server :: server
  tc_http :: "(http_event, exchange \<times> string list) interceptor_service"
  tc_output :: string

text \<open>\<open>ce_signalled k\<close>: the server's signal handler has run before the \<open>k\<close>-th test of \<^verbatim>\<open>running\<close>.  \<open>ce_logs_ended\<close>: the signal that ends the command
  \<open>logs\<close> comes, and while the thread waits; \<open>ce_watch_rounds\<close>: the rounds that \<open>stats watch\<close> makes before its signal, if one comes.\<close>

record console_env =
  ce_signalled :: "nat \<Rightarrow> bool"
  ce_logs_ended :: bool
  ce_watch_rounds :: "nat option"

type_synonym 'a console_op = "(console, error_state failure, 'a) sres"

definition print :: "string \<Rightarrow> console \<Rightarrow> console" where
  "print text c = c\<lparr>tc_output := tc_output c @ text\<rparr>"

definition on_server :: "'a server_op \<Rightarrow> 'a console_op" where
  "on_server f c = (case f (tc_server c) of (r, s) \<Rightarrow> (r, c\<lparr>tc_server := s\<rparr>))"

section \<open>The commands\<close>

text \<open>\<^verbatim>\<open>out::user::log\<close> puts a space behind every argument but the last.\<close>

definition command_help_text :: "command \<Rightarrow> string" where
  "command_help_text cmd = command_name cmd @ [SP] @ command_args cmd @ [NL] @ command_description cmd @ [SP, NL, NL]"

definition run_help :: "string list \<Rightarrow> unit console_op" where
  "run_help args c = (case args of
     [] \<Rightarrow> (Inl Undefined, c)
   | lookup # _ \<Rightarrow> (Inr (), print (if lookup = [] then concat (map (\<lambda>(n, cmd). command_help_text cmd) insert_default)
       else (case omap_find string_less lookup insert_default of
           Some (n, cmd) \<Rightarrow> command_help_text cmd
         | None \<Rightarrow> ''Could not find command `'' @ lookup @ ''`. Use `help` for a list of commands.'' @ [NL])) c))"

definition run_stop :: "unit console_op" where
  "run_stop = on_server (server_stop None)"

definition attach_logger :: "console \<Rightarrow> interceptor_id \<times> console" where
  "attach_logger c = (case attach Http_any_request http_logger (tc_http c) of (iid, h) \<Rightarrow>
     (iid, c\<lparr>tc_http := h, tc_server := enable_logs (tc_server c)\<rparr>))"

definition detach_logger :: "interceptor_id \<Rightarrow> console \<Rightarrow> console" where
  "detach_logger iid c = c\<lparr>tc_http := detach iid (tc_http c), tc_server := disable_logs (tc_server c)\<rparr>"

text \<open>The signal handlers of \<open>logs\<close> and \<open>stats\<close> ask the pool for a context.\<close>

definition run_logs :: "console_env \<Rightarrow> unit console_op" where
  "run_logs env c = (case attach_logger (print (''Logs started. Press Ctrl+C (^C) to stop logging.'' @ [NL]) c) of (iid, c1) \<Rightarrow>
     sbind (on_server (on_pool get_io_context)) (\<lambda>_ c2. if \<not> ce_logs_ended env then (Inl Diverges, c2) else (Inr (), detach_logger iid c2)) c1)"

definition print_stats :: "unit console_op" where
  "print_stats c = (let c1 = print (''Connections:'' @ [CHR 0x09, CHR 0x09] @ decimal (num_connections (tc_server c)) @ [NL]) c in
     case num_ssl_certificates (tc_server c) of
       Inl e \<Rightarrow> (Inl e, c1)
     | Inr n \<Rightarrow> (Inr (), print (''SSL Certificates:'' @ [CHR 0x09] @ decimal n @ [NL]) c1))"

fun watch_stats :: "nat \<Rightarrow> unit console_op" where
  "watch_stats 0 c = (Inr (), c)"
| "watch_stats (Suc n) c = sbind (\<lambda>c. print_stats (print [NL] c)) (\<lambda>_. watch_stats n) c"

definition run_stats :: "console_env \<Rightarrow> string list \<Rightarrow> unit console_op" where
  "run_stats env args c = (if args \<noteq> [] \<and> hd args = ''watch''
     then sbind (on_server (on_pool get_io_context)) (\<lambda>_ c1.
       sbind print_stats (\<lambda>_. case ce_watch_rounds env of None \<Rightarrow> (\<lambda>c2. (Inl Diverges, c2)) | Some n \<Rightarrow> watch_stats n)
         (print (''Press Ctrl+C (^C) to stop watching stats.'' @ [NL]) c1)) c
     else print_stats c)"

definition run_command :: "console_env \<Rightarrow> command \<Rightarrow> string list \<Rightarrow> unit console_op" where
  "run_command env cmd args = (case cmd of
     Cmd_help \<Rightarrow> run_help args
   | Cmd_logs \<Rightarrow> run_logs env
   | Cmd_stats \<Rightarrow> run_stats env args
   | Cmd_stop \<Rightarrow> run_stop)"

section \<open>The loop\<close>

definition read_command :: "console \<Rightarrow> string \<times> console" where
  "read_command c = (case stream_word (tc_input c) of (w, s) \<Rightarrow> (w, c\<lparr>tc_input := s\<rparr>))"

definition read_arguments :: "console \<Rightarrow> string list \<times> console" where
  "read_arguments c = (case stream_peek (tc_input c) of (ch, s) \<Rightarrow>
     (case stream_getline (if ch = Some SP then stream_get s else s) of (line, s1) \<Rightarrow>
       (split_string_loop line [SP] 0, c\<lparr>tc_input := s1\<rparr>)))"

definition discard_line :: "console \<Rightarrow> console" where
  "discard_line c = c\<lparr>tc_input := stream_ignore_line (tc_input c)\<rparr>"

text \<open>The results of pausing are ignored.\<close>

definition ignoring :: "'a console_op \<Rightarrow> console \<Rightarrow> console" where
  "ignoring f c = snd (f c)"

definition handle_command :: "console_env \<Rightarrow> command \<Rightarrow> string list \<Rightarrow> unit console_op" where
  "handle_command env cmd args c = (if uses_signals cmd
     then sbind (run_command env cmd args) (\<lambda>_ c1. (Inr (), ignoring (on_server unpause_signals) c1)) (ignoring (on_server pause_signals) c)
     else run_command env cmd args c)"

definition prompt :: string where
  "prompt = ''aether/command > ''"

text \<open>One round: \<open>True\<close> when the loop goes on.\<close>

definition command_round :: "console_env \<Rightarrow> bool console_op" where
  "command_round env c = (case read_command (print prompt c) of (cmd, c1) \<Rightarrow>
     if ts_eof (tc_input c1) then (Inr False, print (''stop'' @ [NL]) c1)
     else (case omap_find string_less cmd insert_default of
       Some (n, command) \<Rightarrow> (case read_arguments c1 of (args, c2) \<Rightarrow> sbind (handle_command env command args) (\<lambda>_ c3. (Inr True, c3)) c2)
     | None \<Rightarrow> (Inr True, discard_line (print (''Invalid command `'' @ cmd @ ''`. Use `help` for a list of commands.'' @ [NL]) c1))))"

definition signal_seen :: "console_env \<Rightarrow> nat \<Rightarrow> console \<Rightarrow> console" where
  "signal_seen env k c = (if ce_signalled env k then c\<lparr>tc_server := signal_stop (tc_server c)\<rparr> else c)"

fun command_loop :: "nat \<Rightarrow> console_env \<Rightarrow> nat \<Rightarrow> console \<Rightarrow> ((error_state failure + unit) \<times> console) option" where
  "command_loop 0 env k c = None"
| "command_loop (Suc fuel) env k c = (let c0 = signal_seen env k c in
     if \<not> sv_is_running (tc_server c0) then Some (Inr (), c0)
     else (case command_round env c0 of
       (Inl e, c1) \<Rightarrow> Some (Inl e, c1)
     | (Inr False, c1) \<Rightarrow> Some (Inr (), c1)
     | (Inr True, c1) \<Rightarrow> command_loop fuel env (Suc k) c1))"

definition run_commands :: "nat \<Rightarrow> console_env \<Rightarrow> console \<Rightarrow> ((error_state failure + unit) \<times> console) option" where
  "run_commands fuel env c = command_loop fuel env 0
     (print (''Use `help` for a list of commands. Use `stop` to stop the server.'' @ [SP, NL, NL]) c)"

end
