(* ===== verification/Server_Facts.thy ===== *)
theory Server_Facts
  imports Server Options_Facts
begin

text \<open>
  The server: contexts are handed out in turn, the shutdown joins every thread once under any interleaving, and the stop request that
  comes between the test and the wait of \<^verbatim>\<open>await_stop\<close> is lost.
\<close>

section \<open>The pool\<close>

lemma add_contexts_result:
  "add_contexts i n p = p\<lparr>ip_contexts := ip_contexts p @ replicate n False, ip_guards := ip_guards p @ [i..<i + n]\<rparr>"
proof (induction i n p rule: add_contexts.induct)
  case (2 i n p)
  have "[i..<i + Suc n] = i # [Suc i..<Suc i + n]" using upt_conv_Cons[of i "i + Suc n"] by simp
  with 2 show ?case by simp
qed simp

lemma io_pool_new_simps [simp]: "ip_contexts (io_pool_new n) = replicate n False" "ip_size (io_pool_new n) = n" "ip_next (io_pool_new n) = 0"
  "ip_threads (io_pool_new n) = []"
  by (simp_all add: io_pool_new_def add_contexts_result)

fun take_contexts :: "nat \<Rightarrow> (io_context_pool, error_state failure, nat list) sres" where
  "take_contexts 0 = sreturn []"
| "take_contexts (Suc k) = sbind get_io_context (\<lambda>c. sbind (take_contexts k) (\<lambda>cs. sreturn (c # cs)))"

definition pool_ready :: "io_context_pool \<Rightarrow> bool" where
  "pool_ready p \<longleftrightarrow> 0 < ip_size p \<and> length (ip_contexts p) = ip_size p \<and> ip_next p < ip_size p"

lemma get_io_context_next:
  "pool_ready p \<Longrightarrow> get_io_context p = (Inr (ip_next p), p\<lparr>ip_next := Suc (ip_next p) mod ip_size p\<rparr>)"
  by (auto simp: pool_ready_def get_io_context_def not_le le_Suc_eq)

lemma pool_ready_next [simp]: "pool_ready p \<Longrightarrow> pool_ready (p\<lparr>ip_next := Suc (ip_next p) mod ip_size p\<rparr>)"
  by (simp add: pool_ready_def)

lemma take_contexts_result:
  "pool_ready p \<Longrightarrow> take_contexts k p = (Inr (map (\<lambda>i. (ip_next p + i) mod ip_size p) [0..<k]), p\<lparr>ip_next := (ip_next p + k) mod ip_size p\<rparr>)"
proof (induction k arbitrary: p)
  case 0
  then show ?case by (simp add: pool_ready_def sreturn_def)
next
  case (Suc k)
  let ?p = "p\<lparr>ip_next := Suc (ip_next p) mod ip_size p\<rparr>"
  have "(Suc (ip_next p) mod ip_size p + i) mod ip_size p = (ip_next p + Suc i) mod ip_size p" for i by (simp add: mod_add_left_eq)
  then have "map (\<lambda>i. (ip_next ?p + i) mod ip_size ?p) [0..<k] = map (\<lambda>i. (ip_next p + i) mod ip_size p) (map Suc [0..<k])"
    "(ip_next ?p + k) mod ip_size ?p = (ip_next p + Suc k) mod ip_size p"
    by (simp_all add: comp_def)
  moreover have "[0..<Suc k] = 0 # map Suc [0..<k]" by (metis map_Suc_upt upt_conv_Cons zero_less_Suc)
  moreover have "ip_next p mod ip_size p = ip_next p" using Suc.prems by (simp add: pool_ready_def)
  ultimately show ?case
    using Suc.IH[OF pool_ready_next[OF Suc.prems]] by (simp add: get_io_context_next[OF Suc.prems] sbind_def sreturn_def)
qed

lemma turns_of_context:
  assumes "0 < n" "c < n"
  shows "length (filter (\<lambda>i. i mod n = c) [0..<k]) = k div n + (if c < k mod n then 1 else 0)"
proof (induction k)
  case (Suc k)
  have "Suc k div n = (if Suc (k mod n) = n then Suc (k div n) else k div n)" by (simp add: div_Suc mod_Suc)
  with Suc assms show ?case by (auto simp: mod_Suc)
qed simp

text \<open>The pool hands out its contexts in turn: after \<open>k\<close> requests every context has been given out \<open>k div n\<close> times or once more, so that
  the connections are spread evenly over the threads; a pool of no threads is refused.\<close>

theorem contexts_in_turn:
  assumes "io_pool_create n = Inr p"
  shows "\<exists>cs p1. take_contexts k p = (Inr cs, p1) \<and> cs = map (\<lambda>i. i mod n) [0..<k]
    \<and> (\<forall>c<n. count_list cs c \<in> {k div n, Suc (k div n)}) \<and> 0 < n"
proof -
  from assms have n: "0 < n" "p = io_pool_new n" by (auto simp: io_pool_create_def split: if_splits)
  have "count_list (map (\<lambda>i. i mod n) [0..<k]) c = length (filter (\<lambda>i. i mod n = c) [0..<k])" for c
    by (induction k) auto
  with n turns_of_context[of n _ k] take_contexts_result[of p k] show ?thesis by (auto simp: pool_ready_def)
qed

theorem contexts_in_turn_witness:
  "fst (take_contexts 7 (io_pool_new 3)) = Inr [0, 1, 2, 0, 1, 2, 0]"
  using contexts_in_turn[of 3 "io_pool_new 3" 7] by (auto simp: io_pool_create_def upt_rec)

section \<open>The shutdown\<close>

definition joined_all :: "pool_thread list \<Rightarrow> pool_thread list" where
  "joined_all ts = map (\<lambda>t. t\<lparr>pt_joined := True\<rparr>) ts"

lemma join_threads_result:
  "i + n = length (ip_threads p) \<Longrightarrow> \<forall>t\<in>set (drop i (ip_threads p)). \<not> pt_joined t \<Longrightarrow>
    join_threads None i n p = (Inr (), p\<lparr>ip_threads := take i (ip_threads p) @ joined_all (drop i (ip_threads p))\<rparr>)"
proof (induction "None :: nat option" i n p rule: join_threads.induct)
  case (1 i p)
  then show ?case by (simp add: joined_all_def)
next
  case (2 i n p)
  let ?ts = "ip_threads p" and ?p = "p\<lparr>ip_threads := (ip_threads p)[i := (ip_threads p ! i)\<lparr>pt_joined := True\<rparr>]\<rparr>"
  from 2(2) have i: "i < length ?ts" by simp
  then have d: "drop i ?ts = ?ts ! i # drop (Suc i) ?ts" by (simp add: Cons_nth_drop_Suc)
  from 2(3) have nj: "\<not> pt_joined (?ts ! i)" "\<forall>t\<in>set (drop (Suc i) (ip_threads ?p)). \<not> pt_joined t" by (simp_all add: d)
  from i nj(1) have "join_threads None i (Suc n) p = join_threads None (Suc i) n ?p" by simp
  also have "\<dots> = (Inr (), ?p\<lparr>ip_threads := take (Suc i) (ip_threads ?p) @ joined_all (drop (Suc i) (ip_threads ?p))\<rparr>)"
    using 2(1)[OF _ _ _ nj(2)] i nj(1) 2(2) by simp
  finally show ?case using i by (simp add: d joined_all_def take_Suc_conv_app_nth)
qed

text \<open>A server that is to be cleaned up, and one that has been.\<close>

definition joinable :: "io_context_pool \<Rightarrow> bool" where
  "joinable p \<longleftrightarrow> (\<forall>t\<in>set (ip_threads p). \<not> pt_joined t) \<and> (ip_threads p = [] \<or> length (ip_threads p) = ip_size p)"

definition pool_down :: "io_context_pool \<Rightarrow> bool" where
  "pool_down p \<longleftrightarrow> (\<forall>t\<in>set (ip_threads p). pt_joined t) \<and> (\<forall>b\<in>set (ip_contexts p). b)"

definition server_down :: "server \<Rightarrow> bool" where
  "server_down s \<longleftrightarrow> pool_down (sv_pool s) \<and> sv_signals s = None \<and> (\<forall>a. sv_acceptor s = Some a \<longrightarrow> ac_is_stopped a)"

definition shutdown_ok :: "server \<Rightarrow> bool" where
  "shutdown_ok s \<longleftrightarrow> (if sv_needs_cleanup s then joinable (sv_pool s) else server_down s)"

lemma io_pool_stop_joins:
  "joinable p \<Longrightarrow> \<exists>p1. io_pool_stop None p = (Inr (), p1) \<and> pool_down p1"
  by (auto simp: io_pool_stop_def joinable_def pool_down_def joined_all_def Let_def join_threads_result)

lemma server_cleanup_down:
  assumes "shutdown_ok s"
  shows "\<exists>s1. server_cleanup None s = (Inr (), s1) \<and> server_down s1 \<and> \<not> sv_needs_cleanup s1 \<and> sv_logs s1 = sv_logs s"
proof (cases "sv_needs_cleanup s")
  case True
  with assms io_pool_stop_joins obtain p1 where "io_pool_stop None (sv_pool s) = (Inr (), p1)" "pool_down p1" by (auto simp: shutdown_ok_def)
  with True show ?thesis by (auto simp: server_cleanup_def sbind_def on_pool_def unblock_def server_down_def acceptor_stop_def)
qed (use assms in \<open>simp add: server_cleanup_def shutdown_ok_def\<close>)

definition sys_ok :: "sys \<Rightarrow> bool" where
  "sys_ok y \<longleftrightarrow> shutdown_ok (sy_server y) \<and> (\<forall>e. sy_main y \<noteq> At_terminate e)
     \<and> (sy_main y = At_gone \<longrightarrow> server_down (sy_server y) \<and> ls_buffer (lm_cout (sv_logs (sy_server y))) = Cout_buffer
          \<and> ls_buffer (lm_cerr (sv_logs (sy_server y))) = Cerr_buffer)"

lemma shutdown_ok_frame:
  "shutdown_ok (s\<lparr>sv_is_running := b\<rparr>) = shutdown_ok s" "shutdown_ok (s\<lparr>sv_main_blocked := b\<rparr>) = shutdown_ok s" "shutdown_ok (unblock s) = shutdown_ok s"
  "server_down (s\<lparr>sv_main_blocked := b\<rparr>) = server_down s" "server_down (unblock s) = server_down s" "server_down (s\<lparr>sv_is_running := b\<rparr>) = server_down s"
  by (simp_all add: shutdown_ok_def server_down_def unblock_def)

lemma logging_reset_buffers [simp]: "ls_buffer (lm_cout (logging_reset m)) = Cout_buffer" "ls_buffer (lm_cerr (logging_reset m)) = Cerr_buffer"
  by (simp_all add: logging_reset_def reset_flags_def reset_buffers_def set_buffers_def)

lemma main_step_ok:
  assumes "sys_ok y"
  shows "sys_ok (main_step y)"
proof (cases "sy_main y")
  case At_cleanup
  with assms server_cleanup_down[of "sy_server y"] obtain s1 where "server_cleanup None (sy_server y) = (Inr (), s1)" "server_down s1" "\<not> sv_needs_cleanup s1"
    by (auto simp: sys_ok_def)
  with At_cleanup show ?thesis by (simp add: sys_ok_def main_step_def main_op_def shutdown_ok_def)
next
  case At_exit
  have ok: "shutdown_ok (signal_stop (sy_server y))" using assms by (simp add: sys_ok_def signal_stop_def shutdown_ok_frame)
  then obtain s1 where s1: "server_cleanup None (signal_stop (sy_server y)) = (Inr (), s1)" "server_down s1" "\<not> sv_needs_cleanup s1"
    using server_cleanup_down by blast
  then have "server_down (s1\<lparr>sv_logs := l\<rparr>)" for l by (simp add: server_down_def)
  with At_exit s1 show ?thesis by (simp add: sys_ok_def main_step_def main_op_def server_destroy_def server_stop_def sbind_def shutdown_ok_def)
qed (use assms in \<open>auto simp: sys_ok_def main_step_def shutdown_ok_frame\<close>)

lemma handler_step_down: "server_down s \<Longrightarrow> handler_step s = s"
  by (simp add: handler_step_def server_down_def)

lemma handler_step_frame:
  "sv_pool (handler_step s) = sv_pool s" "sv_needs_cleanup (handler_step s) = sv_needs_cleanup s" "sv_logs (handler_step s) = sv_logs s"
  by (simp_all add: handler_step_def signal_stop_def unblock_def split: option.split prod.split)

lemma sys_step_ok:
  assumes "sys_ok y"
  shows "sys_ok (sys_step ev y)"
proof (cases ev)
  case Ev_main
  with main_step_ok[OF assms] show ?thesis by (simp add: sys_step_def)
next
  case Ev_signal
  with assms show ?thesis
    by (auto simp: sys_step_def sys_ok_def signal_arrives_def shutdown_ok_def server_down_def)
next
  case Ev_handler
  with assms show ?thesis
    by (cases "sv_needs_cleanup (sy_server y)") (auto simp: sys_step_def sys_ok_def shutdown_ok_def handler_step_frame handler_step_down)
next
  case Ev_spurious_wakeup
  with assms show ?thesis by (simp add: sys_step_def sys_ok_def shutdown_ok_frame) (simp add: unblock_def)
qed

lemma sys_run_ok: "sys_ok y \<Longrightarrow> sys_ok (sys_run evs y)"
  by (induction evs arbitrary: y) (simp_all add: sys_run_def sys_step_ok)

definition main_at_await :: "server \<Rightarrow> sys" where
  "main_at_await s = \<lparr>sy_server = s, sy_main = At_check\<rparr>"

text \<open>\<^verbatim>\<open>main\<close> after \<^verbatim>\<open>server.start()\<close>: an error or an exception leads to the destructor.\<close>

definition main_after_start :: "(error_state failure + unit) \<times> server \<Rightarrow> sys" where
  "main_after_start r = \<lparr>sy_server = snd r, sy_main = (case fst r of Inr _ \<Rightarrow> At_check | Inl _ \<Rightarrow> At_exit)\<rparr>"

lemma get_io_context_frame: "ip_threads (snd (get_io_context p)) = ip_threads p" "ip_size (snd (get_io_context p)) = ip_size p"
  "ip_contexts (snd (get_io_context p)) = ip_contexts p"
  by (simp_all add: get_io_context_def Let_def)

lemma acceptor_frame:
  "ip_threads (snd (acceptor_create env opts p)) = ip_threads p" "ip_size (snd (acceptor_create env opts p)) = ip_size p"
  "ip_threads (snd (acceptor_start env w a p)) = ip_threads p" "ip_size (snd (acceptor_start env w a p)) = ip_size p"
  using get_io_context_frame[of p] by (auto simp: acceptor_create_def acceptor_start_def sbind_def split: prod.splits sum.splits)

lemma start_joinable:
  assumes "ip_threads (sv_pool s) = []"
  shows "sv_needs_cleanup (snd (server_start env w s)) \<and> joinable (sv_pool (snd (server_start env w s)))"
proof -
  obtain r1 p1 where 1: "get_io_context (sv_pool s) = (r1, p1)" by (cases "get_io_context (sv_pool s)")
  obtain r2 p2 where 2: "acceptor_create env (sv_options s) p1 = (r2, p2)" by (cases "acceptor_create env (sv_options s) p1")
  have t: "ip_threads p1 = []" "ip_threads p2 = []" using get_io_context_frame(1)[of "sv_pool s"] acceptor_frame(1)[of env "sv_options s" p1] assms 1 2 by simp_all
  have 3: "ip_threads p = []" if "acceptor_start env w a p2 = (r, p)" for a r p using acceptor_frame(3)[of env w a p2] t that by simp
  show ?thesis
    using 1 2 3 t by (auto simp: server_start_def sbind_def on_pool_def joinable_def io_pool_run_def split: sum.split prod.split)
qed

lemma server_new_pool:
  "server_new good store opts = Inr s \<Longrightarrow> ip_threads (sv_pool s) = [] \<and> pool_ready (sv_pool s) \<and> sv_options s = opts \<and> sv_main_blocked s = False
    \<and> (\<forall>b\<in>set (ip_contexts (sv_pool s)). \<not> b)"
  by (auto simp: server_new_def io_pool_create_def pool_ready_def rbind_eq_Inr split: if_splits)

lemma start_sys_ok:
  assumes "server_new good store opts = Inr s0"
  shows "sys_ok (main_after_start (server_start env w s0))"
proof -
  have "ip_threads (sv_pool s0) = []" using server_new_pool[OF assms] by simp
  from start_joinable[OF this] show ?thesis by (simp add: sys_ok_def main_after_start_def shutdown_ok_def split: sum.split)
qed

text \<open>Whatever the operating system answers while the server starts, and however the signals, the thread of the handler and spurious
  wakeups are interleaved with the main thread, no exception leaves the shutdown; when the server object is gone, every thread was
  joined (once: a second join throws), every context is stopped, the handler and the acceptor are at an end and the streams are
  the console's again.\<close>

lemma server_shut_down:
  assumes "server_new good store opts = Inr s0" "y = sys_run evs (main_after_start (server_start env w s0))"
  shows "sy_main y \<noteq> At_terminate e \<and> (sy_main y = At_gone \<longrightarrow> server_down (sy_server y)
    \<and> ls_buffer (lm_cout (sv_logs (sy_server y))) = Cout_buffer \<and> ls_buffer (lm_cerr (sv_logs (sy_server y))) = Cerr_buffer)"
proof -
  from sys_run_ok[OF start_sys_ok[OF assms(1)]] assms(2) show ?thesis by (simp add: sys_ok_def)
qed

section \<open>Stop requests\<close>

definition friendly_env :: acceptor_env where
  "friendly_env = \<lparr>ae_open = True, ae_v6_only = Boost_success, ae_send_buffer_size = Boost_success, ae_reuse_address = Boost_success,
     ae_listen = True, ae_value = \<lambda>_. []\<rparr>"

text \<open>A running server whose signal handler waits.\<close>

definition awaiting :: "server \<Rightarrow> bool" where
  "awaiting s \<longleftrightarrow> sv_is_running s \<and> sv_needs_cleanup s \<and> joinable (sv_pool s)
     \<and> (\<exists>h. sv_signals s = Some h \<and> handler_enabled s (h\<lparr>sh_undelivered := Suc 0\<rparr>) \<and> sh_undelivered h = 0 \<and> \<not> sh_paused h)"

lemma server_start_Inr:
  assumes "server_start env w s = (Inr (), s1)"
  obtains ctx p1 a p2 a1 p3 where "get_io_context (sv_pool s) = (Inr ctx, p1)" "acceptor_create env (sv_options s) p1 = (Inr a, p2)"
    "acceptor_start env w a p2 = (Inr a1, p3)"
    "s1 = s\<lparr>sv_is_running := True, sv_needs_cleanup := True, sv_signals := Some (signal_wait (signal_handler_new ctx)),
      sv_acceptor := Some a1, sv_pool := io_pool_run p3\<rparr>"
proof -
  obtain r1 p1 where 1: "get_io_context (sv_pool s) = (r1, p1)" by (cases "get_io_context (sv_pool s)")
  with assms obtain ctx where r1: "r1 = Inr ctx" by (cases r1) (simp_all add: server_start_def sbind_def on_pool_def)
  obtain r2 p2 where 2: "acceptor_create env (sv_options s) p1 = (r2, p2)" by (cases "acceptor_create env (sv_options s) p1")
  with assms 1 r1 obtain a where r2: "r2 = Inr a" by (cases r2) (simp_all add: server_start_def sbind_def on_pool_def)
  obtain r3 p3 where 3: "acceptor_start env w a p2 = (r3, p3)" by (cases "acceptor_start env w a p2")
  with assms 1 r1 2 r2 obtain a1 where r3: "r3 = Inr a1" by (cases r3) (simp_all add: server_start_def sbind_def on_pool_def)
  show thesis
    by (rule that[OF 1[unfolded r1] 2[unfolded r2] 3[unfolded r3]]) (use assms 1 r1 2 r2 3 r3 in \<open>simp add: server_start_def sbind_def on_pool_def\<close>)
qed

definition same_contexts :: "io_context_pool \<Rightarrow> io_context_pool \<Rightarrow> bool" where
  "same_contexts p p1 \<longleftrightarrow> ip_contexts p1 = ip_contexts p \<and> ip_size p1 = ip_size p"

lemma contexts_kept:
  "get_io_context p = (r, p1) \<Longrightarrow> same_contexts p p1"
  "acceptor_create env opts p = (r2, p1) \<Longrightarrow> same_contexts p p1"
  "acceptor_start env w a p = (r3, p1) \<Longrightarrow> same_contexts p p1"
  using get_io_context_frame[of p]
  by (auto simp: same_contexts_def acceptor_create_def acceptor_start_def sbind_def split: prod.splits sum.splits if_splits)

lemma started_awaiting:
  assumes "server_new good store opts = Inr s0" "server_start env w s0 = (Inr (), s1)"
  shows "awaiting s1"
proof -
  let ?p = "sv_pool s0"
  note new = server_new_pool[OF assms(1)]
  obtain ctx p1 a p2 a1 p3 where st: "get_io_context ?p = (Inr ctx, p1)" "acceptor_create env (sv_options s0) p1 = (Inr a, p2)"
    "acceptor_start env w a p2 = (Inr a1, p3)"
    and s1: "s1 = s0\<lparr>sv_is_running := True, sv_needs_cleanup := True, sv_signals := Some (signal_wait (signal_handler_new ctx)),
      sv_acceptor := Some a1, sv_pool := io_pool_run p3\<rparr>"
    by (rule server_start_Inr[OF assms(2)])
  have "same_contexts ?p p3" using contexts_kept(1)[OF st(1)] contexts_kept(2)[OF st(2)] contexts_kept(3)[OF st(3)] by (simp add: same_contexts_def)
  moreover have "ctx = ip_next ?p" using st(1) get_io_context_next[of ?p] new by auto
  moreover have "joinable (sv_pool s1)" using start_joinable[of s0 env w] new assms(2) by simp
  moreover have lt: "ip_next ?p < length (ip_contexts ?p)" "ip_next ?p < ip_size ?p" using new by (simp_all add: pool_ready_def)
  moreover have "\<not> ip_contexts ?p ! ip_next ?p" using new nth_mem[OF lt(1)] by blast
  moreover have "handler_enabled s1 (signal_wait (signal_handler_new ctx)\<lparr>sh_undelivered := Suc 0\<rparr>)"
    if "same_contexts ?p p3" "ctx = ip_next ?p" "ip_next ?p < length (ip_contexts ?p)" "ip_next ?p < ip_size ?p" "\<not> ip_contexts ?p ! ip_next ?p"
    using that by (simp add: s1 handler_enabled_def signal_wait_def signal_handler_new_def io_pool_run_def same_contexts_def image_Un image_image)
  ultimately show ?thesis using new by (simp add: s1 awaiting_def) (simp add: signal_wait_def signal_handler_new_def)
qed

text \<open>A stop request at the right time.\<close>

lemma signal_then_handler:
  assumes "awaiting s"
  shows "\<exists>h. handler_step (signal_arrives s) = signal_stop (s\<lparr>sv_signals := Some h\<rparr>) \<and> \<not> sh_waiting h"
proof -
  from assms obtain h where h: "sv_signals s = Some h" "handler_enabled s (h\<lparr>sh_undelivered := Suc 0\<rparr>)" "sh_undelivered h = 0" "\<not> sh_paused h"
    by (auto simp: awaiting_def)
  then have "handler_enabled (signal_arrives s) (h\<lparr>sh_undelivered := Suc 0\<rparr>)" by (simp add: handler_enabled_def signal_arrives_def)
  with h have "handler_step (signal_arrives s) = signal_stop (s\<lparr>sv_signals := Some (h\<lparr>sh_waiting := False, sh_undelivered := 0\<rparr>)\<rparr>)"
    by (simp add: handler_step_def signal_arrives_def on_signal_def)
  then show ?thesis by (intro exI[of _ "h\<lparr>sh_waiting := False, sh_undelivered := 0\<rparr>"]) simp
qed

lemma main_ends:
  assumes "sys_ok y" "sy_main y = At_cleanup"
  shows "sy_main (main_step (main_step y)) = At_gone"
proof -
  have "sy_main (main_step y) = At_exit"
    using main_step_ok[OF assms(1)] assms(2) by (auto simp: main_step_def main_op_def sys_ok_def split: prod.splits sum.splits)
  then show ?thesis
    using main_step_ok[OF main_step_ok[OF assms(1)]]
    by (auto simp: main_step_def[of "main_step y"] main_op_def sys_ok_def split: prod.splits sum.splits)
qed

text \<open>A state in which the request has been lost.\<close>

definition stuck :: "sys \<Rightarrow> bool" where
  "stuck y \<longleftrightarrow> sy_main y = At_wait \<and> sv_main_blocked (sy_server y) \<and> \<not> sv_is_running (sy_server y)
     \<and> (\<exists>h. sv_signals (sy_server y) = Some h \<and> \<not> sh_waiting h)"

lemma stuck_step: "stuck y \<Longrightarrow> ev \<noteq> Ev_spurious_wakeup \<Longrightarrow> stuck (sys_step ev y)"
  by (cases ev) (auto simp: stuck_def sys_step_def main_step_def signal_arrives_def handler_step_def handler_enabled_def)

lemma stuck_run: "stuck y \<Longrightarrow> Ev_spurious_wakeup \<notin> set evs \<Longrightarrow> stuck (sys_run evs y)"
proof (induction evs arbitrary: y)
  case (Cons ev evs)
  have "stuck (sys_step ev y)" by (rule stuck_step) (use Cons.prems in auto)
  with Cons show ?case by (simp add: sys_run_def)
qed (simp add: sys_run_def)

lemma sys_run_append: "sys_run (evs @ evs1) y = sys_run evs1 (sys_run evs y)"
  by (simp add: sys_run_def)

text \<open>C15: a signal that arrives while the main thread waits ends the server; one whose handler runs after \<^verbatim>\<open>await_stop\<close> has read
  \<open>is_running_\<close> and before it waits wakes nobody, and no further signal does: the main thread waits for ever, with a server that
  reports that it is not running.\<close>

theorem stop_request_fate:
  assumes "server_new good store opts = Inr s0" "server_start env w s0 = (Inr (), s1)" "Ev_spurious_wakeup \<notin> set evs"
  shows "sy_main (sys_run [Ev_main, Ev_main, Ev_signal, Ev_handler, Ev_main, Ev_main, Ev_main] (main_after_start (Inr (), s1))) = At_gone
    \<and> sy_main (sys_run ([Ev_main, Ev_signal, Ev_handler, Ev_main] @ evs) (main_after_start (Inr (), s1))) = At_wait
    \<and> \<not> sv_is_running (sy_server (sys_run ([Ev_main, Ev_signal, Ev_handler, Ev_main] @ evs) (main_after_start (Inr (), s1))))"
proof -
  have aw: "awaiting s1" by (rule started_awaiting[OF assms(1,2)])
  then have r: "sv_is_running s1" by (simp add: awaiting_def)
  from signal_then_handler[OF aw] obtain h where h: "handler_step (signal_arrives s1) = signal_stop (s1\<lparr>sv_signals := Some h\<rparr>)" "\<not> sh_waiting h"
    by blast
  have "stuck (sys_run [Ev_main, Ev_signal, Ev_handler, Ev_main] (main_after_start (Inr (), s1)))"
    using r h by (simp add: sys_run_def sys_step_def main_step_def main_after_start_def stuck_def signal_stop_def unblock_def)
  from stuck_run[OF this assms(3)] have lost: "stuck (sys_run ([Ev_main, Ev_signal, Ev_handler, Ev_main] @ evs) (main_after_start (Inr (), s1)))"
    by (simp only: sys_run_append)
  let ?b = "s1\<lparr>sv_main_blocked := True\<rparr>"
  have "sy_main (sys_run [Ev_main, Ev_main, Ev_signal, Ev_handler, Ev_main, Ev_main, Ev_main] (main_after_start (Inr (), s1))) = At_gone"
  proof -
    have "awaiting ?b" using aw by (simp add: awaiting_def handler_enabled_def)
    from signal_then_handler[OF this] obtain h1 where h1: "handler_step (signal_arrives ?b) = signal_stop (?b\<lparr>sv_signals := Some h1\<rparr>)" by blast
    let ?y = "\<lparr>sy_server = signal_stop (?b\<lparr>sv_signals := Some h1\<rparr>), sy_main = At_cleanup\<rparr>"
    have "sys_ok ?y" using aw by (simp add: sys_ok_def shutdown_ok_def awaiting_def signal_stop_def unblock_def)
    from main_ends[OF this] have "sy_main (main_step (main_step ?y)) = At_gone" by simp
    moreover have "sys_run [Ev_main, Ev_main, Ev_signal, Ev_handler, Ev_main] (main_after_start (Inr (), s1)) = ?y"
      using r h1 by (simp add: sys_run_def sys_step_def main_step_def main_after_start_def signal_stop_def unblock_def)
    ultimately show ?thesis
      using sys_run_append[of "[Ev_main, Ev_main, Ev_signal, Ev_handler, Ev_main]" "[Ev_main, Ev_main]" "main_after_start (Inr (), s1)"]
      by (simp add: sys_run_def sys_step_def)
  qed
  with lost show ?thesis by (simp add: stuck_def)
qed

definition example_server :: server where
  "example_server = \<lparr>sv_options = example_values, sv_pool = io_pool_new 16, sv_is_running = False, sv_needs_cleanup = False,
     sv_logs = initial_logs (\<lambda>_. True) example_values, sv_acceptor = None, sv_signals = None, sv_main_blocked = False, sv_certificates = Some 0\<rparr>"

lemma example_server_new: "server_new (\<lambda>_. True) (Inr 0) example_values = Inr example_server"
  by (simp add: server_new_def example_server_def example_values_def default_values_def example_option_env_def resolve_threads_def io_pool_create_def
      int_to_size_def)

lemma example_server_starts: "fst (server_start friendly_env plain_flow example_server) = Inr ()"
proof -
  have "\<exists>r p1. get_io_context p = (Inr r, p1) \<and> pool_ready p1" if "pool_ready p" for p
    using get_io_context_next[OF that] pool_ready_next[OF that] by simp
  moreover have "pool_ready (sv_pool example_server)" by (simp add: example_server_def pool_ready_def)
  ultimately obtain r1 p1 r2 p2 r3 p3 where "get_io_context (sv_pool example_server) = (Inr r1, p1)" "get_io_context p1 = (Inr r2, p2)"
    "get_io_context p2 = (Inr r3, p3)" by metis
  then show ?thesis
    by (simp add: server_start_def sbind_def on_pool_def acceptor_create_def acceptor_start_def friendly_env_def acceptor_initialize_def)
qed

theorem stop_request_fate_witness:
  "sy_main (sys_run [Ev_main, Ev_signal, Ev_handler, Ev_main, Ev_signal, Ev_main]
     (main_after_start (Inr (), snd (server_start friendly_env plain_flow example_server)))) = At_wait"
proof -
  have "server_start friendly_env plain_flow example_server = (Inr (), snd (server_start friendly_env plain_flow example_server))"
    using example_server_starts by (metis prod.collapse)
  from stop_request_fate[OF example_server_new this, of "[Ev_signal, Ev_main]"] show ?thesis by simp
qed

text \<open>The signal that ends \<open>logs\<close> or \<open>stats watch\<close> reaches the paused handler of the server as well: when that runs before the signals are
  unpaused, the server goes on; when it runs after it, the server stops.\<close>

lemma pause_race:
  assumes "awaiting s"
  shows "sv_is_running (handler_step (signal_arrives (snd (pause_signals s))))"
    and "\<not> sv_is_running (handler_step (snd (unpause_signals (signal_arrives (snd (pause_signals s))))))"
proof -
  from assms obtain h where h: "sv_is_running s" "sv_signals s = Some h" "handler_enabled s (h\<lparr>sh_undelivered := Suc 0\<rparr>)" "sh_undelivered h = 0" "\<not> sh_paused h"
    by (auto simp: awaiting_def)
  then show "sv_is_running (handler_step (signal_arrives (snd (pause_signals s))))"
    "\<not> sv_is_running (handler_step (snd (unpause_signals (signal_arrives (snd (pause_signals s))))))"
    by (simp_all add: handler_enabled_def pause_signals_def unpause_signals_def signal_arrives_def handler_step_def on_signal_def
        signal_pause_def signal_unpause_def signal_wait_def signal_stop_def unblock_def)
qed

text \<open>\<^verbatim>\<open>std::condition_variable::wait\<close> without a predicate: a spurious wakeup shuts down a server that nobody stopped.\<close>

lemma spurious_wakeup_stops:
  assumes "awaiting s"
  shows "sys_run [Ev_main, Ev_main, Ev_spurious_wakeup, Ev_main] (main_after_start (Inr (), s)) = \<lparr>sy_server = s\<lparr>sv_main_blocked := False\<rparr>, sy_main = At_cleanup\<rparr>"
  using assms by (simp add: awaiting_def sys_run_def sys_step_def main_step_def main_after_start_def unblock_def)

text \<open>A server that was stopped does not start again: its contexts are stopped for good, so its threads end and the signal handler never runs, and
  the next stop joins threads a second time.\<close>

lemma restart_throws:
  assumes "pool_down p" "ip_threads p \<noteq> []" "0 < ip_size p"
  shows "fst (io_pool_stop None (io_pool_run p)) = Inl (Exception System_error)"
proof -
  from assms(3) obtain n where n: "ip_size p = Suc n" by (cases "ip_size p") simp_all
  have "0 < length (ip_threads p)" using assms(2) by simp
  moreover have "pt_joined ((ip_threads p @ ts) ! 0)" for ts using assms(1,2) by (cases "ip_threads p") (simp_all add: pool_down_def)
  ultimately show ?thesis using n assms(2) by (simp add: io_pool_stop_def io_pool_run_def Let_def)
qed

section \<open>Logging\<close>

text \<open>Where the logs go: nowhere in silent mode, whatever the other options; otherwise to the log file, if it can be opened, once they are
  enabled.\<close>

lemma logs_destination:
  shows "o_run_silent opts \<Longrightarrow> ls_buffer (lm_cout (initial_logs good opts)) = Null_buffer"
    and "ls_buffer (lm_cout (unsilence (initial_logs good opts)))
      = (if o_log_file_name opts \<noteq> [] \<and> good (o_log_file_name opts) then File_buffer (o_log_file_name opts) else Cout_buffer)"
  by (auto simp: initial_logs_def Let_def silence_def set_buffers_def unsilence_def reset_flags_def reset_buffers_def redirect_to_file_def
      logging_manager_new_def)

lemma unsilenced_writes:
  "text \<noteq> [] \<Longrightarrow> fst (write_log text (lm_cout (unsilence m))) = [(ls_buffer (lm_cout (unsilence m)), text)]"
  by (cases "lm_file m") (simp_all add: write_log_def unsilence_def reset_flags_def reset_buffers_def set_buffers_def)

end
