(* ===== verification/Commands_Facts.thy ===== *)
theory Commands_Facts
  imports Commands Server_Facts
begin

text \<open>
  The command service: the loop comes to an end on every input that can be read, no command goes wrong on the way, and it leaves a server
  running only when the input ran out.
\<close>

lemma split_string_loop_nonempty: "delim \<noteq> [] \<Longrightarrow> split_string_loop src delim p \<noteq> []"
  by (simp add: split_string_loop.simps[of src delim p] split: option.split)

section \<open>The input\<close>

text \<open>A stream that failed because its end was reached, or not at all.\<close>

definition stream_ok :: "text_stream \<Rightarrow> bool" where
  "stream_ok s \<longleftrightarrow> (ts_fail s \<longrightarrow> ts_eof s)"

lemma stream_word_ok:
  assumes "stream_ok s" "stream_word s = (w, s1)" "\<not> ts_eof s1"
  shows "ts_good s1 \<and> length (ts_text s1) < length (ts_text s)"
proof -
  let ?t = "dropWhile is_space (ts_text s)"
  have g: "ts_good s" using assms by (auto simp: stream_ok_def stream_word_def ts_good_def)
  with assms have t: "?t \<noteq> []" "s1 = s\<lparr>ts_text := dropWhile (\<lambda>c. \<not> is_space c) ?t, ts_eof := False\<rparr>"
    by (auto simp: stream_word_def Let_def split: if_splits)
  have "\<not> is_space (hd ?t)" using t(1) by (rule hd_dropWhile)
  then have "length (dropWhile (\<lambda>c. \<not> is_space c) ?t) < length ?t"
    using t(1) length_dropWhile_le[of "\<lambda>c. \<not> is_space c" "tl ?t"] by (cases ?t) auto
  moreover have "length ?t \<le> length (ts_text s)" by (rule length_dropWhile_le)
  ultimately show ?thesis using t(2) g by (simp add: ts_good_def)
qed

lemma stream_getline_ok: "ts_good s \<Longrightarrow> stream_ok (snd (stream_getline s)) \<and> length (ts_text (snd (stream_getline s))) \<le> length (ts_text s)"
  using length_dropWhile_le[of "\<lambda>c. c \<noteq> NL" "ts_text s"]
  by (auto simp: stream_getline_def stream_ok_def ts_good_def split: list.split)

lemma read_arguments_ok:
  assumes "ts_good (tc_input c)"
  shows "\<exists>args s1. read_arguments c = (args, c\<lparr>tc_input := s1\<rparr>) \<and> args \<noteq> [] \<and> stream_ok s1 \<and> length (ts_text s1) \<le> length (ts_text (tc_input c))"
proof -
  obtain ch s where ch: "stream_peek (tc_input c) = (ch, s)" by (cases "stream_peek (tc_input c)")
  let ?s = "if ch = Some SP then stream_get s else s"
  obtain line s1 where l: "stream_getline ?s = (line, s1)" by (cases "stream_getline ?s")
  have "stream_ok s1 \<and> length (ts_text s1) \<le> length (ts_text (tc_input c))"
  proof (cases "ts_text (tc_input c)")
    case Nil
    with ch l assms show ?thesis by (auto simp: stream_peek_def stream_getline_def stream_ok_def ts_good_def)
  next
    case (Cons x xs)
    with ch assms have s: "ch = Some x" "s = tc_input c" by (simp_all add: stream_peek_def)
    have "ts_good ?s" "length (ts_text ?s) \<le> length (ts_text (tc_input c))" using s Cons assms by (auto simp: stream_get_def ts_good_def)
    with stream_getline_ok[of ?s] l show ?thesis by fastforce
  qed
  with ch l show ?thesis by (intro exI[of _ "split_string_loop line [SP] 0"] exI[of _ s1]) (simp add: read_arguments_def split_string_loop_nonempty)
qed

lemma discard_line_ok:
  assumes "ts_good (tc_input c)"
  shows "stream_ok (tc_input (discard_line c)) \<and> length (ts_text (tc_input (discard_line c))) \<le> length (ts_text (tc_input c)) \<and> tc_server (discard_line c) = tc_server c"
  using length_dropWhile_le[of "\<lambda>c. c \<noteq> NL" "ts_text (tc_input c)"] assms
  by (auto simp: discard_line_def stream_ignore_line_def stream_ok_def ts_good_def split: list.split)

section \<open>The commands\<close>

definition env_ok :: "console_env \<Rightarrow> bool" where
  "env_ok env \<longleftrightarrow> ce_logs_ended env \<and> ce_watch_rounds env \<noteq> None"

definition serving :: "server \<Rightarrow> bool" where
  "serving s \<longleftrightarrow> shutdown_ok s \<and> pool_ready (sv_pool s) \<and> sv_certificates s \<noteq> None"

lemma print_frame [simp]: "tc_input (print text c) = tc_input c" "tc_server (print text c) = tc_server c" "tc_http (print text c) = tc_http c"
  by (simp_all add: print_def)

lemma serving_frames:
  "serving (s\<lparr>sv_logs := l\<rparr>) = serving s" "serving (signal_stop s) = serving s" "serving (enable_logs s) = serving s" "serving (disable_logs s) = serving s"
  by (simp_all add: serving_def shutdown_ok_def server_down_def signal_stop_def unblock_def enable_logs_def disable_logs_def)

lemma print_stats_fine:
  "sv_certificates (tc_server c) \<noteq> None \<Longrightarrow> \<exists>c1. print_stats c = (Inr (), c1) \<and> tc_server c1 = tc_server c \<and> tc_input c1 = tc_input c"
  by (auto simp: print_stats_def num_ssl_certificates_def Let_def)

lemma watch_stats_fine:
  "sv_certificates (tc_server c) \<noteq> None \<Longrightarrow> \<exists>c1. watch_stats n c = (Inr (), c1) \<and> tc_server c1 = tc_server c \<and> tc_input c1 = tc_input c"
proof (induction n arbitrary: c)
  case (Suc n)
  obtain c1 where c1: "print_stats (print [NL] c) = (Inr (), c1)" "tc_server c1 = tc_server c" "tc_input c1 = tc_input c"
    using print_stats_fine[of "print [NL] c"] Suc.prems by auto
  with Suc.IH[of c1] Suc.prems show ?case by (auto simp: sbind_def)
qed simp

lemma take_context_fine:
  assumes "serving (tc_server c)"
  shows "\<exists>i c1. on_server (on_pool get_io_context) c = (Inr i, c1) \<and> serving (tc_server c1) \<and> tc_input c1 = tc_input c
    \<and> sv_is_running (tc_server c1) = sv_is_running (tc_server c)"
proof -
  let ?p = "sv_pool (tc_server c)" and ?p1 = "(sv_pool (tc_server c))\<lparr>ip_next := Suc (ip_next (sv_pool (tc_server c))) mod ip_size (sv_pool (tc_server c))\<rparr>"
  have r: "pool_ready ?p" using assms by (simp add: serving_def)
  have "serving ((tc_server c)\<lparr>sv_pool := ?p1\<rparr>)"
    using assms r pool_ready_next[OF r] by (auto simp: serving_def shutdown_ok_def server_down_def joinable_def pool_down_def)
  then show ?thesis using get_io_context_next[OF r] by (simp add: on_server_def on_pool_def)
qed

text \<open>A command ends well, reads nothing, and leaves a server that is still running in order.\<close>

definition in_order :: "server \<Rightarrow> bool" where
  "in_order s \<longleftrightarrow> shutdown_ok s \<and> (sv_is_running s \<longrightarrow> serving s)"

lemma serving_in_order: "serving s \<Longrightarrow> in_order s"
  by (simp add: in_order_def serving_def)

definition fine :: "console \<Rightarrow> (error_state failure + unit) \<times> console \<Rightarrow> bool" where
  "fine c r \<longleftrightarrow> fst r = Inr () \<and> tc_input (snd r) = tc_input c \<and> in_order (tc_server (snd r))"

lemma run_stop_fine:
  assumes "serving (tc_server c)"
  shows "fine c (run_stop c)"
proof -
  have "shutdown_ok (signal_stop (tc_server c))" using assms serving_frames(2)[of "tc_server c"] by (simp add: serving_def)
  from server_cleanup_down[OF this] obtain s1 where "server_cleanup None (signal_stop (tc_server c)) = (Inr (), s1)" "server_down s1" "\<not> sv_needs_cleanup s1"
    by blast
  then have s1: "server_stop None (tc_server c) = (Inr (), s1)" "shutdown_ok s1" by (simp_all add: server_stop_def shutdown_ok_def)
  have "sv_is_running s1 = sv_is_running (signal_stop (tc_server c))"
    using s1(1) by (auto simp: server_stop_def server_cleanup_def sbind_def on_pool_def unblock_def split: if_splits prod.splits sum.splits)
  with s1 show ?thesis by (simp add: fine_def in_order_def run_stop_def on_server_def signal_stop_def unblock_def)
qed

lemma run_command_fine:
  assumes "serving (tc_server c)" "env_ok env" "args \<noteq> []"
  shows "fine c (run_command env cmd args c)"
proof (cases cmd)
  case Cmd_help
  with assms show ?thesis by (cases args) (simp_all add: run_command_def run_help_def fine_def serving_in_order)
next
  case Cmd_logs
  obtain iid c1 where c1: "attach_logger (print (''Logs started. Press Ctrl+C (^C) to stop logging.'' @ [NL]) c) = (iid, c1)" by (meson surj_pair)
  then have "serving (tc_server c1)" "tc_input c1 = tc_input c" using assms(1) by (auto simp: attach_logger_def serving_frames split: prod.splits)
  with take_context_fine[of c1] obtain i c2 where "on_server (on_pool get_io_context) c1 = (Inr i, c2)" "serving (tc_server c2)" "tc_input c2 = tc_input c"
    by auto
  with Cmd_logs c1 assms(2) show ?thesis
    by (simp add: run_command_def run_logs_def sbind_def env_ok_def fine_def detach_logger_def serving_frames serving_in_order)
next
  case Cmd_stats
  have certs: "serving s \<Longrightarrow> sv_certificates s \<noteq> None" for s by (simp add: serving_def)
  show ?thesis
  proof (cases "hd args = ''watch''")
    case True
    obtain i c1 where c1: "on_server (on_pool get_io_context) c = (Inr i, c1)" "serving (tc_server c1)" "tc_input c1 = tc_input c"
      using take_context_fine[OF assms(1)] by blast
    obtain n where n: "ce_watch_rounds env = Some n" using assms(2) by (auto simp: env_ok_def)
    obtain c2 where c2: "print_stats (print (''Press Ctrl+C (^C) to stop watching stats.'' @ [NL]) c1) = (Inr (), c2)" "tc_server c2 = tc_server c1"
      "tc_input c2 = tc_input c1" using print_stats_fine[of "print (''Press Ctrl+C (^C) to stop watching stats.'' @ [NL]) c1"] certs[OF c1(2)] by auto
    with watch_stats_fine[of c2 n] certs[OF c1(2)] c1 n True Cmd_stats assms(3) show ?thesis
      by (auto simp: run_command_def run_stats_def sbind_def fine_def serving_in_order)
  next
    case False
    with print_stats_fine[of c] certs[OF assms(1)] assms Cmd_stats show ?thesis by (auto simp: run_command_def run_stats_def fine_def serving_in_order)
  qed
next
  case Cmd_stop
  with run_stop_fine[OF assms(1)] show ?thesis by (simp add: run_command_def)
qed

lemma pausing_fine:
  "serving s \<Longrightarrow> serving (snd (pause_signals s))" "sv_is_running (snd (pause_signals s)) = sv_is_running s"
  "serving s \<Longrightarrow> serving (snd (unpause_signals s))" "sv_is_running (snd (unpause_signals s)) = sv_is_running s"
  by (cases "sv_signals s"; auto simp: pause_signals_def unpause_signals_def serving_def shutdown_ok_def server_down_def split: if_splits)+

lemma unpause_in_order: "in_order s \<Longrightarrow> in_order (snd (unpause_signals s))"
  using pausing_fine(3)[of s] pausing_fine(4)[of s]
  by (cases "sv_signals s") (auto simp: in_order_def unpause_signals_def shutdown_ok_def server_down_def split: if_splits)

lemma handle_command_fine:
  assumes "serving (tc_server c)" "env_ok env" "args \<noteq> []"
  shows "fine c (handle_command env cmd args c)"
proof (cases "uses_signals cmd")
  case True
  let ?c = "ignoring (on_server pause_signals) c"
  have "serving (tc_server ?c)" "tc_input ?c = tc_input c"
    using pausing_fine(1)[OF assms(1)] by (simp_all add: ignoring_def on_server_def case_prod_unfold)
  with run_command_fine[OF _ assms(2,3), of ?c cmd] obtain c1 where c1: "run_command env cmd args ?c = (Inr (), c1)" "tc_input c1 = tc_input c"
    "in_order (tc_server c1)" by (cases "run_command env cmd args ?c") (auto simp: fine_def)
  with True unpause_in_order[of "tc_server c1"] show ?thesis
    by (simp add: handle_command_def sbind_def fine_def ignoring_def on_server_def case_prod_unfold)
qed (use run_command_fine[OF assms] in \<open>simp add: handle_command_def\<close>)

section \<open>The loop\<close>

lemma command_round_fine:
  assumes "serving (tc_server c)" "env_ok env" "stream_ok (tc_input c)"
  shows "\<exists>b c1. command_round env c = (Inr b, c1) \<and> stream_ok (tc_input c1) \<and> in_order (tc_server c1)
    \<and> (if b then length (ts_text (tc_input c1)) < length (ts_text (tc_input c)) else ts_eof (tc_input c1))"
proof -
  obtain w c1 where r: "read_command (print prompt c) = (w, c1)" by (meson surj_pair)
  then have c1: "tc_server c1 = tc_server c" "stream_word (tc_input c) = (w, tc_input c1)" by (auto simp: read_command_def split: prod.splits)
  show ?thesis
  proof (cases "ts_eof (tc_input c1)")
    case True
    with r c1 assms(1) show ?thesis by (intro exI[of _ False]) (simp add: command_round_def stream_ok_def serving_in_order)
  next
    case False
    note word = stream_word_ok[OF assms(3) c1(2) False]
    show ?thesis
    proof (cases "omap_find string_less w insert_default")
      case None
      let ?c = "print (''Invalid command `'' @ w @ ''`. Use `help` for a list of commands.'' @ [NL]) c1"
      from discard_line_ok[of ?c] word r c1 assms(1) False None show ?thesis by (intro exI[of _ True]) (simp add: command_round_def serving_in_order)
    next
      case (Some p)
      obtain n cmd where p: "p = (n, cmd)" by (cases p)
      obtain args s1 where a: "read_arguments c1 = (args, c1\<lparr>tc_input := s1\<rparr>)" "args \<noteq> []" "stream_ok s1" "length (ts_text s1) \<le> length (ts_text (tc_input c1))"
        using read_arguments_ok[of c1] word by blast
      have "fine (c1\<lparr>tc_input := s1\<rparr>) (handle_command env cmd args (c1\<lparr>tc_input := s1\<rparr>))"
        by (rule handle_command_fine) (use assms(1,2) c1 a(2) in simp_all)
      with Some p r False a word show ?thesis
        by (cases "handle_command env cmd args (c1\<lparr>tc_input := s1\<rparr>)") (auto simp: command_round_def sbind_def fine_def)
    qed
  qed
qed

lemma command_loop_ends:
  "in_order (tc_server c) \<Longrightarrow> env_ok env \<Longrightarrow> stream_ok (tc_input c) \<Longrightarrow> length (ts_text (tc_input c)) + 1 < fuel \<Longrightarrow>
    \<exists>c1. command_loop fuel env k c = Some (Inr (), c1) \<and> in_order (tc_server c1) \<and> (sv_is_running (tc_server c1) \<longrightarrow> ts_eof (tc_input c1))"
proof (induction fuel arbitrary: k c)
  case (Suc fuel)
  let ?c = "signal_seen env k c"
  have c: "tc_input ?c = tc_input c" "in_order (tc_server ?c)"
    using Suc.prems(1) shutdown_ok_frame by (auto simp: signal_seen_def signal_stop_def unblock_def in_order_def)
  show ?case
  proof (cases "sv_is_running (tc_server ?c)")
    case True
    obtain b c1 where b: "command_round env ?c = (Inr b, c1)" "stream_ok (tc_input c1)" "in_order (tc_server c1)"
      "if b then length (ts_text (tc_input c1)) < length (ts_text (tc_input ?c)) else ts_eof (tc_input c1)"
      using command_round_fine[of ?c env] c True Suc.prems(2,3) by (auto simp: in_order_def)
    show ?thesis
    proof (cases b)
      case True
      with b c(1) Suc.prems(4) Suc.IH[OF b(3) Suc.prems(2) b(2), of "Suc k"] \<open>sv_is_running (tc_server ?c)\<close> show ?thesis by (auto simp: Let_def)
    qed (use b \<open>sv_is_running (tc_server ?c)\<close> in \<open>simp add: Let_def\<close>)
  qed (use c in \<open>simp add: Let_def\<close>)
qed simp

text \<open>What the loop needs of the server holds once it was started.\<close>

lemma ready_kept:
  "pool_ready p \<Longrightarrow> get_io_context p = (r, p1) \<Longrightarrow> pool_ready p1"
  "pool_ready p \<Longrightarrow> acceptor_create env opts p = (r2, p1) \<Longrightarrow> pool_ready p1"
  "pool_ready p \<Longrightarrow> acceptor_start env w a p = (r3, p1) \<Longrightarrow> pool_ready p1"
  using pool_ready_next[of p]
  by (auto simp: get_io_context_next acceptor_create_def acceptor_start_def sbind_def split: if_splits)

lemma started_serving:
  assumes "server_new good store opts = Inr s0" "server_start env w s0 = (Inr (), s1)" "\<not> o_ssl_passthrough_strict opts"
  shows "serving s1"
proof -
  note new = server_new_pool[OF assms(1)]
  have certs: "\<exists>n. sv_certificates s0 = Some n" using assms(1,3) by (auto simp: server_new_def rbind_eq_Inr split: sum.splits failure.splits)
  obtain ctx p1 a p2 a1 p3 where st: "get_io_context (sv_pool s0) = (Inr ctx, p1)" "acceptor_create env (sv_options s0) p1 = (Inr a, p2)"
    "acceptor_start env w a p2 = (Inr a1, p3)"
    and s1: "s1 = s0\<lparr>sv_is_running := True, sv_needs_cleanup := True, sv_signals := Some (signal_wait (signal_handler_new ctx)),
      sv_acceptor := Some a1, sv_pool := io_pool_run p3\<rparr>"
    by (rule server_start_Inr[OF assms(2)])
  have "pool_ready p3" using new ready_kept(1)[OF _ st(1)] ready_kept(2)[OF _ st(2)] ready_kept(3)[OF _ st(3)] by blast
  moreover have "joinable (sv_pool s1)" using start_joinable[of s0 env w] new assms(2) by simp
  ultimately show ?thesis by (simp add: serving_def shutdown_ok_def s1 certs pool_ready_def io_pool_run_def)
qed

lemma stopped_main_ends:
  assumes "shutdown_ok s" "\<not> sv_is_running s"
  shows "sy_main (sys_run [Ev_main, Ev_main, Ev_main] \<lparr>sy_server = s, sy_main = At_check\<rparr>) = At_gone"
proof -
  have "sys_ok \<lparr>sy_server = s, sy_main = At_cleanup\<rparr>" using assms(1) by (simp add: sys_ok_def)
  from main_ends[OF this] assms(2) show ?thesis by (simp add: sys_run_def sys_step_def main_step_def[of "\<lparr>sy_server = s, sy_main = At_check\<rparr>"])
qed


definition example_console :: "string \<Rightarrow> console" where
  "example_console text = \<lparr>tc_input = \<lparr>ts_text = text, ts_eof = False, ts_fail = False\<rparr>, tc_server = snd (server_start friendly_env plain_flow example_server),
     tc_http = interceptor_service_new, tc_output = []\<rparr>"

definition example_console_env :: console_env where
  "example_console_env = \<lparr>ce_signalled = \<lambda>_. False, ce_logs_ended = True, ce_watch_rounds = Some 2\<rparr>"

lemma example_console_started: "server_start friendly_env plain_flow example_server = (Inr (), tc_server (example_console text))"
  using example_server_starts by (simp add: example_console_def) (metis prod.collapse)


text \<open>The end of the input prints \<open>stop\<close> and leaves the server running.\<close>

lemma end_of_input_keeps_server:
  assumes "stream_ok (tc_input c)" "list_all is_space (ts_text (tc_input c))"
  shows "\<exists>c1. command_round env c = (Inr False, c1) \<and> tc_server c1 = tc_server c \<and> tc_output c1 = tc_output c @ prompt @ ''stop'' @ [NL]"
proof -
  have "dropWhile is_space (ts_text (tc_input c)) = []" using assms(2) by (simp add: dropWhile_eq_Nil_conv list_all_iff)
  with assms(1) show ?thesis
    by (auto simp: command_round_def read_command_def stream_word_def print_def Let_def stream_ok_def ts_good_def)
qed

text \<open>A stream that is broken but not at its end makes the loop run for ever.\<close>

lemma broken_input_diverges:
  "ts_fail (tc_input c) \<Longrightarrow> \<not> ts_eof (tc_input c) \<Longrightarrow> sv_is_running (tc_server c) \<Longrightarrow> (\<And>k. \<not> ce_signalled env k) \<Longrightarrow> command_loop fuel env k c = None"
proof (induction fuel arbitrary: k c)
  case (Suc fuel)
  have no_name: "omap_find string_less [] insert_default = None" by code_simp
  let ?c = "discard_line (print (''Invalid command `'' @ [] @ ''`. Use `help` for a list of commands.'' @ [NL]) (snd (read_command (print prompt c))))"
  have r: "command_round env c = (Inr True, ?c)"
    using Suc.prems no_name by (simp add: command_round_def read_command_def stream_word_def ts_good_def)
  have "ts_fail (tc_input ?c)" "\<not> ts_eof (tc_input ?c)" "sv_is_running (tc_server ?c)"
    using Suc.prems by (simp_all add: discard_line_def read_command_def stream_word_def ts_good_def stream_ignore_line_def)
  with Suc r show ?case by (simp add: signal_seen_def Let_def)
qed simp

text \<open>\<open>stats\<close> without a certificate store reads through a null pointer.\<close>

lemma stats_without_store:
  "sv_certificates (tc_server c) = None \<Longrightarrow> fst (run_stats env [[]] c) = Inl Undefined"
  by (simp add: run_stats_def print_stats_def num_ssl_certificates_def Let_def)

end
