(* ===== verification/Program.thy ===== *)
theory Program
  imports Commands_Facts Server_Store
begin

text \<open>
  main.cpp: the program from its command line to the wait for its end, composed of the options, the components, the server and the command
  service.

  \<open>program_end\<close> is how \<^verbatim>\<open>main\<close> gets there: it has returned a code, or it calls \<^verbatim>\<open>await_stop\<close>, and \<open>sys_run\<close> goes on.  \<open>senv\<close> and \<open>seed\<close> are what the
  server store is made with.
\<close>

datatype program_end = Exited nat | Awaiting sys

text \<open>Leaving \<^verbatim>\<open>main\<close> destroys the server.\<close>

definition leave_main :: "nat \<Rightarrow> server \<Rightarrow> error_state failure + program_end" where
  "leave_main code s = map_sum id (\<lambda>_. Exited code) (fst (server_destroy s))"

text \<open>The \<^verbatim>\<open>try\<close> around \<^verbatim>\<open>main\<close>: an exception, or the error of \<^verbatim>\<open>start\<close>, is printed.\<close>

definition failed_main :: "error_state failure \<Rightarrow> server \<Rightarrow> error_state failure + program_end" where
  "failed_main e s = (case e of Error _ \<Rightarrow> leave_main 1 s | Exception _ \<Rightarrow> leave_main 1 s | _ \<Rightarrow> Inl e)"

definition new_console :: "text_stream \<Rightarrow> server \<Rightarrow> console" where
  "new_console input s = \<lparr>tc_input = input, tc_server = s,
     tc_http = snd (attach Http_any_request (map_prod disable_h2c id) interceptor_service_new), tc_output = []\<rparr>"

definition run_server :: "nat \<Rightarrow> acceptor_env \<Rightarrow> flow \<Rightarrow> console_env \<Rightarrow> text_stream \<Rightarrow> server \<Rightarrow> (error_state failure + program_end) option" where
  "run_server fuel aenv w cenv input s0 = (case server_start aenv w s0 of
     (Inl e, s) \<Rightarrow> Some (failed_main e s)
   | (Inr _, s) \<Rightarrow>
       if \<not> o_run_silent (sv_options s) \<and> o_run_interactive (sv_options s)
       then (case run_commands fuel cenv (new_console input s) of
           None \<Rightarrow> None
         | Some (Inl e, c) \<Rightarrow> Some (failed_main e (tc_server c))
         | Some (Inr _, c) \<Rightarrow> Some (Inr (Awaiting (main_at_await (tc_server c)))))
       else if \<not> o_run_silent (sv_options s) \<and> o_run_logs (sv_options s) then Some (Inr (Awaiting (main_at_await (enable_logs s))))
       else Some (Inr (Awaiting (main_at_await s))))"

definition main_program :: "nat \<Rightarrow> option_env \<Rightarrow> string list \<Rightarrow> options \<Rightarrow> (string \<Rightarrow> bool) \<Rightarrow> ('x, 'k) store_env \<Rightarrow> u64 option \<Rightarrow> acceptor_env \<Rightarrow> flow
    \<Rightarrow> console_env \<Rightarrow> text_stream \<Rightarrow> (error_state failure + program_end) option" where
  "main_program fuel env argv garbage good senv seed aenv w cenv input = (case parse_cmdline env argv (factory_new garbage) of
     Inl (Exception e) \<Rightarrow> Some (Inr (Exited 1))
   | Inl Diverges \<Rightarrow> Some (Inl Diverges)
   | Inl _ \<Rightarrow> Some (Inl Undefined)
   | Inr (Cl_exit code text) \<Rightarrow> Some (Inr (Exited code))
   | Inr (Cl_options f) \<Rightarrow> (case server_new good (map_sum id num_certificates (store_create senv seed)) (of_options f) of
         Inl (Exception e) \<Rightarrow> Some (Inr (Exited 1))
       | Inl e \<Rightarrow> Some (Inl e)
       | Inr s0 \<Rightarrow> run_server fuel aenv w cenv input s0))"

section \<open>Facts\<close>

lemma exit_code: "parse_cmdline env argv f = Inr (Cl_exit code text) \<Longrightarrow> code \<le> 1"
  by (auto simp: parse_cmdline_def Let_def rbind_eq_Inr split: list.splits prod.splits sum.splits failure.splits if_splits)

lemma server_new_usable:
  assumes "usable opts" "store \<noteq> Inl Undefined" "store \<noteq> Inl Diverges"
  shows "(\<exists>s0. server_new good store opts = Inr s0) \<or> server_new good store opts = Inl (Exception Bad_result_access)
    \<or> (\<exists>e. server_new good store opts = Inl (Exception e))"
  using assms by (auto simp: server_new_def rbind_def split: sum.split failure.split)

lemma leave_main_code: "shutdown_ok s \<Longrightarrow> leave_main code s = Inr (Exited code)"
proof -
  assume "shutdown_ok s"
  then have "shutdown_ok (signal_stop s)" by (simp add: signal_stop_def shutdown_ok_frame)
  from server_cleanup_down[OF this] show ?thesis by (auto simp: leave_main_def server_destroy_def server_stop_def sbind_def)
qed

text \<open>Starting never runs into undefined behaviour on a pool with a context.\<close>

lemma start_failure:
  assumes "pool_ready (sv_pool s)" "server_start env w s = (Inl e, s1)"
  shows "(\<exists>x. e = Error x) \<or> (\<exists>x. e = Exception x)"
proof -
  have ctx: "\<exists>r p1. get_io_context p = (Inr r, p1) \<and> pool_ready p1" if "pool_ready p" for p
    using get_io_context_next[OF that] pool_ready_next[OF that] by simp
  obtain r1 p1 where 1: "get_io_context (sv_pool s) = (Inr r1, p1)" "pool_ready p1" using ctx[OF assms(1)] by blast
  obtain r2 p2 where 2: "get_io_context p1 = (Inr r2, p2)" "pool_ready p2" using ctx[OF 1(2)] by blast
  obtain r3 p3 where 3: "get_io_context p2 = (Inr r3, p3)" using ctx[OF 2(2)] by blast
  have "acceptor_initialize env (sv_options s) = Inr () \<or> (\<exists>x. acceptor_initialize env (sv_options s) = Inl (Error x))
      \<or> (\<exists>x. acceptor_initialize env (sv_options s) = Inl (Exception x))"
    by (simp add: acceptor_initialize_def)
  with 1 2 3 assms(2) show ?thesis
    by (auto simp: server_start_def sbind_def on_pool_def acceptor_create_def acceptor_start_def split: if_splits)
qed

text \<open>\<^verbatim>\<open>await_stop\<close> on a server in order.\<close>

lemma await_ok: "shutdown_ok s \<Longrightarrow> sys_ok (main_at_await s)"
  by (simp add: sys_ok_def main_at_await_def)

definition ends_well :: "program_end \<Rightarrow> bool" where
  "ends_well out \<longleftrightarrow> (case out of Exited code \<Rightarrow> code \<le> 1 | Awaiting y \<Rightarrow> sys_ok y)"

lemma run_server_ends:
  assumes "server_new good store opts = Inr s0" "env_ok cenv" "stream_ok input"
    and "o_run_interactive opts \<longrightarrow> \<not> o_ssl_passthrough_strict opts"
  shows "\<exists>out. run_server (length (ts_text input) + 2) aenv w cenv input s0 = Some (Inr out) \<and> ends_well out"
proof -
  obtain r s where st: "server_start aenv w s0 = (r, s)" by (cases "server_start aenv w s0")
  have ok: "shutdown_ok s" using start_sys_ok[OF assms(1), of aenv w] st by (simp add: sys_ok_def main_after_start_def)
  show ?thesis
  proof (cases r)
    case (Inl e)
    with start_failure[of s0 aenv w e s] server_new_pool[OF assms(1)] st leave_main_code[OF ok] show ?thesis
      by (auto simp: run_server_def failed_main_def ends_well_def)
  next
    case (Inr u)
    then have st': "server_start aenv w s0 = (Inr (), s)" using st by simp
    have opts: "sv_options s = opts"
      by (rule server_start_Inr[OF st']) (use server_new_pool[OF assms(1)] in simp)
    show ?thesis
    proof (cases "\<not> o_run_silent opts \<and> o_run_interactive opts")
      case True
      have "in_order (tc_server (new_console input s))"
        using started_serving[OF assms(1) st'] assms(4) True by (simp add: new_console_def serving_in_order)
      then obtain c1 where "run_commands (length (ts_text input) + 2) cenv (new_console input s) = Some (Inr (), c1)" "in_order (tc_server c1)"
        using command_loop_ends[of "print (''Use `help` for a list of commands. Use `stop` to stop the server.'' @ [SP, NL, NL]) (new_console input s)" cenv
            "length (ts_text input) + 2" 0] assms(2,3) by (auto simp: run_commands_def new_console_def)
      with True opts st' show ?thesis by (simp add: run_server_def ends_well_def await_ok in_order_def)
    next
      case False
      have "shutdown_ok (enable_logs s)" using ok by (cases "sv_needs_cleanup s") (simp_all add: enable_logs_def shutdown_ok_def server_down_def)
      with False opts st' ok show ?thesis by (auto simp: run_server_def ends_well_def await_ok)
    qed
  qed
qed



end
