(* ===== verification/Spec2Isabelle.thy ===== *)
theory Spec2Isabelle
  imports Segment Message Bytes Http_Parser_Facts Http_Parser_Bounds Connection Interceptors Services Ws_Handshake
    Http_Service_Facts Http_Forwarding Ws_Service_Facts Client_Hello_Facts Server_Store Tunnel_Facts Connection_Manager
    Ssl_Context Tls_Facts Options_Facts Connection_Life Result Any_Invocable Program
begin

text \<open>
  The aether proxy (src/src/aether), a proxy for HTTP, HTTPS and WebSocket connections on Boost.Asio and OpenSSL.

  The acceptor makes a \<^verbatim>\<open>connection_flow\<close> for every client, which holds the client's connection and the one to the server, and gives
  it to the connection manager, which starts a \<^verbatim>\<open>connection_handler\<close> for it or lets it wait.  The handler owns one service
  at a time and begins with the HTTP service; a CONNECT request switches it to the TLS service or to the tunnel, an upgraded request to
  the WebSocket service, and the TLS service to the HTTP service over TLS or to the tunnel.  Every service is a state machine
  driven by the callbacks of Asio; at fixed points it runs the interceptors of the user.

  \<^bold>\<open>How the code is modelled.\<close>  A class is a record of its members and a method is a function on it; a method that starts an asynchronous
  operation leaves in the state what was asked for, and the callback is a function on the library's result.  For every service \<open>X\<close>
  there are the record, one definition for each method with all of its branches, \<open>X_step\<close>, which runs the callback that is waited for, and
  \<open>X_reachable\<close>, the states of a service in any order of callbacks, successful or not.  C++ exceptions, undefined behaviour and loops
  that do not end are values of \<open>failure\<close> (Prelude); an error of the program is \<open>Inl (Error e)\<close>.  Numbers are words of their width, or
  \<open>nat\<close> with the wrap-around written out.  Code outside the repository is a parameter: the records \<open>http_env\<close>, \<open>tls_env\<close>, \<open>tunnel_env\<close>,
  \<open>wsv_env\<close>, \<open>option_env\<close>, \<open>x509_api\<close>, \<open>ssl_lib\<close> and \<open>zlib\<close> hold what Asio, OpenSSL, zlib, the file system, \<^verbatim>\<open>boost::lexical_cast\<close> and the
  interceptors answer, so that the theorems hold for all of their answers.

  \<^bold>\<open>The theories.\<close>

  \<^item> Prelude: failures, the bind operators, find and list lemmas.  Errors: error/ with the error categories, the error state and
    the generated error functions.  Ordered_Maps: \<^verbatim>\<open>std::map\<close> and \<^verbatim>\<open>std::multimap\<close> over a comparator; its locale \<open>key_order\<close> states what a comparator
    promises and is interpreted for both comparators of the program.
  \<^item> Strings, String_Facts, Numbers, Bytes: util/string and util/bytes with the trimming, splitting and number parsing.
  \<^item> Streambuf: util/streambuf on the memory of its vector, with the casts to \<open>int\<close>; the locale \<open>byte_store\<close> is what a queue of bytes promises,
    and the buffer implements it.  Segment: util/buffer_segment, on an abstract state and on this memory; the refinement theorems
    relate the two, and the locale \<open>incremental_reader\<close> shows once that a reader which keeps its promises does not depend on how
    the input is cut.
  \<^item> Http_Types, Url, Cookie, Message: http/message, http/state and http/exchange: data, parsers and printers.  The lemmas are the
    round trips of each and the header operations.
  \<^item> Http_Parser, Http_Parser_Facts, Http_Parser_Bounds: http/http1/http_parser.  Facts: every printed part is read back, composed to the round
    trip of a request.  Bounds: the limit on the body and what the wrap-around does to it.
  \<^item> Connection: connection/ without its manager and tls/openssl/ssl_method: timer, connections, flow, connecting to a host.  Interceptors:
    intercept/ against the list of what is attached.  Services: base_service and connection_handler.  Connection_Manager: the
    manager and the accept loop of acceptor.cpp, with the invariant that accounts for every connection.
  \<^item> Http_Service, Http_Service_Facts, Http_Forwarding: http/http1/http_service; the invariant of the state machine, its progress, and
    parser and service together on a whole request.
  \<^item> Ws_Types, Ws_Handshake, Ws_Extension, Frame_Parser, Ws_Manager, Pipeline, Ws_Service: websocket/.  Frame_Facts: the frames, in both directions;
    Ws_Service_Facts: the invariant of the two loops and what is relayed.
  \<^item> Handshake_Types, Client_Hello: tls/handshake; Client_Hello_Facts: the round trip of a ClientHello.  Certificates, Properties, Server_Store: tls/x509
    and program/properties.  Ssl_Context, Tls_Service: tls/openssl/ssl_context and tls/tls_service; Tls_Facts: the invariant of the service,
    and its composition with the tunnel and with the HTTP service.
  \<^item> Tunnel, Tunnel_Facts: tunnel/; each direction is a channel.
  \<^item> Connection_Life: the handler with all four services.  The locale \<open>connection_service\<close> is what the handler needs of a service, interpreted
    for each of them; the theorem says where a connection can be, through every switch.
  \<^item> Uuid, Uuid_Facts: util/uuid; identifiers, the order on them, and the factory on its clock, its shared state and its file.
  \<^item> Result: util/result.hpp, a sum type on one block of memory with the lifetimes of its objects.  The other theories use the sum.
    Any_Invocable: util/any_invocable.hpp, with the heap on which it keeps its targets.
  \<^item> Server, Server_Facts: the server with its pool of threads, its signal handler and the logging manager; an interleaving of the main
    thread with the handler is a list of steps.  Commands, Commands_Facts: input/, the interactive commands.
    Program: \<^verbatim>\<open>main\<close>, which composes the options, the certificate store, the server and the commands.
  \<^item> Example_Interceptors: interceptors/, the default one and the examples.
  \<^item> Options_Parser, Options: program/; Options_Facts: the command line is read back, and what it leaves is usable.

  \<^bold>\<open>Bounds and loops.\<close>  Every loop of the code is a total function: over the input (parsers), the options, the endpoints or the queue, each with its
  termination proof; a loop of the code that may not end is a branch with the value \<open>Diverges\<close>.  Only the command loop has fuel: two more
  than the length of its input is enough, and on a broken stream none is.  The memory of a buffer is bounded by
  \<open>vector_max\<close>, and the refinement theorems name the bound of 2 GiB that the casts to \<open>int\<close> impose.

  \<^bold>\<open>Not modelled.\<close>  An operation under a mutex is one step, and the callbacks of one flow run one after the other on its strand; threads are
  interleaved only around the start and the stop of the server.  The log streams with their timestamps, and the example that logs every
  event, only print.  The RAII pointers of util/openssl_ptrs.hpp wrap the reference counts of OpenSSL and have no state of the
  program.  What remains are compile-time strings, assertions and two helpers of the options.
\<close>

end
